(* ===== verification/Prelude.thy ===== *)
theory Prelude
  imports Main "HOL-Library.Word" "HOL-Library.List_Lexorder" "HOL-Library.Code_Target_Nat"
begin

text \<open>
  Shared vocabulary of the development.

  \<^item> The machine types of the sources: \<open>u8\<close>, \<open>u16\<close>, \<open>u64\<close> as words of that width; \<open>usize\<close>
    values (lengths, cursors, counts) as \<open>nat\<close> with the 64-bit bound written out where the
    sources use \<open>checked_add\<close>.
  \<^item> Rust's \<open>Result<T, E>\<close> as \<open>'e + 'a\<close> with \<open>and_then\<close> for the \<open>?\<close> operator, \<open>map_err\<close> for
    its \<open>From\<close> conversions and \<open>ensure\<close> for guarded early returns.
  \<^item> The parts of the standard library the sources use on byte slices: checked indexing
    (\<open>slice_get\<close>, \<open>slice_range\<close>), \<open>to_be_bytes\<close> and \<open>from_be_bytes\<close>, the strict order test over
    \<open>windows(2)\<close>, \<open>binary_search\<close> on sorted vectors.
  \<^item> The lemma collections \<open>result_simps\<close> (evaluation and inversion of results) and
    \<open>slice_simps\<close> (composition of slices), which carry the proofs of the components.
\<close>

unbundle bit_operations_syntax

named_theorems result_simps "evaluation and inversion of result-typed computations"
named_theorems codec_simps "encoder runs as concatenations of encoded items"
named_theorems slice_simps "facts about checked slices"

type_synonym u8 = "8 word"
type_synonym u16 = "16 word"
type_synonym u64 = "64 word"
type_synonym bytes = "u8 list"

section \<open>Results\<close>

definition and_then :: "'e + 'a \<Rightarrow> ('a \<Rightarrow> 'e + 'b) \<Rightarrow> 'e + 'b" where
  "and_then r f = (case r of Inl e \<Rightarrow> Inl e | Inr x \<Rightarrow> f x)"

definition map_err :: "('d \<Rightarrow> 'e) \<Rightarrow> 'd + 'a \<Rightarrow> 'e + 'a" where
  "map_err g r = (case r of Inl e \<Rightarrow> Inl (g e) | Inr x \<Rightarrow> Inr x)"

definition ensure :: "bool \<Rightarrow> 'e \<Rightarrow> 'e + unit" where
  "ensure b e = (if b then Inr () else Inl e)"

definition ok_or :: "'e \<Rightarrow> 'a option \<Rightarrow> 'e + 'a" where
  "ok_or e v = (case v of None \<Rightarrow> Inl e | Some x \<Rightarrow> Inr x)"

definition is_ok :: "'e + 'a \<Rightarrow> bool" where
  "is_ok r = (case r of Inl _ \<Rightarrow> False | Inr _ \<Rightarrow> True)"

lemma and_then_simps [simp]:
  "and_then (Inl e) f = Inl e"
  "and_then (Inr x) f = f x"
  by (simp_all add: and_then_def)

lemma map_err_simps [simp]:
  "map_err g (Inl e) = Inl (g e)"
  "map_err g (Inr x) = Inr x"
  by (simp_all add: map_err_def)

lemma ok_or_simps [simp]:
  "ok_or e None = Inl e"
  "ok_or e (Some x) = Inr x"
  by (simp_all add: ok_or_def)

lemma is_ok_simps [simp]:
  "is_ok (Inl e) = False"
  "is_ok (Inr x) = True"
  by (simp_all add: is_ok_def)

lemma ensure_simps [simp]:
  "ensure True e = Inr ()"
  "ensure False e = Inl e"
  by (simp_all add: ensure_def)

lemma and_then_Inr [result_simps]: "and_then r f = Inr y \<longleftrightarrow> (\<exists>x. r = Inr x \<and> f x = Inr y)"
  by (cases r) auto

lemma map_err_Inr [result_simps]: "map_err g r = Inr y \<longleftrightarrow> r = Inr y"
  by (cases r) auto

lemma ensure_Inr [result_simps]: "ensure b e = Inr u \<longleftrightarrow> b"
  by (simp add: ensure_def)

lemma ok_or_Inr [result_simps]: "ok_or e v = Inr x \<longleftrightarrow> v = Some x"
  by (cases v) auto

lemma is_ok_iff [result_simps]: "is_ok r \<longleftrightarrow> (\<exists>x. r = Inr x)"
  by (cases r) auto

section \<open>Operations on a state\<close>

text \<open>An operation reads and updates a state and returns a result: a failed operation keeps what it has
  written so far, as the code's early return does.\<close>

type_synonym ('s, 'e, 'r) op = "'s \<Rightarrow> ('e + 'r) \<times> 's"

definition then_do :: "('s, 'e, 'r) op \<Rightarrow> ('r \<Rightarrow> ('s, 'e, 'q) op) \<Rightarrow> ('s, 'e, 'q) op" where
  "then_do m f d = (case m d of (Inl e, d) \<Rightarrow> (Inl e, d) | (Inr x, d) \<Rightarrow> f x d)"

definition pure :: "'e + 'r \<Rightarrow> ('s, 'e, 'r) op" where
  "pure r d = (r, d)"

text \<open>\<open>triple P m Q E\<close>: from a state with \<open>P\<close> the operation ends with \<open>Q\<close> when it succeeds and with \<open>E\<close> when it fails.\<close>

definition triple :: "('s \<Rightarrow> bool) \<Rightarrow> ('s, 'e, 'r) op \<Rightarrow> ('r \<Rightarrow> 's \<Rightarrow> bool) \<Rightarrow> ('s \<Rightarrow> bool) \<Rightarrow> bool" where
  "triple P m Q E \<longleftrightarrow> (\<forall>d. P d \<longrightarrow> (case m d of (Inl e, d') \<Rightarrow> E d' | (Inr x, d') \<Rightarrow> Q x d'))"

lemma triple_then:
  assumes "triple P m R E" and "\<And>x. triple (R x) (f x) Q E"
  shows "triple P (then_do m f) Q E"
  using assms by (fastforce simp: triple_def then_do_def split: prod.splits sum.splits)

lemma triple_pureI:
  assumes "\<And>x d. r = Inr x \<Longrightarrow> P d \<Longrightarrow> Q x d" and "\<And>d. P d \<Longrightarrow> E d"
  shows "triple P (pure r) Q E"
  using assms by (cases r) (auto simp: triple_def pure_def)

lemma triple_pure_then:
  assumes "\<And>d. P d \<Longrightarrow> E d" and "\<And>x. r = Inr x \<Longrightarrow> triple P (f x) Q E"
  shows "triple P (then_do (pure r) f) Q E"
  using assms by (cases r) (auto simp: triple_def then_do_def pure_def)

lemma triple_weaken:
  assumes "triple P m Q E" and "\<And>d. P' d \<Longrightarrow> P d" and "\<And>x d. Q x d \<Longrightarrow> Q' x d" and "\<And>d. E d \<Longrightarrow> E' d"
  shows "triple P' m Q' E'"
  using assms by (fastforce simp: triple_def split: prod.splits sum.splits)

lemma triple_case_prod: "(\<And>a b. triple (P (a, b)) (f a b) Q E) \<Longrightarrow> triple (P x) (case x of (a, b) \<Rightarrow> f a b) Q E"
  by (cases x) simp

lemma triple_Inr: "triple P m Q E \<Longrightarrow> P d \<Longrightarrow> m d = (Inr x, d') \<Longrightarrow> Q x d'"
  by (fastforce simp: triple_def)

lemma triple_final:
  assumes "triple P m (\<lambda>_. J) J" and "P d"
  shows "J (snd (m d))"
proof -
  obtain r d' where "m d = (r, d')" by fastforce
  with assms show ?thesis by (cases r) (fastforce simp: triple_def)+
qed

lemma then_do_Inr [result_simps]: "then_do m f d = (Inr y, d') \<longleftrightarrow> (\<exists>x d1. m d = (Inr x, d1) \<and> f x d1 = (Inr y, d'))"
  by (auto simp: then_do_def split: prod.splits sum.splits)

lemma pure_eq [result_simps]: "pure r d = (r', d') \<longleftrightarrow> r = r' \<and> d' = d"
  by (auto simp: pure_def)

section \<open>Checked slices\<close>

text \<open>\<open>bytes.get(i).copied()\<close> and \<open>bytes.get(a..b)\<close>.\<close>

definition slice_get :: "'a list \<Rightarrow> nat \<Rightarrow> 'a option" where
  "slice_get xs i = (if i < length xs then Some (xs ! i) else None)"

definition slice_range :: "'a list \<Rightarrow> nat \<Rightarrow> nat \<Rightarrow> 'a list option" where
  "slice_range xs a b = (if a \<le> b \<and> b \<le> length xs then Some (take (b - a) (drop a xs)) else None)"

text \<open>\<open>usize::checked_add\<close> on a 64-bit target.\<close>

definition usize_checked_add :: "nat \<Rightarrow> nat \<Rightarrow> nat option" where
  "usize_checked_add a b = (if a + b < 2 ^ 64 then Some (a + b) else None)"

lemma slice_get_range: "slice_get xs i = Some x \<longleftrightarrow> slice_range xs i (Suc i) = Some [x]"
proof (cases "i < length xs")
  case True
  then have "take (Suc 0) (drop i xs) = [xs ! i]"
    by (simp add: take_Suc_conv_app_nth)
  with True show ?thesis by (auto simp: slice_get_def slice_range_def)
next
  case False
  then show ?thesis by (simp add: slice_get_def slice_range_def)
qed

lemma slice_range_append [slice_simps]:
  assumes "slice_range xs a b = Some u" and "slice_range xs b c = Some v"
  shows "slice_range xs a c = Some (u @ v)"
proof -
  from assms have ab: "a \<le> b" and bc: "b \<le> c" and c: "c \<le> length xs"
    and u: "u = take (b - a) (drop a xs)" and v: "v = take (c - b) (drop b xs)"
    by (auto simp: slice_range_def split: if_splits)
  have "take (c - a) (drop a xs) = take ((b - a) + (c - b)) (drop a xs)"
    using ab bc by simp
  also have "\<dots> = u @ v"
    unfolding take_add u v using ab by simp
  finally show ?thesis using ab bc c by (simp add: slice_range_def)
qed

lemma slice_range_appendD:
  assumes "slice_range xs a c = Some (u @ v)"
  shows "slice_range xs a (a + length u) = Some u"
    and "slice_range xs (a + length u) c = Some v"
proof -
  from assms have ac: "a \<le> c" "c \<le> length xs" and uv: "u @ v = take (c - a) (drop a xs)"
    by (auto simp: slice_range_def split: if_splits)
  from arg_cong [OF uv, of length] ac have len: "length u + length v = c - a" by simp
  have "u = take (length u) (u @ v)" by simp
  also have "\<dots> = take (length u) (drop a xs)" unfolding uv using len by (simp add: min_def)
  finally have u: "u = take (length u) (drop a xs)" .
  have lv: "c - (a + length u) = length v" using ac len by simp
  have "v = drop (length u) (u @ v)" by simp
  also have "\<dots> = take (length v) (drop (a + length u) xs)"
    unfolding uv using lv by (simp add: drop_take add.commute)
  finally have v: "v = take (length v) (drop (a + length u) xs)" .
  show "slice_range xs a (a + length u) = Some u"
    using ac len u by (simp add: slice_range_def)
  from lv show "slice_range xs (a + length u) c = Some v"
    using ac len v by (simp add: slice_range_def)
qed

lemma slice_range_bounds:
  "slice_range xs a b = Some u \<Longrightarrow> a \<le> b \<and> b \<le> length xs \<and> b = a + length u"
  by (auto simp: slice_range_def split: if_splits)

lemma slice_range_full: "slice_range xs 0 (length xs) = Some xs"
  by (simp add: slice_range_def)

lemma slice_range_fullD: "slice_range xs 0 (length xs) = Some u \<Longrightarrow> u = xs"
  by (simp add: slice_range_def)

lemma slice_range_empty: "a \<le> length xs \<Longrightarrow> slice_range xs a a = Some []"
  by (simp add: slice_range_def)

lemma slice_range_mid: "slice_range (p @ u @ s) (length p) (length p + length u) = Some u"
  by (simp add: slice_range_def)

section \<open>Fixed-width integers as big-endian bytes\<close>

text \<open>\<open>uN::to_be_bytes\<close> for an \<open>n\<close>-byte integer, and \<open>uN::from_be_bytes\<close>, on the value read as
  a natural number.\<close>

fun to_be_bytes :: "nat \<Rightarrow> nat \<Rightarrow> bytes" where
  "to_be_bytes 0 v = []"
| "to_be_bytes (Suc n) v = word_of_nat (v div 256 ^ n mod 256) # to_be_bytes n v"

fun from_be_bytes :: "bytes \<Rightarrow> nat" where
  "from_be_bytes [] = 0"
| "from_be_bytes (b # bs) = unat b * 256 ^ length bs + from_be_bytes bs"

lemma length_to_be_bytes [simp]: "length (to_be_bytes n v) = n"
  by (induction n) auto

lemma unat_u8_less: "unat (b :: u8) < 256"
  using unsigned_less [of b, where ?'a = nat] by simp

lemma word_of_nat_unat_u8: "word_of_nat (unat (b :: u8)) = b"
  by simp

lemma from_be_bytes_less: "from_be_bytes bs < 256 ^ length bs"
proof (induction bs)
  case Nil
  then show ?case by simp
next
  case (Cons b bs)
  have "unat b \<le> 255" using unat_u8_less [of b] by simp
  then have "unat b * 256 ^ length bs \<le> 255 * 256 ^ length bs" by (rule mult_le_mono1)
  with Cons.IH show ?case
    by (simp only: from_be_bytes.simps length_Cons power_Suc)
qed

lemma from_to_be_bytes: "from_be_bytes (to_be_bytes n v) = v mod 256 ^ n"
proof (induction n)
  case 0
  then show ?case by simp
next
  case (Suc n)
  have b: "unat (word_of_nat (v div 256 ^ n mod 256) :: u8) = v div 256 ^ n mod 256"
    by (simp add: unat_of_nat)
  show ?case
    using mod_mult2_eq [of v "256 ^ n" 256] Suc.IH
    by (simp add: b mult.commute add.commute)
qed

lemma to_from_be_bytes: "length bs = n \<Longrightarrow> to_be_bytes n (k * 256 ^ n + from_be_bytes bs) = bs"
proof (induction bs arbitrary: n k)
  case Nil
  then show ?case by simp
next
  case (Cons b bs)
  then obtain m where n: "n = Suc m" and m: "length bs = m" by auto
  have eq: "k * 256 ^ n + from_be_bytes (b # bs) = (k * 256 + unat b) * 256 ^ m + from_be_bytes bs"
    using n m by (simp add: algebra_simps)
  have "((k * 256 + unat b) * 256 ^ m + from_be_bytes bs) div 256 ^ m = k * 256 + unat b"
    using from_be_bytes_less [of bs] m by simp
  then have "((k * 256 + unat b) * 256 ^ m + from_be_bytes bs) div 256 ^ m mod 256 = unat b"
    using unat_u8_less [of b] by simp
  moreover have "to_be_bytes m ((k * 256 + unat b) * 256 ^ m + from_be_bytes bs) = bs"
    using Cons.IH m by blast
  ultimately show ?case
    unfolding eq unfolding n to_be_bytes.simps by (simp only: word_of_nat_unat_u8)
qed

lemma to_from_be_bytes_eq: "to_be_bytes (length bs) (from_be_bytes bs) = bs"
  using to_from_be_bytes [of bs "length bs" 0] by simp

section \<open>Checked and saturating arithmetic\<close>

definition u64_checked_add :: "u64 \<Rightarrow> u64 \<Rightarrow> u64 option" where
  "u64_checked_add a b = (if unat a + unat b < 2 ^ 64 then Some (a + b) else None)"

definition u64_checked_sub :: "u64 \<Rightarrow> u64 \<Rightarrow> u64 option" where
  "u64_checked_sub a b = (if b \<le> a then Some (a - b) else None)"

definition u64_saturating_add :: "u64 \<Rightarrow> u64 \<Rightarrow> u64" where
  "u64_saturating_add a b = (if unat a + unat b < 2 ^ 64 then a + b else - 1)"

definition u64_saturating_sub :: "u64 \<Rightarrow> u64 \<Rightarrow> u64" where
  "u64_saturating_sub a b = (if b \<le> a then a - b else 0)"

lemma unat_add_u64: "unat (a :: u64) + unat b < 2 ^ 64 \<Longrightarrow> unat (a + b) = unat a + unat b"
  by (simp add: unat_word_ariths)

lemma unat_sub_u64: "b \<le> a \<Longrightarrow> unat (a - b :: u64) = unat a - unat b"
  by (rule unat_sub)

lemma unat_saturating_sub: "unat (u64_saturating_sub a b) = unat a - unat b"
  by (auto simp: u64_saturating_sub_def unat_sub_u64 word_le_nat_alt)

lemma unat_saturating_add: "unat (u64_saturating_add a b) = min (unat a + unat b) (2 ^ 64 - 1)"
proof (cases "unat a + unat b < 2 ^ 64")
  case True
  then show ?thesis by (simp add: u64_saturating_add_def unat_add_u64)
next
  case False
  have "unat (- 1 :: u64) = 2 ^ 64 - 1" by (simp add: unsigned_minus_1_eq_mask mask_eq_exp_minus_1)
  with False show ?thesis by (simp add: u64_saturating_add_def)
qed

section \<open>Strict order of vectors\<close>

text \<open>\<open>values.windows(2).any(|pair| pair[0] >= pair[1])\<close>, negated: every neighbouring pair is
  strictly increasing.\<close>

fun windows2_any :: "('a \<Rightarrow> 'a \<Rightarrow> bool) \<Rightarrow> 'a list \<Rightarrow> bool" where
  "windows2_any p (x # y # zs) = (p x y \<or> windows2_any p (y # zs))"
| "windows2_any p _ = False"

lemma windows2_any_sorted:
  "\<not> windows2_any (\<lambda>x y. f x \<ge> f y) xs \<longleftrightarrow> sorted_wrt (\<lambda>x y. f x < (f y :: 'b :: linorder)) xs"
proof (induction "\<lambda>x y. f x \<ge> f y" xs rule: windows2_any.induct)
  case (1 x y zs)
  show ?case
  proof
    assume "\<not> windows2_any (\<lambda>x y. f x \<ge> f y) (x # y # zs)"
    then have xy: "f x < f y" and s: "sorted_wrt (\<lambda>x y. f x < f y) (y # zs)"
      using 1 by (auto simp: not_le)
    then show "sorted_wrt (\<lambda>x y. f x < f y) (x # y # zs)"
      by (auto intro: less_trans)
  next
    assume "sorted_wrt (\<lambda>x y. f x < f y) (x # y # zs)"
    then show "\<not> windows2_any (\<lambda>x y. f x \<ge> f y) (x # y # zs)"
      using 1 by (auto simp: not_le)
  qed
qed auto

lemma sorted_wrt_less_distinct: "sorted_wrt (\<lambda>x y. f x < (f y :: 'b :: linorder)) xs \<Longrightarrow> distinct (map f xs)"
  by (induction xs) auto

text \<open>\<open>for pair in xs.windows(2) { check(pair[0], pair[1])?; }\<close>, and the check of the sources that
  distinguishes an equal from a descending pair.\<close>

fun windows2_each :: "('a \<Rightarrow> 'a \<Rightarrow> 'e + unit) \<Rightarrow> 'a list \<Rightarrow> 'e + unit" where
  "windows2_each check (x # y # zs) = and_then (check x y) (\<lambda>_. windows2_each check (y # zs))"
| "windows2_each check _ = Inr ()"

definition ascending :: "('a \<Rightarrow> 'b :: linorder) \<Rightarrow> ('a \<Rightarrow> 'e) \<Rightarrow> 'e \<Rightarrow> 'a \<Rightarrow> 'a \<Rightarrow> 'e + unit" where
  "ascending f equal_error greater_error x y =
     (if f x < f y then Inr () else if f x = f y then Inl (equal_error x) else Inl greater_error)"

lemma windows2_each_any: "windows2_each check xs = Inr u \<longleftrightarrow> \<not> windows2_any (\<lambda>x y. check x y \<noteq> Inr ()) xs"
  by (induction "\<lambda>x y. check x y \<noteq> Inr ()" xs rule: windows2_any.induct) (auto simp: result_simps)

lemma windows2_each_ascending [result_simps]:
  "windows2_each (ascending f a b) xs = Inr u \<longleftrightarrow> sorted_wrt (\<lambda>x y. f x < f y) xs"
proof -
  have "(\<lambda>x y. ascending f a b x y \<noteq> Inr ()) = (\<lambda>x y. f x \<ge> f y)"
    by (auto simp: ascending_def fun_eq_iff)
  then show ?thesis by (simp add: windows2_each_any windows2_any_sorted)
qed

section \<open>Loops that stop at the first error\<close>

text \<open>\<open>for x in xs { check(x)?; }\<close> and \<open>for x in xs { out.extend_from_slice(&encode(x)?); }\<close>.\<close>

primrec for_each :: "('a \<Rightarrow> 'e + unit) \<Rightarrow> 'a list \<Rightarrow> 'e + unit" where
  "for_each check [] = Inr ()"
| "for_each check (x # xs) = and_then (check x) (\<lambda>_. for_each check xs)"

primrec extend_each :: "('a \<Rightarrow> 'e + bytes) \<Rightarrow> bytes \<Rightarrow> 'a list \<Rightarrow> 'e + bytes" where
  "extend_each encode out [] = Inr out"
| "extend_each encode out (x # xs) = and_then (encode x) (\<lambda>encoded. extend_each encode (out @ encoded) xs)"

lemma for_each_Inr [result_simps]: "for_each check xs = Inr u \<longleftrightarrow> (\<forall>x \<in> set xs. check x = Inr ())"
  by (induction xs) (auto simp: result_simps)

lemma extend_each_Inr:
  assumes "\<And>x r. x \<in> set xs \<Longrightarrow> encode x = Inr r \<longleftrightarrow> ok x \<and> r = enc x"
  shows "extend_each encode out xs = Inr r \<longleftrightarrow> (\<forall>x \<in> set xs. ok x) \<and> r = out @ concat (map enc xs)"
  using assms by (induction xs arbitrary: out) (auto simp: result_simps)

text \<open>\<open>for x in xs { values.push(convert(x)?); }\<close>.\<close>

primrec try_map :: "('a \<Rightarrow> 'e + 'b) \<Rightarrow> 'a list \<Rightarrow> 'e + 'b list" where
  "try_map convert [] = Inr []"
| "try_map convert (x # xs) = and_then (convert x) (\<lambda>y. and_then (try_map convert xs) (\<lambda>ys. Inr (y # ys)))"

lemma try_map_Inr:
  assumes "\<And>x r. x \<in> set xs \<Longrightarrow> convert x = Inr r \<longleftrightarrow> ok x \<and> r = f x"
  shows "try_map convert xs = Inr ys \<longleftrightarrow> (\<forall>x \<in> set xs. ok x) \<and> ys = map f xs"
  using assms by (induction xs arbitrary: ys) (auto simp: result_simps)

lemma try_map_all2: "try_map f xs = Inr ys \<longleftrightarrow> list_all2 (\<lambda>x y. f x = Inr y) xs ys"
  by (induction xs arbitrary: ys) (auto simp: result_simps list_all2_Cons1)

lemma try_map_mem: "try_map f xs = Inr ys \<Longrightarrow> x \<in> set xs \<Longrightarrow> \<exists>y. f x = Inr y"
  by (induction xs arbitrary: ys) (auto simp: result_simps)

lemma try_map_ok: "(\<And>x. x \<in> set xs \<Longrightarrow> is_ok (f x)) \<Longrightarrow> \<exists>ys. try_map f xs = Inr ys"
  by (induction xs) (auto simp: is_ok_iff result_simps)

section \<open>Binary search\<close>

text \<open>\<open>slice::binary_search\<close>: the index it finds, on the part \<open>lo..hi\<close> of the slice.\<close>

function binary_search :: "'a :: linorder list \<Rightarrow> 'a \<Rightarrow> nat \<Rightarrow> nat \<Rightarrow> nat option" where
  "binary_search xs x lo hi =
     (if hi \<le> lo then None
      else let mid = lo + (hi - lo) div 2 in
        if xs ! mid = x then Some mid
        else if xs ! mid < x then binary_search xs x (mid + 1) hi
        else binary_search xs x lo mid)"
  by pat_completeness auto
termination by (relation "measure (\<lambda>(xs, x, lo, hi). hi - lo)") auto

declare binary_search.simps [simp del]

lemma binary_search_spec:
  assumes "sorted_wrt (<) xs" and "hi \<le> length xs"
  shows "(\<exists>i. binary_search xs x lo hi = Some i) \<longleftrightarrow> (\<exists>i. lo \<le> i \<and> i < hi \<and> xs ! i = x)"
  using assms
proof (induction xs x lo hi rule: binary_search.induct)
  case (1 xs x lo hi)
  show ?case
  proof (cases "hi \<le> lo")
    case True
    then show ?thesis by (simp add: binary_search.simps)
  next
    case False
    define mid where "mid = lo + (hi - lo) div 2"
    have mid: "lo \<le> mid" "mid < hi" using False by (auto simp: mid_def)
    have step: "binary_search xs x lo hi = (if xs ! mid = x then Some mid
        else if xs ! mid < x then binary_search xs x (mid + 1) hi else binary_search xs x lo mid)"
      by (subst binary_search.simps) (simp only: False if_False Let_def mid_def)
    have lt: "xs ! i < xs ! j" if "i < j" "j < hi" for i j
      using that "1.prems" sorted_wrt_nth_less [of "(<)" xs i j] by simp
    consider "xs ! mid = x" | "xs ! mid < x" | "x < xs ! mid" by fastforce
    then show ?thesis
    proof cases
      case 1
      then have "binary_search xs x lo hi = Some mid"
        unfolding step by auto
      with 1 mid show ?thesis by blast
    next
      case 2
      then have e: "binary_search xs x lo hi = binary_search xs x (mid + 1) hi"
        unfolding step by auto
      have "(\<exists>i. binary_search xs x (mid + 1) hi = Some i) \<longleftrightarrow> (\<exists>i. mid + 1 \<le> i \<and> i < hi \<and> xs ! i = x)"
        using "1.IH"(1) [OF False mid_def] 2 "1.prems" by auto
      moreover have "mid + 1 \<le> i" if "i < hi" "xs ! i = x" for i
        using lt [of i mid] 2 mid that by (cases i mid rule: linorder_cases) (auto dest: less_asym)
      ultimately show ?thesis using e mid by (metis add_leD1 order_trans)
    next
      case 3
      then have e: "binary_search xs x lo hi = binary_search xs x lo mid"
        unfolding step by auto
      have "(\<exists>i. binary_search xs x lo mid = Some i) \<longleftrightarrow> (\<exists>i. lo \<le> i \<and> i < mid \<and> xs ! i = x)"
        using "1.IH"(2) [OF False mid_def] 3 "1.prems" mid by auto
      moreover have "i < mid" if "i < hi" "xs ! i = x" for i
        using lt [of mid i] 3 that by (metis linorder_neqE_nat order.asym order_less_irrefl)
      ultimately show ?thesis using e mid by (metis order_less_trans)
    qed
  qed
qed

definition binary_search_is_ok :: "'a :: linorder list \<Rightarrow> 'a \<Rightarrow> bool" where
  "binary_search_is_ok xs x = (binary_search xs x 0 (length xs) \<noteq> None)"

lemma binary_search_is_ok_iff: "sorted_wrt (<) xs \<Longrightarrow> binary_search_is_ok xs x \<longleftrightarrow> x \<in> set xs"
  using binary_search_spec [of xs "length xs" x 0] by (auto simp: binary_search_is_ok_def in_set_conv_nth)

section \<open>Ed25519\<close>

text \<open>What the sources call of \<open>ed25519_dalek\<close>: whether \<open>VerifyingKey::from_bytes\<close> and
  \<open>Signature::try_from\<close> accept their bytes, and \<open>verify_strict\<close> on key, message and signature. The
  operations of the model take it as an argument.\<close>

record ed25519 =
  key_from_bytes_ok :: "bytes \<Rightarrow> bool"
  signature_try_from_ok :: "bytes \<Rightarrow> bool"
  verify_strict :: "bytes \<Rightarrow> bytes \<Rightarrow> bytes \<Rightarrow> bool"

definition signed_by :: "ed25519 \<Rightarrow> bytes \<Rightarrow> bytes \<Rightarrow> bytes \<Rightarrow> bool" where
  "signed_by ed key message signature \<longleftrightarrow> key_from_bytes_ok ed key \<and> signature_try_from_ok ed signature
     \<and> verify_strict ed key message signature"

section \<open>Text constants\<close>

definition ascii :: "string \<Rightarrow> bytes" where
  "ascii s = map of_char s"

lemma length_ascii [simp]: "length (ascii s) = length s"
  by (simp add: ascii_def)

section \<open>A signature scheme for examples\<close>

text \<open>The signature names the key and the length of the message.\<close>

definition toy_sign :: "bytes \<Rightarrow> bytes \<Rightarrow> bytes" where
  "toy_sign key message = key @ replicate 24 0 @ to_be_bytes 8 (length message)"

definition toy_ed25519 :: ed25519 where
  "toy_ed25519 = \<lparr> key_from_bytes_ok = (\<lambda>k. length k = 32), signature_try_from_ok = (\<lambda>s. length s = 64),
     verify_strict = (\<lambda>k m s. s = toy_sign k m) \<rparr>"

lemma toy_signed [simp]: "signed_by toy_ed25519 k m s \<longleftrightarrow> length k = 32 \<and> s = toy_sign k m"
  by (auto simp: signed_by_def toy_ed25519_def toy_sign_def)

lemma length_toy_sign [simp]: "length (toy_sign k m) = length k + 32"
  by (simp add: toy_sign_def)

end
