(* ===== verification/Canonical_Wire.thy ===== *)
theory Canonical_Wire
  imports Prelude
begin

text \<open>
  The deterministic CBOR profile of \<open>crates/kilogram-protocol/src/canonical_v1.rs\<close>: the head
  writer, the bounded validator of the profile, and the encoders of the acknowledgement event and
  of the synchronisation inventory with their signing preimages.
\<close>

section \<open>Constants and errors\<close>

definition CANONICAL_PROFILE_VERSION :: u64 where
  "CANONICAL_PROFILE_VERSION = 1"

definition ACKNOWLEDGEMENT_PAYLOAD_VARIANT :: u64 where
  "ACKNOWLEDGEMENT_PAYLOAD_VARIANT = 1"

definition CANONICAL_EVENT_SIGNATURE_DOMAIN :: bytes where
  "CANONICAL_EVENT_SIGNATURE_DOMAIN = ascii ''kilogram:event-signature:cbor-v1'' @ [0]"

definition CANONICAL_EVENT_ID_DOMAIN :: bytes where
  "CANONICAL_EVENT_ID_DOMAIN = ascii ''kilogram:event-id:cbor-v1'' @ [0]"

definition CANONICAL_SYNC_INVENTORY_SIGNATURE_DOMAIN :: bytes where
  "CANONICAL_SYNC_INVENTORY_SIGNATURE_DOMAIN
     = ascii ''kilogram:sync-inventory-signature:cbor-v1'' @ [0]"

definition MAX_CANONICAL_DEPTH :: nat where
  "MAX_CANONICAL_DEPTH = 8"

definition MAX_CANONICAL_ITEMS :: nat where
  "MAX_CANONICAL_ITEMS = 8192"

definition MAX_CANONICAL_BYTE_STRING_BYTES :: nat where
  "MAX_CANONICAL_BYTE_STRING_BYTES = 8 * 1024 * 1024"

definition MAX_PARENTS :: nat where
  "MAX_PARENTS = 64"

definition MAX_INVENTORY_EVENT_IDS :: nat where
  "MAX_INVENTORY_EVENT_IDS = 4096"

datatype canonical_wire_error =
    TooManyItems string nat nat
  | NonCanonicalOrder string
  | UnexpectedEnd
  | NonMinimalArgument
  | IndefiniteLength
  | ReservedAdditionalInformation u8
  | UnsupportedMajorType u8
  | DepthLimit
  | ItemLimit
  | ByteStringLimit
  | LengthOverflow
  | TrailingData

section \<open>Writer\<close>

definition prefixed :: "bytes \<Rightarrow> bytes \<Rightarrow> bytes" where
  "prefixed domain encoded = domain @ encoded"

definition push_head :: "bytes \<Rightarrow> u8 \<Rightarrow> u64 \<Rightarrow> bytes" where
  "push_head output major_type argument =
     (let major = push_bit 5 major_type; a = unat argument in
      if a \<le> 23 then output @ [major OR ucast argument]
      else if a \<le> 255 then output @ [major OR 24, ucast argument]
      else if a \<le> 65535 then output @ [major OR 25] @ to_be_bytes 2 a
      else if a \<le> 4294967295 then output @ [major OR 26] @ to_be_bytes 4 a
      else output @ [major OR 27] @ to_be_bytes 8 a)"

definition push_unsigned :: "bytes \<Rightarrow> u64 \<Rightarrow> bytes" where
  "push_unsigned output value = push_head output 0 value"

definition push_bytes :: "bytes \<Rightarrow> bytes \<Rightarrow> bytes" where
  "push_bytes output value = push_head output 2 (word_of_nat (length value)) @ value"

definition push_array_header :: "bytes \<Rightarrow> u64 \<Rightarrow> bytes" where
  "push_array_header output len = push_head output 4 len"

text \<open>A \<open>for\<close> loop that pushes every identifier of a slice.\<close>

fun push_each :: "bytes \<Rightarrow> bytes list \<Rightarrow> bytes" where
  "push_each output [] = output"
| "push_each output (x # xs) = push_each (push_bytes output x) xs"

definition validate_ordered_ids :: "string \<Rightarrow> bytes list \<Rightarrow> nat \<Rightarrow> canonical_wire_error + unit" where
  "validate_ordered_ids field values maximum =
     (if length values > maximum then Inl (TooManyItems field (length values) maximum)
      else if windows2_any (\<lambda>a b. a \<ge> b) values then Inl (NonCanonicalOrder field)
      else Inr ())"

section \<open>Acknowledgement events and synchronisation inventories\<close>

text \<open>The borrowed content structs of the source. Their \<open>[u8; 32]\<close> fields are byte lists here;
  \<open>ack_content_wf\<close> and \<open>inventory_content_wf\<close> state the array types.\<close>

record AcknowledgementEventContentV1 =
  ack_conversation_id :: bytes
  ack_author_device_id :: bytes
  ack_author_sequence :: u64
  ack_parents :: "bytes list"
  ack_acknowledged_event_id :: bytes

record SyncInventoryContentV1 =
  inv_conversation_id :: bytes
  inv_requester_device_id :: bytes
  inv_session_binding :: bytes
  inv_event_ids :: "bytes list"

definition encode_acknowledgement_event_content_v1
  :: "AcknowledgementEventContentV1 \<Rightarrow> canonical_wire_error + bytes" where
  "encode_acknowledgement_event_content_v1 content =
     and_then (validate_ordered_ids ''parents'' (ack_parents content) MAX_PARENTS) (\<lambda>_.
     let encoded = push_array_header [] 6;
         encoded = push_unsigned encoded CANONICAL_PROFILE_VERSION;
         encoded = push_bytes encoded (ack_conversation_id content);
         encoded = push_bytes encoded (ack_author_device_id content);
         encoded = push_unsigned encoded (ack_author_sequence content);
         encoded = push_array_header encoded (word_of_nat (length (ack_parents content)));
         encoded = push_each encoded (ack_parents content);
         encoded = push_array_header encoded 2;
         encoded = push_unsigned encoded ACKNOWLEDGEMENT_PAYLOAD_VARIANT;
         encoded = push_bytes encoded (ack_acknowledged_event_id content)
     in Inr encoded)"

definition acknowledgement_event_signing_bytes_v1
  :: "AcknowledgementEventContentV1 \<Rightarrow> canonical_wire_error + bytes" where
  "acknowledgement_event_signing_bytes_v1 content =
     and_then (encode_acknowledgement_event_content_v1 content) (\<lambda>encoded.
     Inr (prefixed CANONICAL_EVENT_SIGNATURE_DOMAIN encoded))"

definition encode_signed_acknowledgement_event_v1
  :: "AcknowledgementEventContentV1 \<Rightarrow> bytes \<Rightarrow> canonical_wire_error + bytes" where
  "encode_signed_acknowledgement_event_v1 content signature =
     and_then (encode_acknowledgement_event_content_v1 content) (\<lambda>content.
     let encoded = push_array_header [] 3;
         encoded = push_unsigned encoded CANONICAL_PROFILE_VERSION;
         encoded = encoded @ content;
         encoded = push_bytes encoded signature
     in Inr encoded)"

text \<open>The hash is the BLAKE3 package; hashing incrementally is hashing the concatenation.\<close>

definition acknowledgement_event_id_v1
  :: "(bytes \<Rightarrow> bytes) \<Rightarrow> AcknowledgementEventContentV1 \<Rightarrow> bytes \<Rightarrow> canonical_wire_error + bytes" where
  "acknowledgement_event_id_v1 blake3 content signature =
     and_then (encode_signed_acknowledgement_event_v1 content signature) (\<lambda>event.
     Inr (blake3 (CANONICAL_EVENT_ID_DOMAIN @ event)))"

definition encode_sync_inventory_content_v1 :: "SyncInventoryContentV1 \<Rightarrow> canonical_wire_error + bytes" where
  "encode_sync_inventory_content_v1 content =
     and_then (validate_ordered_ids ''event_ids'' (inv_event_ids content) MAX_INVENTORY_EVENT_IDS) (\<lambda>_.
     let encoded = push_array_header [] 5;
         encoded = push_unsigned encoded CANONICAL_PROFILE_VERSION;
         encoded = push_bytes encoded (inv_conversation_id content);
         encoded = push_bytes encoded (inv_requester_device_id content);
         encoded = push_bytes encoded (inv_session_binding content);
         encoded = push_array_header encoded (word_of_nat (length (inv_event_ids content)));
         encoded = push_each encoded (inv_event_ids content)
     in Inr encoded)"

definition sync_inventory_signing_bytes_v1 :: "SyncInventoryContentV1 \<Rightarrow> canonical_wire_error + bytes" where
  "sync_inventory_signing_bytes_v1 content =
     and_then (encode_sync_inventory_content_v1 content) (\<lambda>encoded.
     Inr (prefixed CANONICAL_SYNC_INVENTORY_SIGNATURE_DOMAIN encoded))"

definition encode_signed_sync_inventory_v1
  :: "SyncInventoryContentV1 \<Rightarrow> bytes \<Rightarrow> canonical_wire_error + bytes" where
  "encode_signed_sync_inventory_v1 content signature =
     and_then (encode_sync_inventory_content_v1 content) (\<lambda>content.
     let encoded = push_array_header [] 3;
         encoded = push_unsigned encoded CANONICAL_PROFILE_VERSION;
         encoded = encoded @ content;
         encoded = push_bytes encoded signature
     in Inr encoded)"

section \<open>Reader and profile validator\<close>

definition take_byte :: "bytes \<Rightarrow> nat \<Rightarrow> canonical_wire_error + u8 \<times> nat" where
  "take_byte bytes cursor =
     and_then (ok_or UnexpectedEnd (slice_get bytes cursor)) (\<lambda>byte. Inr (byte, cursor + 1))"

definition take_array :: "nat \<Rightarrow> bytes \<Rightarrow> nat \<Rightarrow> canonical_wire_error + bytes \<times> nat" where
  "take_array n bytes cursor =
     and_then (ok_or LengthOverflow (usize_checked_add cursor n)) (\<lambda>end.
     and_then (ok_or UnexpectedEnd (slice_range bytes cursor end)) (\<lambda>value.
     Inr (value, end)))"

text \<open>\<open>usize::try_from\<close> of a \<open>u64\<close> never fails on a 64-bit target.\<close>

definition argument_as_usize :: "u64 \<Rightarrow> canonical_wire_error + nat" where
  "argument_as_usize value = (if unat value < 2 ^ 64 then Inr (unat value) else Inl LengthOverflow)"

definition read_argument :: "bytes \<Rightarrow> nat \<Rightarrow> u8 \<Rightarrow> canonical_wire_error + u64 \<times> nat" where
  "read_argument bytes cursor additional =
     (if unat additional \<le> 23 then Inr (ucast additional, cursor)
      else if additional = 24 then
        and_then (take_byte bytes cursor) (\<lambda>(value, cursor).
        if unat value < 24 then Inl NonMinimalArgument else Inr (ucast value, cursor))
      else if additional = 25 then
        and_then (take_array 2 bytes cursor) (\<lambda>(value, cursor).
        if from_be_bytes value \<le> 255 then Inl NonMinimalArgument
        else Inr (word_of_nat (from_be_bytes value), cursor))
      else if additional = 26 then
        and_then (take_array 4 bytes cursor) (\<lambda>(value, cursor).
        if from_be_bytes value \<le> 65535 then Inl NonMinimalArgument
        else Inr (word_of_nat (from_be_bytes value), cursor))
      else if additional = 27 then
        and_then (take_array 8 bytes cursor) (\<lambda>(value, cursor).
        if from_be_bytes value \<le> 4294967295 then Inl NonMinimalArgument
        else Inr (word_of_nat (from_be_bytes value), cursor))
      else if additional = 31 then Inl IndefiniteLength
      else Inl (ReservedAdditionalInformation additional))"

text \<open>\<open>validate_item\<close> recurses through the array loop, which is \<open>validate_items\<close> here. The cursor
  and the item counter are the two mutable references of the source.\<close>

function (sequential)
  validate_item :: "bytes \<Rightarrow> nat \<Rightarrow> nat \<Rightarrow> nat \<Rightarrow> canonical_wire_error + nat \<times> nat"
and validate_items :: "nat \<Rightarrow> bytes \<Rightarrow> nat \<Rightarrow> nat \<Rightarrow> nat \<Rightarrow> canonical_wire_error + nat \<times> nat"
where
  "validate_item bytes cursor depth item_count =
     (if depth > MAX_CANONICAL_DEPTH then Inl DepthLimit
      else case usize_checked_add item_count 1 of
        None \<Rightarrow> Inl ItemLimit
      | Some item_count \<Rightarrow>
        if item_count > MAX_CANONICAL_ITEMS then Inl ItemLimit
        else case take_byte bytes cursor of
          Inl e \<Rightarrow> Inl e
        | Inr (initial, cursor) \<Rightarrow>
          (let major_type = drop_bit 5 initial; additional = initial AND 31 in
           if major_type = 0 then
             and_then (read_argument bytes cursor additional) (\<lambda>(_, cursor). Inr (cursor, item_count))
           else if major_type = 2 then
             and_then (read_argument bytes cursor additional) (\<lambda>(argument, cursor).
             and_then (argument_as_usize argument) (\<lambda>len.
             if len > MAX_CANONICAL_BYTE_STRING_BYTES then Inl ByteStringLimit
             else and_then (ok_or LengthOverflow (usize_checked_add cursor len)) (\<lambda>end.
             if end > length bytes then Inl UnexpectedEnd else Inr (end, item_count))))
           else if major_type = 4 then
             (case read_argument bytes cursor additional of
                Inl e \<Rightarrow> Inl e
              | Inr (argument, cursor) \<Rightarrow>
                (case argument_as_usize argument of
                   Inl e \<Rightarrow> Inl e
                 | Inr len \<Rightarrow>
                   if len > MAX_CANONICAL_ITEMS then Inl ItemLimit
                   else validate_items len bytes cursor (depth + 1) item_count))
           else Inl (UnsupportedMajorType major_type)))"
| "validate_items 0 bytes cursor depth item_count = Inr (cursor, item_count)"
| "validate_items (Suc n) bytes cursor depth item_count =
     (case validate_item bytes cursor depth item_count of
        Inl e \<Rightarrow> Inl e
      | Inr (cursor, item_count) \<Rightarrow> validate_items n bytes cursor depth item_count)"
  by pat_completeness auto
termination
proof (relation "measures [\<lambda>x. case x of Inl (_, _, depth, _) \<Rightarrow> 2 * (9 - depth)
                                     | Inr (_, _, _, depth, _) \<Rightarrow> 2 * (9 - depth) + 1,
                           \<lambda>x. case x of Inl _ \<Rightarrow> 0 | Inr (n, _) \<Rightarrow> n]")
qed (auto simp: MAX_CANONICAL_DEPTH_def)

declare validate_item.simps [simp del]

definition validate_canonical_profile_v1 :: "bytes \<Rightarrow> canonical_wire_error + unit" where
  "validate_canonical_profile_v1 bytes =
     and_then (validate_item bytes 0 0 0) (\<lambda>(cursor, _).
     if cursor \<noteq> length bytes then Inl TrailingData else Inr ())"

section \<open>Heads\<close>

text \<open>The additional-information bits and the argument bytes of the head of an argument.\<close>

definition head_info :: "u64 \<Rightarrow> u8" where
  "head_info a = (if unat a \<le> 23 then ucast a else if unat a \<le> 255 then 24
     else if unat a \<le> 65535 then 25 else if unat a \<le> 4294967295 then 26 else 27)"

definition head_tail :: "u64 \<Rightarrow> bytes" where
  "head_tail a = (if unat a \<le> 23 then [] else if unat a \<le> 255 then [ucast a]
     else if unat a \<le> 65535 then to_be_bytes 2 (unat a)
     else if unat a \<le> 4294967295 then to_be_bytes 4 (unat a) else to_be_bytes 8 (unat a))"

lemma push_head_eq: "push_head out m a = out @ (push_bit 5 m OR head_info a) # head_tail a"
  by (simp add: push_head_def head_info_def head_tail_def Let_def)

lemma unat_u64_less: "unat (a :: u64) < 18446744073709551616"
  using unsigned_less [of a, where ?'a = nat] by simp

lemma unat_ucast_u8: "unat a \<le> 255 \<Longrightarrow> unat (ucast (a :: u64) :: u8) = unat a"
  by (simp add: unsigned_ucast_eq take_bit_nat_eq_self)

lemma unat_ucast_u64: "unat (ucast (x :: u8) :: u64) = unat x"
  using unat_u8_less [of x] by (simp only: unsigned_ucast_eq) (simp add: take_bit_nat_eq_self)

lemma head_info_less: "unat (head_info a) < 32"
  using unat_ucast_u8 [of a] by (simp add: head_info_def)

lemma head_byte_split:
  assumes "unat (m :: u8) < 8" and "unat (k :: u8) < 32"
  shows "drop_bit 5 (push_bit 5 m OR k) = m" and "(push_bit 5 m OR k) AND 31 = k"
proof -
  have m: "take_bit 3 m = m" using assms(1) 
    by (simp only: word_unat_eq_iff unsigned_take_bit_eq) (simp add: take_bit_nat_eq_self)
  have k: "take_bit 5 k = k" using assms(2) 
    by (simp only: word_unat_eq_iff unsigned_take_bit_eq) (simp add: take_bit_nat_eq_self)
  have bm: "bit m n \<Longrightarrow> n < 3" for n using m by (metis bit_take_bit_iff)
  have bk: "bit k n \<Longrightarrow> n < 5" for n using k by (metis bit_take_bit_iff)
  have mask: "(31 :: u8) = mask 5" by (simp add: mask_eq_exp_minus_1)
  show "drop_bit 5 (push_bit 5 m OR k) = m"
    by (rule bit_word_eqI) (auto simp: bit_simps dest: bm bk)
  show "(push_bit 5 m OR k) AND 31 = k"
    unfolding mask by (rule bit_word_eqI) (auto simp: bit_simps dest: bm bk)
qed

lemma head_byte_join: "push_bit 5 (drop_bit 5 b) OR (b AND 31) = (b :: u8)"
proof -
  have mask: "(31 :: u8) = mask 5" by (simp add: mask_eq_exp_minus_1)
  show ?thesis unfolding mask by (rule bit_word_eqI) (auto simp: bit_simps)
qed

lemma head_byte_bounds: "unat (drop_bit 5 (b :: u8)) < 8" "unat (b AND (31 :: u8)) < 32"
proof -
  show "unat (drop_bit 5 b) < 8"
    using unat_u8_less [of b] by (simp only: unat_drop_bit_eq) (simp add: drop_bit_eq_div)
  have "b AND 31 \<le> 31" by (rule word_and_le1)
  then show "unat (b AND (31 :: u8)) < 32" by (simp add: word_le_nat_alt)
qed

lemma take_byte_iff:
  "take_byte bs c = Inr (b, c') \<longleftrightarrow> slice_range bs c c' = Some [b]"
  using slice_range_bounds [of bs c c' "[b]"]
  by (auto simp: take_byte_def result_simps slice_get_range)

lemma take_array_Inr:
  assumes "take_array n bs c = Inr (v, c')"
  shows "slice_range bs c c' = Some v \<and> length v = n"
  using assms slice_range_bounds [of bs c c' v]
  by (auto simp: take_array_def usize_checked_add_def result_simps split: if_splits)

lemma take_array_slice:
  assumes "slice_range bs c c' = Some v" and "length bs < 2 ^ 64"
  shows "take_array (length v) bs c = Inr (v, c')"
  using assms slice_range_bounds [OF assms(1)]
  by (simp add: take_array_def usize_checked_add_def)

lemma read_argument_complete:
  assumes "slice_range bs c c' = Some (head_tail a)" and "length bs < 2 ^ 64"
  shows "read_argument bs c (head_info a) = Inr (a, c')"
proof -
  have small: "c' = c" if "unat a \<le> 23"
    using slice_range_bounds [OF assms(1)] that by (simp add: head_tail_def)
  have u: "unat (ucast a :: u8) = unat a" if "unat a \<le> 255" using that by (rule unat_ucast_u8)
  have widen: "ucast (ucast a :: u8) = a" if "unat a \<le> 255"
    using u [OF that] by (simp add: word_unat_eq_iff unat_ucast_u64)
  have arr: "take_array n bs c = Inr (to_be_bytes n (unat a), c')"
    if "head_tail a = to_be_bytes n (unat a)" for n
    using take_array_slice [OF assms] that by simp
  have be: "from_be_bytes (to_be_bytes n (unat a)) = unat a" if "unat a < 256 ^ n" for n
    using that by (simp add: from_to_be_bytes)
  consider "unat a \<le> 23" | "23 < unat a" "unat a \<le> 255" | "255 < unat a" "unat a \<le> 65535"
    | "65535 < unat a" "unat a \<le> 4294967295" | "4294967295 < unat a" by linarith
  then show ?thesis
  proof cases
    case 1
    then show ?thesis using small u widen by (simp add: read_argument_def head_info_def)
  next
    case 2
    then have "take_byte bs c = Inr (ucast a, c')"
      using assms(1) by (simp add: take_byte_iff head_tail_def)
    with 2 show ?thesis using u widen by (simp add: read_argument_def head_info_def)
  next
    case 3
    then show ?thesis using arr [of 2] be [of 2] by (simp add: read_argument_def head_info_def head_tail_def)
  next
    case 4
    then show ?thesis using arr [of 4] be [of 4] by (simp add: read_argument_def head_info_def head_tail_def)
  next
    case 5
    then show ?thesis using arr [of 8] be [of 8] unat_u64_less [of a]
      by (simp add: read_argument_def head_info_def head_tail_def)
  qed
qed

lemma unat_word_of_nat_pow: "n < 2 ^ 64 \<Longrightarrow> unat (word_of_nat n :: u64) = n"
  by (simp add: unat_of_nat)

lemma unat_word_of_nat_u64: "n < 18446744073709551616 \<Longrightarrow> unat (word_of_nat n :: u64) = n"
  by (simp add: unat_of_nat)

lemma read_argument_sound:
  assumes ok: "read_argument bs c k = Inr (a, c')" and k: "unat k < 32" and c: "c \<le> length bs"
  shows "k = head_info a \<and> slice_range bs c c' = Some (head_tail a)"
proof -
  have arr: "from_be_bytes v < 256 ^ n \<and> to_be_bytes n (from_be_bytes v) = v"
    if "length v = n" for v n
    using that from_be_bytes_less [of v] to_from_be_bytes_eq [of v] by auto
  consider (imm) "unat k \<le> 23" | (one) "k = 24" | (two) "k = 25" | (four) "k = 26" | (eight) "k = 27"
    | (none) "unat k > 23" "k \<notin> {24, 25, 26, 27}" by force
  then show ?thesis
  proof cases
    case imm
    then have "a = ucast k" "c' = c" using ok by (auto simp: read_argument_def)
    moreover have "unat (ucast k :: u64) = unat k" by (rule unat_ucast_u64)
    moreover have "ucast (ucast k :: u64) = k" by (simp add: ucast_up_ucast_id is_up)
    ultimately show ?thesis
      using imm c by (simp add: head_info_def head_tail_def slice_range_empty)
  next
    case one
    then obtain v where v: "slice_range bs c c' = Some [v]" "\<not> unat v < 24" "a = ucast v"
      using ok by (auto simp: read_argument_def result_simps take_byte_iff split: if_splits)
    moreover have "unat (ucast v :: u64) = unat v" by (rule unat_ucast_u64)
    moreover have "ucast (ucast v :: u64) = v" by (simp add: ucast_up_ucast_id is_up)
    ultimately show ?thesis
      using one unat_u8_less [of v] by (simp add: head_info_def head_tail_def)
  next
    case two
    then obtain v where v: "take_array 2 bs c = Inr (v, c')" "\<not> from_be_bytes v \<le> 255"
        "a = word_of_nat (from_be_bytes v)"
      using ok by (auto simp: read_argument_def result_simps split: if_splits)
    with take_array_Inr [OF v(1)] arr [of v 2] show ?thesis
      using two by (simp add: head_info_def head_tail_def unat_word_of_nat_u64)
  next
    case four
    then obtain v where v: "take_array 4 bs c = Inr (v, c')" "\<not> from_be_bytes v \<le> 65535"
        "a = word_of_nat (from_be_bytes v)"
      using ok by (auto simp: read_argument_def result_simps split: if_splits)
    with take_array_Inr [OF v(1)] arr [of v 4] show ?thesis
      using four by (simp add: head_info_def head_tail_def unat_word_of_nat_u64)
  next
    case eight
    then obtain v where v: "take_array 8 bs c = Inr (v, c')" "\<not> from_be_bytes v \<le> 4294967295"
        "a = word_of_nat (from_be_bytes v)"
      using ok by (auto simp: read_argument_def result_simps split: if_splits)
    with take_array_Inr [OF v(1)] arr [of v 8] show ?thesis
      using eight by (simp add: head_info_def head_tail_def unat_word_of_nat_u64)
  next
    case none
    then show ?thesis using ok by (auto simp: read_argument_def split: if_splits)
  qed
qed

text \<open>Reading the initial byte and its argument is the exact inverse of \<open>push_head\<close>: it succeeds on
  precisely the bytes that \<open>push_head\<close> writes.\<close>

lemma read_head_iff:
  assumes "length bs < 2 ^ 64"
  shows "(\<exists>b c1. take_byte bs c = Inr (b, c1) \<and> drop_bit 5 b = m
            \<and> read_argument bs c1 (b AND 31) = Inr (a, c'))
         \<longleftrightarrow> unat m < 8 \<and> slice_range bs c c' = Some (push_head [] m a)"
proof
  assume "\<exists>b c1. take_byte bs c = Inr (b, c1) \<and> drop_bit 5 b = m
            \<and> read_argument bs c1 (b AND 31) = Inr (a, c')"
  then obtain b c1 where b: "slice_range bs c c1 = Some [b]" and m: "drop_bit 5 b = m"
    and arg: "read_argument bs c1 (b AND 31) = Inr (a, c')" by (auto simp: take_byte_iff)
  from arg head_byte_bounds(2) slice_range_bounds [OF b]
  have k: "b AND 31 = head_info a" and t: "slice_range bs c1 c' = Some (head_tail a)"
    using read_argument_sound by blast+
  have "push_bit 5 m OR head_info a = b" using head_byte_join [of b] m k by simp
  with slice_range_append [OF b t] m head_byte_bounds(1) [of b]
  show "unat m < 8 \<and> slice_range bs c c' = Some (push_head [] m a)"
    by (simp add: push_head_eq)
next
  assume r: "unat m < 8 \<and> slice_range bs c c' = Some (push_head [] m a)"
  define b where "b = push_bit 5 m OR head_info a"
  have s: "slice_range bs c c' = Some ([b] @ head_tail a)" using r by (simp add: push_head_eq b_def)
  have "take_byte bs c = Inr (b, c + 1)"
    using slice_range_appendD(1) [OF s] by (simp add: take_byte_iff)
  moreover have "drop_bit 5 b = m" "b AND 31 = head_info a"
    using head_byte_split [OF conjunct1 [OF r] head_info_less [of a]] by (simp_all add: b_def)
  moreover have "read_argument bs (c + 1) (head_info a) = Inr (a, c')"
    using slice_range_appendD(2) [OF s] assms by (intro read_argument_complete) simp_all
  ultimately show "\<exists>b c1. take_byte bs c = Inr (b, c1) \<and> drop_bit 5 b = m
            \<and> read_argument bs c1 (b AND 31) = Inr (a, c')" by auto
qed

section \<open>The profile as a grammar\<close>

text \<open>The abstract values of the profile, their only encoding, and the limits of the validator: the
  nesting depth, the byte string length, the array length and the number of items.\<close>

datatype cbor_item = CUnsigned u64 | CBytes bytes | CArray "cbor_item list"

fun enc_item :: "cbor_item \<Rightarrow> bytes" where
  "enc_item (CUnsigned v) = push_unsigned [] v"
| "enc_item (CBytes b) = push_bytes [] b"
| "enc_item (CArray xs) = push_array_header [] (word_of_nat (length xs)) @ concat (map enc_item xs)"

fun item_fits :: "nat \<Rightarrow> cbor_item \<Rightarrow> bool" where
  "item_fits d (CUnsigned v) = (d \<le> MAX_CANONICAL_DEPTH)"
| "item_fits d (CBytes b) = (d \<le> MAX_CANONICAL_DEPTH \<and> length b \<le> MAX_CANONICAL_BYTE_STRING_BYTES)"
| "item_fits d (CArray xs) = (d \<le> MAX_CANONICAL_DEPTH \<and> length xs \<le> MAX_CANONICAL_ITEMS
     \<and> (\<forall>x \<in> set xs. item_fits (Suc d) x))"

fun item_count :: "cbor_item \<Rightarrow> nat" where
  "item_count (CUnsigned v) = 1"
| "item_count (CBytes b) = 1"
| "item_count (CArray xs) = Suc (sum_list (map item_count xs))"

definition within_limits :: "cbor_item \<Rightarrow> bool" where
  "within_limits it = (item_fits 0 it \<and> item_count it \<le> MAX_CANONICAL_ITEMS)"

text \<open>What the three accepted major types do after their head.\<close>

definition item_body :: "bytes \<Rightarrow> nat \<Rightarrow> nat \<Rightarrow> u8 \<Rightarrow> u64 \<Rightarrow> nat \<Rightarrow> nat \<Rightarrow> nat \<Rightarrow> bool" where
  "item_body bs d n m a c1 c' n' \<longleftrightarrow>
     (m = 0 \<and> c' = c1 \<and> n' = Suc n)
   \<or> (m = 2 \<and> unat a \<le> MAX_CANONICAL_BYTE_STRING_BYTES \<and> c' = c1 + unat a \<and> c' \<le> length bs \<and> n' = Suc n)
   \<or> (m = 4 \<and> unat a \<le> MAX_CANONICAL_ITEMS \<and> validate_items (unat a) bs c1 (Suc d) (Suc n) = Inr (c', n'))"

lemma argument_as_usize_eq: "argument_as_usize a = Inr (unat a)"
  using unat_u64_less [of a] by (simp add: argument_as_usize_def)

lemma validate_item_steps:
  assumes len: "length bs < 2 ^ 64" and n: "n \<le> MAX_CANONICAL_ITEMS"
  shows "validate_item bs c d n = Inr (c', n') \<longleftrightarrow>
     d \<le> MAX_CANONICAL_DEPTH \<and> n < MAX_CANONICAL_ITEMS
     \<and> (\<exists>b c0 a c1. take_byte bs c = Inr (b, c0) \<and> read_argument bs c0 (b AND 31) = Inr (a, c1)
          \<and> item_body bs d n (drop_bit 5 b) a c1 c' n')"
proof (cases "d \<le> MAX_CANONICAL_DEPTH \<and> n < MAX_CANONICAL_ITEMS")
  case False
  then show ?thesis
    using n by (subst validate_item.simps) (auto simp: usize_checked_add_def MAX_CANONICAL_ITEMS_def)
next
  case limits: True
  then have count: "usize_checked_add n 1 = Some (Suc n)" "\<not> MAX_CANONICAL_ITEMS < Suc n"
    by (auto simp: usize_checked_add_def MAX_CANONICAL_ITEMS_def)
  show ?thesis
  proof (cases "take_byte bs c")
    case (Inl e)
    with limits count show ?thesis by (subst validate_item.simps) simp
  next
    case (Inr p)
    obtain b c0 where p: "p = (b, c0)" by (cases p)
    show ?thesis
    proof (cases "read_argument bs c0 (b AND 31)")
      case err: (Inl e)
      with limits count Inr p show ?thesis by (subst validate_item.simps) (simp add: Let_def)
    next
      case arg: (Inr q)
      obtain a c1 where q: "q = (a, c1)" by (cases q)
      with limits count Inr p arg len show ?thesis
        by (subst validate_item.simps)
          (auto simp: Let_def item_body_def argument_as_usize_eq usize_checked_add_def)
    qed
  qed
qed

lemma validate_item_iff:
  assumes "length bs < 2 ^ 64" and "n \<le> MAX_CANONICAL_ITEMS"
  shows "validate_item bs c d n = Inr (c', n') \<longleftrightarrow>
     d \<le> MAX_CANONICAL_DEPTH \<and> n < MAX_CANONICAL_ITEMS
     \<and> (\<exists>m a c1. unat m < 8 \<and> slice_range bs c c1 = Some (push_head [] m a)
          \<and> item_body bs d n m a c1 c' n')"
proof -
  have "(\<exists>b c0 a c1. take_byte bs c = Inr (b, c0) \<and> read_argument bs c0 (b AND 31) = Inr (a, c1)
          \<and> item_body bs d n (drop_bit 5 b) a c1 c' n')
    \<longleftrightarrow> (\<exists>m a c1. (\<exists>b c0. take_byte bs c = Inr (b, c0) \<and> drop_bit 5 b = m
            \<and> read_argument bs c0 (b AND 31) = Inr (a, c1)) \<and> item_body bs d n m a c1 c' n')"
    by blast
  then show ?thesis
    unfolding validate_item_steps [OF assms] read_head_iff [OF assms(1)] by blast
qed

lemma item_count_pos: "0 < item_count it"
  by (cases it) auto

definition item_spec :: "bytes \<Rightarrow> nat \<Rightarrow> nat \<Rightarrow> nat \<Rightarrow> nat \<Rightarrow> nat \<Rightarrow> bool" where
  "item_spec bs d c n c' n' \<longleftrightarrow> (\<exists>it. item_fits d it \<and> slice_range bs c c' = Some (enc_item it)
     \<and> n' = n + item_count it \<and> n' \<le> MAX_CANONICAL_ITEMS)"

definition items_spec :: "bytes \<Rightarrow> nat \<Rightarrow> nat \<Rightarrow> nat \<Rightarrow> nat \<Rightarrow> nat \<Rightarrow> nat \<Rightarrow> bool" where
  "items_spec bs d k c n c' n' \<longleftrightarrow> (\<exists>its. length its = k \<and> (\<forall>it \<in> set its. item_fits d it)
     \<and> slice_range bs c c' = Some (concat (map enc_item its))
     \<and> n' = n + sum_list (map item_count its) \<and> n' \<le> MAX_CANONICAL_ITEMS)"

lemma items_spec_0: "c \<le> length bs \<Longrightarrow> n \<le> MAX_CANONICAL_ITEMS \<Longrightarrow> items_spec bs d 0 c n c' n' \<longleftrightarrow> c' = c \<and> n' = n"
  using slice_range_bounds [of bs c c' "[]"] by (auto simp: items_spec_def slice_range_empty)

lemma items_spec_Suc:
  "items_spec bs d (Suc k) c n c' n' \<longleftrightarrow>
     (\<exists>c1 n1. item_spec bs d c n c1 n1 \<and> items_spec bs d k c1 n1 c' n')"
proof
  assume "items_spec bs d (Suc k) c n c' n'"
  then obtain it its where its: "length its = k" "item_fits d it" "\<forall>it \<in> set its. item_fits d it"
    and s: "slice_range bs c c' = Some (enc_item it @ concat (map enc_item its))"
    and n: "n' = n + item_count it + sum_list (map item_count its)" "n' \<le> MAX_CANONICAL_ITEMS"
    by (auto simp: items_spec_def length_Suc_conv)
  have "item_spec bs d c n (c + length (enc_item it)) (n + item_count it)"
    unfolding item_spec_def using slice_range_appendD(1) [OF s] its n by auto
  moreover have "items_spec bs d k (c + length (enc_item it)) (n + item_count it) c' n'"
    unfolding items_spec_def using slice_range_appendD(2) [OF s] its n by auto
  ultimately show "\<exists>c1 n1. item_spec bs d c n c1 n1 \<and> items_spec bs d k c1 n1 c' n'" by blast
next
  assume "\<exists>c1 n1. item_spec bs d c n c1 n1 \<and> items_spec bs d k c1 n1 c' n'"
  then obtain c1 it its where it: "item_fits d it" "slice_range bs c c1 = Some (enc_item it)"
    and its: "length its = k" "\<forall>it \<in> set its. item_fits d it"
      "slice_range bs c1 c' = Some (concat (map enc_item its))"
    and n: "n' = n + item_count it + sum_list (map item_count its)" "n' \<le> MAX_CANONICAL_ITEMS"
    by (auto simp: item_spec_def items_spec_def)
  have "slice_range bs c c' = Some (concat (map enc_item (it # its)))"
    using slice_range_append [OF it(2) its(3)] by simp
  then show "items_spec bs d (Suc k) c n c' n'"
    unfolding items_spec_def using it its n by (intro exI [of _ "it # its"]) auto
qed

lemma validate_items_Suc_Inr:
  "validate_items (Suc k) bs c d n = Inr (c', n') \<longleftrightarrow>
     (\<exists>c1 n1. validate_item bs c d n = Inr (c1, n1) \<and> validate_items k bs c1 d n1 = Inr (c', n'))"
  by (auto split: sum.splits)

lemma item_spec_bounds: "item_spec bs d c n c' n' \<Longrightarrow> c' \<le> length bs \<and> n' \<le> MAX_CANONICAL_ITEMS"
  by (auto simp: item_spec_def dest: slice_range_bounds)

lemma validate_items_spec:
  assumes item: "\<And>c n c' n'. n \<le> MAX_CANONICAL_ITEMS \<Longrightarrow>
      validate_item bs c d n = Inr (c', n') \<longleftrightarrow> item_spec bs d c n c' n'"
    and "c \<le> length bs" and "n \<le> MAX_CANONICAL_ITEMS"
  shows "validate_items k bs c d n = Inr (c', n') \<longleftrightarrow> items_spec bs d k c n c' n'"
  using assms(2,3)
proof (induction k arbitrary: c n)
  case 0
  then show ?case by (auto simp: items_spec_0)
next
  case (Suc k)
  show ?case
    unfolding validate_items_Suc_Inr items_spec_Suc item [OF Suc.prems(2)]
    using Suc.IH item_spec_bounds by blast
qed

lemma item_body_spec:
  assumes inner: "\<And>k c n. c \<le> length bs \<Longrightarrow> n \<le> MAX_CANONICAL_ITEMS \<Longrightarrow>
      validate_items k bs c (Suc d) n = Inr (c', n') \<longleftrightarrow> items_spec bs (Suc d) k c n c' n'"
    and d: "d \<le> MAX_CANONICAL_DEPTH" and n: "n < MAX_CANONICAL_ITEMS"
  shows "(\<exists>m a c1. unat m < 8 \<and> slice_range bs c c1 = Some (push_head [] m a)
            \<and> item_body bs d n m a c1 c' n') \<longleftrightarrow> item_spec bs d c n c' n'"
proof
  assume "\<exists>m a c1. unat m < 8 \<and> slice_range bs c c1 = Some (push_head [] m a)
            \<and> item_body bs d n m a c1 c' n'"
  then obtain m a c1 where h: "slice_range bs c c1 = Some (push_head [] m a)"
    and body: "item_body bs d n m a c1 c' n'" by blast
  from slice_range_bounds [OF h] have c1: "c1 \<le> length bs" by simp
  from body consider (u) "m = 0" "c' = c1" "n' = Suc n"
    | (b) "m = 2" "unat a \<le> MAX_CANONICAL_BYTE_STRING_BYTES" "c' = c1 + unat a" "c' \<le> length bs" "n' = Suc n"
    | (arr) "m = 4" "unat a \<le> MAX_CANONICAL_ITEMS" "items_spec bs (Suc d) (unat a) c1 (Suc n) c' n'"
    using inner [OF c1] n by (auto simp: item_body_def)
  then show "item_spec bs d c n c' n'"
  proof cases
    case u
    then show ?thesis
      using h d n unfolding item_spec_def
      by (intro exI [of _ "CUnsigned a"]) (auto simp: push_unsigned_def)
  next
    case b
    then have s: "slice_range bs c1 c' = Some (take (unat a) (drop c1 bs))"
      by (simp add: slice_range_def)
    let ?v = "take (unat a) (drop c1 bs)"
    have v: "length ?v = unat a" using slice_range_bounds [OF s] b by simp
    then have "push_bytes [] ?v = push_head [] 2 a @ ?v" by (simp add: push_bytes_def)
    then show ?thesis
      using slice_range_append [OF h s] v b d n unfolding item_spec_def
      by (intro exI [of _ "CBytes ?v"]) auto
  next
    case arr
    then obtain its where its: "length its = unat a" "\<forall>it \<in> set its. item_fits (Suc d) it"
      "slice_range bs c1 c' = Some (concat (map enc_item its))"
      "n' = Suc n + sum_list (map item_count its)" "n' \<le> MAX_CANONICAL_ITEMS"
      by (auto simp: items_spec_def)
    then have "enc_item (CArray its) = push_head [] 4 a @ concat (map enc_item its)"
      by (simp add: push_array_header_def)
    then show ?thesis
      using slice_range_append [OF h its(3)] its arr d unfolding item_spec_def
      by (intro exI [of _ "CArray its"]) auto
  qed
next
  assume "item_spec bs d c n c' n'"
  then obtain it where it: "item_fits d it" "slice_range bs c c' = Some (enc_item it)"
    "n' = n + item_count it" "n' \<le> MAX_CANONICAL_ITEMS" by (auto simp: item_spec_def)
  show "\<exists>m a c1. unat m < 8 \<and> slice_range bs c c1 = Some (push_head [] m a)
            \<and> item_body bs d n m a c1 c' n'"
  proof (cases it)
    case (CUnsigned v)
    then show ?thesis using it
      by (intro exI [of _ 0] exI [of _ v] exI [of _ c']) (auto simp: item_body_def push_unsigned_def)
  next
    case (CBytes b)
    let ?a = "word_of_nat (length b) :: u64"
    have s: "slice_range bs c c' = Some (push_head [] 2 ?a @ b)"
      using it CBytes by (simp add: push_bytes_def)
    have "unat ?a = length b"
      using it CBytes by (intro unat_word_of_nat_u64) (simp add: MAX_CANONICAL_BYTE_STRING_BYTES_def)
    then show ?thesis
      using it CBytes slice_range_appendD [OF s] slice_range_bounds [OF slice_range_appendD(2) [OF s]]
      by (intro exI [of _ 2] exI [of _ ?a] exI [of _ "c + length (push_head [] 2 ?a)"])
        (auto simp: item_body_def)
  next
    case (CArray its)
    let ?a = "word_of_nat (length its) :: u64"
    have s: "slice_range bs c c' = Some (push_head [] 4 ?a @ concat (map enc_item its))"
      using it CArray by (simp add: push_array_header_def)
    note s' = slice_range_appendD [OF s]
    have a: "unat ?a = length its"
      using it CArray by (intro unat_word_of_nat_u64) (simp add: MAX_CANONICAL_ITEMS_def)
    have "items_spec bs (Suc d) (unat ?a) (c + length (push_head [] 4 ?a)) (Suc n) c' n'"
      unfolding items_spec_def a using s'(2) it CArray by auto
    then have "validate_items (unat ?a) bs (c + length (push_head [] 4 ?a)) (Suc d) (Suc n) = Inr (c', n')"
      using inner [of "c + length (push_head [] 4 ?a)" "Suc n"] slice_range_bounds [OF s'(2)] n by simp
    then show ?thesis
      using it CArray s' a
      by (intro exI [of _ 4] exI [of _ ?a] exI [of _ "c + length (push_head [] 4 ?a)"])
        (auto simp: item_body_def)
  qed
qed

lemma item_spec_limits: "item_spec bs d c n c' n' \<Longrightarrow> d \<le> MAX_CANONICAL_DEPTH \<and> n < MAX_CANONICAL_ITEMS"
proof -
  assume "item_spec bs d c n c' n'"
  then obtain it where "item_fits d it" "n + item_count it \<le> MAX_CANONICAL_ITEMS"
    by (auto simp: item_spec_def)
  then show ?thesis using item_count_pos [of it] by (cases it) auto
qed

lemma validate_item_spec:
  assumes len: "length bs < 2 ^ 64"
  shows "n \<le> MAX_CANONICAL_ITEMS \<Longrightarrow> validate_item bs c d n = Inr (c', n') \<longleftrightarrow> item_spec bs d c n c' n'"
proof (induction "Suc MAX_CANONICAL_DEPTH - d" arbitrary: d c n c' n' rule: less_induct)
  case less
  show ?case
  proof (cases "d \<le> MAX_CANONICAL_DEPTH \<and> n < MAX_CANONICAL_ITEMS")
    case False
    then show ?thesis
      using validate_item_iff [OF len less.prems] item_spec_limits by blast
  next
    case True
    have "validate_items k bs c (Suc d) n = Inr (c', n') \<longleftrightarrow> items_spec bs (Suc d) k c n c' n'"
      if "c \<le> length bs" "n \<le> MAX_CANONICAL_ITEMS" for k c n c' n'
      using that True less.hyps by (intro validate_items_spec) auto
    then show ?thesis
      using validate_item_iff [OF len less.prems] item_body_spec [of bs d c' n' n c] True by simp
  qed
qed

section \<open>Unique readability\<close>

lemma length_head_tail:
  "length (head_tail a) = (if head_info a = 24 then 1 else if head_info a = 25 then 2
     else if head_info a = 26 then 4 else if head_info a = 27 then 8 else 0)"
proof (cases "unat a \<le> 23")
  case True
  then have u: "unat (ucast a :: u8) = unat a" by (intro unat_ucast_u8) simp
  have "(ucast a :: u8) \<noteq> k" if "unat k > 23" for k
    using u True that by auto
  from this [of 24] this [of 25] this [of 26] this [of 27] True show ?thesis
    by (simp add: head_tail_def head_info_def)
next
  case False
  then show ?thesis by (simp add: head_tail_def head_info_def)
qed

lemma head_tail_inj:
  assumes "head_info a = head_info a'" and "head_tail a = head_tail a'"
  shows "a = a'"
proof -
  have "length (head_tail x) \<le> 8" for x by (auto simp: length_head_tail)
  then have len: "length (head_tail x) < 2 ^ 64" for x by (rule le_less_trans) simp
  have "read_argument (head_tail x) 0 (head_info x) = Inr (x, length (head_tail x))" for x
    by (rule read_argument_complete [OF slice_range_full len])
  then have "Inr (a, length (head_tail a)) = (Inr (a', length (head_tail a')) :: canonical_wire_error + _)"
    using assms by metis
  then show ?thesis by blast
qed

lemma push_head_prefix_free:
  assumes "push_head [] m a @ r = push_head [] m' a' @ r'" and "unat m < 8" "unat m' < 8"
  shows "m = m' \<and> a = a' \<and> r = r'"
proof -
  from assms(1) have b: "push_bit 5 m OR head_info a = push_bit 5 m' OR head_info a'"
    and t: "head_tail a @ r = head_tail a' @ r'" by (auto simp: push_head_eq)
  note split = head_byte_split [OF assms(2) head_info_less [of a]]
  note split' = head_byte_split [OF assms(3) head_info_less [of a']]
  have m: "m = m'" using split(1) split'(1) unfolding b by (rule trans [OF sym])
  have i: "head_info a = head_info a'" using split(2) split'(2) unfolding b by (rule trans [OF sym])
  from i have "length (head_tail a) = length (head_tail a')" by (simp add: length_head_tail)
  with t have "head_tail a = head_tail a'" "r = r'" by auto
  with i m show ?thesis using head_tail_inj by blast
qed

lemma push_head_append: "push_head out m a = out @ push_head [] m a"
  by (simp add: push_head_eq)

text \<open>Items whose byte strings and arrays have lengths a \<open>u64\<close> can carry.\<close>

fun item_sized :: "cbor_item \<Rightarrow> bool" where
  "item_sized (CUnsigned v) = True"
| "item_sized (CBytes b) = (length b < 2 ^ 64)"
| "item_sized (CArray xs) = (length xs < 2 ^ 64 \<and> (\<forall>x \<in> set xs. item_sized x))"

lemma item_fits_sized: "item_fits d it \<Longrightarrow> item_sized it"
  by (induction d it rule: item_fits.induct)
    (auto simp: MAX_CANONICAL_BYTE_STRING_BYTES_def MAX_CANONICAL_ITEMS_def)

lemma concat_prefix_free:
  assumes "concat (map enc xs) @ r = concat (map enc ys) @ r'" and "length xs = length ys"
    and "\<And>x y r r'. x \<in> set xs \<Longrightarrow> y \<in> set ys \<Longrightarrow> enc x @ r = enc y @ r' \<Longrightarrow> x = y \<and> r = r'"
  shows "xs = ys \<and> r = r'"
  using assms(2,1,3)
proof (induction xs ys rule: list_induct2)
  case Nil
  then show ?case by simp
next
  case (Cons x xs y ys)
  have "enc x @ (concat (map enc xs) @ r) = enc y @ (concat (map enc ys) @ r')"
    using Cons.prems(1) by simp
  then have "x = y" and rest: "concat (map enc xs) @ r = concat (map enc ys) @ r'"
    using Cons.prems(2) [of x y] by auto
  moreover have "xs = ys \<and> r = r'"
    by (rule Cons.IH [OF rest]) (use Cons.prems(2) in auto)
  ultimately show ?case by simp
qed

lemma word_of_nat_u64_inj:
  "m < 2 ^ 64 \<Longrightarrow> n < 2 ^ 64 \<Longrightarrow> (word_of_nat m :: u64) = word_of_nat n \<Longrightarrow> m = n"
proof -
  assume m: "m < 2 ^ 64" and n: "n < 2 ^ 64" and eq: "(word_of_nat m :: u64) = word_of_nat n"
  have "unat (word_of_nat m :: u64) = m" "unat (word_of_nat n :: u64) = n"
    using unat_word_of_nat_pow [OF m] unat_word_of_nat_pow [OF n] .
  then show "m = n" using arg_cong [OF eq, of unat] by metis
qed

lemma enc_item_prefix_free:
  "enc_item x @ r = enc_item y @ r' \<Longrightarrow> item_sized x \<Longrightarrow> item_sized y \<Longrightarrow> x = y \<and> r = r'"
proof (induction x arbitrary: y r r' rule: enc_item.induct)
  case (1 v)
  then show ?case
    by (cases y) (auto simp: push_unsigned_def push_bytes_def push_array_header_def
        dest: push_head_prefix_free)
next
  case (2 b)
  show ?case
  proof (cases y)
    case (CBytes b')
    have "push_head [] 2 (word_of_nat (length b)) @ (b @ r)
        = push_head [] 2 (word_of_nat (length b')) @ (b' @ r')"
      using "2.prems" CBytes by (simp add: push_bytes_def)
    then have "(word_of_nat (length b) :: u64) = word_of_nat (length b')" and "b @ r = b' @ r'"
      using push_head_prefix_free [of 2 _ "b @ r" 2 _ "b' @ r'"] by auto
    moreover from this have "length b = length b'"
      using "2.prems" CBytes word_of_nat_u64_inj [of "length b" "length b'"] by simp
    ultimately show ?thesis using CBytes by simp
  qed (use "2.prems" in \<open>auto simp: push_unsigned_def push_bytes_def push_array_header_def
        dest: push_head_prefix_free\<close>)
next
  case (3 xs)
  show ?case
  proof (cases y)
    case (CArray ys)
    have "push_head [] 4 (word_of_nat (length xs)) @ (concat (map enc_item xs) @ r)
        = push_head [] 4 (word_of_nat (length ys)) @ (concat (map enc_item ys) @ r')"
      using "3.prems" CArray by (simp add: push_array_header_def)
    then have "(word_of_nat (length xs) :: u64) = word_of_nat (length ys)"
      and body: "concat (map enc_item xs) @ r = concat (map enc_item ys) @ r'"
      using push_head_prefix_free [of 4 _ "concat (map enc_item xs) @ r" 4 _
          "concat (map enc_item ys) @ r'"] by auto
    then have "length xs = length ys"
      using "3.prems" CArray word_of_nat_u64_inj [of "length xs" "length ys"] by simp
    with body have "xs = ys \<and> r = r'"
      using "3.IH" "3.prems" CArray by (intro concat_prefix_free) auto
    then show ?thesis using CArray by simp
  qed (use "3.prems" in \<open>auto simp: push_unsigned_def push_bytes_def push_array_header_def
        dest: push_head_prefix_free\<close>)
qed

lemma enc_item_inj: "enc_item x = enc_item y \<Longrightarrow> item_sized x \<Longrightarrow> item_sized y \<Longrightarrow> x = y"
  using enc_item_prefix_free [of x "[]" y "[]"] by simp

lemma validate_profile_iff:
  assumes "length bs < 2 ^ 64"
  shows "validate_canonical_profile_v1 bs = Inr () \<longleftrightarrow> (\<exists>it. within_limits it \<and> bs = enc_item it)"
proof -
  have "validate_canonical_profile_v1 bs = Inr ()
      \<longleftrightarrow> (\<exists>n'. validate_item bs 0 0 0 = Inr (length bs, n'))"
    by (auto simp: validate_canonical_profile_v1_def result_simps split: if_splits)
  also have "\<dots> \<longleftrightarrow> (\<exists>n'. item_spec bs 0 0 0 (length bs) n')"
    using validate_item_spec [OF assms, of 0] by simp
  also have "\<dots> \<longleftrightarrow> (\<exists>it. within_limits it \<and> bs = enc_item it)"
    by (auto simp: item_spec_def within_limits_def slice_range_full)
  finally show ?thesis .
qed

text \<open>An item within the limits has an encoding of bounded length, so the \<open>usize\<close> cursor of the
  reader cannot overflow on it.\<close>

lemma length_push_head: "length (push_head [] m a) \<le> 9"
  by (simp add: push_head_eq length_head_tail)

lemma length_concat_bound:
  assumes "\<And>x. x \<in> set xs \<Longrightarrow> length (f x) \<le> g x * k"
  shows "length (concat (map f xs)) \<le> sum_list (map g xs) * k"
  using assms by (induction xs) (auto simp: add_mult_distrib intro: add_mono)

lemma length_enc_item:
  "item_fits d it \<Longrightarrow> length (enc_item it) \<le> item_count it * (9 + MAX_CANONICAL_BYTE_STRING_BYTES)"
proof (induction d it rule: item_fits.induct)
  case (1 d v)
  then show ?case using length_push_head [of 0 v] by (simp add: push_unsigned_def)
next
  case (2 d b)
  then show ?case using length_push_head [of 2 "word_of_nat (length b)"]
    by (simp add: push_bytes_def)
next
  case (3 d xs)
  then have "length (concat (map enc_item xs))
      \<le> sum_list (map item_count xs) * (9 + MAX_CANONICAL_BYTE_STRING_BYTES)"
    by (intro length_concat_bound) auto
  then show ?case using length_push_head [of 4 "word_of_nat (length xs)"]
    by (simp add: push_array_header_def)
qed

lemma within_limits_length: "within_limits it \<Longrightarrow> length (enc_item it) < 2 ^ 64"
proof -
  assume "within_limits it"
  then have "item_fits 0 it" and n: "item_count it \<le> MAX_CANONICAL_ITEMS" by (simp_all add: within_limits_def)
  from length_enc_item [OF this(1)] mult_le_mono1 [OF n]
  have "length (enc_item it) \<le> MAX_CANONICAL_ITEMS * (9 + MAX_CANONICAL_BYTE_STRING_BYTES)"
    by (rule order_trans)
  then show ?thesis by (simp add: MAX_CANONICAL_ITEMS_def MAX_CANONICAL_BYTE_STRING_BYTES_def)
qed

lemma validate_enc_item: "within_limits it \<Longrightarrow> validate_canonical_profile_v1 (enc_item it) = Inr ()"
  using validate_profile_iff [OF within_limits_length] by blast

section \<open>The encoders write grammar items\<close>

text \<open>Every push appends one item, so an encoder run is one \<open>enc_item\<close>; this is the form in which
  the object theories use it.\<close>

definition array_head :: "u64 \<Rightarrow> bytes" where
  "array_head n = push_head [] 4 n"

lemma push_unsigned_item [codec_simps]: "push_unsigned out v = out @ enc_item (CUnsigned v)"
  by (simp add: push_unsigned_def push_head_append [of out])

lemma push_bytes_item [codec_simps]: "push_bytes out b = out @ enc_item (CBytes b)"
  by (simp add: push_bytes_def push_head_append [of out])

lemma push_array_header_item [codec_simps]: "push_array_header out n = out @ array_head n"
  by (simp add: push_array_header_def array_head_def push_head_append [of out])

lemma enc_item_CArray [codec_simps]:
  "enc_item (CArray xs) = array_head (word_of_nat (length xs)) @ concat (map enc_item xs)"
  by (simp add: push_array_header_item)

declare enc_item.simps [simp del]

lemma push_each_item [codec_simps]: "push_each out xs = out @ concat (map (\<lambda>x. enc_item (CBytes x)) xs)"
  by (induction xs arbitrary: out) (simp_all add: push_bytes_item)

definition ack_item :: "AcknowledgementEventContentV1 \<Rightarrow> cbor_item" where
  "ack_item c = CArray [CUnsigned CANONICAL_PROFILE_VERSION, CBytes (ack_conversation_id c),
     CBytes (ack_author_device_id c), CUnsigned (ack_author_sequence c),
     CArray (map CBytes (ack_parents c)),
     CArray [CUnsigned ACKNOWLEDGEMENT_PAYLOAD_VARIANT, CBytes (ack_acknowledged_event_id c)]]"

definition inventory_item :: "SyncInventoryContentV1 \<Rightarrow> cbor_item" where
  "inventory_item c = CArray [CUnsigned CANONICAL_PROFILE_VERSION, CBytes (inv_conversation_id c),
     CBytes (inv_requester_device_id c), CBytes (inv_session_binding c),
     CArray (map CBytes (inv_event_ids c))]"

definition signed_item :: "cbor_item \<Rightarrow> bytes \<Rightarrow> cbor_item" where
  "signed_item content signature = CArray [CUnsigned CANONICAL_PROFILE_VERSION, content, CBytes signature]"

definition ordered_ids :: "nat \<Rightarrow> bytes list \<Rightarrow> bool" where
  "ordered_ids maximum ids \<longleftrightarrow> length ids \<le> maximum \<and> sorted_wrt (<) ids"

lemma validate_ordered_ids_Inr [result_simps]:
  "validate_ordered_ids f ids mx = Inr u \<longleftrightarrow> ordered_ids mx ids"
  using windows2_any_sorted [of "\<lambda>x. x" ids]
  by (auto simp: validate_ordered_ids_def ordered_ids_def)

lemma encode_ack_iff:
  "encode_acknowledgement_event_content_v1 c = Inr bs \<longleftrightarrow>
     ordered_ids MAX_PARENTS (ack_parents c) \<and> bs = enc_item (ack_item c)"
  by (auto simp: encode_acknowledgement_event_content_v1_def result_simps Let_def ack_item_def
      codec_simps comp_def)

lemma encode_inventory_iff:
  "encode_sync_inventory_content_v1 c = Inr bs \<longleftrightarrow>
     ordered_ids MAX_INVENTORY_EVENT_IDS (inv_event_ids c) \<and> bs = enc_item (inventory_item c)"
  by (auto simp: encode_sync_inventory_content_v1_def result_simps Let_def inventory_item_def
      codec_simps comp_def)

lemma encode_signed_ack_iff:
  "encode_signed_acknowledgement_event_v1 c sg = Inr bs \<longleftrightarrow>
     ordered_ids MAX_PARENTS (ack_parents c) \<and> bs = enc_item (signed_item (ack_item c) sg)"
  by (auto simp: encode_signed_acknowledgement_event_v1_def result_simps encode_ack_iff Let_def
      signed_item_def codec_simps)

lemma encode_signed_inventory_iff:
  "encode_signed_sync_inventory_v1 c sg = Inr bs \<longleftrightarrow>
     ordered_ids MAX_INVENTORY_EVENT_IDS (inv_event_ids c) \<and> bs = enc_item (signed_item (inventory_item c) sg)"
  by (auto simp: encode_signed_sync_inventory_v1_def result_simps encode_inventory_iff Let_def
      signed_item_def codec_simps)

text \<open>The array types of the two content structs.\<close>

definition id32 :: "bytes \<Rightarrow> bool" where
  "id32 b \<longleftrightarrow> length b = 32"

definition ack_content_wf :: "AcknowledgementEventContentV1 \<Rightarrow> bool" where
  "ack_content_wf c \<longleftrightarrow> id32 (ack_conversation_id c) \<and> id32 (ack_author_device_id c)
     \<and> (\<forall>p \<in> set (ack_parents c). id32 p) \<and> id32 (ack_acknowledged_event_id c)"

definition inventory_content_wf :: "SyncInventoryContentV1 \<Rightarrow> bool" where
  "inventory_content_wf c \<longleftrightarrow> id32 (inv_conversation_id c) \<and> id32 (inv_requester_device_id c)
     \<and> id32 (inv_session_binding c) \<and> (\<forall>p \<in> set (inv_event_ids c). id32 p)"

lemma sum_item_count_CBytes [simp]: "sum_list (map (item_count \<circ> CBytes) xs) = length xs"
  by (induction xs) auto

lemmas profile_limits = MAX_CANONICAL_DEPTH_def MAX_CANONICAL_ITEMS_def
  MAX_CANONICAL_BYTE_STRING_BYTES_def MAX_PARENTS_def MAX_INVENTORY_EVENT_IDS_def

lemma signed_ack_within_limits:
  assumes "ack_content_wf c" and "ordered_ids MAX_PARENTS (ack_parents c)" and "length sg = 64"
  shows "within_limits (ack_item c)" and "within_limits (signed_item (ack_item c) sg)"
  using assms
  by (auto simp: within_limits_def signed_item_def ack_item_def ack_content_wf_def id32_def
      ordered_ids_def profile_limits)

lemma signed_inventory_within_limits:
  assumes "inventory_content_wf c" and "ordered_ids MAX_INVENTORY_EVENT_IDS (inv_event_ids c)"
    and "length sg = 64"
  shows "within_limits (inventory_item c)" and "within_limits (signed_item (inventory_item c) sg)"
  using assms
  by (auto simp: within_limits_def signed_item_def inventory_item_def inventory_content_wf_def id32_def
      ordered_ids_def profile_limits)

lemma ack_item_inj: "ack_item c = ack_item c' \<Longrightarrow> c = c'"
  by (auto simp: ack_item_def inj_map_eq_map inj_def
      intro!: AcknowledgementEventContentV1.equality)

lemma inventory_item_inj: "inventory_item c = inventory_item c' \<Longrightarrow> c = c'"
  by (auto simp: inventory_item_def inj_map_eq_map inj_def intro!: SyncInventoryContentV1.equality)

subsection \<open>Signing preimages\<close>

lemma ack_signing_iff:
  "acknowledgement_event_signing_bytes_v1 c = Inr p \<longleftrightarrow> ordered_ids MAX_PARENTS (ack_parents c)
     \<and> p = CANONICAL_EVENT_SIGNATURE_DOMAIN @ enc_item (ack_item c)"
  by (auto simp: acknowledgement_event_signing_bytes_v1_def result_simps encode_ack_iff prefixed_def)

lemma inventory_signing_iff:
  "sync_inventory_signing_bytes_v1 c = Inr p \<longleftrightarrow> ordered_ids MAX_INVENTORY_EVENT_IDS (inv_event_ids c)
     \<and> p = CANONICAL_SYNC_INVENTORY_SIGNATURE_DOMAIN @ enc_item (inventory_item c)"
  by (auto simp: sync_inventory_signing_bytes_v1_def result_simps encode_inventory_iff prefixed_def)

lemma within_limits_inj:
  "enc_item x = enc_item y \<Longrightarrow> within_limits x \<Longrightarrow> within_limits y \<Longrightarrow> x = y"
  by (auto simp: within_limits_def intro: enc_item_inj dest: item_fits_sized)

lemma event_inventory_domains_differ:
  "CANONICAL_EVENT_SIGNATURE_DOMAIN @ x \<noteq> CANONICAL_SYNC_INVENTORY_SIGNATURE_DOMAIN @ y"
  by (simp add: CANONICAL_EVENT_SIGNATURE_DOMAIN_def CANONICAL_SYNC_INVENTORY_SIGNATURE_DOMAIN_def
      ascii_def of_char_def)

section \<open>Properties\<close>

text \<open>C1. \<open>validate_canonical_profile_v1\<close> accepts a byte string exactly when it is the
  shortest-form CBOR encoding of one item made of unsigned integers, byte strings and definite arrays
  that stays within the depth, item-count and byte-string limits; and then there is only one such
  item, so no two spellings of a value are both accepted.\<close>

theorem profile_accepts_exactly_canonical:
  assumes "length bs < 2 ^ 64"
  shows "validate_canonical_profile_v1 bs = Inr () \<longleftrightarrow> (\<exists>!it. within_limits it \<and> bs = enc_item it)"
  using validate_profile_iff [OF assms] within_limits_inj by blast

theorem profile_accepts_exactly_canonical_witness:
  "validate_canonical_profile_v1 [0x82, 0x01, 0x41, 0xFF] = Inr ()
   \<and> (\<exists>!it. within_limits it \<and> [0x82, 0x01, 0x41, 0xFF] = enc_item it)
   \<and> validate_canonical_profile_v1 [0x82, 0x18, 0x01, 0x41, 0xFF] = Inl NonMinimalArgument
   \<and> (\<nexists>!it. within_limits it \<and> [0x82, 0x18, 0x01, 0x41, 0xFF] = enc_item it)"
proof -
  have a: "validate_canonical_profile_v1 [0x82, 0x01, 0x41, 0xFF] = Inr ()" by code_simp
  have b: "validate_canonical_profile_v1 [0x82, 0x18, 0x01, 0x41, 0xFF] = Inl NonMinimalArgument" by code_simp
  show ?thesis
    using profile_accepts_exactly_canonical [of "[0x82, 0x01, 0x41, 0xFF]"]
      profile_accepts_exactly_canonical [of "[0x82, 0x18, 0x01, 0x41, 0xFF]"] a b by simp
qed

text \<open>C36. A well-typed acknowledgement event has a content encoding and a signed encoding exactly
  when its parents are strictly increasing and at most \<open>MAX_PARENTS\<close>, and the profile validator
  accepts both; in every other case both encoders return an error.\<close>

theorem acknowledgement_encoding_is_canonical:
  assumes "ack_content_wf c" and "length sg = 64"
  shows "if ordered_ids MAX_PARENTS (ack_parents c)
     then (\<exists>content signed. encode_acknowledgement_event_content_v1 c = Inr content
         \<and> encode_signed_acknowledgement_event_v1 c sg = Inr signed
         \<and> validate_canonical_profile_v1 content = Inr () \<and> validate_canonical_profile_v1 signed = Inr ())
     else \<not> is_ok (encode_acknowledgement_event_content_v1 c)
         \<and> \<not> is_ok (encode_signed_acknowledgement_event_v1 c sg)"
  using encode_ack_iff [of c] encode_signed_ack_iff [of c sg]
    signed_ack_within_limits [OF assms(1) _ assms(2)] validate_enc_item by (auto simp: is_ok_iff)

definition sample_ack :: AcknowledgementEventContentV1 where
  "sample_ack = \<lparr> ack_conversation_id = replicate 32 1, ack_author_device_id = replicate 32 2,
     ack_author_sequence = 300, ack_parents = [replicate 32 3, replicate 32 4],
     ack_acknowledged_event_id = replicate 32 5 \<rparr>"

theorem acknowledgement_encoding_is_canonical_witness:
  "\<exists>content signed. encode_acknowledgement_event_content_v1 sample_ack = Inr content
     \<and> encode_signed_acknowledgement_event_v1 sample_ack (replicate 64 9) = Inr signed
     \<and> validate_canonical_profile_v1 content = Inr () \<and> validate_canonical_profile_v1 signed = Inr ()"
proof -
  have "ordered_ids MAX_PARENTS (ack_parents sample_ack)" by code_simp
  moreover have "ack_content_wf sample_ack" by code_simp
  ultimately show ?thesis
    using acknowledgement_encoding_is_canonical [of sample_ack "replicate 64 9"] by simp
qed

text \<open>C37. The same for synchronisation inventories and \<open>MAX_INVENTORY_EVENT_IDS\<close>.\<close>

theorem inventory_encoding_is_canonical:
  assumes "inventory_content_wf c" and "length sg = 64"
  shows "if ordered_ids MAX_INVENTORY_EVENT_IDS (inv_event_ids c)
     then (\<exists>content signed. encode_sync_inventory_content_v1 c = Inr content
         \<and> encode_signed_sync_inventory_v1 c sg = Inr signed
         \<and> validate_canonical_profile_v1 content = Inr () \<and> validate_canonical_profile_v1 signed = Inr ())
     else \<not> is_ok (encode_sync_inventory_content_v1 c) \<and> \<not> is_ok (encode_signed_sync_inventory_v1 c sg)"
  using encode_inventory_iff [of c] encode_signed_inventory_iff [of c sg]
    signed_inventory_within_limits [OF assms(1) _ assms(2)] validate_enc_item by (auto simp: is_ok_iff)

definition sample_inventory :: SyncInventoryContentV1 where
  "sample_inventory = \<lparr> inv_conversation_id = replicate 32 1, inv_requester_device_id = replicate 32 2,
     inv_session_binding = replicate 32 3, inv_event_ids = [replicate 32 7, replicate 32 8] \<rparr>"

theorem inventory_encoding_is_canonical_witness:
  "(\<exists>content signed. encode_sync_inventory_content_v1 sample_inventory = Inr content
      \<and> encode_signed_sync_inventory_v1 sample_inventory (replicate 64 9) = Inr signed
      \<and> validate_canonical_profile_v1 content = Inr () \<and> validate_canonical_profile_v1 signed = Inr ())
   \<and> \<not> is_ok (encode_sync_inventory_content_v1 (sample_inventory\<lparr> inv_event_ids := [[8], [7]] \<rparr>))"
proof -
  have "ordered_ids MAX_INVENTORY_EVENT_IDS (inv_event_ids sample_inventory)" by code_simp
  moreover have "inventory_content_wf sample_inventory" by code_simp
  moreover have "\<not> is_ok (encode_sync_inventory_content_v1 (sample_inventory\<lparr> inv_event_ids := [[8], [7]] \<rparr>))"
    by code_simp
  ultimately show ?thesis
    using inventory_encoding_is_canonical [of sample_inventory "replicate 64 9"] by simp
qed

text \<open>C38. A signing preimage determines what was signed: two well-typed acknowledgement contents
  with one preimage are equal, the same for inventories, and no acknowledgement preimage is an
  inventory preimage, so a signature cannot be carried from one kind of object to the other.\<close>

theorem signing_preimages_bind_content:
  assumes "ack_content_wf a" and "ack_content_wf a'" and "inventory_content_wf i" and "inventory_content_wf i'"
    and "acknowledgement_event_signing_bytes_v1 a = Inr p" and "acknowledgement_event_signing_bytes_v1 a' = Inr p'"
    and "sync_inventory_signing_bytes_v1 i = Inr q" and "sync_inventory_signing_bytes_v1 i' = Inr q'"
  shows "(p = p' \<longleftrightarrow> a = a') \<and> (q = q' \<longleftrightarrow> i = i') \<and> p \<noteq> q"
proof (intro conjI)
  show "p = p' \<longleftrightarrow> a = a'"
    using assms signed_ack_within_limits(1) [of _ "replicate 64 0"]
    by (auto simp: ack_signing_iff intro!: ack_item_inj within_limits_inj)
  show "q = q' \<longleftrightarrow> i = i'"
    using assms signed_inventory_within_limits(1) [of _ "replicate 64 0"]
    by (auto simp: inventory_signing_iff intro!: inventory_item_inj within_limits_inj)
  show "p \<noteq> q"
    using assms by (simp add: ack_signing_iff inventory_signing_iff event_inventory_domains_differ)
qed

theorem signing_preimages_bind_content_witness:
  "\<exists>p q q'. acknowledgement_event_signing_bytes_v1 sample_ack = Inr p
     \<and> sync_inventory_signing_bytes_v1 sample_inventory = Inr q
     \<and> sync_inventory_signing_bytes_v1 (sample_inventory\<lparr> inv_event_ids := [] \<rparr>) = Inr q'
     \<and> q \<noteq> q' \<and> p \<noteq> q"
proof -
  let ?i = "sample_inventory\<lparr> inv_event_ids := [] \<rparr>"
  have wf: "ack_content_wf sample_ack" "inventory_content_wf sample_inventory" "inventory_content_wf ?i"
    by code_simp+
  have "is_ok (acknowledgement_event_signing_bytes_v1 sample_ack)"
    "is_ok (sync_inventory_signing_bytes_v1 sample_inventory)" "is_ok (sync_inventory_signing_bytes_v1 ?i)"
    by code_simp+
  then obtain p q q' where e: "acknowledgement_event_signing_bytes_v1 sample_ack = Inr p"
    "sync_inventory_signing_bytes_v1 sample_inventory = Inr q" "sync_inventory_signing_bytes_v1 ?i = Inr q'"
    by (auto simp: is_ok_iff)
  from signing_preimages_bind_content [OF wf(1) wf(1) wf(2) wf(3) e(1) e(1) e(2) e(3)]
  have "q \<noteq> q'" "p \<noteq> q" by (auto simp: sample_inventory_def)
  with e show ?thesis by blast
qed

end
