(* ===== verification/Cursor_Decoder.thy ===== *)
theory Cursor_Decoder
  imports Canonical_Wire
begin

text \<open>
  The cursor decoders of the canonical object modules. \<open>canonical_authority_v1.rs\<close> and
  \<open>canonical_account_v1.rs\<close> each have a private struct of a byte slice and a cursor with the same
  methods; the record below is that struct. A decoder always runs after
  \<open>validate_canonical_profile_v1\<close>, so its cursor stands where the encoding of a list of items
  begins. \<open>dec_at pre its\<close> is such a state: \<open>pre\<close> has been read and the items \<open>its\<close> are still to
  come. The locale \<open>canonical_head\<close> is the one promise the field readers need of a decoder, what it
  reads where an item begins; from it follow, once for every decoder, the laws of reading integers,
  byte strings, arrays and sequences.
\<close>

record decoder =
  dec_bytes :: bytes
  dec_cursor :: nat

text \<open>\<open>for _ in 0..count { values.push(read(decoder)?) }\<close>.\<close>

primrec read_n :: "nat \<Rightarrow> ('d \<Rightarrow> 'e + 'a \<times> 'd) \<Rightarrow> 'd \<Rightarrow> 'e + 'a list \<times> 'd" where
  "read_n 0 read d = Inr ([], d)"
| "read_n (Suc n) read d = and_then (read d) (\<lambda>(v, d).
     and_then (read_n n read d) (\<lambda>(vs, d). Inr (v # vs, d)))"

section \<open>States at an item boundary\<close>

definition enc_items :: "cbor_item list \<Rightarrow> bytes" where
  "enc_items its = concat (map enc_item its)"

definition dec_at :: "bytes \<Rightarrow> cbor_item list \<Rightarrow> decoder" where
  "dec_at pre its = \<lparr> dec_bytes = pre @ enc_items its, dec_cursor = length pre \<rparr>"

definition fits :: "bytes \<Rightarrow> cbor_item list \<Rightarrow> bool" where
  "fits pre its \<longleftrightarrow> length pre + length (enc_items its) < 2 ^ 64 \<and> (\<forall>it \<in> set its. item_sized it)"

lemma enc_items_simps [simp]:
  "enc_items [] = []"
  "enc_items (it # its) = enc_item it @ enc_items its"
  "enc_items (xs @ ys) = enc_items xs @ enc_items ys"
  by (simp_all add: enc_items_def)

lemma enc_CArray: "enc_item (CArray xs) = array_head (word_of_nat (length xs)) @ enc_items xs"
  by (simp add: enc_item_CArray enc_items_def)

lemma enc_CUnsigned: "enc_item (CUnsigned v) = push_head [] 0 v"
  by (simp add: enc_item.simps push_unsigned_def)

lemma enc_CBytes: "enc_item (CBytes b) = push_head [] 2 (word_of_nat (length b)) @ b"
  by (simp add: enc_item.simps push_bytes_def)

lemma fits_step [simp]:
  "fits pre (CUnsigned v # its) \<Longrightarrow> fits (pre @ enc_item (CUnsigned v)) its"
  "fits pre (CBytes b # its) \<Longrightarrow> fits (pre @ enc_item (CBytes b)) its"
  "fits pre (CArray xs # its) \<Longrightarrow> fits (pre @ array_head (word_of_nat (length xs))) (xs @ its)"
  by (auto simp: fits_def enc_CArray)

lemma fits_skip: "fits pre (it # its) \<Longrightarrow> fits (pre @ enc_item it) its"
  by (auto simp: fits_def)

lemma fits_skips: "fits pre (xs @ its) \<Longrightarrow> fits (pre @ enc_items xs) its"
  by (auto simp: fits_def)

text \<open>The head an item is written with, and what follows it.\<close>

fun item_major :: "cbor_item \<Rightarrow> u8" where
  "item_major (CUnsigned v) = 0"
| "item_major (CBytes b) = 2"
| "item_major (CArray xs) = 4"

fun item_argument :: "cbor_item \<Rightarrow> u64" where
  "item_argument (CUnsigned v) = v"
| "item_argument (CBytes b) = word_of_nat (length b)"
| "item_argument (CArray xs) = word_of_nat (length xs)"

fun item_rest :: "cbor_item \<Rightarrow> bytes" where
  "item_rest (CUnsigned v) = []"
| "item_rest (CBytes b) = b"
| "item_rest (CArray xs) = enc_items xs"

lemma enc_item_head: "enc_item it = push_head [] (item_major it) (item_argument it) @ item_rest it"
  by (cases it) (simp_all add: enc_CUnsigned enc_CBytes enc_CArray array_head_def)

lemma item_major_less: "unat (item_major it) < 8"
  by (cases it) simp_all

section \<open>Reading as parsing a list of items\<close>

text \<open>A parser takes items off the front of a list. Reading an array header leaves the elements in
  front of the items that follow the array, as the cursor does.\<close>

type_synonym 'a item_parser = "cbor_item list \<Rightarrow> ('a \<times> cbor_item list) option"

fun p_unsigned :: "u64 item_parser" where
  "p_unsigned (CUnsigned v # rest) = Some (v, rest)"
| "p_unsigned _ = None"

fun p_bytes :: "bytes item_parser" where
  "p_bytes (CBytes b # rest) = Some (b, rest)"
| "p_bytes _ = None"

fun p_array :: "nat item_parser" where
  "p_array (CArray xs # rest) = Some (length xs, xs @ rest)"
| "p_array _ = None"

definition p_return :: "'a \<Rightarrow> 'a item_parser" where
  "p_return v its = Some (v, its)"

definition p_fail :: "'a item_parser" where
  "p_fail its = None"

definition p_bind :: "'a item_parser \<Rightarrow> ('a \<Rightarrow> 'b item_parser) \<Rightarrow> 'b item_parser" where
  "p_bind p f its = (case p its of None \<Rightarrow> None | Some (v, rest) \<Rightarrow> f v rest)"

primrec p_n :: "nat \<Rightarrow> 'a item_parser \<Rightarrow> 'a list item_parser" where
  "p_n 0 p = p_return []"
| "p_n (Suc n) p = p_bind p (\<lambda>v. p_bind (p_n n p) (\<lambda>vs. p_return (v # vs)))"

lemma p_unsigned_Some [simp]: "p_unsigned its = Some (v, rest) \<longleftrightarrow> its = CUnsigned v # rest"
  by (cases its rule: p_unsigned.cases) auto

lemma p_bytes_Some [simp]: "p_bytes its = Some (b, rest) \<longleftrightarrow> its = CBytes b # rest"
  by (cases its rule: p_bytes.cases) auto

lemma p_array_Some [simp]:
  "p_array its = Some (n, rest) \<longleftrightarrow> n \<le> length rest \<and> its = CArray (take n rest) # drop n rest"
  by (cases its rule: p_array.cases) auto

lemma p_return_Some [simp]: "p_return v its = Some (w, rest) \<longleftrightarrow> w = v \<and> rest = its"
  by (auto simp: p_return_def)

lemma p_fail_None [simp]: "p_fail its = None"
  by (simp add: p_fail_def)

lemma p_bind_Some [simp]:
  "p_bind p f its = Some (w, rest) \<longleftrightarrow> (\<exists>v r. p its = Some (v, r) \<and> f v r = Some (w, rest))"
  by (auto simp: p_bind_def split: option.splits)

lemma p_if_fail [simp]:
  "(if b then p else p_fail) its = Some r \<longleftrightarrow> b \<and> p its = Some r"
  "(if b then p_fail else p) its = Some r \<longleftrightarrow> \<not> b \<and> p its = Some r"
  by simp_all

lemma p_value_Some [simp]:
  "(case c of Inl _ \<Rightarrow> p_fail | Inr v \<Rightarrow> p_return v) its = Some (w, rest) \<longleftrightarrow> c = Inr w \<and> rest = its"
  by (cases c) auto

definition p_fixed :: "nat \<Rightarrow> bytes item_parser" where
  "p_fixed N = p_bind p_bytes (\<lambda>b. if length b = N then p_return b else p_fail)"

definition p_expect_array :: "nat \<Rightarrow> unit item_parser" where
  "p_expect_array n = p_bind p_array (\<lambda>k. if k \<noteq> n then p_fail else p_return ())"

definition p_version :: "unit item_parser" where
  "p_version = p_bind p_unsigned (\<lambda>v. if v \<noteq> CANONICAL_PROFILE_VERSION then p_fail else p_return ())"

lemma p_fixed_Some [simp]: "p_fixed N its = Some (b, rest) \<longleftrightarrow> length b = N \<and> its = CBytes b # rest"
  by (auto simp: p_fixed_def split: if_splits)

lemma p_expect_array_Some [simp]:
  "p_expect_array n its = Some (u, rest) \<longleftrightarrow> n \<le> length rest \<and> its = CArray (take n rest) # drop n rest"
  by (auto simp: p_expect_array_def split: if_splits)

lemma p_version_Some [simp]:
  "p_version its = Some (u, rest) \<longleftrightarrow> its = CUnsigned CANONICAL_PROFILE_VERSION # rest"
  by (auto simp: p_version_def split: if_splits)

text \<open>A parser that takes exactly the item \<open>g v\<close> for the values \<open>v\<close> that satisfy \<open>ok\<close>.\<close>

definition parses :: "'a item_parser \<Rightarrow> ('a \<Rightarrow> cbor_item) \<Rightarrow> ('a \<Rightarrow> bool) \<Rightarrow> bool" where
  "parses p g ok \<longleftrightarrow> (\<forall>its v rest. p its = Some (v, rest) \<longleftrightarrow> ok v \<and> its = g v # rest)"

lemma parsesI: "(\<And>its v rest. p its = Some (v, rest) \<longleftrightarrow> ok v \<and> its = g v # rest) \<Longrightarrow> parses p g ok"
  by (simp add: parses_def)

lemma parsesD: "parses p g ok \<Longrightarrow> p its = Some (v, rest) \<longleftrightarrow> ok v \<and> its = g v # rest"
  by (simp add: parses_def)

lemma parses_n:
  assumes "parses p g ok"
  shows "p_n n p its = Some (vs, rest) \<longleftrightarrow> length vs = n \<and> list_all ok vs \<and> its = map g vs @ rest"
  by (induction n arbitrary: its vs) (auto simp: parsesD [OF assms] length_Suc_conv)

section \<open>Simulation\<close>

text \<open>On every state at an item boundary the decoder does what the parser does: it fails where the
  parser fails, and otherwise returns the same value and moves to the boundary before the remaining
  items.\<close>

definition sim :: "(decoder \<Rightarrow> 'e + 'a \<times> decoder) \<Rightarrow> 'a item_parser \<Rightarrow> bool" where
  "sim rd p \<longleftrightarrow> (\<forall>pre its. fits pre its \<longrightarrow>
     (case p its of
        None \<Rightarrow> \<not> is_ok (rd (dec_at pre its))
      | Some (v, rest) \<Rightarrow> (\<exists>pre'. rd (dec_at pre its) = Inr (v, dec_at pre' rest)
          \<and> pre' @ enc_items rest = pre @ enc_items its \<and> fits pre' rest)))"

named_theorems sim_intros "decoder constructions that simulate parser constructions"

lemma sim_return [sim_intros]: "sim (\<lambda>d. Inr (v, d)) (p_return v)"
  by (auto simp: sim_def p_return_def)

lemma sim_fail [sim_intros]: "sim (\<lambda>d. Inl e) p_fail"
  by (simp add: sim_def)

lemma sim_if [sim_intros]: "sim r p \<Longrightarrow> sim r' p' \<Longrightarrow> sim (\<lambda>d. if b then r d else r' d) (if b then p else p')"
  by simp

lemma sim_bind [sim_intros]:
  assumes r: "sim r p" and r2: "\<And>v. sim (r2 v) (p2 v)"
  shows "sim (\<lambda>d. and_then (r d) (\<lambda>(v, d). r2 v d)) (p_bind p p2)"
  unfolding sim_def
proof (intro allI impI)
  fix pre its
  assume f: "fits pre its"
  show "case p_bind p p2 its of None \<Rightarrow> \<not> is_ok (and_then (r (dec_at pre its)) (\<lambda>(v, d). r2 v d))
      | Some (v, rest) \<Rightarrow> \<exists>pre'. and_then (r (dec_at pre its)) (\<lambda>(v, d). r2 v d) = Inr (v, dec_at pre' rest)
          \<and> pre' @ enc_items rest = pre @ enc_items its \<and> fits pre' rest"
  proof (cases "p its")
    case None
    with r f have "\<not> is_ok (r (dec_at pre its))" by (fastforce simp: sim_def)
    with None show ?thesis by (auto simp: p_bind_def is_ok_def split: sum.splits)
  next
    case (Some w)
    obtain v rest where w: "w = (v, rest)" by (cases w)
    with Some r f obtain pre' where p: "r (dec_at pre its) = Inr (v, dec_at pre' rest)"
      "pre' @ enc_items rest = pre @ enc_items its" "fits pre' rest" by (fastforce simp: sim_def)
    from r2 [of v] p(3) have "case p2 v rest of None \<Rightarrow> \<not> is_ok (r2 v (dec_at pre' rest))
      | Some (u, rest') \<Rightarrow> \<exists>pre''. r2 v (dec_at pre' rest) = Inr (u, dec_at pre'' rest')
          \<and> pre'' @ enc_items rest' = pre' @ enc_items rest \<and> fits pre'' rest'" by (auto simp: sim_def)
    then show ?thesis using Some w p by (auto simp: p_bind_def split: option.splits)
  qed
qed

lemma sim_check [sim_intros]:
  "(\<And>v. sim (r v) p) \<Longrightarrow> sim (\<lambda>d. and_then c (\<lambda>v. r v d)) (if is_ok c then p else p_fail)"
  by (cases c) (auto simp: sim_def)

lemma sim_value [sim_intros]:
  "sim (\<lambda>d. and_then c (\<lambda>v. Inr (v, d))) (case c of Inl _ \<Rightarrow> p_fail | Inr v \<Rightarrow> p_return v)"
  by (cases c) (auto simp: sim_def p_return_def)

lemma sim_n [sim_intros]: "sim r p \<Longrightarrow> sim (read_n n r) (p_n n p)"
proof (induction n)
  case 0
  then show ?case using sim_return [of "[]"] by (simp add: sim_def)
next
  case (Suc n)
  have "sim (\<lambda>d. and_then (r d) (\<lambda>(v, d). and_then (read_n n r d) (\<lambda>(vs, d). Inr (v # vs, d))))
      (p_bind p (\<lambda>v. p_bind (p_n n p) (\<lambda>vs. p_return (v # vs))))"
    using Suc by (intro sim_bind sim_return)
  then show ?case by (simp add: sim_def)
qed

lemma sim_SomeD:
  assumes "sim rd p" and "fits pre its" and "p its = Some (v, rest)"
  obtains pre' where "rd (dec_at pre its) = Inr (v, dec_at pre' rest)"
    and "pre' @ enc_items rest = pre @ enc_items its" and "fits pre' rest"
  using assms(1) [unfolded sim_def, rule_format, OF assms(2)] assms(3) by auto

lemma sim_InrD:
  assumes "sim rd p" and "fits pre its" and "rd (dec_at pre its) = Inr (v, d')"
  obtains rest where "p its = Some (v, rest)"
  using assms(1) [unfolded sim_def, rule_format, OF assms(2)] assms(3)
  by (auto split: option.splits)

lemma sim_cong:
  assumes "sim rd p" and "\<And>d r. rd d = Inr r \<longleftrightarrow> rd' d = Inr r"
  shows "sim rd' p"
proof -
  have eq: "rd' d = Inr r \<longleftrightarrow> rd d = Inr r" for d r using assms(2) by simp
  then have ok: "is_ok (rd' d) = is_ok (rd d)" for d by (simp add: is_ok_iff)
  show ?thesis using assms(1) unfolding sim_def eq ok .
qed

lemma consumed: "pre' @ r = pre @ e @ r \<longleftrightarrow> pre' = pre @ (e :: 'a list)"
  by (metis append_assoc append_same_eq)

lemma simI:
  assumes "\<And>pre its v d'. fits pre its \<Longrightarrow> rd (dec_at pre its) = Inr (v, d') \<longleftrightarrow>
      (\<exists>rest pre'. p its = Some (v, rest) \<and> d' = dec_at pre' rest
         \<and> pre' @ enc_items rest = pre @ enc_items its \<and> fits pre' rest)"
    and "\<And>pre its v rest. \<lbrakk> fits pre its; p its = Some (v, rest) \<rbrakk> \<Longrightarrow>
      \<exists>pre'. pre' @ enc_items rest = pre @ enc_items its \<and> fits pre' rest"
  shows "sim rd p"
  unfolding sim_def
proof (intro allI impI)
  fix pre its
  assume f: "fits pre its"
  note i = assms(1) [OF f]
  show "case p its of None \<Rightarrow> \<not> is_ok (rd (dec_at pre its))
      | Some (v, rest) \<Rightarrow> \<exists>pre'. rd (dec_at pre its) = Inr (v, dec_at pre' rest)
          \<and> pre' @ enc_items rest = pre @ enc_items its \<and> fits pre' rest"
  proof (cases "p its")
    case None
    then show ?thesis using i by (auto simp: is_ok_def split: sum.splits)
  next
    case (Some w)
    obtain v rest where w: "w = (v, rest)" by (cases w)
    with Some assms(2) [OF f, of v rest] i show ?thesis by auto
  qed
qed

text \<open>A reader of exactly the items \<open>g v\<close> of the values \<open>v\<close> that satisfy \<open>ok\<close>.\<close>

definition reads :: "(decoder \<Rightarrow> 'e + 'a \<times> decoder) \<Rightarrow> ('a \<Rightarrow> cbor_item) \<Rightarrow> ('a \<Rightarrow> bool) \<Rightarrow> bool" where
  "reads rd g ok \<longleftrightarrow> (\<exists>p. sim rd p \<and> parses p g ok)"

lemma readsI:
  "sim rd p \<Longrightarrow> (\<And>its v rest. p its = Some (v, rest) \<longleftrightarrow> ok v \<and> its = g v # rest) \<Longrightarrow> reads rd g ok"
  unfolding reads_def by (blast intro: parsesI)

lemma readsE:
  assumes "reads rd g ok"
  obtains p where "sim rd p" and "parses p g ok"
  using assms unfolding reads_def by blast

text \<open>A whole object: the profile check, the reader from the start, and \<open>finish\<close>.\<close>

lemma reads_object:
  assumes "reads rd g ok" and "\<And>v. ok v \<Longrightarrow> within_limits (g v)" and "length bs < 2 ^ 64"
  shows "validate_canonical_profile_v1 bs = Inr ()
      \<and> (\<exists>d'. rd \<lparr> dec_bytes = bs, dec_cursor = 0 \<rparr> = Inr (v, d') \<and> dec_cursor d' = length (dec_bytes d'))
      \<longleftrightarrow> ok v \<and> bs = enc_item (g v)" (is "?L \<longleftrightarrow> ?R")
proof -
  from assms(1) obtain p where p: "sim rd p" "parses p g ok" by (auto simp: reads_def)
  have st: "fits [] [it]" "dec_at [] [it] = \<lparr> dec_bytes = bs, dec_cursor = 0 \<rparr>"
    if "within_limits it" "bs = enc_item it" for it
    using that assms(3) item_fits_sized by (auto simp: fits_def dec_at_def within_limits_def)
  show ?thesis
  proof
    assume L: ?L
    then obtain it where it: "within_limits it" "bs = enc_item it" using validate_profile_iff [OF assms(3)] by blast
    from L st(2) [OF it] obtain d' where "rd (dec_at [] [it]) = Inr (v, d')" by auto
    from sim_InrD [OF p(1) st(1) [OF it] this] obtain rest where r: "p [it] = Some (v, rest)" .
    with p(2) it show ?R by (auto simp: parsesD)
  next
    assume R: ?R
    with assms(2) have it: "within_limits (g v)" "bs = enc_item (g v)" by simp_all
    have "p [g v] = Some (v, [])" using R p(2) by (simp add: parsesD)
    from sim_SomeD [OF p(1) st(1) [OF it] this] obtain pre' where
      "rd (dec_at [] [g v]) = Inr (v, dec_at pre' [])" .
    moreover have "validate_canonical_profile_v1 bs = Inr ()" using it validate_enc_item by simp
    ultimately show ?L using st(2) [OF it] by (auto simp: dec_at_def)
  qed
qed

section \<open>What a decoder promises\<close>

locale canonical_head =
  fixes head :: "u8 \<Rightarrow> string \<Rightarrow> decoder \<Rightarrow> 'e + u64 \<times> decoder"
    and wrong :: "string \<Rightarrow> u8 \<Rightarrow> u8 \<Rightarrow> 'e"
  assumes head_item: "\<lbrakk> length bs < 2 ^ 64; unat m' < 8; slice_range bs c c' = Some (push_head [] m' a) \<rbrakk> \<Longrightarrow>
      head m field \<lparr> dec_bytes = bs, dec_cursor = c \<rparr> =
        (if m = m' then Inr (a, \<lparr> dec_bytes = bs, dec_cursor = c' \<rparr>) else Inl (wrong field m m'))"
    and head_end: "\<not> is_ok (head m field \<lparr> dec_bytes = bs, dec_cursor = length bs \<rparr>)"
begin

lemma head_dec_at:
  assumes "length (pre @ push_head [] m' a @ post) < 2 ^ 64" and "unat m' < 8"
  shows "head m field \<lparr> dec_bytes = pre @ push_head [] m' a @ post, dec_cursor = length pre \<rparr> =
      (if m = m' then Inr (a, \<lparr> dec_bytes = pre @ push_head [] m' a @ post,
         dec_cursor = length pre + length (push_head [] m' a) \<rparr>) else Inl (wrong field m m'))"
  by (rule head_item [OF assms slice_range_mid])

lemma head_Cons:
  assumes "fits pre (it # rest)"
  shows "head m field (dec_at pre (it # rest)) = (if m = item_major it
      then Inr (item_argument it, \<lparr> dec_bytes = pre @ enc_items (it # rest),
        dec_cursor = length pre + length (push_head [] (item_major it) (item_argument it)) \<rparr>)
      else Inl (wrong field m (item_major it)))"
proof -
  have e: "pre @ enc_items (it # rest) = pre @ push_head [] (item_major it) (item_argument it) @ item_rest it @ enc_items rest"
    by (simp add: enc_item_head)
  with assms have "length (pre @ push_head [] (item_major it) (item_argument it) @ item_rest it @ enc_items rest) < 2 ^ 64"
    by (metis fits_def length_append)
  from head_dec_at [OF this item_major_less, of m field] show ?thesis unfolding dec_at_def e .
qed

lemma head_cases:
  assumes "fits pre its" and "head m field (dec_at pre its) = Inr (a, d')"
  obtains it rest where "its = it # rest" and "m = item_major it" and "a = item_argument it"
    and "d' = \<lparr> dec_bytes = pre @ enc_items its,
       dec_cursor = length pre + length (push_head [] (item_major it) (item_argument it)) \<rparr>"
proof (cases its)
  case Nil
  then show ?thesis using assms(2) head_end [of m field pre] by (simp add: dec_at_def)
next
  case (Cons it rest)
  with assms head_Cons [of pre it rest m field] show ?thesis
    by (intro that) (auto split: if_splits)
qed

lemma head_ok:
  "fits pre (it # rest) \<Longrightarrow> head (item_major it) field (dec_at pre (it # rest)) = Inr (item_argument it,
    \<lparr> dec_bytes = pre @ enc_items (it # rest),
      dec_cursor = length pre + length (push_head [] (item_major it) (item_argument it)) \<rparr>)"
  by (simp only: head_Cons simp_thms if_True)

lemma head_unsigned:
  assumes "fits pre its"
  shows "head 0 field (dec_at pre its) = Inr (v, d') \<longleftrightarrow>
    (\<exists>rest. its = CUnsigned v # rest \<and> d' = dec_at (pre @ enc_item (CUnsigned v)) rest)"
proof
  assume h: "head 0 field (dec_at pre its) = Inr (v, d')"
  from head_cases [OF assms h] obtain it rest where "its = it # rest" "0 = item_major it"
    "v = item_argument it" "d' = \<lparr> dec_bytes = pre @ enc_items its,
       dec_cursor = length pre + length (push_head [] (item_major it) (item_argument it)) \<rparr>" .
  then show "\<exists>rest. its = CUnsigned v # rest \<and> d' = dec_at (pre @ enc_item (CUnsigned v)) rest"
    by (cases it) (auto simp: dec_at_def enc_CUnsigned)
next
  assume "\<exists>rest. its = CUnsigned v # rest \<and> d' = dec_at (pre @ enc_item (CUnsigned v)) rest"
  then show "head 0 field (dec_at pre its) = Inr (v, d')"
    using assms head_ok [of pre "CUnsigned v" _ field] by (auto simp: dec_at_def enc_CUnsigned)
qed

lemma head_array:
  assumes "fits pre its"
  shows "head 4 field (dec_at pre its) = Inr (n, d') \<longleftrightarrow>
    (\<exists>xs rest. its = CArray xs # rest \<and> n = word_of_nat (length xs) \<and> d' = dec_at (pre @ array_head n) (xs @ rest))"
proof
  assume h: "head 4 field (dec_at pre its) = Inr (n, d')"
  from head_cases [OF assms h] obtain it rest where "its = it # rest" "4 = item_major it"
    "n = item_argument it" "d' = \<lparr> dec_bytes = pre @ enc_items its,
       dec_cursor = length pre + length (push_head [] (item_major it) (item_argument it)) \<rparr>" .
  then show "\<exists>xs rest. its = CArray xs # rest \<and> n = word_of_nat (length xs) \<and> d' = dec_at (pre @ array_head n) (xs @ rest)"
    by (cases it) (auto simp: dec_at_def enc_CArray array_head_def)
next
  assume "\<exists>xs rest. its = CArray xs # rest \<and> n = word_of_nat (length xs) \<and> d' = dec_at (pre @ array_head n) (xs @ rest)"
  then obtain xs rest where e: "its = CArray xs # rest" "n = word_of_nat (length xs)"
    "d' = dec_at (pre @ array_head n) (xs @ rest)" by blast
  then show "head 4 field (dec_at pre its) = Inr (n, d')"
    using assms head_ok [of pre "CArray xs" rest field] by (simp add: dec_at_def enc_CArray array_head_def)
qed

text \<open>Reading a byte string: the head, then \<open>bytes.get(cursor..end)\<close> for the length it carries.\<close>

lemma head_bytes:
  assumes "fits pre its"
  shows "head 2 field (dec_at pre its) = Inr (n, d) \<and> slice_range (dec_bytes d) (dec_cursor d) (dec_cursor d + unat n) = Some b
      \<and> d' = d\<lparr> dec_cursor := dec_cursor d + unat n \<rparr> \<longleftrightarrow>
    (\<exists>rest. its = CBytes b # rest \<and> n = word_of_nat (length b)
       \<and> d = \<lparr> dec_bytes = pre @ enc_items its, dec_cursor = length pre + length (push_head [] 2 n) \<rparr>
       \<and> d' = dec_at (pre @ enc_item (CBytes b)) rest)" (is "?L \<longleftrightarrow> ?R")
proof
  have sl: "slice_range (pre @ push_head [] 2 k @ b @ r) (length pre + length (push_head [] 2 k))
      (length pre + length (push_head [] 2 k) + length b) = Some b" for k b r
    using slice_range_mid [of "pre @ push_head [] 2 k" b r] by simp
  {
    assume L: ?L
    from L obtain it rest where it: "its = it # rest" "2 = item_major it" "n = item_argument it"
      "d = \<lparr> dec_bytes = pre @ enc_items its,
         dec_cursor = length pre + length (push_head [] (item_major it) (item_argument it)) \<rparr>"
      using head_cases [OF assms] by blast
    then obtain b' where b': "it = CBytes b'" by (cases it) auto
    with assms it(1) have u: "unat n = length b'" using it(3)
      by (simp add: fits_def unat_word_of_nat_u64)
    have d: "d = \<lparr> dec_bytes = pre @ push_head [] 2 n @ b' @ enc_items rest,
        dec_cursor = length pre + length (push_head [] 2 n) \<rparr>"
      using it(1,3,4) b' by (simp add: enc_CBytes)
    have "slice_range (dec_bytes d) (dec_cursor d) (dec_cursor d + unat n) = Some b'"
      unfolding d u using sl [of n b' "enc_items rest"] by simp
    with L have b: "b = b'" by simp
    have "d\<lparr> dec_cursor := dec_cursor d + unat n \<rparr> = dec_at (pre @ enc_item (CBytes b)) rest"
      unfolding d u b using it(3) b' by (simp add: dec_at_def enc_CBytes add.assoc)
    moreover have "d = \<lparr> dec_bytes = pre @ enc_items its, dec_cursor = length pre + length (push_head [] 2 n) \<rparr>"
      using it(2,3,4) by (metis)
    moreover have "its = CBytes b # rest" "n = word_of_nat (length b)" using it(1,3) b b' by simp_all
    ultimately show ?R using L by metis
  }
  assume ?R
  then obtain rest where r: "its = CBytes b # rest" "n = word_of_nat (length b)"
    "d = \<lparr> dec_bytes = pre @ enc_items its, dec_cursor = length pre + length (push_head [] 2 n) \<rparr>"
    "d' = dec_at (pre @ enc_item (CBytes b)) rest" by blast
  with assms have u: "unat n = length b" by (simp add: fits_def unat_word_of_nat_u64)
  have e: "pre @ enc_items its = pre @ push_head [] 2 n @ b @ enc_items rest"
    using r(1,2) by (simp add: enc_CBytes)
  have "head 2 field (dec_at pre its) = Inr (n, d)"
    using head_ok [of pre "CBytes b" rest field] assms r(1-3) by simp
  moreover have "slice_range (dec_bytes d) (dec_cursor d) (dec_cursor d + unat n) = Some b"
    unfolding r(3) e u using sl [of n b "enc_items rest"] by simp
  moreover have "d' = d\<lparr> dec_cursor := dec_cursor d + unat n \<rparr>"
    unfolding r(3,4) e u using r(2) by (simp add: dec_at_def enc_CBytes add.assoc)
  ultimately show ?L by blast
qed

lemma sim_unsigned: "sim (head 0 field) p_unsigned"
proof (rule simI)
  fix pre its v d'
  assume f: "fits pre its"
  then show "head 0 field (dec_at pre its) = Inr (v, d') \<longleftrightarrow>
      (\<exists>rest pre'. p_unsigned its = Some (v, rest) \<and> d' = dec_at pre' rest
         \<and> pre' @ enc_items rest = pre @ enc_items its \<and> fits pre' rest)"
    by (auto simp: head_unsigned consumed)
qed (auto simp: consumed)

lemma sim_array: "sim (\<lambda>d. and_then (head 4 field d) (\<lambda>(n, d). Inr (unat n, d))) p_array"
proof (rule simI)
  fix pre its n d'
  assume f: "fits pre its"
  have u: "unat (word_of_nat (length xs) :: u64) = length xs" if "its = CArray xs # rest" for xs rest
    using f that by (simp add: fits_def unat_word_of_nat_u64)
  show "and_then (head 4 field (dec_at pre its)) (\<lambda>(n, d). Inr (unat n, d)) = Inr (n, d') \<longleftrightarrow>
      (\<exists>rest pre'. p_array its = Some (n, rest) \<and> d' = dec_at pre' rest
         \<and> pre' @ enc_items rest = pre @ enc_items its \<and> fits pre' rest)" (is "?L \<longleftrightarrow> ?R")
  proof
    assume ?L
    then obtain xs rest where x: "its = CArray xs # rest" "n = length xs"
      "d' = dec_at (pre @ array_head (word_of_nat (length xs))) (xs @ rest)"
      using u by (auto simp: result_simps head_array [OF f])
    with f show ?R
      by (auto simp: enc_CArray intro!: exI [of _ "xs @ rest"] exI [of _ "pre @ array_head (word_of_nat (length xs))"])
  next
    assume ?R
    then obtain rest pre' where r: "n \<le> length rest" "its = CArray (take n rest) # drop n rest" "d' = dec_at pre' rest"
      "pre' @ enc_items rest = pre @ enc_items its" by auto
    have "enc_items rest = enc_items (take n rest) @ enc_items (drop n rest)"
      by (simp flip: enc_items_simps(3))
    with r(1,2,4) have "pre' = pre @ array_head (word_of_nat n)" by (simp add: enc_CArray min_def)
    with r(1-3) have "head 4 field (dec_at pre its) = Inr (word_of_nat n, d')"
      unfolding head_array [OF f] by (intro exI [of _ "take n rest"] exI [of _ "drop n rest"]) (simp add: min_def)
    moreover have "unat (word_of_nat n :: u64) = n" using u [OF r(2)] r(1) by (simp add: min_def split: if_splits)
    ultimately show ?L by simp
  qed
next
  fix pre its n rest
  assume f: "fits pre its" and p: "p_array its = Some (n, rest)"
  then have its: "its = CArray (take n rest) # drop n rest" "n \<le> length rest" by auto
  have e: "enc_items rest = enc_items (take n rest) @ enc_items (drop n rest)"
    by (simp flip: enc_items_simps(3))
  have "fits (pre @ array_head (word_of_nat n)) (take n rest @ drop n rest)"
    using f its fits_step(3) [of pre "take n rest" "drop n rest"] by (simp add: min_def split: if_splits)
  then have "fits (pre @ array_head (word_of_nat n)) rest" by simp
  moreover have "(pre @ array_head (word_of_nat n)) @ enc_items rest = pre @ enc_items its"
    using its e by (simp add: enc_CArray min_def)
  ultimately show "\<exists>pre'. pre' @ enc_items rest = pre @ enc_items its \<and> fits pre' rest" by blast
qed

lemma sim_bytes:
  "sim (\<lambda>d. and_then (head 2 field d) (\<lambda>(len, d).
      and_then (ok_or e1 (usize_checked_add (dec_cursor d) (unat len))) (\<lambda>stop.
      and_then (ok_or e2 (slice_range (dec_bytes d) (dec_cursor d) stop)) (\<lambda>value.
      Inr (value, d\<lparr> dec_cursor := stop \<rparr>))))) p_bytes" (is "sim ?rd _")
proof (rule simI)
  fix pre its d' and b :: bytes
  assume f: "fits pre its"
  let ?n = "word_of_nat (length b) :: u64"
  let ?d = "\<lparr> dec_bytes = pre @ enc_items its, dec_cursor = length pre + length (push_head [] 2 ?n) \<rparr>"
  have "?rd (dec_at pre its) = Inr (b, d') \<longleftrightarrow>
      (\<exists>rest. its = CBytes b # rest \<and> d' = dec_at (pre @ enc_item (CBytes b)) rest)" (is "?L \<longleftrightarrow> ?R")
  proof
    assume ?L
    then obtain n d where "head 2 field (dec_at pre its) = Inr (n, d)"
      "slice_range (dec_bytes d) (dec_cursor d) (dec_cursor d + unat n) = Some b"
      "d' = d\<lparr> dec_cursor := dec_cursor d + unat n \<rparr>"
      by (auto simp: result_simps usize_checked_add_def split: if_splits)
    then show ?R using head_bytes [OF f, of field n d b d'] by auto
  next
    assume R: ?R
    with head_bytes [OF f, of field ?n ?d b d'] have h: "head 2 field (dec_at pre its) = Inr (?n, ?d)"
      "slice_range (dec_bytes ?d) (dec_cursor ?d) (dec_cursor ?d + unat ?n) = Some b"
      "d' = ?d\<lparr> dec_cursor := dec_cursor ?d + unat ?n \<rparr>" by blast+
    from slice_range_bounds [OF h(2)] f have "dec_cursor ?d + unat ?n < 2 ^ 64" by (simp add: fits_def)
    then show ?L using h(2,3) by (simp add: h(1) usize_checked_add_def)
  qed
  then show "?rd (dec_at pre its) = Inr (b, d') \<longleftrightarrow>
      (\<exists>rest pre'. p_bytes its = Some (b, rest) \<and> d' = dec_at pre' rest
         \<and> pre' @ enc_items rest = pre @ enc_items its \<and> fits pre' rest)"
    using f by (auto simp: consumed)
qed (auto simp: consumed)

end

end
