(* ===== verification/Canonical_Authority.thy ===== *)
theory Canonical_Authority
  imports Cursor_Decoder
begin

text \<open>
  \<open>canonical_authority_v1.rs\<close>: Device certificates, Device revocations, Account authority snapshots
  and Device session authorisations, with their encoders, decoders and the checks that make a
  session trusted. The Ed25519 library is the parameter \<open>ed\<close>. Each object is shown to be read back
  from exactly its own encoding, and an accepted session authorisation to carry the whole chain from
  the Account root key to the Device key that signed the session binding.
\<close>

section \<open>Constants, data and errors\<close>

definition MAX_CANONICAL_DEVICE_CAPABILITIES :: nat where
  "MAX_CANONICAL_DEVICE_CAPABILITIES = 2"

definition MAX_CANONICAL_AUTHORITY_REVOCATIONS :: nat where
  "MAX_CANONICAL_AUTHORITY_REVOCATIONS = 32"

definition CANONICAL_DEVICE_CERTIFICATE_SIGNATURE_DOMAIN :: bytes where
  "CANONICAL_DEVICE_CERTIFICATE_SIGNATURE_DOMAIN = ascii ''kilogram:device-certificate-signature:cbor-v1'' @ [0]"

definition CANONICAL_DEVICE_REVOCATION_SIGNATURE_DOMAIN :: bytes where
  "CANONICAL_DEVICE_REVOCATION_SIGNATURE_DOMAIN = ascii ''kilogram:device-revocation-signature:cbor-v1'' @ [0]"

definition CANONICAL_AUTHORITY_SNAPSHOT_SIGNATURE_DOMAIN :: bytes where
  "CANONICAL_AUTHORITY_SNAPSHOT_SIGNATURE_DOMAIN
     = ascii ''kilogram:account-authority-snapshot-signature:cbor-v1'' @ [0]"

definition CANONICAL_DEVICE_SESSION_AUTHORIZATION_SIGNATURE_DOMAIN :: bytes where
  "CANONICAL_DEVICE_SESSION_AUTHORIZATION_SIGNATURE_DOMAIN
     = ascii ''kilogram:device-session-authorization-signature:cbor-v1'' @ [0]"

datatype CanonicalDeviceCapabilityV1 = SignEvents | SyncHistory

datatype canonical_authority_error =
    AuthorityWire canonical_wire_error
  | WrongArrayLength string nat nat
  | WrongMajorType string u8 u8
  | WrongByteStringLength string nat nat
  | WrongUnsignedValue string u64 u64
  | UnknownCapability u64
  | EmptyCapabilities
  | NonCanonicalCapabilities
  | NonCanonicalRevocations
  | AccountMismatch string
  | CertificateOutsideSnapshot u64 u64
  | RevocationOutsideSnapshot u64 u64
  | SessionDeviceRevoked
  | InvalidPublicKey string
  | InvalidSignature string

fun capability_code :: "CanonicalDeviceCapabilityV1 \<Rightarrow> u64" where
  "capability_code SignEvents = 1"
| "capability_code SyncHistory = 2"

definition capability_from_code :: "u64 \<Rightarrow> canonical_authority_error + CanonicalDeviceCapabilityV1" where
  "capability_from_code code =
     (if code = 1 then Inr SignEvents else if code = 2 then Inr SyncHistory else Inl (UnknownCapability code))"

text \<open>The derived order is the order of the discriminants.\<close>

instantiation CanonicalDeviceCapabilityV1 :: linorder
begin

definition less_eq_CanonicalDeviceCapabilityV1 :: "CanonicalDeviceCapabilityV1 \<Rightarrow> CanonicalDeviceCapabilityV1 \<Rightarrow> bool" where
  "less_eq_CanonicalDeviceCapabilityV1 a b \<longleftrightarrow> capability_code a \<le> capability_code b"

definition less_CanonicalDeviceCapabilityV1 :: "CanonicalDeviceCapabilityV1 \<Rightarrow> CanonicalDeviceCapabilityV1 \<Rightarrow> bool" where
  "less_CanonicalDeviceCapabilityV1 a b \<longleftrightarrow> capability_code a < capability_code b"

instance
proof
  fix x y z :: CanonicalDeviceCapabilityV1
  show "x < y \<longleftrightarrow> x \<le> y \<and> \<not> y \<le> x"
    by (auto simp: less_eq_CanonicalDeviceCapabilityV1_def less_CanonicalDeviceCapabilityV1_def)
  show "x \<le> x" by (simp add: less_eq_CanonicalDeviceCapabilityV1_def)
  show "x \<le> y \<Longrightarrow> y \<le> z \<Longrightarrow> x \<le> z"
    unfolding less_eq_CanonicalDeviceCapabilityV1_def by (rule order_trans)
  show "x \<le> y \<Longrightarrow> y \<le> x \<Longrightarrow> x = y"
    by (cases x; cases y) (simp_all add: less_eq_CanonicalDeviceCapabilityV1_def word_le_nat_alt)
  show "x \<le> y \<or> y \<le> x"
    unfolding less_eq_CanonicalDeviceCapabilityV1_def by (rule linear)
qed

end

record CanonicalDeviceCertificateContentV1 =
  cert_account_id :: bytes
  cert_device_id :: bytes
  cert_encryption_public_key :: bytes
  cert_authority_sequence :: u64
  cert_capabilities :: "CanonicalDeviceCapabilityV1 list"

record CanonicalSignedDeviceCertificateV1 =
  cert_content :: CanonicalDeviceCertificateContentV1
  cert_signature :: bytes

record CanonicalDeviceRevocationContentV1 =
  rev_account_id :: bytes
  rev_device_id :: bytes
  rev_authority_sequence :: u64

record CanonicalSignedDeviceRevocationV1 =
  rev_content :: CanonicalDeviceRevocationContentV1
  rev_signature :: bytes

record CanonicalAccountAuthoritySnapshotContentV1 =
  snap_account_id :: bytes
  snap_revision :: u64
  snap_revocations :: "CanonicalSignedDeviceRevocationV1 list"

record CanonicalSignedAccountAuthoritySnapshotV1 =
  snap_content :: CanonicalAccountAuthoritySnapshotContentV1
  snap_signature :: bytes

record CanonicalDeviceSessionAuthorizationContentV1 =
  sess_session_binding :: bytes
  sess_certificate :: CanonicalSignedDeviceCertificateV1
  sess_authority_snapshot :: CanonicalSignedAccountAuthoritySnapshotV1

record CanonicalSignedDeviceSessionAuthorizationV1 =
  sess_content :: CanonicalDeviceSessionAuthorizationContentV1
  sess_signature :: bytes

section \<open>Content checks\<close>

definition validate_certificate_content
  :: "CanonicalDeviceCertificateContentV1 \<Rightarrow> canonical_authority_error + unit" where
  "validate_certificate_content content =
     (if cert_capabilities content = [] then Inl EmptyCapabilities
      else if length (cert_capabilities content) > MAX_CANONICAL_DEVICE_CAPABILITIES
      then Inl (AuthorityWire (TooManyItems ''capabilities'' (length (cert_capabilities content))
        MAX_CANONICAL_DEVICE_CAPABILITIES))
      else if windows2_any (\<lambda>a b. a \<ge> b) (cert_capabilities content) then Inl NonCanonicalCapabilities
      else Inr ())"

definition validate_snapshot_content
  :: "CanonicalAccountAuthoritySnapshotContentV1 \<Rightarrow> canonical_authority_error + unit" where
  "validate_snapshot_content content =
     (if length (snap_revocations content) > MAX_CANONICAL_AUTHORITY_REVOCATIONS
      then Inl (AuthorityWire (TooManyItems ''revocations'' (length (snap_revocations content))
        MAX_CANONICAL_AUTHORITY_REVOCATIONS))
      else and_then (for_each (\<lambda>revocation.
         if rev_account_id (rev_content revocation) \<noteq> snap_account_id content
         then Inl (AccountMismatch ''authority snapshot revocation'')
         else if rev_authority_sequence (rev_content revocation) \<ge> snap_revision content
         then Inl (RevocationOutsideSnapshot (rev_authority_sequence (rev_content revocation)) (snap_revision content))
         else Inr ()) (snap_revocations content)) (\<lambda>_.
       if windows2_any (\<lambda>a b. rev_device_id (rev_content a) \<ge> rev_device_id (rev_content b)) (snap_revocations content)
       then Inl NonCanonicalRevocations
       else Inr ()))"

definition validate_session_content
  :: "CanonicalDeviceSessionAuthorizationContentV1 \<Rightarrow> canonical_authority_error + unit" where
  "validate_session_content content =
     (let certificate = cert_content (sess_certificate content);
          snapshot = snap_content (sess_authority_snapshot content) in
      and_then (validate_certificate_content certificate) (\<lambda>_.
      and_then (validate_snapshot_content snapshot) (\<lambda>_.
      if cert_account_id certificate \<noteq> snap_account_id snapshot
      then Inl (AccountMismatch ''session certificate and authority snapshot'')
      else if cert_authority_sequence certificate \<ge> snap_revision snapshot
      then Inl (CertificateOutsideSnapshot (cert_authority_sequence certificate) (snap_revision snapshot))
      else if \<exists>revocation \<in> set (snap_revocations snapshot).
          rev_device_id (rev_content revocation) = cert_device_id certificate
      then Inl SessionDeviceRevoked
      else Inr ())))"

definition verify_ed25519
  :: "ed25519 \<Rightarrow> bytes \<Rightarrow> bytes \<Rightarrow> bytes \<Rightarrow> string \<Rightarrow> canonical_authority_error + unit" where
  "verify_ed25519 ed verifying_key message signature object =
     (if \<not> key_from_bytes_ok ed verifying_key then Inl (InvalidPublicKey object)
      else if \<not> signature_try_from_ok ed signature then Inl (InvalidSignature object)
      else if \<not> verify_strict ed verifying_key message signature then Inl (InvalidSignature object)
      else Inr ())"

section \<open>Encoders and verification\<close>

definition encode_device_certificate_content_v1
  :: "CanonicalDeviceCertificateContentV1 \<Rightarrow> canonical_authority_error + bytes" where
  "encode_device_certificate_content_v1 content =
     and_then (validate_certificate_content content) (\<lambda>_.
     let encoded = push_array_header [] 6;
         encoded = push_unsigned encoded CANONICAL_PROFILE_VERSION;
         encoded = push_bytes encoded (cert_account_id content);
         encoded = push_bytes encoded (cert_device_id content);
         encoded = push_bytes encoded (cert_encryption_public_key content);
         encoded = push_unsigned encoded (cert_authority_sequence content);
         encoded = push_array_header encoded (word_of_nat (length (cert_capabilities content)));
         encoded = foldl (\<lambda>encoded capability. push_unsigned encoded (capability_code capability))
           encoded (cert_capabilities content)
     in Inr encoded)"

definition device_certificate_signing_bytes_v1
  :: "CanonicalDeviceCertificateContentV1 \<Rightarrow> canonical_authority_error + bytes" where
  "device_certificate_signing_bytes_v1 content =
     and_then (encode_device_certificate_content_v1 content) (\<lambda>encoded.
     Inr (prefixed CANONICAL_DEVICE_CERTIFICATE_SIGNATURE_DOMAIN encoded))"

definition encode_signed_device_certificate_unverified
  :: "CanonicalSignedDeviceCertificateV1 \<Rightarrow> canonical_authority_error + bytes" where
  "encode_signed_device_certificate_unverified certificate =
     and_then (encode_device_certificate_content_v1 (cert_content certificate)) (\<lambda>content.
     let encoded = push_array_header [] 3;
         encoded = push_unsigned encoded CANONICAL_PROFILE_VERSION;
         encoded = encoded @ content;
         encoded = push_bytes encoded (cert_signature certificate)
     in Inr encoded)"

definition verify_signed_device_certificate_v1
  :: "ed25519 \<Rightarrow> CanonicalSignedDeviceCertificateV1 \<Rightarrow> canonical_authority_error + unit" where
  "verify_signed_device_certificate_v1 ed certificate =
     and_then (device_certificate_signing_bytes_v1 (cert_content certificate)) (\<lambda>message.
     verify_ed25519 ed (cert_account_id (cert_content certificate)) message (cert_signature certificate)
       ''signed-device-certificate-v1'')"

definition encode_signed_device_certificate_v1
  :: "ed25519 \<Rightarrow> CanonicalSignedDeviceCertificateV1 \<Rightarrow> canonical_authority_error + bytes" where
  "encode_signed_device_certificate_v1 ed certificate =
     and_then (verify_signed_device_certificate_v1 ed certificate) (\<lambda>_.
     encode_signed_device_certificate_unverified certificate)"

definition encode_device_revocation_content_v1 :: "CanonicalDeviceRevocationContentV1 \<Rightarrow> bytes" where
  "encode_device_revocation_content_v1 content =
     (let encoded = push_array_header [] 4;
          encoded = push_unsigned encoded CANONICAL_PROFILE_VERSION;
          encoded = push_bytes encoded (rev_account_id content);
          encoded = push_bytes encoded (rev_device_id content)
      in push_unsigned encoded (rev_authority_sequence content))"

definition device_revocation_signing_bytes_v1 :: "CanonicalDeviceRevocationContentV1 \<Rightarrow> bytes" where
  "device_revocation_signing_bytes_v1 content =
     prefixed CANONICAL_DEVICE_REVOCATION_SIGNATURE_DOMAIN (encode_device_revocation_content_v1 content)"

definition encode_signed_device_revocation_unverified :: "CanonicalSignedDeviceRevocationV1 \<Rightarrow> bytes" where
  "encode_signed_device_revocation_unverified revocation =
     (let encoded = push_array_header [] 3;
          encoded = push_unsigned encoded CANONICAL_PROFILE_VERSION;
          encoded = encoded @ encode_device_revocation_content_v1 (rev_content revocation)
      in push_bytes encoded (rev_signature revocation))"

definition verify_signed_device_revocation_v1
  :: "ed25519 \<Rightarrow> CanonicalSignedDeviceRevocationV1 \<Rightarrow> canonical_authority_error + unit" where
  "verify_signed_device_revocation_v1 ed revocation =
     verify_ed25519 ed (rev_account_id (rev_content revocation))
       (device_revocation_signing_bytes_v1 (rev_content revocation)) (rev_signature revocation)
       ''signed-device-revocation-v1''"

definition encode_signed_device_revocation_v1
  :: "ed25519 \<Rightarrow> CanonicalSignedDeviceRevocationV1 \<Rightarrow> canonical_authority_error + bytes" where
  "encode_signed_device_revocation_v1 ed revocation =
     and_then (verify_signed_device_revocation_v1 ed revocation) (\<lambda>_.
     Inr (encode_signed_device_revocation_unverified revocation))"

definition encode_account_authority_snapshot_content_v1
  :: "ed25519 \<Rightarrow> CanonicalAccountAuthoritySnapshotContentV1 \<Rightarrow> canonical_authority_error + bytes" where
  "encode_account_authority_snapshot_content_v1 ed content =
     and_then (validate_snapshot_content content) (\<lambda>_.
     let encoded = push_array_header [] 4;
         encoded = push_unsigned encoded CANONICAL_PROFILE_VERSION;
         encoded = push_bytes encoded (snap_account_id content);
         encoded = push_unsigned encoded (snap_revision content);
         encoded = push_array_header encoded (word_of_nat (length (snap_revocations content)))
     in extend_each (encode_signed_device_revocation_v1 ed) encoded (snap_revocations content))"

definition account_authority_snapshot_signing_bytes_v1
  :: "ed25519 \<Rightarrow> CanonicalAccountAuthoritySnapshotContentV1 \<Rightarrow> canonical_authority_error + bytes" where
  "account_authority_snapshot_signing_bytes_v1 ed content =
     and_then (encode_account_authority_snapshot_content_v1 ed content) (\<lambda>encoded.
     Inr (prefixed CANONICAL_AUTHORITY_SNAPSHOT_SIGNATURE_DOMAIN encoded))"

definition encode_signed_account_authority_snapshot_unverified
  :: "ed25519 \<Rightarrow> CanonicalSignedAccountAuthoritySnapshotV1 \<Rightarrow> canonical_authority_error + bytes" where
  "encode_signed_account_authority_snapshot_unverified ed snapshot =
     and_then (encode_account_authority_snapshot_content_v1 ed (snap_content snapshot)) (\<lambda>content.
     let encoded = push_array_header [] 3;
         encoded = push_unsigned encoded CANONICAL_PROFILE_VERSION;
         encoded = encoded @ content;
         encoded = push_bytes encoded (snap_signature snapshot)
     in Inr encoded)"

definition verify_signed_account_authority_snapshot_v1
  :: "ed25519 \<Rightarrow> CanonicalSignedAccountAuthoritySnapshotV1 \<Rightarrow> canonical_authority_error + unit" where
  "verify_signed_account_authority_snapshot_v1 ed snapshot =
     and_then (validate_snapshot_content (snap_content snapshot)) (\<lambda>_.
     and_then (for_each (verify_signed_device_revocation_v1 ed) (snap_revocations (snap_content snapshot))) (\<lambda>_.
     and_then (account_authority_snapshot_signing_bytes_v1 ed (snap_content snapshot)) (\<lambda>message.
     verify_ed25519 ed (snap_account_id (snap_content snapshot)) message (snap_signature snapshot)
       ''signed-account-authority-snapshot-v1'')))"

definition encode_signed_account_authority_snapshot_v1
  :: "ed25519 \<Rightarrow> CanonicalSignedAccountAuthoritySnapshotV1 \<Rightarrow> canonical_authority_error + bytes" where
  "encode_signed_account_authority_snapshot_v1 ed snapshot =
     and_then (verify_signed_account_authority_snapshot_v1 ed snapshot) (\<lambda>_.
     encode_signed_account_authority_snapshot_unverified ed snapshot)"

definition encode_device_session_authorization_content_v1
  :: "ed25519 \<Rightarrow> CanonicalDeviceSessionAuthorizationContentV1 \<Rightarrow> canonical_authority_error + bytes" where
  "encode_device_session_authorization_content_v1 ed content =
     and_then (validate_session_content content) (\<lambda>_.
     let encoded = push_array_header [] 4;
         encoded = push_unsigned encoded CANONICAL_PROFILE_VERSION;
         encoded = push_bytes encoded (sess_session_binding content)
     in and_then (encode_signed_device_certificate_v1 ed (sess_certificate content)) (\<lambda>certificate.
        let encoded = encoded @ certificate
        in and_then (encode_signed_account_authority_snapshot_v1 ed (sess_authority_snapshot content)) (\<lambda>snapshot.
           Inr (encoded @ snapshot))))"

definition device_session_authorization_signing_bytes_v1
  :: "ed25519 \<Rightarrow> CanonicalDeviceSessionAuthorizationContentV1 \<Rightarrow> canonical_authority_error + bytes" where
  "device_session_authorization_signing_bytes_v1 ed content =
     and_then (encode_device_session_authorization_content_v1 ed content) (\<lambda>encoded.
     Inr (prefixed CANONICAL_DEVICE_SESSION_AUTHORIZATION_SIGNATURE_DOMAIN encoded))"

definition verify_signed_device_session_authorization_v1
  :: "ed25519 \<Rightarrow> CanonicalSignedDeviceSessionAuthorizationV1 \<Rightarrow> canonical_authority_error + unit" where
  "verify_signed_device_session_authorization_v1 ed authorization =
     and_then (validate_session_content (sess_content authorization)) (\<lambda>_.
     and_then (verify_signed_device_certificate_v1 ed (sess_certificate (sess_content authorization))) (\<lambda>_.
     and_then (verify_signed_account_authority_snapshot_v1 ed (sess_authority_snapshot (sess_content authorization))) (\<lambda>_.
     and_then (device_session_authorization_signing_bytes_v1 ed (sess_content authorization)) (\<lambda>message.
     verify_ed25519 ed (cert_device_id (cert_content (sess_certificate (sess_content authorization)))) message
       (sess_signature authorization) ''signed-device-session-authorization-v1''))))"

definition encode_signed_device_session_authorization_v1
  :: "ed25519 \<Rightarrow> CanonicalSignedDeviceSessionAuthorizationV1 \<Rightarrow> canonical_authority_error + bytes" where
  "encode_signed_device_session_authorization_v1 ed authorization =
     and_then (verify_signed_device_session_authorization_v1 ed authorization) (\<lambda>_.
     and_then (encode_device_session_authorization_content_v1 ed (sess_content authorization)) (\<lambda>content.
     let encoded = push_array_header [] 3;
         encoded = push_unsigned encoded CANONICAL_PROFILE_VERSION;
         encoded = encoded @ content;
         encoded = push_bytes encoded (sess_signature authorization)
     in Inr encoded))"

section \<open>AuthorityDecoder\<close>

definition auth_new :: "bytes \<Rightarrow> decoder" where
  "auth_new bytes = \<lparr> dec_bytes = bytes, dec_cursor = 0 \<rparr>"

definition auth_finish :: "decoder \<Rightarrow> canonical_authority_error + unit" where
  "auth_finish d = (if dec_cursor d = length (dec_bytes d) then Inr () else Inl (AuthorityWire TrailingData))"

definition auth_byte :: "decoder \<Rightarrow> canonical_authority_error + u8 \<times> decoder" where
  "auth_byte d = and_then (ok_or (AuthorityWire UnexpectedEnd) (slice_get (dec_bytes d) (dec_cursor d))) (\<lambda>value.
     Inr (value, d\<lparr> dec_cursor := dec_cursor d + 1 \<rparr>))"

definition auth_bytes_array :: "nat \<Rightarrow> decoder \<Rightarrow> canonical_authority_error + bytes \<times> decoder" where
  "auth_bytes_array n d =
     and_then (ok_or (AuthorityWire LengthOverflow) (usize_checked_add (dec_cursor d) n)) (\<lambda>stop.
     and_then (ok_or (AuthorityWire UnexpectedEnd) (slice_range (dec_bytes d) (dec_cursor d) stop)) (\<lambda>value.
     Inr (value, d\<lparr> dec_cursor := stop \<rparr>)))"

definition auth_argument :: "u8 \<Rightarrow> decoder \<Rightarrow> canonical_authority_error + u64 \<times> decoder" where
  "auth_argument additional d =
     (if unat additional \<le> 23 then Inr (ucast additional, d)
      else if additional = 24 then and_then (auth_byte d) (\<lambda>(value, d).
        if unat value < 24 then Inl (AuthorityWire NonMinimalArgument) else Inr (ucast value, d))
      else if additional = 25 then and_then (auth_bytes_array 2 d) (\<lambda>(value, d).
        if from_be_bytes value \<le> 255 then Inl (AuthorityWire NonMinimalArgument)
        else Inr (word_of_nat (from_be_bytes value), d))
      else if additional = 26 then and_then (auth_bytes_array 4 d) (\<lambda>(value, d).
        if from_be_bytes value \<le> 65535 then Inl (AuthorityWire NonMinimalArgument)
        else Inr (word_of_nat (from_be_bytes value), d))
      else if additional = 27 then and_then (auth_bytes_array 8 d) (\<lambda>(value, d).
        if from_be_bytes value \<le> 4294967295 then Inl (AuthorityWire NonMinimalArgument)
        else Inr (word_of_nat (from_be_bytes value), d))
      else if additional = 31 then Inl (AuthorityWire IndefiniteLength)
      else Inl (AuthorityWire (ReservedAdditionalInformation additional)))"

definition auth_head :: "u8 \<Rightarrow> string \<Rightarrow> decoder \<Rightarrow> canonical_authority_error + u64 \<times> decoder" where
  "auth_head expected_major field d =
     and_then (auth_byte d) (\<lambda>(initial, d).
     let actual_major = drop_bit 5 initial in
     if actual_major \<noteq> expected_major then Inl (WrongMajorType field expected_major actual_major)
     else auth_argument (initial AND 31) d)"

definition auth_array :: "string \<Rightarrow> decoder \<Rightarrow> canonical_authority_error + nat \<times> decoder" where
  "auth_array field d = and_then (auth_head 4 field d) (\<lambda>(n, d). Inr (unat n, d))"

definition auth_unsigned :: "string \<Rightarrow> decoder \<Rightarrow> canonical_authority_error + u64 \<times> decoder" where
  "auth_unsigned field d = auth_head 0 field d"

definition auth_fixed_bytes :: "nat \<Rightarrow> string \<Rightarrow> decoder \<Rightarrow> canonical_authority_error + bytes \<times> decoder" where
  "auth_fixed_bytes N field d =
     and_then (auth_head 2 field d) (\<lambda>(len, d).
     if unat len \<noteq> N then Inl (WrongByteStringLength field N (unat len))
     else and_then (ok_or (AuthorityWire LengthOverflow) (usize_checked_add (dec_cursor d) N)) (\<lambda>stop.
       and_then (ok_or (AuthorityWire UnexpectedEnd) (slice_range (dec_bytes d) (dec_cursor d) stop)) (\<lambda>value.
       Inr (value, d\<lparr> dec_cursor := stop \<rparr>))))"

definition auth_expect_array :: "string \<Rightarrow> nat \<Rightarrow> decoder \<Rightarrow> canonical_authority_error + unit \<times> decoder" where
  "auth_expect_array object expected d =
     and_then (auth_array object d) (\<lambda>(actual, d).
     if actual \<noteq> expected then Inl (WrongArrayLength object expected actual) else Inr ((), d))"

definition auth_expect_version :: "string \<Rightarrow> decoder \<Rightarrow> canonical_authority_error + unit \<times> decoder" where
  "auth_expect_version field d =
     and_then (auth_unsigned field d) (\<lambda>(actual, d).
     if actual \<noteq> CANONICAL_PROFILE_VERSION
     then Inl (WrongUnsignedValue field CANONICAL_PROFILE_VERSION actual) else Inr ((), d))"

section \<open>Decoders\<close>

definition read_capability :: "decoder \<Rightarrow> canonical_authority_error + CanonicalDeviceCapabilityV1 \<times> decoder" where
  "read_capability d =
     and_then (auth_unsigned ''device-certificate-content-v1.capability'' d) (\<lambda>(code, d).
     and_then (capability_from_code code) (\<lambda>capability. Inr (capability, d)))"

definition decode_device_certificate_content_from
  :: "decoder \<Rightarrow> canonical_authority_error + CanonicalDeviceCertificateContentV1 \<times> decoder" where
  "decode_device_certificate_content_from d =
     and_then (auth_expect_array ''device-certificate-content-v1'' 6 d) (\<lambda>(_, d).
     and_then (auth_expect_version ''device-certificate-content-v1.schema_version'' d) (\<lambda>(_, d).
     and_then (auth_fixed_bytes 32 ''device-certificate-content-v1.account_id'' d) (\<lambda>(account_id, d).
     and_then (auth_fixed_bytes 32 ''device-certificate-content-v1.device_id'' d) (\<lambda>(device_id, d).
     and_then (auth_fixed_bytes 32 ''device-certificate-content-v1.encryption_public_key'' d) (\<lambda>(encryption_public_key, d).
     and_then (auth_unsigned ''device-certificate-content-v1.authority_sequence'' d) (\<lambda>(authority_sequence, d).
     and_then (auth_array ''device-certificate-content-v1.capabilities'' d) (\<lambda>(capability_count, d).
     if capability_count > MAX_CANONICAL_DEVICE_CAPABILITIES
     then Inl (AuthorityWire (TooManyItems ''capabilities'' capability_count MAX_CANONICAL_DEVICE_CAPABILITIES))
     else and_then (read_n capability_count read_capability d) (\<lambda>(capabilities, d).
     let content = \<lparr> cert_account_id = account_id, cert_device_id = device_id,
       cert_encryption_public_key = encryption_public_key, cert_authority_sequence = authority_sequence,
       cert_capabilities = capabilities \<rparr>
     in and_then (validate_certificate_content content) (\<lambda>_. Inr (content, d))))))))))"

definition decode_signed_device_certificate_from
  :: "decoder \<Rightarrow> canonical_authority_error + CanonicalSignedDeviceCertificateV1 \<times> decoder" where
  "decode_signed_device_certificate_from d =
     and_then (auth_expect_array ''signed-device-certificate-v1'' 3 d) (\<lambda>(_, d).
     and_then (auth_expect_version ''signed-device-certificate-v1.schema_version'' d) (\<lambda>(_, d).
     and_then (decode_device_certificate_content_from d) (\<lambda>(content, d).
     and_then (auth_fixed_bytes 64 ''signed-device-certificate-v1.signature'' d) (\<lambda>(signature, d).
     and_then (validate_certificate_content content) (\<lambda>_.
     Inr (\<lparr> cert_content = content, cert_signature = signature \<rparr>, d))))))"

definition decode_device_revocation_content_from
  :: "decoder \<Rightarrow> canonical_authority_error + CanonicalDeviceRevocationContentV1 \<times> decoder" where
  "decode_device_revocation_content_from d =
     and_then (auth_expect_array ''device-revocation-content-v1'' 4 d) (\<lambda>(_, d).
     and_then (auth_expect_version ''device-revocation-content-v1.schema_version'' d) (\<lambda>(_, d).
     and_then (auth_fixed_bytes 32 ''device-revocation-content-v1.account_id'' d) (\<lambda>(account_id, d).
     and_then (auth_fixed_bytes 32 ''device-revocation-content-v1.device_id'' d) (\<lambda>(device_id, d).
     and_then (auth_unsigned ''device-revocation-content-v1.authority_sequence'' d) (\<lambda>(authority_sequence, d).
     Inr (\<lparr> rev_account_id = account_id, rev_device_id = device_id,
       rev_authority_sequence = authority_sequence \<rparr>, d))))))"

definition decode_signed_device_revocation_from
  :: "decoder \<Rightarrow> canonical_authority_error + CanonicalSignedDeviceRevocationV1 \<times> decoder" where
  "decode_signed_device_revocation_from d =
     and_then (auth_expect_array ''signed-device-revocation-v1'' 3 d) (\<lambda>(_, d).
     and_then (auth_expect_version ''signed-device-revocation-v1.schema_version'' d) (\<lambda>(_, d).
     and_then (decode_device_revocation_content_from d) (\<lambda>(content, d).
     and_then (auth_fixed_bytes 64 ''signed-device-revocation-v1.signature'' d) (\<lambda>(signature, d).
     Inr (\<lparr> rev_content = content, rev_signature = signature \<rparr>, d)))))"

definition decode_account_authority_snapshot_content_from
  :: "decoder \<Rightarrow> canonical_authority_error + CanonicalAccountAuthoritySnapshotContentV1 \<times> decoder" where
  "decode_account_authority_snapshot_content_from d =
     and_then (auth_expect_array ''account-authority-snapshot-content-v1'' 4 d) (\<lambda>(_, d).
     and_then (auth_expect_version ''account-authority-snapshot-content-v1.schema_version'' d) (\<lambda>(_, d).
     and_then (auth_fixed_bytes 32 ''account-authority-snapshot-content-v1.account_id'' d) (\<lambda>(account_id, d).
     and_then (auth_unsigned ''account-authority-snapshot-content-v1.revision'' d) (\<lambda>(revision, d).
     and_then (auth_array ''account-authority-snapshot-content-v1.revocations'' d) (\<lambda>(revocation_count, d).
     if revocation_count > MAX_CANONICAL_AUTHORITY_REVOCATIONS
     then Inl (AuthorityWire (TooManyItems ''revocations'' revocation_count MAX_CANONICAL_AUTHORITY_REVOCATIONS))
     else and_then (read_n revocation_count decode_signed_device_revocation_from d) (\<lambda>(revocations, d).
     let content = \<lparr> snap_account_id = account_id, snap_revision = revision, snap_revocations = revocations \<rparr>
     in and_then (validate_snapshot_content content) (\<lambda>_. Inr (content, d))))))))"

definition decode_signed_account_authority_snapshot_from
  :: "decoder \<Rightarrow> canonical_authority_error + CanonicalSignedAccountAuthoritySnapshotV1 \<times> decoder" where
  "decode_signed_account_authority_snapshot_from d =
     and_then (auth_expect_array ''signed-account-authority-snapshot-v1'' 3 d) (\<lambda>(_, d).
     and_then (auth_expect_version ''signed-account-authority-snapshot-v1.schema_version'' d) (\<lambda>(_, d).
     and_then (decode_account_authority_snapshot_content_from d) (\<lambda>(content, d).
     and_then (auth_fixed_bytes 64 ''signed-account-authority-snapshot-v1.signature'' d) (\<lambda>(signature, d).
     and_then (validate_snapshot_content content) (\<lambda>_.
     Inr (\<lparr> snap_content = content, snap_signature = signature \<rparr>, d))))))"

definition decode_device_session_authorization_content_from
  :: "decoder \<Rightarrow> canonical_authority_error + CanonicalDeviceSessionAuthorizationContentV1 \<times> decoder" where
  "decode_device_session_authorization_content_from d =
     and_then (auth_expect_array ''device-session-authorization-content-v1'' 4 d) (\<lambda>(_, d).
     and_then (auth_expect_version ''device-session-authorization-content-v1.schema_version'' d) (\<lambda>(_, d).
     and_then (auth_fixed_bytes 32 ''device-session-authorization-content-v1.session_binding'' d) (\<lambda>(session_binding, d).
     and_then (decode_signed_device_certificate_from d) (\<lambda>(certificate, d).
     and_then (decode_signed_account_authority_snapshot_from d) (\<lambda>(authority_snapshot, d).
     let content = \<lparr> sess_session_binding = session_binding, sess_certificate = certificate,
       sess_authority_snapshot = authority_snapshot \<rparr>
     in and_then (validate_session_content content) (\<lambda>_. Inr (content, d)))))))"

definition decode_signed_device_certificate_v1
  :: "bytes \<Rightarrow> canonical_authority_error + CanonicalSignedDeviceCertificateV1" where
  "decode_signed_device_certificate_v1 bytes =
     and_then (map_err AuthorityWire (validate_canonical_profile_v1 bytes)) (\<lambda>_.
     and_then (decode_signed_device_certificate_from (auth_new bytes)) (\<lambda>(certificate, d).
     and_then (auth_finish d) (\<lambda>_. Inr certificate)))"

definition decode_and_verify_signed_device_certificate_v1
  :: "ed25519 \<Rightarrow> bytes \<Rightarrow> canonical_authority_error + CanonicalSignedDeviceCertificateV1" where
  "decode_and_verify_signed_device_certificate_v1 ed bytes =
     and_then (decode_signed_device_certificate_v1 bytes) (\<lambda>certificate.
     and_then (verify_signed_device_certificate_v1 ed certificate) (\<lambda>_. Inr certificate))"

definition decode_signed_device_revocation_v1
  :: "bytes \<Rightarrow> canonical_authority_error + CanonicalSignedDeviceRevocationV1" where
  "decode_signed_device_revocation_v1 bytes =
     and_then (map_err AuthorityWire (validate_canonical_profile_v1 bytes)) (\<lambda>_.
     and_then (decode_signed_device_revocation_from (auth_new bytes)) (\<lambda>(revocation, d).
     and_then (auth_finish d) (\<lambda>_. Inr revocation)))"

definition decode_and_verify_signed_device_revocation_v1
  :: "ed25519 \<Rightarrow> bytes \<Rightarrow> canonical_authority_error + CanonicalSignedDeviceRevocationV1" where
  "decode_and_verify_signed_device_revocation_v1 ed bytes =
     and_then (decode_signed_device_revocation_v1 bytes) (\<lambda>revocation.
     and_then (verify_signed_device_revocation_v1 ed revocation) (\<lambda>_. Inr revocation))"

definition decode_signed_account_authority_snapshot_v1
  :: "bytes \<Rightarrow> canonical_authority_error + CanonicalSignedAccountAuthoritySnapshotV1" where
  "decode_signed_account_authority_snapshot_v1 bytes =
     and_then (map_err AuthorityWire (validate_canonical_profile_v1 bytes)) (\<lambda>_.
     and_then (decode_signed_account_authority_snapshot_from (auth_new bytes)) (\<lambda>(snapshot, d).
     and_then (auth_finish d) (\<lambda>_. Inr snapshot)))"

definition decode_and_verify_signed_account_authority_snapshot_v1
  :: "ed25519 \<Rightarrow> bytes \<Rightarrow> canonical_authority_error + CanonicalSignedAccountAuthoritySnapshotV1" where
  "decode_and_verify_signed_account_authority_snapshot_v1 ed bytes =
     and_then (decode_signed_account_authority_snapshot_v1 bytes) (\<lambda>snapshot.
     and_then (verify_signed_account_authority_snapshot_v1 ed snapshot) (\<lambda>_. Inr snapshot))"

definition decode_signed_device_session_authorization_v1
  :: "bytes \<Rightarrow> canonical_authority_error + CanonicalSignedDeviceSessionAuthorizationV1" where
  "decode_signed_device_session_authorization_v1 bytes =
     and_then (map_err AuthorityWire (validate_canonical_profile_v1 bytes)) (\<lambda>_.
     let d = auth_new bytes in
     and_then (auth_expect_array ''signed-device-session-authorization-v1'' 3 d) (\<lambda>(_, d).
     and_then (auth_expect_version ''signed-device-session-authorization-v1.schema_version'' d) (\<lambda>(_, d).
     and_then (decode_device_session_authorization_content_from d) (\<lambda>(content, d).
     and_then (auth_fixed_bytes 64 ''signed-device-session-authorization-v1.signature'' d) (\<lambda>(signature, d).
     and_then (auth_finish d) (\<lambda>_.
     and_then (validate_session_content content) (\<lambda>_.
     Inr \<lparr> sess_content = content, sess_signature = signature \<rparr>)))))))"

definition decode_and_verify_signed_device_session_authorization_v1
  :: "ed25519 \<Rightarrow> bytes \<Rightarrow> canonical_authority_error + CanonicalSignedDeviceSessionAuthorizationV1" where
  "decode_and_verify_signed_device_session_authorization_v1 ed bytes =
     and_then (decode_signed_device_session_authorization_v1 bytes) (\<lambda>authorization.
     and_then (verify_signed_device_session_authorization_v1 ed authorization) (\<lambda>_. Inr authorization))"

section \<open>The decoder reads canonical heads\<close>

lemma auth_byte_at:
  "take_byte bs c = Inr (b, c') \<Longrightarrow>
   auth_byte \<lparr> dec_bytes = bs, dec_cursor = c \<rparr> = Inr (b, \<lparr> dec_bytes = bs, dec_cursor = c' \<rparr>)"
  by (auto simp: take_byte_def auth_byte_def result_simps)

lemma auth_bytes_array_at:
  "take_array n bs c = Inr (v, c') \<Longrightarrow>
   auth_bytes_array n \<lparr> dec_bytes = bs, dec_cursor = c \<rparr> = Inr (v, \<lparr> dec_bytes = bs, dec_cursor = c' \<rparr>)"
  by (auto simp: take_array_def auth_bytes_array_def result_simps)

lemma auth_argument_at:
  assumes "read_argument bs c k = Inr (a, c')"
  shows "auth_argument k \<lparr> dec_bytes = bs, dec_cursor = c \<rparr> = Inr (a, \<lparr> dec_bytes = bs, dec_cursor = c' \<rparr>)"
  using assms
  by (auto simp: read_argument_def auth_argument_def result_simps auth_byte_at auth_bytes_array_at split: if_splits)

interpretation auth: canonical_head auth_head WrongMajorType
proof
  fix bs :: bytes and m' c c' a m field
  assume A: "length bs < 2 ^ 64" "unat m' < 8" "slice_range bs c c' = Some (push_head [] m' a)"
  with read_head_iff [OF A(1), of c m' a c'] obtain b c1 where
    b: "take_byte bs c = Inr (b, c1)" "drop_bit 5 b = m'" "read_argument bs c1 (b AND 31) = Inr (a, c')" by blast
  show "auth_head m field \<lparr> dec_bytes = bs, dec_cursor = c \<rparr> =
      (if m = m' then Inr (a, \<lparr> dec_bytes = bs, dec_cursor = c' \<rparr>) else Inl (WrongMajorType field m m'))"
    by (simp add: auth_head_def auth_byte_at [OF b(1)] auth_argument_at [OF b(3)] b(2))
next
  fix m field and bs :: bytes
  show "\<not> is_ok (auth_head m field \<lparr> dec_bytes = bs, dec_cursor = length bs \<rparr>)"
    by (simp add: auth_head_def auth_byte_def slice_get_def)
qed

lemma sim_auth_unsigned [sim_intros]: "sim (auth_unsigned f) p_unsigned"
  unfolding auth_unsigned_def [abs_def] by (rule auth.sim_unsigned)

lemma sim_auth_array [sim_intros]: "sim (auth_array f) p_array"
  unfolding auth_array_def [abs_def] by (rule auth.sim_array)

lemma sim_auth_expect_array [sim_intros]: "sim (auth_expect_array f n) (p_expect_array n)"
  unfolding auth_expect_array_def [abs_def] p_expect_array_def by (intro sim_intros)

lemma sim_auth_expect_version [sim_intros]: "sim (auth_expect_version f) p_version"
  unfolding auth_expect_version_def [abs_def] p_version_def by (intro sim_intros)

lemma sim_auth_fixed_bytes [sim_intros]: "sim (auth_fixed_bytes N f) (p_fixed N)"
proof -
  let ?take = "\<lambda>(len, d). and_then (ok_or (AuthorityWire LengthOverflow) (usize_checked_add (dec_cursor d) (unat len)))
      (\<lambda>stop. and_then (ok_or (AuthorityWire UnexpectedEnd) (slice_range (dec_bytes d) (dec_cursor d) stop))
      (\<lambda>value. Inr (value, d\<lparr> dec_cursor := stop \<rparr>)))"
  let ?rd = "\<lambda>d. and_then (and_then (auth_head 2 f d) ?take)
      (\<lambda>(b, d). if length b = N then Inr (b, d) else Inl EmptyCapabilities)"
  have "sim ?rd (p_fixed N)" unfolding p_fixed_def using auth.sim_bytes by (intro sim_intros)
  moreover have "?rd d = Inr r \<longleftrightarrow> auth_fixed_bytes N f d = Inr r" for d r
  proof (cases "auth_head 2 f d")
    case (Inr x)
    obtain n e where x: "x = (n, e)" by (cases x)
    let ?s = "slice_range (dec_bytes e) (dec_cursor e) (dec_cursor e + unat n)"
    have len: "?s = Some b \<Longrightarrow> length b = unat n" for b using slice_range_bounds by force
    show ?thesis
    proof (cases "dec_cursor e + unat n < 2 ^ 64")
      case True
      then show ?thesis using Inr x len
        by (cases ?s; cases "unat n = N") (simp_all add: auth_fixed_bytes_def usize_checked_add_def)
    qed (use Inr x in \<open>simp add: auth_fixed_bytes_def usize_checked_add_def\<close>)
  qed (simp add: auth_fixed_bytes_def)
  ultimately show ?thesis by (rule sim_cong)
qed

section \<open>Objects and their items\<close>

definition cert_content_item :: "CanonicalDeviceCertificateContentV1 \<Rightarrow> cbor_item" where
  "cert_content_item c = CArray [CUnsigned CANONICAL_PROFILE_VERSION, CBytes (cert_account_id c),
     CBytes (cert_device_id c), CBytes (cert_encryption_public_key c), CUnsigned (cert_authority_sequence c),
     CArray (map (\<lambda>x. CUnsigned (capability_code x)) (cert_capabilities c))]"

definition rev_content_item :: "CanonicalDeviceRevocationContentV1 \<Rightarrow> cbor_item" where
  "rev_content_item c = CArray [CUnsigned CANONICAL_PROFILE_VERSION, CBytes (rev_account_id c),
     CBytes (rev_device_id c), CUnsigned (rev_authority_sequence c)]"

definition cert_item :: "CanonicalSignedDeviceCertificateV1 \<Rightarrow> cbor_item" where
  "cert_item c = signed_item (cert_content_item (cert_content c)) (cert_signature c)"

definition rev_item :: "CanonicalSignedDeviceRevocationV1 \<Rightarrow> cbor_item" where
  "rev_item r = signed_item (rev_content_item (rev_content r)) (rev_signature r)"

definition snap_content_item :: "CanonicalAccountAuthoritySnapshotContentV1 \<Rightarrow> cbor_item" where
  "snap_content_item c = CArray [CUnsigned CANONICAL_PROFILE_VERSION, CBytes (snap_account_id c),
     CUnsigned (snap_revision c), CArray (map rev_item (snap_revocations c))]"

definition snap_item :: "CanonicalSignedAccountAuthoritySnapshotV1 \<Rightarrow> cbor_item" where
  "snap_item s = signed_item (snap_content_item (snap_content s)) (snap_signature s)"

definition sess_content_item :: "CanonicalDeviceSessionAuthorizationContentV1 \<Rightarrow> cbor_item" where
  "sess_content_item c = CArray [CUnsigned CANONICAL_PROFILE_VERSION, CBytes (sess_session_binding c),
     cert_item (sess_certificate c), snap_item (sess_authority_snapshot c)]"

definition sess_item :: "CanonicalSignedDeviceSessionAuthorizationV1 \<Rightarrow> cbor_item" where
  "sess_item a = signed_item (sess_content_item (sess_content a)) (sess_signature a)"

text \<open>The array types of the structs, and the content checks of the module.\<close>

definition cert_content_ok :: "CanonicalDeviceCertificateContentV1 \<Rightarrow> bool" where
  "cert_content_ok c \<longleftrightarrow> id32 (cert_account_id c) \<and> id32 (cert_device_id c)
     \<and> id32 (cert_encryption_public_key c) \<and> validate_certificate_content c = Inr ()"

definition cert_ok :: "CanonicalSignedDeviceCertificateV1 \<Rightarrow> bool" where
  "cert_ok c \<longleftrightarrow> cert_content_ok (cert_content c) \<and> length (cert_signature c) = 64"

definition rev_content_ok :: "CanonicalDeviceRevocationContentV1 \<Rightarrow> bool" where
  "rev_content_ok c \<longleftrightarrow> id32 (rev_account_id c) \<and> id32 (rev_device_id c)"

definition rev_ok :: "CanonicalSignedDeviceRevocationV1 \<Rightarrow> bool" where
  "rev_ok r \<longleftrightarrow> rev_content_ok (rev_content r) \<and> length (rev_signature r) = 64"

definition snap_content_ok :: "CanonicalAccountAuthoritySnapshotContentV1 \<Rightarrow> bool" where
  "snap_content_ok c \<longleftrightarrow> id32 (snap_account_id c) \<and> list_all rev_ok (snap_revocations c)
     \<and> validate_snapshot_content c = Inr ()"

definition snap_ok :: "CanonicalSignedAccountAuthoritySnapshotV1 \<Rightarrow> bool" where
  "snap_ok s \<longleftrightarrow> snap_content_ok (snap_content s) \<and> length (snap_signature s) = 64"

definition sess_content_ok :: "CanonicalDeviceSessionAuthorizationContentV1 \<Rightarrow> bool" where
  "sess_content_ok c \<longleftrightarrow> id32 (sess_session_binding c) \<and> cert_ok (sess_certificate c)
     \<and> snap_ok (sess_authority_snapshot c) \<and> validate_session_content c = Inr ()"

definition sess_ok :: "CanonicalSignedDeviceSessionAuthorizationV1 \<Rightarrow> bool" where
  "sess_ok a \<longleftrightarrow> sess_content_ok (sess_content a) \<and> length (sess_signature a) = 64"

lemma reads_rev_content: "reads decode_device_revocation_content_from rev_content_item rev_content_ok"
  unfolding decode_device_revocation_content_from_def [abs_def]
  apply (rule readsI, (rule sim_intros)+)
  subgoal for its v rest by (cases v) (auto simp: rev_content_item_def rev_content_ok_def id32_def)
  done

lemma reads_rev: "reads decode_signed_device_revocation_from rev_item rev_ok"
proof -
  obtain p where p: "sim decode_device_revocation_content_from p" "parses p rev_content_item rev_content_ok"
    using reads_rev_content by (rule readsE)
  show ?thesis unfolding decode_signed_device_revocation_from_def [abs_def]
    apply (rule readsI, (rule sim_intros p(1))+)
    subgoal for its v rest
      by (cases v) (auto simp: parsesD [OF p(2)] rev_item_def rev_ok_def signed_item_def)
    done
qed

lemma capability_from_code_iff: "capability_from_code c = Inr v \<longleftrightarrow> c = capability_code v"
  by (cases v) (auto simp: capability_from_code_def)

lemma reads_capability: "reads read_capability (\<lambda>x. CUnsigned (capability_code x)) (\<lambda>_. True)"
  unfolding read_capability_def [abs_def]
  by (rule readsI, rule sim_bind, rule sim_auth_unsigned, rule sim_value) (auto simp: capability_from_code_iff)

lemma validate_certificate_content_iff:
  "validate_certificate_content c = Inr u \<longleftrightarrow> cert_capabilities c \<noteq> []
     \<and> length (cert_capabilities c) \<le> MAX_CANONICAL_DEVICE_CAPABILITIES \<and> sorted_wrt (<) (cert_capabilities c)"
  using windows2_any_sorted [of "\<lambda>x. x" "cert_capabilities c"]
  by (auto simp: validate_certificate_content_def)

lemma validate_snapshot_content_iff:
  "validate_snapshot_content c = Inr u \<longleftrightarrow>
     length (snap_revocations c) \<le> MAX_CANONICAL_AUTHORITY_REVOCATIONS
     \<and> (\<forall>r \<in> set (snap_revocations c). rev_account_id (rev_content r) = snap_account_id c
          \<and> rev_authority_sequence (rev_content r) < snap_revision c)
     \<and> sorted_wrt (\<lambda>a b. rev_device_id (rev_content a) < rev_device_id (rev_content b)) (snap_revocations c)"
  using windows2_any_sorted [of "\<lambda>r. rev_device_id (rev_content r)" "snap_revocations c"]
  by (auto simp: validate_snapshot_content_def result_simps not_le split: if_splits)

lemma reads_cert_content: "reads decode_device_certificate_content_from cert_content_item cert_content_ok"
proof -
  obtain p where p: "sim read_capability p" "parses p (\<lambda>x. CUnsigned (capability_code x)) (\<lambda>_. True)"
    using reads_capability by (rule readsE)
  show ?thesis unfolding decode_device_certificate_content_from_def [abs_def] Let_def
    apply (rule readsI, (rule sim_intros p(1))+)
    subgoal for its v rest
      by (cases v) (auto simp: parses_n [OF p(2)] cert_content_item_def cert_content_ok_def id32_def is_ok_iff
          validate_certificate_content_iff not_less list_all_iff comp_def)
    done
qed

lemma reads_cert: "reads decode_signed_device_certificate_from cert_item cert_ok"
proof -
  obtain p where p: "sim decode_device_certificate_content_from p" "parses p cert_content_item cert_content_ok"
    using reads_cert_content by (rule readsE)
  show ?thesis unfolding decode_signed_device_certificate_from_def [abs_def]
    apply (rule readsI, (rule sim_intros p(1))+)
    subgoal for its v rest
      by (cases v) (auto simp: parsesD [OF p(2)] cert_item_def cert_ok_def signed_item_def cert_content_ok_def is_ok_iff)
    done
qed

lemma reads_snap_content: "reads decode_account_authority_snapshot_content_from snap_content_item snap_content_ok"
proof -
  obtain p where p: "sim decode_signed_device_revocation_from p" "parses p rev_item rev_ok"
    using reads_rev by (rule readsE)
  show ?thesis unfolding decode_account_authority_snapshot_content_from_def [abs_def] Let_def
    apply (rule readsI, (rule sim_intros p(1))+)
    subgoal for its v rest
      by (cases v) (auto simp: parses_n [OF p(2)] snap_content_item_def snap_content_ok_def id32_def is_ok_iff
          validate_snapshot_content_iff not_less list_all_iff)
    done
qed

lemma reads_snap: "reads decode_signed_account_authority_snapshot_from snap_item snap_ok"
proof -
  obtain p where p: "sim decode_account_authority_snapshot_content_from p" "parses p snap_content_item snap_content_ok"
    using reads_snap_content by (rule readsE)
  show ?thesis unfolding decode_signed_account_authority_snapshot_from_def [abs_def]
    apply (rule readsI, (rule sim_intros p(1))+)
    subgoal for its v rest
      by (cases v) (auto simp: parsesD [OF p(2)] snap_item_def snap_ok_def signed_item_def snap_content_ok_def is_ok_iff)
    done
qed

lemma reads_sess_content: "reads decode_device_session_authorization_content_from sess_content_item sess_content_ok"
proof -
  obtain p where p: "sim decode_signed_device_certificate_from p" "parses p cert_item cert_ok"
    using reads_cert by (rule readsE)
  obtain q where q: "sim decode_signed_account_authority_snapshot_from q" "parses q snap_item snap_ok"
    using reads_snap by (rule readsE)
  show ?thesis unfolding decode_device_session_authorization_content_from_def [abs_def] Let_def
    apply (rule readsI, (rule sim_intros p(1) q(1))+)
    subgoal for its v rest
      by (cases v) (auto simp: parsesD [OF p(2)] parsesD [OF q(2)] sess_content_item_def sess_content_ok_def id32_def is_ok_iff)
    done
qed

section \<open>Encoders write the items\<close>

lemma foldl_extend [codec_simps]: "foldl (\<lambda>out x. out @ f x) out xs = out @ concat (map f xs)"
  by (induction xs arbitrary: out) simp_all

lemma encode_cert_content_iff:
  "encode_device_certificate_content_v1 c = Inr bs \<longleftrightarrow>
     validate_certificate_content c = Inr () \<and> bs = enc_item (cert_content_item c)"
  by (auto simp: encode_device_certificate_content_v1_def result_simps codec_simps cert_content_item_def Let_def comp_def)

lemma encode_rev_content: "encode_device_revocation_content_v1 c = enc_item (rev_content_item c)"
  by (simp add: encode_device_revocation_content_v1_def codec_simps rev_content_item_def Let_def)

lemma encode_rev_unverified: "encode_signed_device_revocation_unverified r = enc_item (rev_item r)"
  by (simp add: encode_signed_device_revocation_unverified_def encode_rev_content codec_simps rev_item_def
      signed_item_def Let_def)

text \<open>What a signature over each object means.\<close>

definition rev_signed :: "ed25519 \<Rightarrow> CanonicalSignedDeviceRevocationV1 \<Rightarrow> bool" where
  "rev_signed ed r \<longleftrightarrow> signed_by ed (rev_account_id (rev_content r))
     (CANONICAL_DEVICE_REVOCATION_SIGNATURE_DOMAIN @ enc_item (rev_content_item (rev_content r))) (rev_signature r)"

definition cert_signed :: "ed25519 \<Rightarrow> CanonicalSignedDeviceCertificateV1 \<Rightarrow> bool" where
  "cert_signed ed c \<longleftrightarrow> signed_by ed (cert_account_id (cert_content c))
     (CANONICAL_DEVICE_CERTIFICATE_SIGNATURE_DOMAIN @ enc_item (cert_content_item (cert_content c))) (cert_signature c)"

definition snap_signed :: "ed25519 \<Rightarrow> CanonicalSignedAccountAuthoritySnapshotV1 \<Rightarrow> bool" where
  "snap_signed ed s \<longleftrightarrow> signed_by ed (snap_account_id (snap_content s))
     (CANONICAL_AUTHORITY_SNAPSHOT_SIGNATURE_DOMAIN @ enc_item (snap_content_item (snap_content s))) (snap_signature s)"

definition sess_signed :: "ed25519 \<Rightarrow> CanonicalSignedDeviceSessionAuthorizationV1 \<Rightarrow> bool" where
  "sess_signed ed a \<longleftrightarrow> signed_by ed (cert_device_id (cert_content (sess_certificate (sess_content a))))
     (CANONICAL_DEVICE_SESSION_AUTHORIZATION_SIGNATURE_DOMAIN @ enc_item (sess_content_item (sess_content a))) (sess_signature a)"

lemma verify_ed25519_iff: "verify_ed25519 ed k m s obj = Inr u \<longleftrightarrow> signed_by ed k m s"
  by (auto simp: verify_ed25519_def signed_by_def)

lemma verify_rev_iff: "verify_signed_device_revocation_v1 ed r = Inr u \<longleftrightarrow> rev_signed ed r"
  by (simp add: verify_signed_device_revocation_v1_def verify_ed25519_iff rev_signed_def
      device_revocation_signing_bytes_v1_def prefixed_def encode_rev_content)

lemma encode_rev_iff:
  "encode_signed_device_revocation_v1 ed r = Inr bs \<longleftrightarrow> rev_signed ed r \<and> bs = enc_item (rev_item r)"
  by (auto simp: encode_signed_device_revocation_v1_def result_simps verify_rev_iff encode_rev_unverified)

lemma verify_cert_iff:
  "verify_signed_device_certificate_v1 ed c = Inr u \<longleftrightarrow>
     validate_certificate_content (cert_content c) = Inr () \<and> cert_signed ed c"
  by (auto simp: verify_signed_device_certificate_v1_def verify_ed25519_iff cert_signed_def result_simps
      device_certificate_signing_bytes_v1_def prefixed_def encode_cert_content_iff)

lemma encode_cert_iff:
  "encode_signed_device_certificate_v1 ed c = Inr bs \<longleftrightarrow>
     validate_certificate_content (cert_content c) = Inr () \<and> cert_signed ed c \<and> bs = enc_item (cert_item c)"
  by (auto simp: encode_signed_device_certificate_v1_def result_simps verify_cert_iff Let_def codec_simps
      encode_signed_device_certificate_unverified_def encode_cert_content_iff cert_item_def signed_item_def)

lemma encode_snap_content_iff:
  "encode_account_authority_snapshot_content_v1 ed c = Inr bs \<longleftrightarrow> validate_snapshot_content c = Inr ()
     \<and> (\<forall>r \<in> set (snap_revocations c). rev_signed ed r) \<and> bs = enc_item (snap_content_item c)"
proof -
  have "extend_each (encode_signed_device_revocation_v1 ed) out rs = Inr bs \<longleftrightarrow>
      (\<forall>r \<in> set rs. rev_signed ed r) \<and> bs = out @ enc_items (map rev_item rs)" for out rs
    using extend_each_Inr [of rs "encode_signed_device_revocation_v1 ed" "rev_signed ed" "\<lambda>r. enc_item (rev_item r)"]
    by (simp add: encode_rev_iff enc_items_def comp_def)
  then show ?thesis
    by (auto simp: encode_account_authority_snapshot_content_v1_def result_simps codec_simps Let_def
        snap_content_item_def enc_items_def comp_def)
qed

lemma verify_snap_iff:
  "verify_signed_account_authority_snapshot_v1 ed s = Inr u \<longleftrightarrow> validate_snapshot_content (snap_content s) = Inr ()
     \<and> (\<forall>r \<in> set (snap_revocations (snap_content s)). rev_signed ed r) \<and> snap_signed ed s"
  by (auto simp: verify_signed_account_authority_snapshot_v1_def verify_ed25519_iff snap_signed_def result_simps
      account_authority_snapshot_signing_bytes_v1_def prefixed_def encode_snap_content_iff verify_rev_iff)

lemma encode_snap_iff:
  "encode_signed_account_authority_snapshot_v1 ed s = Inr bs \<longleftrightarrow>
     verify_signed_account_authority_snapshot_v1 ed s = Inr () \<and> bs = enc_item (snap_item s)"
  by (auto simp: encode_signed_account_authority_snapshot_v1_def result_simps verify_snap_iff Let_def codec_simps
      encode_signed_account_authority_snapshot_unverified_def encode_snap_content_iff snap_item_def signed_item_def)

lemma encode_sess_content_iff:
  "encode_device_session_authorization_content_v1 ed c = Inr bs \<longleftrightarrow> validate_session_content c = Inr ()
     \<and> verify_signed_device_certificate_v1 ed (sess_certificate c) = Inr ()
     \<and> verify_signed_account_authority_snapshot_v1 ed (sess_authority_snapshot c) = Inr ()
     \<and> bs = enc_item (sess_content_item c)"
  by (auto simp: encode_device_session_authorization_content_v1_def result_simps Let_def codec_simps
      encode_cert_iff encode_snap_iff verify_cert_iff sess_content_item_def)

lemma verify_sess_iff:
  "verify_signed_device_session_authorization_v1 ed a = Inr u \<longleftrightarrow> validate_session_content (sess_content a) = Inr ()
     \<and> verify_signed_device_certificate_v1 ed (sess_certificate (sess_content a)) = Inr ()
     \<and> verify_signed_account_authority_snapshot_v1 ed (sess_authority_snapshot (sess_content a)) = Inr ()
     \<and> sess_signed ed a"
  by (auto simp: verify_signed_device_session_authorization_v1_def verify_ed25519_iff sess_signed_def result_simps
      device_session_authorization_signing_bytes_v1_def prefixed_def encode_sess_content_iff)

lemma encode_sess_iff:
  "encode_signed_device_session_authorization_v1 ed a = Inr bs \<longleftrightarrow>
     verify_signed_device_session_authorization_v1 ed a = Inr () \<and> bs = enc_item (sess_item a)"
  by (auto simp: encode_signed_device_session_authorization_v1_def result_simps verify_sess_iff Let_def codec_simps
      encode_sess_content_iff sess_item_def signed_item_def)

section \<open>Size of the items\<close>

lemma sum_list_const: "sum_list (map (\<lambda>x. k) xs) = length xs * (k :: nat)"
  by (induction xs) auto

lemma rev_item_fits: "rev_ok r \<Longrightarrow> d \<le> 5 \<Longrightarrow> item_fits d (rev_item r)"
  and rev_item_count: "item_count (rev_item r) = 8"
  by (auto simp: rev_item_def rev_content_item_def signed_item_def rev_ok_def rev_content_ok_def id32_def profile_limits)

lemma cert_item_fits: "cert_ok c \<Longrightarrow> d \<le> 5 \<Longrightarrow> item_fits d (cert_item c)"
  and cert_item_count: "cert_ok c \<Longrightarrow> item_count (cert_item c) \<le> 12"
  by (auto simp: cert_item_def cert_content_item_def signed_item_def cert_ok_def cert_content_ok_def id32_def
      profile_limits validate_certificate_content_iff MAX_CANONICAL_DEVICE_CAPABILITIES_def comp_def sum_list_const)

lemma snap_item_fits: "snap_ok s \<Longrightarrow> d \<le> 2 \<Longrightarrow> item_fits d (snap_item s)"
  by (auto simp: snap_item_def snap_content_item_def signed_item_def snap_ok_def snap_content_ok_def id32_def
      profile_limits validate_snapshot_content_iff MAX_CANONICAL_AUTHORITY_REVOCATIONS_def list_all_iff
      intro!: rev_item_fits)

lemma snap_item_count: "snap_ok s \<Longrightarrow> item_count (snap_item s) \<le> 264"
  by (auto simp: snap_item_def snap_content_item_def signed_item_def snap_ok_def snap_content_ok_def
      validate_snapshot_content_iff MAX_CANONICAL_AUTHORITY_REVOCATIONS_def comp_def rev_item_count sum_list_const)

lemma sess_item_limits: "sess_ok a \<Longrightarrow> within_limits (sess_item a)"
  using cert_item_fits [of "sess_certificate (sess_content a)" 2] snap_item_fits [of "sess_authority_snapshot (sess_content a)" 2]
    cert_item_count [of "sess_certificate (sess_content a)"] snap_item_count [of "sess_authority_snapshot (sess_content a)"]
  by (auto simp: within_limits_def sess_item_def sess_content_item_def signed_item_def sess_ok_def sess_content_ok_def
      id32_def profile_limits numeral_2_eq_2)

lemma object_limits:
  "rev_ok r \<Longrightarrow> within_limits (rev_item r)"
  "cert_ok c \<Longrightarrow> within_limits (cert_item c)"
  "snap_ok s \<Longrightarrow> within_limits (snap_item s)"
  using rev_item_fits [of r 0] cert_item_fits [of c 0] snap_item_fits [of s 0]
    cert_item_count [of c] snap_item_count [of s]
  by (auto simp: within_limits_def rev_item_count profile_limits)

section \<open>Decoding is reading back\<close>

lemma auth_finish_Inr [result_simps]: "auth_finish d = Inr u \<longleftrightarrow> dec_cursor d = length (dec_bytes d)"
  by (simp add: auth_finish_def)

lemma decode_cert_iff:
  assumes "length bs < 2 ^ 64"
  shows "decode_signed_device_certificate_v1 bs = Inr c \<longleftrightarrow> cert_ok c \<and> bs = enc_item (cert_item c)"
  using reads_object [OF reads_cert object_limits(2) assms, of c]
  by (auto simp: decode_signed_device_certificate_v1_def result_simps auth_new_def)

lemma decode_rev_iff:
  assumes "length bs < 2 ^ 64"
  shows "decode_signed_device_revocation_v1 bs = Inr r \<longleftrightarrow> rev_ok r \<and> bs = enc_item (rev_item r)"
  using reads_object [OF reads_rev object_limits(1) assms, of r]
  by (auto simp: decode_signed_device_revocation_v1_def result_simps auth_new_def)

lemma decode_snap_iff:
  assumes "length bs < 2 ^ 64"
  shows "decode_signed_account_authority_snapshot_v1 bs = Inr s \<longleftrightarrow> snap_ok s \<and> bs = enc_item (snap_item s)"
  using reads_object [OF reads_snap object_limits(3) assms, of s]
  by (auto simp: decode_signed_account_authority_snapshot_v1_def result_simps auth_new_def)

lemma decode_sess_iff:
  assumes "length bs < 2 ^ 64"
  shows "decode_signed_device_session_authorization_v1 bs = Inr a \<longleftrightarrow> sess_ok a \<and> bs = enc_item (sess_item a)"
proof -
  let ?rd = "\<lambda>d. and_then (auth_expect_array ''signed-device-session-authorization-v1'' 3 d) (\<lambda>(_, d).
     and_then (auth_expect_version ''signed-device-session-authorization-v1.schema_version'' d) (\<lambda>(_, d).
     and_then (decode_device_session_authorization_content_from d) (\<lambda>(content, d).
     and_then (auth_fixed_bytes 64 ''signed-device-session-authorization-v1.signature'' d) (\<lambda>(signature, d).
     and_then (validate_session_content content) (\<lambda>_.
     Inr (\<lparr> sess_content = content, sess_signature = signature \<rparr>, d))))))"
  obtain p where p: "sim decode_device_session_authorization_content_from p" "parses p sess_content_item sess_content_ok"
    using reads_sess_content by (rule readsE)
  have "reads ?rd sess_item sess_ok"
    apply (rule readsI, (rule sim_intros p(1))+)
    subgoal for its v rest
      by (cases v) (auto simp: parsesD [OF p(2)] sess_item_def sess_ok_def signed_item_def sess_content_ok_def is_ok_iff)
    done
  from reads_object [OF this sess_item_limits assms, of a] show ?thesis
    by (auto simp: decode_signed_device_session_authorization_v1_def result_simps auth_new_def Let_def)
qed

section \<open>Properties\<close>

text \<open>The lengths the Rust array types fix.\<close>

definition cert_typed :: "CanonicalSignedDeviceCertificateV1 \<Rightarrow> bool" where
  "cert_typed c \<longleftrightarrow> id32 (cert_account_id (cert_content c)) \<and> id32 (cert_device_id (cert_content c))
     \<and> id32 (cert_encryption_public_key (cert_content c)) \<and> length (cert_signature c) = 64"

definition rev_typed :: "CanonicalSignedDeviceRevocationV1 \<Rightarrow> bool" where
  "rev_typed r \<longleftrightarrow> id32 (rev_account_id (rev_content r)) \<and> id32 (rev_device_id (rev_content r))
     \<and> length (rev_signature r) = 64"

definition snap_typed :: "CanonicalSignedAccountAuthoritySnapshotV1 \<Rightarrow> bool" where
  "snap_typed s \<longleftrightarrow> id32 (snap_account_id (snap_content s)) \<and> list_all rev_typed (snap_revocations (snap_content s))
     \<and> length (snap_signature s) = 64"

definition sess_typed :: "CanonicalSignedDeviceSessionAuthorizationV1 \<Rightarrow> bool" where
  "sess_typed a \<longleftrightarrow> id32 (sess_session_binding (sess_content a)) \<and> cert_typed (sess_certificate (sess_content a))
     \<and> snap_typed (sess_authority_snapshot (sess_content a)) \<and> length (sess_signature a) = 64"

lemma ok_typed:
  "cert_ok c \<longleftrightarrow> cert_typed c \<and> validate_certificate_content (cert_content c) = Inr ()"
  "rev_ok r \<longleftrightarrow> rev_typed r"
  "snap_ok s \<longleftrightarrow> snap_typed s \<and> validate_snapshot_content (snap_content s) = Inr ()"
  by (auto simp: cert_ok_def cert_content_ok_def cert_typed_def rev_ok_def rev_content_ok_def rev_typed_def
      snap_ok_def snap_content_ok_def snap_typed_def list_all_iff)

lemma validate_session_content_iff:
  "validate_session_content c = Inr u \<longleftrightarrow>
     validate_certificate_content (cert_content (sess_certificate c)) = Inr ()
     \<and> validate_snapshot_content (snap_content (sess_authority_snapshot c)) = Inr ()
     \<and> cert_account_id (cert_content (sess_certificate c)) = snap_account_id (snap_content (sess_authority_snapshot c))
     \<and> cert_authority_sequence (cert_content (sess_certificate c)) < snap_revision (snap_content (sess_authority_snapshot c))
     \<and> (\<forall>r \<in> set (snap_revocations (snap_content (sess_authority_snapshot c))).
          rev_device_id (rev_content r) \<noteq> cert_device_id (cert_content (sess_certificate c)))"
  by (auto simp: validate_session_content_def result_simps Let_def not_le)

lemma capability_less: "SignEvents < SyncHistory" "\<not> c < SignEvents" "\<not> SyncHistory < c"
proof -
  show "SignEvents < SyncHistory" by (simp add: less_CanonicalDeviceCapabilityV1_def)
  show "\<not> c < SignEvents" "\<not> SyncHistory < c"
    by (cases c; simp add: less_CanonicalDeviceCapabilityV1_def word_less_nat_alt)+
qed

lemma capabilities_iff:
  "validate_certificate_content c = Inr u \<longleftrightarrow>
     cert_capabilities c \<in> {[SignEvents], [SyncHistory], [SignEvents, SyncHistory]}"
proof -
  have "cs \<noteq> [] \<and> length cs \<le> 2 \<and> sorted_wrt (<) cs \<longleftrightarrow>
      cs \<in> {[SignEvents], [SyncHistory], [SignEvents, SyncHistory]}" for cs
  proof
    assume A: "cs \<noteq> [] \<and> length cs \<le> 2 \<and> sorted_wrt (<) cs"
    then consider x where "cs = [x]" | x y where "cs = [x, y]"
      by (cases cs; cases "tl cs"; cases "tl (tl cs)") auto
    then show "cs \<in> {[SignEvents], [SyncHistory], [SignEvents, SyncHistory]}"
    proof cases
      case (1 x)
      then show ?thesis by (cases x) auto
    next
      case (2 x y)
      with A have "x < y" by simp
      with 2 show ?thesis by (cases x; cases y) (auto simp: capability_less)
    qed
  qed (auto simp: capability_less)
  then show ?thesis by (simp add: validate_certificate_content_iff MAX_CANONICAL_DEVICE_CAPABILITIES_def)
qed

lemma sess_ok_typed: "sess_ok a \<longleftrightarrow> sess_typed a \<and> validate_session_content (sess_content a) = Inr ()"
  by (auto simp: sess_ok_def sess_content_ok_def sess_typed_def ok_typed validate_session_content_iff)

text \<open>C10. Decoding and verifying a signed session authorisation is the exact inverse of encoding one:
  bytes are accepted as \<open>a\<close> if and only if \<open>a\<close> is well typed and its own encoding is those bytes. So
  every authorisation that can be encoded is read back unchanged, and each one has a single accepted
  spelling.\<close>

theorem session_authorization_codec_inverse:
  assumes "length bs < 2 ^ 64"
  shows "decode_and_verify_signed_device_session_authorization_v1 ed bs = Inr a \<longleftrightarrow>
    sess_typed a \<and> encode_signed_device_session_authorization_v1 ed a = Inr bs"
  using decode_sess_iff [OF assms]
  by (auto simp: decode_and_verify_signed_device_session_authorization_v1_def result_simps encode_sess_iff
      sess_ok_typed verify_sess_iff)

text \<open>C11. The same for Device certificates, Device revocations and Account authority snapshots.\<close>

theorem authority_codecs_inverse:
  assumes "length bs < 2 ^ 64"
  shows "(decode_and_verify_signed_device_certificate_v1 ed bs = Inr c \<longleftrightarrow>
       cert_typed c \<and> encode_signed_device_certificate_v1 ed c = Inr bs)
     \<and> (decode_and_verify_signed_device_revocation_v1 ed bs = Inr r \<longleftrightarrow>
       rev_typed r \<and> encode_signed_device_revocation_v1 ed r = Inr bs)
     \<and> (decode_and_verify_signed_account_authority_snapshot_v1 ed bs = Inr s \<longleftrightarrow>
       snap_typed s \<and> encode_signed_account_authority_snapshot_v1 ed s = Inr bs)"
  using decode_cert_iff [OF assms] decode_rev_iff [OF assms] decode_snap_iff [OF assms]
  by (auto simp: decode_and_verify_signed_device_certificate_v1_def decode_and_verify_signed_device_revocation_v1_def
      decode_and_verify_signed_account_authority_snapshot_v1_def result_simps encode_cert_iff encode_rev_iff
      encode_snap_iff ok_typed verify_cert_iff verify_rev_iff verify_snap_iff)

text \<open>C12. An accepted session authorisation carries the whole chain of trust, and nothing less is
  rejected: the Account root key signed the certificate and the snapshot, and every revocation in
  it; certificate and revocations are of the snapshot's Account and older than its revision; the
  certificate's Device is not among the revoked ones, which are listed strictly by Device ID; and
  the Device key signed the content with the session binding.\<close>

theorem session_authorization_chain_of_trust:
  "verify_signed_device_session_authorization_v1 ed a = Inr () \<longleftrightarrow>
    (let content = sess_content a; certificate = sess_certificate content; snapshot = sess_authority_snapshot content;
         root = snap_account_id (snap_content snapshot); revision = snap_revision (snap_content snapshot);
         revocations = snap_revocations (snap_content snapshot) in
     cert_account_id (cert_content certificate) = root \<and> cert_signed ed certificate \<and> snap_signed ed snapshot
     \<and> cert_authority_sequence (cert_content certificate) < revision
     \<and> cert_capabilities (cert_content certificate) \<in> {[SignEvents], [SyncHistory], [SignEvents, SyncHistory]}
     \<and> length revocations \<le> MAX_CANONICAL_AUTHORITY_REVOCATIONS
     \<and> sorted_wrt (<) (map (\<lambda>r. rev_device_id (rev_content r)) revocations)
     \<and> (\<forall>r \<in> set revocations. rev_account_id (rev_content r) = root \<and> rev_authority_sequence (rev_content r) < revision
          \<and> rev_signed ed r \<and> rev_device_id (rev_content r) \<noteq> cert_device_id (cert_content certificate))
     \<and> sess_signed ed a)"
  by (auto simp: verify_sess_iff verify_cert_iff verify_snap_iff validate_session_content_iff capabilities_iff
      validate_snapshot_content_iff sorted_wrt_map Let_def)

definition sample_certificate :: CanonicalSignedDeviceCertificateV1 where
  "sample_certificate = (let content = \<lparr> cert_account_id = replicate 32 1, cert_device_id = replicate 32 2,
       cert_encryption_public_key = replicate 32 3, cert_authority_sequence = 4,
       cert_capabilities = [SignEvents, SyncHistory] \<rparr> in
     \<lparr> cert_content = content, cert_signature = toy_sign (replicate 32 1)
       (CANONICAL_DEVICE_CERTIFICATE_SIGNATURE_DOMAIN @ enc_item (cert_content_item content)) \<rparr>)"

definition sample_revocation :: CanonicalSignedDeviceRevocationV1 where
  "sample_revocation = (let content = \<lparr> rev_account_id = replicate 32 1, rev_device_id = replicate 32 9,
       rev_authority_sequence = 6 \<rparr> in
     \<lparr> rev_content = content, rev_signature = toy_sign (replicate 32 1)
       (CANONICAL_DEVICE_REVOCATION_SIGNATURE_DOMAIN @ enc_item (rev_content_item content)) \<rparr>)"

definition sample_snapshot :: CanonicalSignedAccountAuthoritySnapshotV1 where
  "sample_snapshot = (let content = \<lparr> snap_account_id = replicate 32 1, snap_revision = 7,
       snap_revocations = [sample_revocation] \<rparr> in
     \<lparr> snap_content = content, snap_signature = toy_sign (replicate 32 1)
       (CANONICAL_AUTHORITY_SNAPSHOT_SIGNATURE_DOMAIN @ enc_item (snap_content_item content)) \<rparr>)"

definition sample_session :: CanonicalSignedDeviceSessionAuthorizationV1 where
  "sample_session = (let content = \<lparr> sess_session_binding = replicate 32 5, sess_certificate = sample_certificate,
       sess_authority_snapshot = sample_snapshot \<rparr> in
     \<lparr> sess_content = content, sess_signature = toy_sign (replicate 32 2)
       (CANONICAL_DEVICE_SESSION_AUTHORIZATION_SIGNATURE_DOMAIN @ enc_item (sess_content_item content)) \<rparr>)"

lemma sample_signed:
  "cert_signed toy_ed25519 sample_certificate" "rev_signed toy_ed25519 sample_revocation"
  "snap_signed toy_ed25519 sample_snapshot" "sess_signed toy_ed25519 sample_session"
  by (simp_all add: cert_signed_def sample_certificate_def rev_signed_def sample_revocation_def snap_signed_def
      sample_snapshot_def sess_signed_def sample_session_def Let_def)

lemma sample_typed:
  "cert_typed sample_certificate" "rev_typed sample_revocation" "snap_typed sample_snapshot" "sess_typed sample_session"
  by (simp_all add: cert_typed_def sample_certificate_def rev_typed_def sample_revocation_def snap_typed_def
      sample_snapshot_def sess_typed_def sample_session_def Let_def id32_def)

lemma sample_snapshot_trusted:
  "verify_signed_account_authority_snapshot_v1 toy_ed25519 sample_snapshot = Inr ()"
proof -
  have "validate_snapshot_content (snap_content sample_snapshot) = Inr ()"
    "snap_revocations (snap_content sample_snapshot) = [sample_revocation]"
    by (simp_all add: validate_snapshot_content_iff sample_snapshot_def sample_revocation_def Let_def
        MAX_CANONICAL_AUTHORITY_REVOCATIONS_def)
  then show ?thesis using sample_signed by (simp add: verify_snap_iff)
qed

lemma sample_session_parts:
  "sess_certificate (sess_content sample_session) = sample_certificate"
  "sess_authority_snapshot (sess_content sample_session) = sample_snapshot"
  by (simp_all add: sample_session_def Let_def)

lemma sample_session_trusted:
  "sess_typed sample_session" "verify_signed_device_session_authorization_v1 toy_ed25519 sample_session = Inr ()"
proof -
  have c: "validate_certificate_content (cert_content sample_certificate) = Inr ()"
    by (simp add: capabilities_iff sample_certificate_def Let_def)
  have "validate_session_content (sess_content sample_session) = Inr ()"
    unfolding validate_session_content_iff sample_session_parts
    using c sample_snapshot_trusted unfolding verify_snap_iff
    by (simp add: sample_snapshot_def sample_certificate_def sample_revocation_def Let_def)
  then show "verify_signed_device_session_authorization_v1 toy_ed25519 sample_session = Inr ()"
    unfolding verify_sess_iff sample_session_parts verify_cert_iff
    using c sample_signed sample_snapshot_trusted by simp
qed (rule sample_typed)

theorem session_authorization_codec_inverse_witness:
  "decode_and_verify_signed_device_session_authorization_v1 toy_ed25519 (enc_item (sess_item sample_session))
     = Inr sample_session"
proof -
  have "sess_ok sample_session" using sample_session_trusted by (simp add: sess_ok_typed verify_sess_iff)
  then have "length (enc_item (sess_item sample_session)) < 2 ^ 64" by (intro within_limits_length sess_item_limits)
  from session_authorization_codec_inverse [OF this, of toy_ed25519 sample_session] show ?thesis
    using sample_session_trusted by (simp add: encode_sess_iff)
qed

theorem authority_codecs_inverse_witness:
  "decode_and_verify_signed_account_authority_snapshot_v1 toy_ed25519 (enc_item (snap_item sample_snapshot))
     = Inr sample_snapshot"
proof -
  note v = sample_typed(3) sample_snapshot_trusted
  then have "snap_ok sample_snapshot" by (simp add: ok_typed verify_snap_iff)
  then have "length (enc_item (snap_item sample_snapshot)) < 2 ^ 64" by (intro within_limits_length object_limits)
  from authority_codecs_inverse [OF this, of toy_ed25519 _ _ sample_snapshot] v show ?thesis
    by (simp add: encode_snap_iff)
qed

theorem session_authorization_chain_of_trust_witness:
  "cert_signed toy_ed25519 (sess_certificate (sess_content sample_session))
     \<and> snap_signed toy_ed25519 (sess_authority_snapshot (sess_content sample_session))
     \<and> sess_signed toy_ed25519 sample_session"
  using session_authorization_chain_of_trust [of toy_ed25519 sample_session]
  unfolding sample_session_trusted(2) Let_def by blast



end
