(* ===== verification/Canonical_Account.thy ===== *)
theory Canonical_Account
  imports Canonical_Authority
begin

text \<open>
  \<open>canonical_account_v1.rs\<close>: Root-signed Account device lists and conversation memberships. A device
  list carries the authority snapshot and the certificates as byte strings that hold their own
  canonical encodings. The decoder of this module does not look for shortest-form arguments itself;
  it relies on the profile check that every decoding starts with.
\<close>

section \<open>Constants, data and errors\<close>

definition MAX_CANONICAL_ACCOUNT_DEVICES :: nat where
  "MAX_CANONICAL_ACCOUNT_DEVICES = 32"

definition MAX_CANONICAL_CONVERSATION_MEMBERS :: nat where
  "MAX_CANONICAL_CONVERSATION_MEMBERS = 4096"

definition MAX_CANONICAL_NESTED_ACCOUNT_BYTES :: nat where
  "MAX_CANONICAL_NESTED_ACCOUNT_BYTES = 512 * 1024"

definition CANONICAL_ACCOUNT_DEVICE_LIST_SIGNATURE_DOMAIN :: bytes where
  "CANONICAL_ACCOUNT_DEVICE_LIST_SIGNATURE_DOMAIN
     = ascii ''kilogram:account-device-list-signature:cbor-v1'' @ [0]"

definition CANONICAL_CONVERSATION_MEMBERSHIP_SIGNATURE_DOMAIN :: bytes where
  "CANONICAL_CONVERSATION_MEMBERSHIP_SIGNATURE_DOMAIN
     = ascii ''kilogram:conversation-membership-signature:cbor-v1'' @ [0]"

record CanonicalAccountDeviceListContentV1 =
  list_authority_snapshot :: CanonicalSignedAccountAuthoritySnapshotV1
  list_devices :: "CanonicalSignedDeviceCertificateV1 list"

record CanonicalSignedAccountDeviceListV1 =
  list_content :: CanonicalAccountDeviceListContentV1
  list_signature :: bytes

record CanonicalConversationMembershipContentV1 =
  mem_conversation_id :: bytes
  mem_revision :: u64
  mem_owner_account_id :: bytes
  mem_members :: "bytes list"

record CanonicalSignedConversationMembershipV1 =
  mem_content :: CanonicalConversationMembershipContentV1
  mem_signature :: bytes

datatype canonical_account_error =
    AccountWire canonical_wire_error
  | AccountAuthority canonical_authority_error
  | AccountWrongArrayLength string nat nat
  | AccountWrongMajorType string u8 u8
  | AccountWrongByteStringLength string nat nat
  | AccountWrongUnsignedValue string u64 u64
  | EmptyDeviceList
  | NonCanonicalDeviceOrder
  | InvalidMembershipRevision
  | NonCanonicalMemberOrder
  | OwnerNotMember
  | DeviceListAccountMismatch string
  | DeviceListCertificateOutsideSnapshot
  | RevokedDevice
  | MissingMessagingCapabilities
  | NestedObjectTooLarge
  | AccountInvalidPublicKey string
  | AccountInvalidSignature string

section \<open>Content checks\<close>

definition validate_device_list_content
  :: "CanonicalAccountDeviceListContentV1 \<Rightarrow> canonical_account_error + unit" where
  "validate_device_list_content content =
     (if list_devices content = [] then Inl EmptyDeviceList
      else if length (list_devices content) > MAX_CANONICAL_ACCOUNT_DEVICES
      then Inl (AccountWire (TooManyItems ''devices'' (length (list_devices content)) MAX_CANONICAL_ACCOUNT_DEVICES))
      else let snapshot = snap_content (list_authority_snapshot content);
               account_id = snap_account_id snapshot; revision = snap_revision snapshot in
        and_then (for_each (\<lambda>certificate.
          if cert_account_id (cert_content certificate) \<noteq> account_id
          then Inl (DeviceListAccountMismatch ''device-list certificate'')
          else if cert_authority_sequence (cert_content certificate) \<ge> revision
          then Inl DeviceListCertificateOutsideSnapshot
          else if cert_capabilities (cert_content certificate) \<noteq> [SignEvents, SyncHistory]
          then Inl MissingMessagingCapabilities
          else if \<exists>revocation \<in> set (snap_revocations snapshot).
              rev_device_id (rev_content revocation) = cert_device_id (cert_content certificate)
          then Inl RevokedDevice
          else Inr ()) (list_devices content)) (\<lambda>_.
        if windows2_any (\<lambda>a b. cert_device_id (cert_content a) \<ge> cert_device_id (cert_content b)) (list_devices content)
        then Inl NonCanonicalDeviceOrder
        else Inr ()))"

definition validate_membership_content
  :: "CanonicalConversationMembershipContentV1 \<Rightarrow> canonical_account_error + unit" where
  "validate_membership_content content =
     (if mem_revision content = 0 then Inl InvalidMembershipRevision
      else if length (mem_members content) > MAX_CANONICAL_CONVERSATION_MEMBERS
      then Inl (AccountWire (TooManyItems ''members'' (length (mem_members content)) MAX_CANONICAL_CONVERSATION_MEMBERS))
      else if windows2_any (\<lambda>a b. a \<ge> b) (mem_members content) then Inl NonCanonicalMemberOrder
      else if \<not> binary_search_is_ok (mem_members content) (mem_owner_account_id content) then Inl OwnerNotMember
      else Inr ())"

definition ensure_nested_bound :: "bytes \<Rightarrow> canonical_account_error + unit" where
  "ensure_nested_bound bytes =
     (if length bytes > MAX_CANONICAL_NESTED_ACCOUNT_BYTES then Inl NestedObjectTooLarge else Inr ())"

definition account_verify_ed25519
  :: "ed25519 \<Rightarrow> bytes \<Rightarrow> bytes \<Rightarrow> bytes \<Rightarrow> string \<Rightarrow> canonical_account_error + unit" where
  "account_verify_ed25519 ed key message signature object =
     (if \<not> key_from_bytes_ok ed key then Inl (AccountInvalidPublicKey object)
      else if \<not> signature_try_from_ok ed signature then Inl (AccountInvalidSignature object)
      else if \<not> verify_strict ed key message signature then Inl (AccountInvalidSignature object)
      else Inr ())"

section \<open>Encoders and verification\<close>

definition signed_envelope :: "bytes \<Rightarrow> bytes \<Rightarrow> bytes" where
  "signed_envelope content signature =
     (let output = push_array_header [] 3;
          output = push_unsigned output CANONICAL_PROFILE_VERSION;
          output = output @ content
      in push_bytes output signature)"

definition encode_account_device_list_content_v1
  :: "ed25519 \<Rightarrow> CanonicalAccountDeviceListContentV1 \<Rightarrow> canonical_account_error + bytes" where
  "encode_account_device_list_content_v1 ed content =
     and_then (validate_device_list_content content) (\<lambda>_.
     and_then (map_err AccountAuthority
       (encode_signed_account_authority_snapshot_v1 ed (list_authority_snapshot content))) (\<lambda>snapshot.
     and_then (ensure_nested_bound snapshot) (\<lambda>_.
     and_then (try_map (\<lambda>certificate.
        and_then (map_err AccountAuthority (encode_signed_device_certificate_v1 ed certificate)) (\<lambda>encoded.
        and_then (ensure_nested_bound encoded) (\<lambda>_. Inr encoded))) (list_devices content)) (\<lambda>certificates.
     let output = push_array_header [] 3;
         output = push_unsigned output CANONICAL_PROFILE_VERSION;
         output = push_bytes output snapshot;
         output = push_array_header output (word_of_nat (length certificates));
         output = push_each output certificates
     in Inr output))))"

definition account_device_list_signing_bytes_v1
  :: "ed25519 \<Rightarrow> CanonicalAccountDeviceListContentV1 \<Rightarrow> canonical_account_error + bytes" where
  "account_device_list_signing_bytes_v1 ed content =
     and_then (encode_account_device_list_content_v1 ed content) (\<lambda>encoded.
     Inr (prefixed CANONICAL_ACCOUNT_DEVICE_LIST_SIGNATURE_DOMAIN encoded))"

definition verify_signed_account_device_list_v1
  :: "ed25519 \<Rightarrow> CanonicalSignedAccountDeviceListV1 \<Rightarrow> canonical_account_error + unit" where
  "verify_signed_account_device_list_v1 ed lst =
     and_then (validate_device_list_content (list_content lst)) (\<lambda>_.
     and_then (map_err AccountAuthority
       (verify_signed_account_authority_snapshot_v1 ed (list_authority_snapshot (list_content lst)))) (\<lambda>_.
     and_then (for_each (\<lambda>certificate. map_err AccountAuthority (verify_signed_device_certificate_v1 ed certificate))
       (list_devices (list_content lst))) (\<lambda>_.
     and_then (account_device_list_signing_bytes_v1 ed (list_content lst)) (\<lambda>message.
     account_verify_ed25519 ed (snap_account_id (snap_content (list_authority_snapshot (list_content lst)))) message
       (list_signature lst) ''signed-account-device-list-v1''))))"

definition encode_signed_account_device_list_v1
  :: "ed25519 \<Rightarrow> CanonicalSignedAccountDeviceListV1 \<Rightarrow> canonical_account_error + bytes" where
  "encode_signed_account_device_list_v1 ed lst =
     and_then (verify_signed_account_device_list_v1 ed lst) (\<lambda>_.
     and_then (encode_account_device_list_content_v1 ed (list_content lst)) (\<lambda>content.
     Inr (signed_envelope content (list_signature lst))))"

definition encode_conversation_membership_content_v1
  :: "CanonicalConversationMembershipContentV1 \<Rightarrow> canonical_account_error + bytes" where
  "encode_conversation_membership_content_v1 content =
     and_then (validate_membership_content content) (\<lambda>_.
     let output = push_array_header [] 5;
         output = push_unsigned output CANONICAL_PROFILE_VERSION;
         output = push_bytes output (mem_conversation_id content);
         output = push_unsigned output (mem_revision content);
         output = push_bytes output (mem_owner_account_id content);
         output = push_array_header output (word_of_nat (length (mem_members content)));
         output = push_each output (mem_members content)
     in Inr output)"

definition conversation_membership_signing_bytes_v1
  :: "CanonicalConversationMembershipContentV1 \<Rightarrow> canonical_account_error + bytes" where
  "conversation_membership_signing_bytes_v1 content =
     and_then (encode_conversation_membership_content_v1 content) (\<lambda>encoded.
     Inr (prefixed CANONICAL_CONVERSATION_MEMBERSHIP_SIGNATURE_DOMAIN encoded))"

definition verify_signed_conversation_membership_v1
  :: "ed25519 \<Rightarrow> CanonicalSignedConversationMembershipV1 \<Rightarrow> canonical_account_error + unit" where
  "verify_signed_conversation_membership_v1 ed membership =
     and_then (validate_membership_content (mem_content membership)) (\<lambda>_.
     and_then (conversation_membership_signing_bytes_v1 (mem_content membership)) (\<lambda>message.
     account_verify_ed25519 ed (mem_owner_account_id (mem_content membership)) message
       (mem_signature membership) ''signed-conversation-membership-v1''))"

definition encode_signed_conversation_membership_v1
  :: "ed25519 \<Rightarrow> CanonicalSignedConversationMembershipV1 \<Rightarrow> canonical_account_error + bytes" where
  "encode_signed_conversation_membership_v1 ed membership =
     and_then (verify_signed_conversation_membership_v1 ed membership) (\<lambda>_.
     and_then (encode_conversation_membership_content_v1 (mem_content membership)) (\<lambda>content.
     Inr (signed_envelope content (mem_signature membership))))"

section \<open>AccountDecoder\<close>

definition acct_new :: "bytes \<Rightarrow> decoder" where
  "acct_new bytes = \<lparr> dec_bytes = bytes, dec_cursor = 0 \<rparr>"

definition acct_finish :: "decoder \<Rightarrow> canonical_account_error + unit" where
  "acct_finish d = (if dec_cursor d = length (dec_bytes d) then Inr () else Inl (AccountWire TrailingData))"

definition acct_byte :: "decoder \<Rightarrow> canonical_account_error + u8 \<times> decoder" where
  "acct_byte d = and_then (ok_or (AccountWire UnexpectedEnd) (slice_get (dec_bytes d) (dec_cursor d))) (\<lambda>value.
     Inr (value, d\<lparr> dec_cursor := dec_cursor d + 1 \<rparr>))"

definition acct_array_bytes :: "nat \<Rightarrow> decoder \<Rightarrow> canonical_account_error + bytes \<times> decoder" where
  "acct_array_bytes n d =
     and_then (ok_or (AccountWire LengthOverflow) (usize_checked_add (dec_cursor d) n)) (\<lambda>stop.
     and_then (ok_or (AccountWire UnexpectedEnd) (slice_range (dec_bytes d) (dec_cursor d) stop)) (\<lambda>value.
     Inr (value, d\<lparr> dec_cursor := stop \<rparr>)))"

definition acct_argument :: "u8 \<Rightarrow> decoder \<Rightarrow> canonical_account_error + u64 \<times> decoder" where
  "acct_argument additional d =
     (if unat additional \<le> 23 then Inr (ucast additional, d)
      else if additional = 24 then and_then (acct_byte d) (\<lambda>(value, d). Inr (ucast value, d))
      else if additional = 25 then and_then (acct_array_bytes 2 d) (\<lambda>(value, d). Inr (word_of_nat (from_be_bytes value), d))
      else if additional = 26 then and_then (acct_array_bytes 4 d) (\<lambda>(value, d). Inr (word_of_nat (from_be_bytes value), d))
      else if additional = 27 then and_then (acct_array_bytes 8 d) (\<lambda>(value, d). Inr (word_of_nat (from_be_bytes value), d))
      else if additional = 31 then Inl (AccountWire IndefiniteLength)
      else Inl (AccountWire (ReservedAdditionalInformation additional)))"

definition acct_head :: "u8 \<Rightarrow> string \<Rightarrow> decoder \<Rightarrow> canonical_account_error + u64 \<times> decoder" where
  "acct_head expected_major field d =
     and_then (acct_byte d) (\<lambda>(initial, d).
     let actual_major = drop_bit 5 initial in
     if actual_major \<noteq> expected_major then Inl (AccountWrongMajorType field expected_major actual_major)
     else acct_argument (initial AND 31) d)"

definition acct_array :: "string \<Rightarrow> decoder \<Rightarrow> canonical_account_error + nat \<times> decoder" where
  "acct_array field d = and_then (acct_head 4 field d) (\<lambda>(n, d). Inr (unat n, d))"

definition acct_unsigned :: "string \<Rightarrow> decoder \<Rightarrow> canonical_account_error + u64 \<times> decoder" where
  "acct_unsigned field d = acct_head 0 field d"

definition acct_bytes :: "string \<Rightarrow> decoder \<Rightarrow> canonical_account_error + bytes \<times> decoder" where
  "acct_bytes field d =
     and_then (acct_head 2 field d) (\<lambda>(len, d).
     and_then (ok_or (AccountWire LengthOverflow) (usize_checked_add (dec_cursor d) (unat len))) (\<lambda>stop.
     and_then (ok_or (AccountWire UnexpectedEnd) (slice_range (dec_bytes d) (dec_cursor d) stop)) (\<lambda>value.
     Inr (value, d\<lparr> dec_cursor := stop \<rparr>))))"

definition acct_fixed_bytes :: "nat \<Rightarrow> string \<Rightarrow> decoder \<Rightarrow> canonical_account_error + bytes \<times> decoder" where
  "acct_fixed_bytes N field d =
     and_then (acct_bytes field d) (\<lambda>(value, d).
     if length value = N then Inr (value, d) else Inl (AccountWrongByteStringLength field N (length value)))"

definition acct_expect_array :: "string \<Rightarrow> nat \<Rightarrow> decoder \<Rightarrow> canonical_account_error + unit \<times> decoder" where
  "acct_expect_array object expected d =
     and_then (acct_array object d) (\<lambda>(actual, d).
     if actual \<noteq> expected then Inl (AccountWrongArrayLength object expected actual) else Inr ((), d))"

definition acct_expect_version :: "string \<Rightarrow> decoder \<Rightarrow> canonical_account_error + unit \<times> decoder" where
  "acct_expect_version field d =
     and_then (acct_unsigned field d) (\<lambda>(actual, d).
     if actual \<noteq> CANONICAL_PROFILE_VERSION
     then Inl (AccountWrongUnsignedValue field CANONICAL_PROFILE_VERSION actual) else Inr ((), d))"

section \<open>Decoders\<close>

definition read_nested_snapshot
  :: "decoder \<Rightarrow> canonical_account_error + CanonicalSignedAccountAuthoritySnapshotV1 \<times> decoder" where
  "read_nested_snapshot d =
     and_then (acct_bytes ''account-device-list-content-v1.authority_snapshot'' d) (\<lambda>(snapshot_bytes, d).
     and_then (ensure_nested_bound snapshot_bytes) (\<lambda>_.
     and_then (map_err AccountAuthority (decode_signed_account_authority_snapshot_v1 snapshot_bytes)) (\<lambda>authority_snapshot.
     Inr (authority_snapshot, d))))"

definition read_nested_device
  :: "decoder \<Rightarrow> canonical_account_error + CanonicalSignedDeviceCertificateV1 \<times> decoder" where
  "read_nested_device d =
     and_then (acct_bytes ''account-device-list-content-v1.device'' d) (\<lambda>(bytes, d).
     and_then (ensure_nested_bound bytes) (\<lambda>_.
     and_then (map_err AccountAuthority (decode_signed_device_certificate_v1 bytes)) (\<lambda>device.
     Inr (device, d))))"

definition decode_account_device_list_content_from
  :: "decoder \<Rightarrow> canonical_account_error + CanonicalAccountDeviceListContentV1 \<times> decoder" where
  "decode_account_device_list_content_from d =
     and_then (acct_expect_array ''account-device-list-content-v1'' 3 d) (\<lambda>(_, d).
     and_then (acct_expect_version ''account-device-list-content-v1.schema_version'' d) (\<lambda>(_, d).
     and_then (read_nested_snapshot d) (\<lambda>(authority_snapshot, d).
     and_then (acct_array ''account-device-list-content-v1.devices'' d) (\<lambda>(count, d).
     if count > MAX_CANONICAL_ACCOUNT_DEVICES
     then Inl (AccountWire (TooManyItems ''devices'' count MAX_CANONICAL_ACCOUNT_DEVICES))
     else and_then (read_n count read_nested_device d) (\<lambda>(devices, d).
     let content = \<lparr> list_authority_snapshot = authority_snapshot, list_devices = devices \<rparr>
     in and_then (validate_device_list_content content) (\<lambda>_. Inr (content, d)))))))"

definition decode_conversation_membership_content_from
  :: "decoder \<Rightarrow> canonical_account_error + CanonicalConversationMembershipContentV1 \<times> decoder" where
  "decode_conversation_membership_content_from d =
     and_then (acct_expect_array ''conversation-membership-content-v1'' 5 d) (\<lambda>(_, d).
     and_then (acct_expect_version ''conversation-membership-content-v1.schema_version'' d) (\<lambda>(_, d).
     and_then (acct_fixed_bytes 32 ''conversation-membership-content-v1.conversation_id'' d) (\<lambda>(conversation_id, d).
     and_then (acct_unsigned ''conversation-membership-content-v1.revision'' d) (\<lambda>(revision, d).
     and_then (acct_fixed_bytes 32 ''conversation-membership-content-v1.owner_account_id'' d) (\<lambda>(owner_account_id, d).
     and_then (acct_array ''conversation-membership-content-v1.members'' d) (\<lambda>(count, d).
     if count > MAX_CANONICAL_CONVERSATION_MEMBERS
     then Inl (AccountWire (TooManyItems ''members'' count MAX_CANONICAL_CONVERSATION_MEMBERS))
     else and_then (read_n count (acct_fixed_bytes 32 ''conversation-membership-content-v1.member'') d) (\<lambda>(members, d).
     let content = \<lparr> mem_conversation_id = conversation_id, mem_revision = revision,
       mem_owner_account_id = owner_account_id, mem_members = members \<rparr>
     in and_then (validate_membership_content content) (\<lambda>_. Inr (content, d)))))))))"

definition decode_signed_account_device_list_v1
  :: "bytes \<Rightarrow> canonical_account_error + CanonicalSignedAccountDeviceListV1" where
  "decode_signed_account_device_list_v1 bytes =
     and_then (map_err AccountWire (validate_canonical_profile_v1 bytes)) (\<lambda>_.
     let d = acct_new bytes in
     and_then (acct_expect_array ''signed-account-device-list-v1'' 3 d) (\<lambda>(_, d).
     and_then (acct_expect_version ''signed-account-device-list-v1.schema_version'' d) (\<lambda>(_, d).
     and_then (decode_account_device_list_content_from d) (\<lambda>(content, d).
     and_then (acct_fixed_bytes 64 ''signed-account-device-list-v1.signature'' d) (\<lambda>(signature, d).
     and_then (acct_finish d) (\<lambda>_.
     Inr \<lparr> list_content = content, list_signature = signature \<rparr>))))))"

definition decode_and_verify_signed_account_device_list_v1
  :: "ed25519 \<Rightarrow> bytes \<Rightarrow> canonical_account_error + CanonicalSignedAccountDeviceListV1" where
  "decode_and_verify_signed_account_device_list_v1 ed bytes =
     and_then (decode_signed_account_device_list_v1 bytes) (\<lambda>lst.
     and_then (verify_signed_account_device_list_v1 ed lst) (\<lambda>_. Inr lst))"

definition decode_signed_conversation_membership_v1
  :: "bytes \<Rightarrow> canonical_account_error + CanonicalSignedConversationMembershipV1" where
  "decode_signed_conversation_membership_v1 bytes =
     and_then (map_err AccountWire (validate_canonical_profile_v1 bytes)) (\<lambda>_.
     let d = acct_new bytes in
     and_then (acct_expect_array ''signed-conversation-membership-v1'' 3 d) (\<lambda>(_, d).
     and_then (acct_expect_version ''signed-conversation-membership-v1.schema_version'' d) (\<lambda>(_, d).
     and_then (decode_conversation_membership_content_from d) (\<lambda>(content, d).
     and_then (acct_fixed_bytes 64 ''signed-conversation-membership-v1.signature'' d) (\<lambda>(signature, d).
     and_then (acct_finish d) (\<lambda>_.
     Inr \<lparr> mem_content = content, mem_signature = signature \<rparr>))))))"

definition decode_and_verify_signed_conversation_membership_v1
  :: "ed25519 \<Rightarrow> bytes \<Rightarrow> canonical_account_error + CanonicalSignedConversationMembershipV1" where
  "decode_and_verify_signed_conversation_membership_v1 ed bytes =
     and_then (decode_signed_conversation_membership_v1 bytes) (\<lambda>membership.
     and_then (verify_signed_conversation_membership_v1 ed membership) (\<lambda>_. Inr membership))"

section \<open>The decoder reads canonical heads\<close>

lemma acct_byte_at:
  "take_byte bs c = Inr (b, c') \<Longrightarrow>
   acct_byte \<lparr> dec_bytes = bs, dec_cursor = c \<rparr> = Inr (b, \<lparr> dec_bytes = bs, dec_cursor = c' \<rparr>)"
  by (auto simp: take_byte_def acct_byte_def result_simps)

lemma acct_array_bytes_at:
  "take_array n bs c = Inr (v, c') \<Longrightarrow>
   acct_array_bytes n \<lparr> dec_bytes = bs, dec_cursor = c \<rparr> = Inr (v, \<lparr> dec_bytes = bs, dec_cursor = c' \<rparr>)"
  by (auto simp: take_array_def acct_array_bytes_def result_simps)

lemma acct_argument_at:
  assumes "read_argument bs c k = Inr (a, c')"
  shows "acct_argument k \<lparr> dec_bytes = bs, dec_cursor = c \<rparr> = Inr (a, \<lparr> dec_bytes = bs, dec_cursor = c' \<rparr>)"
  using assms
  by (auto simp: read_argument_def acct_argument_def result_simps acct_byte_at acct_array_bytes_at split: if_splits)

interpretation acct: canonical_head acct_head AccountWrongMajorType
proof
  fix bs :: bytes and m' c c' a m field
  assume A: "length bs < 2 ^ 64" "unat m' < 8" "slice_range bs c c' = Some (push_head [] m' a)"
  with read_head_iff [OF A(1), of c m' a c'] obtain b c1 where
    b: "take_byte bs c = Inr (b, c1)" "drop_bit 5 b = m'" "read_argument bs c1 (b AND 31) = Inr (a, c')" by blast
  show "acct_head m field \<lparr> dec_bytes = bs, dec_cursor = c \<rparr> =
      (if m = m' then Inr (a, \<lparr> dec_bytes = bs, dec_cursor = c' \<rparr>) else Inl (AccountWrongMajorType field m m'))"
    by (simp add: acct_head_def acct_byte_at [OF b(1)] acct_argument_at [OF b(3)] b(2))
next
  fix m field and bs :: bytes
  show "\<not> is_ok (acct_head m field \<lparr> dec_bytes = bs, dec_cursor = length bs \<rparr>)"
    by (simp add: acct_head_def acct_byte_def slice_get_def)
qed

lemma sim_acct_unsigned [sim_intros]: "sim (acct_unsigned f) p_unsigned"
  unfolding acct_unsigned_def [abs_def] by (rule acct.sim_unsigned)

lemma sim_acct_array [sim_intros]: "sim (acct_array f) p_array"
  unfolding acct_array_def [abs_def] by (rule acct.sim_array)

lemma sim_acct_bytes [sim_intros]: "sim (acct_bytes f) p_bytes"
  unfolding acct_bytes_def [abs_def] by (rule acct.sim_bytes)

lemma sim_acct_fixed_bytes [sim_intros]: "sim (acct_fixed_bytes N f) (p_fixed N)"
  unfolding acct_fixed_bytes_def [abs_def] p_fixed_def by (intro sim_intros)

lemma sim_acct_expect_array [sim_intros]: "sim (acct_expect_array f n) (p_expect_array n)"
  unfolding acct_expect_array_def [abs_def] p_expect_array_def by (intro sim_intros)

lemma sim_acct_expect_version [sim_intros]: "sim (acct_expect_version f) p_version"
  unfolding acct_expect_version_def [abs_def] p_version_def by (intro sim_intros)

lemma acct_finish_Inr [result_simps]: "acct_finish d = Inr u \<longleftrightarrow> dec_cursor d = length (dec_bytes d)"
  by (simp add: acct_finish_def)

section \<open>Objects and their items\<close>

definition mem_content_item :: "CanonicalConversationMembershipContentV1 \<Rightarrow> cbor_item" where
  "mem_content_item c = CArray [CUnsigned CANONICAL_PROFILE_VERSION, CBytes (mem_conversation_id c),
     CUnsigned (mem_revision c), CBytes (mem_owner_account_id c), CArray (map CBytes (mem_members c))]"

definition mem_item :: "CanonicalSignedConversationMembershipV1 \<Rightarrow> cbor_item" where
  "mem_item m = signed_item (mem_content_item (mem_content m)) (mem_signature m)"

definition list_content_item :: "CanonicalAccountDeviceListContentV1 \<Rightarrow> cbor_item" where
  "list_content_item c = CArray [CUnsigned CANONICAL_PROFILE_VERSION,
     CBytes (enc_item (snap_item (list_authority_snapshot c))),
     CArray (map (\<lambda>d. CBytes (enc_item (cert_item d))) (list_devices c))]"

definition list_item :: "CanonicalSignedAccountDeviceListV1 \<Rightarrow> cbor_item" where
  "list_item l = signed_item (list_content_item (list_content l)) (list_signature l)"

definition mem_typed :: "CanonicalSignedConversationMembershipV1 \<Rightarrow> bool" where
  "mem_typed m \<longleftrightarrow> id32 (mem_conversation_id (mem_content m)) \<and> id32 (mem_owner_account_id (mem_content m))
     \<and> list_all id32 (mem_members (mem_content m)) \<and> length (mem_signature m) = 64"

definition mem_content_ok :: "CanonicalConversationMembershipContentV1 \<Rightarrow> bool" where
  "mem_content_ok c \<longleftrightarrow> id32 (mem_conversation_id c) \<and> id32 (mem_owner_account_id c)
     \<and> list_all id32 (mem_members c) \<and> validate_membership_content c = Inr ()"

definition mem_ok :: "CanonicalSignedConversationMembershipV1 \<Rightarrow> bool" where
  "mem_ok m \<longleftrightarrow> mem_content_ok (mem_content m) \<and> length (mem_signature m) = 64"

definition list_typed :: "CanonicalSignedAccountDeviceListV1 \<Rightarrow> bool" where
  "list_typed l \<longleftrightarrow> snap_typed (list_authority_snapshot (list_content l))
     \<and> list_all cert_typed (list_devices (list_content l)) \<and> length (list_signature l) = 64"

definition list_content_ok :: "CanonicalAccountDeviceListContentV1 \<Rightarrow> bool" where
  "list_content_ok c \<longleftrightarrow> snap_ok (list_authority_snapshot c) \<and> list_all cert_ok (list_devices c)
     \<and> validate_device_list_content c = Inr ()"

definition list_ok :: "CanonicalSignedAccountDeviceListV1 \<Rightarrow> bool" where
  "list_ok l \<longleftrightarrow> list_content_ok (list_content l) \<and> length (list_signature l) = 64"

lemma validate_membership_iff:
  "validate_membership_content c = Inr u \<longleftrightarrow> mem_revision c \<noteq> 0
     \<and> length (mem_members c) \<le> MAX_CANONICAL_CONVERSATION_MEMBERS \<and> sorted_wrt (<) (mem_members c)
     \<and> mem_owner_account_id c \<in> set (mem_members c)"
  using windows2_any_sorted [of "\<lambda>x. x" "mem_members c"]
  by (auto simp: validate_membership_content_def binary_search_is_ok_iff)

lemma validate_device_list_iff:
  "validate_device_list_content c = Inr u \<longleftrightarrow>
     (let snapshot = snap_content (list_authority_snapshot c) in
      list_devices c \<noteq> [] \<and> length (list_devices c) \<le> MAX_CANONICAL_ACCOUNT_DEVICES
      \<and> (\<forall>d \<in> set (list_devices c). cert_account_id (cert_content d) = snap_account_id snapshot
           \<and> cert_authority_sequence (cert_content d) < snap_revision snapshot
           \<and> cert_capabilities (cert_content d) = [SignEvents, SyncHistory]
           \<and> (\<forall>r \<in> set (snap_revocations snapshot).
                rev_device_id (rev_content r) \<noteq> cert_device_id (cert_content d)))
      \<and> sorted_wrt (\<lambda>a b. cert_device_id (cert_content a) < cert_device_id (cert_content b)) (list_devices c))"
  using windows2_any_sorted [of "\<lambda>d. cert_device_id (cert_content d)" "list_devices c"]
  by (auto simp: validate_device_list_content_def result_simps Let_def not_le split: if_splits)

text \<open>A nested object of the authority module always fits its bound.\<close>

fun item_bytes_le :: "nat \<Rightarrow> cbor_item \<Rightarrow> bool" where
  "item_bytes_le k (CUnsigned v) = True"
| "item_bytes_le k (CBytes b) = (length b \<le> k)"
| "item_bytes_le k (CArray xs) = (\<forall>x \<in> set xs. item_bytes_le k x)"

lemma length_enc_item_le: "item_bytes_le k it \<Longrightarrow> length (enc_item it) \<le> item_count it * (9 + k)"
proof (induction k it rule: item_bytes_le.induct)
  case (1 k v)
  then show ?case using length_push_head [of 0 v] by (simp add: enc_CUnsigned)
next
  case (2 k b)
  then show ?case using length_push_head [of 2 "word_of_nat (length b)"] by (simp add: enc_CBytes)
next
  case (3 k xs)
  then have "length (enc_items xs) \<le> sum_list (map item_count xs) * (9 + k)"
    unfolding enc_items_def by (intro length_concat_bound) auto
  then show ?case using length_push_head [of 4 "word_of_nat (length xs)"]
    by (simp add: enc_CArray array_head_def)
qed

lemma snap_nested: "snap_ok s \<Longrightarrow> length (enc_item (snap_item s)) \<le> MAX_CANONICAL_NESTED_ACCOUNT_BYTES"
proof -
  assume ok: "snap_ok s"
  then have "item_bytes_le 64 (snap_item s)"
    by (auto simp: snap_item_def snap_content_item_def signed_item_def snap_ok_def snap_content_ok_def id32_def
        rev_item_def rev_content_item_def rev_ok_def rev_content_ok_def list_all_iff)
  from length_enc_item_le [OF this] snap_item_count [OF ok] show ?thesis
    by (simp add: MAX_CANONICAL_NESTED_ACCOUNT_BYTES_def)
qed

lemma cert_nested: "cert_ok c \<Longrightarrow> length (enc_item (cert_item c)) \<le> MAX_CANONICAL_NESTED_ACCOUNT_BYTES"
proof -
  assume ok: "cert_ok c"
  then have "item_bytes_le 64 (cert_item c)"
    by (auto simp: cert_item_def cert_content_item_def signed_item_def cert_ok_def cert_content_ok_def id32_def)
  from length_enc_item_le [OF this] cert_item_count [OF ok] show ?thesis
    by (simp add: MAX_CANONICAL_NESTED_ACCOUNT_BYTES_def)
qed

lemma ensure_nested_bound_Inr [result_simps]:
  "ensure_nested_bound b = Inr u \<longleftrightarrow> length b \<le> MAX_CANONICAL_NESTED_ACCOUNT_BYTES"
  by (auto simp: ensure_nested_bound_def)

lemma reads_mem_content: "reads decode_conversation_membership_content_from mem_content_item mem_content_ok"
proof -
  have p: "parses (p_fixed 32) CBytes id32" by (rule parsesI) (auto simp: id32_def)
  show ?thesis unfolding decode_conversation_membership_content_from_def [abs_def] Let_def
    apply (rule readsI, (rule sim_intros)+)
    subgoal for its v rest
      by (cases v) (auto simp: parses_n [OF p] mem_content_item_def mem_content_ok_def id32_def is_ok_iff
          validate_membership_iff not_less)
    done
qed

lemma nested_length: "length b \<le> MAX_CANONICAL_NESTED_ACCOUNT_BYTES \<Longrightarrow> length b < 2 ^ 64"
  by (simp add: MAX_CANONICAL_NESTED_ACCOUNT_BYTES_def)

lemma reads_nested_snapshot: "reads read_nested_snapshot (\<lambda>s. CBytes (enc_item (snap_item s))) snap_ok"
  unfolding read_nested_snapshot_def [abs_def]
  apply (rule readsI, rule sim_bind, rule sim_acct_bytes, rule sim_check, rule sim_value)
  subgoal for its v rest
    using snap_nested [of v] by (auto simp: is_ok_iff result_simps dest!: nested_length simp: decode_snap_iff)
  done

lemma reads_nested_device: "reads read_nested_device (\<lambda>c. CBytes (enc_item (cert_item c))) cert_ok"
  unfolding read_nested_device_def [abs_def]
  apply (rule readsI, rule sim_bind, rule sim_acct_bytes, rule sim_check, rule sim_value)
  subgoal for its v rest
    using cert_nested [of v] by (auto simp: is_ok_iff result_simps dest!: nested_length simp: decode_cert_iff)
  done

lemma reads_list_content: "reads decode_account_device_list_content_from list_content_item list_content_ok"
proof -
  obtain p where p: "sim read_nested_snapshot p" "parses p (\<lambda>s. CBytes (enc_item (snap_item s))) snap_ok"
    using reads_nested_snapshot by (rule readsE)
  obtain q where q: "sim read_nested_device q" "parses q (\<lambda>c. CBytes (enc_item (cert_item c))) cert_ok"
    using reads_nested_device by (rule readsE)
  show ?thesis unfolding decode_account_device_list_content_from_def [abs_def] Let_def
    apply (rule readsI, (rule sim_intros p(1) q(1))+)
    subgoal for its v rest
      by (cases v) (auto simp: parsesD [OF p(2)] parses_n [OF q(2)] list_content_item_def list_content_ok_def is_ok_iff
          validate_device_list_iff Let_def not_less)
    done
qed

lemma mem_item_limits: "mem_ok m \<Longrightarrow> within_limits (mem_item m)"
  by (auto simp: within_limits_def mem_item_def mem_content_item_def signed_item_def mem_ok_def mem_content_ok_def
      id32_def profile_limits validate_membership_iff MAX_CANONICAL_CONVERSATION_MEMBERS_def list_all_iff)

lemma list_item_limits:
  assumes "list_ok l"
  shows "within_limits (list_item l)"
proof -
  have "length (enc_item (cert_item d)) \<le> MAX_CANONICAL_BYTE_STRING_BYTES"
    if "d \<in> set (list_devices (list_content l))" for d
    using assms that cert_nested [of d]
    by (auto simp: list_ok_def list_content_ok_def list_all_iff profile_limits MAX_CANONICAL_NESTED_ACCOUNT_BYTES_def)
  moreover have "length (enc_item (snap_item (list_authority_snapshot (list_content l)))) \<le> MAX_CANONICAL_BYTE_STRING_BYTES"
    using assms snap_nested [of "list_authority_snapshot (list_content l)"]
    by (auto simp: list_ok_def list_content_ok_def profile_limits MAX_CANONICAL_NESTED_ACCOUNT_BYTES_def)
  ultimately show ?thesis using assms
    by (auto simp: within_limits_def list_item_def list_content_item_def signed_item_def list_ok_def list_content_ok_def
        validate_device_list_iff Let_def MAX_CANONICAL_ACCOUNT_DEVICES_def MAX_CANONICAL_DEPTH_def
        MAX_CANONICAL_ITEMS_def comp_def sum_list_const) (auto simp: MAX_CANONICAL_BYTE_STRING_BYTES_def)
qed

lemma decode_mem_iff:
  assumes "length bs < 2 ^ 64"
  shows "decode_signed_conversation_membership_v1 bs = Inr m \<longleftrightarrow> mem_ok m \<and> bs = enc_item (mem_item m)"
proof -
  let ?rd = "\<lambda>d. and_then (acct_expect_array ''signed-conversation-membership-v1'' 3 d) (\<lambda>(_, d).
     and_then (acct_expect_version ''signed-conversation-membership-v1.schema_version'' d) (\<lambda>(_, d).
     and_then (decode_conversation_membership_content_from d) (\<lambda>(content, d).
     and_then (acct_fixed_bytes 64 ''signed-conversation-membership-v1.signature'' d) (\<lambda>(signature, d).
     Inr (\<lparr> mem_content = content, mem_signature = signature \<rparr>, d)))))"
  obtain p where p: "sim decode_conversation_membership_content_from p" "parses p mem_content_item mem_content_ok"
    using reads_mem_content by (rule readsE)
  have "reads ?rd mem_item mem_ok"
    apply (rule readsI, (rule sim_intros p(1))+)
    subgoal for its v rest by (cases v) (auto simp: parsesD [OF p(2)] mem_item_def mem_ok_def signed_item_def)
    done
  from reads_object [OF this mem_item_limits assms, of m] show ?thesis
    by (auto simp: decode_signed_conversation_membership_v1_def result_simps acct_new_def Let_def)
qed

lemma decode_list_iff:
  assumes "length bs < 2 ^ 64"
  shows "decode_signed_account_device_list_v1 bs = Inr l \<longleftrightarrow> list_ok l \<and> bs = enc_item (list_item l)"
proof -
  let ?rd = "\<lambda>d. and_then (acct_expect_array ''signed-account-device-list-v1'' 3 d) (\<lambda>(_, d).
     and_then (acct_expect_version ''signed-account-device-list-v1.schema_version'' d) (\<lambda>(_, d).
     and_then (decode_account_device_list_content_from d) (\<lambda>(content, d).
     and_then (acct_fixed_bytes 64 ''signed-account-device-list-v1.signature'' d) (\<lambda>(signature, d).
     Inr (\<lparr> list_content = content, list_signature = signature \<rparr>, d)))))"
  obtain p where p: "sim decode_account_device_list_content_from p" "parses p list_content_item list_content_ok"
    using reads_list_content by (rule readsE)
  have "reads ?rd list_item list_ok"
    apply (rule readsI, (rule sim_intros p(1))+)
    subgoal for its v rest by (cases v) (auto simp: parsesD [OF p(2)] list_item_def list_ok_def signed_item_def)
    done
  from reads_object [OF this list_item_limits assms, of l] show ?thesis
    by (auto simp: decode_signed_account_device_list_v1_def result_simps acct_new_def Let_def)
qed

section \<open>Encoders write the items\<close>

lemma signed_envelope_item: "signed_envelope (enc_item it) sg = enc_item (signed_item it sg)"
  by (simp add: signed_envelope_def signed_item_def codec_simps Let_def)

lemma account_verify_ed25519_iff: "account_verify_ed25519 ed k m s obj = Inr u \<longleftrightarrow> signed_by ed k m s"
  by (auto simp: account_verify_ed25519_def signed_by_def)

lemma encode_mem_content_iff:
  "encode_conversation_membership_content_v1 c = Inr bs \<longleftrightarrow>
     validate_membership_content c = Inr () \<and> bs = enc_item (mem_content_item c)"
  by (auto simp: encode_conversation_membership_content_v1_def result_simps codec_simps mem_content_item_def
      Let_def comp_def)

definition mem_signed :: "ed25519 \<Rightarrow> CanonicalSignedConversationMembershipV1 \<Rightarrow> bool" where
  "mem_signed ed m \<longleftrightarrow> signed_by ed (mem_owner_account_id (mem_content m))
     (CANONICAL_CONVERSATION_MEMBERSHIP_SIGNATURE_DOMAIN @ enc_item (mem_content_item (mem_content m))) (mem_signature m)"

definition list_signed :: "ed25519 \<Rightarrow> CanonicalSignedAccountDeviceListV1 \<Rightarrow> bool" where
  "list_signed ed l \<longleftrightarrow> signed_by ed (snap_account_id (snap_content (list_authority_snapshot (list_content l))))
     (CANONICAL_ACCOUNT_DEVICE_LIST_SIGNATURE_DOMAIN @ enc_item (list_content_item (list_content l))) (list_signature l)"

lemma verify_mem_iff:
  "verify_signed_conversation_membership_v1 ed m = Inr u \<longleftrightarrow>
     validate_membership_content (mem_content m) = Inr () \<and> mem_signed ed m"
  by (auto simp: verify_signed_conversation_membership_v1_def result_simps mem_signed_def prefixed_def
      conversation_membership_signing_bytes_v1_def encode_mem_content_iff account_verify_ed25519_iff)

lemma encode_mem_iff:
  "encode_signed_conversation_membership_v1 ed m = Inr bs \<longleftrightarrow>
     verify_signed_conversation_membership_v1 ed m = Inr () \<and> bs = enc_item (mem_item m)"
  by (auto simp: encode_signed_conversation_membership_v1_def result_simps verify_mem_iff encode_mem_content_iff
      signed_envelope_item mem_item_def)

lemma encode_list_content_iff:
  "encode_account_device_list_content_v1 ed c = Inr bs \<longleftrightarrow> validate_device_list_content c = Inr ()
     \<and> verify_signed_account_authority_snapshot_v1 ed (list_authority_snapshot c) = Inr ()
     \<and> length (enc_item (snap_item (list_authority_snapshot c))) \<le> MAX_CANONICAL_NESTED_ACCOUNT_BYTES
     \<and> (\<forall>d \<in> set (list_devices c). verify_signed_device_certificate_v1 ed d = Inr ()
          \<and> length (enc_item (cert_item d)) \<le> MAX_CANONICAL_NESTED_ACCOUNT_BYTES)
     \<and> bs = enc_item (list_content_item c)"
proof -
  let ?enc = "\<lambda>certificate.
      and_then (map_err AccountAuthority (encode_signed_device_certificate_v1 ed certificate)) (\<lambda>encoded.
      and_then (ensure_nested_bound encoded) (\<lambda>_. Inr encoded))"
  let ?ok = "\<lambda>d. verify_signed_device_certificate_v1 ed d = Inr ()
      \<and> length (enc_item (cert_item d)) \<le> MAX_CANONICAL_NESTED_ACCOUNT_BYTES"
  have e: "?enc d = Inr r \<longleftrightarrow> ?ok d \<and> r = enc_item (cert_item d)" for d r
    by (auto simp: result_simps encode_cert_iff verify_cert_iff)
  have "try_map ?enc (list_devices c) = Inr cs \<longleftrightarrow>
      (\<forall>d \<in> set (list_devices c). ?ok d) \<and> cs = map (\<lambda>d. enc_item (cert_item d)) (list_devices c)" for cs
    by (rule try_map_Inr) (rule e)
  then show ?thesis
    by (auto simp: encode_account_device_list_content_v1_def result_simps encode_snap_iff codec_simps Let_def
        list_content_item_def comp_def)
qed

lemma list_ok_typed: "list_ok l \<longleftrightarrow> list_typed l \<and> validate_device_list_content (list_content l) = Inr ()
    \<and> validate_snapshot_content (snap_content (list_authority_snapshot (list_content l))) = Inr ()"
  by (auto simp: list_ok_def list_content_ok_def list_typed_def ok_typed list_all_iff validate_device_list_iff Let_def
      capabilities_iff)

lemma verify_list_iff:
  assumes "list_typed l"
  shows "verify_signed_account_device_list_v1 ed l = Inr u \<longleftrightarrow> validate_device_list_content (list_content l) = Inr ()
     \<and> verify_signed_account_authority_snapshot_v1 ed (list_authority_snapshot (list_content l)) = Inr ()
     \<and> (\<forall>d \<in> set (list_devices (list_content l)). verify_signed_device_certificate_v1 ed d = Inr ())
     \<and> list_signed ed l"
proof -
  have n: "length (enc_item (snap_item (list_authority_snapshot (list_content l)))) \<le> MAX_CANONICAL_NESTED_ACCOUNT_BYTES"
    if "verify_signed_account_authority_snapshot_v1 ed (list_authority_snapshot (list_content l)) = Inr ()"
    using that assms by (intro snap_nested) (auto simp: ok_typed list_typed_def verify_snap_iff)
  have c: "length (enc_item (cert_item d)) \<le> MAX_CANONICAL_NESTED_ACCOUNT_BYTES"
    if "verify_signed_device_certificate_v1 ed d = Inr ()" "d \<in> set (list_devices (list_content l))" for d
    using that assms by (intro cert_nested) (auto simp: ok_typed list_typed_def verify_cert_iff list_all_iff)
  show ?thesis using n c
    by (auto simp: verify_signed_account_device_list_v1_def result_simps account_device_list_signing_bytes_v1_def
        encode_list_content_iff prefixed_def account_verify_ed25519_iff list_signed_def)
qed

lemma encode_list_iff:
  assumes "list_typed l"
  shows "encode_signed_account_device_list_v1 ed l = Inr bs \<longleftrightarrow>
     verify_signed_account_device_list_v1 ed l = Inr () \<and> bs = enc_item (list_item l)"
proof -
  have "is_ok (encode_account_device_list_content_v1 ed (list_content l))"
    if "verify_signed_account_device_list_v1 ed l = Inr ()"
    using that by (auto simp: verify_signed_account_device_list_v1_def result_simps account_device_list_signing_bytes_v1_def)
  then show ?thesis
    by (auto simp: encode_signed_account_device_list_v1_def result_simps encode_list_content_iff signed_envelope_item
        list_item_def)
qed

section \<open>Properties\<close>

text \<open>C14. Decoding and verifying a device list is the exact inverse of encoding it, although its
  decoder does not check argument lengths itself and its snapshot and certificates are nested as byte
  strings; and the bound on nested objects never refuses a well-typed list whose parts verify.\<close>

theorem device_list_codec_inverse:
  assumes "length bs < 2 ^ 64"
  shows "decode_and_verify_signed_account_device_list_v1 ed bs = Inr l \<longleftrightarrow>
    list_typed l \<and> encode_signed_account_device_list_v1 ed l = Inr bs"
proof -
  have "validate_snapshot_content (snap_content (list_authority_snapshot (list_content l))) = Inr ()
      \<and> validate_device_list_content (list_content l) = Inr ()"
    if "list_typed l" "verify_signed_account_device_list_v1 ed l = Inr ()"
    using that by (simp add: verify_list_iff verify_snap_iff)
  then show ?thesis
    by (auto simp: decode_and_verify_signed_account_device_list_v1_def result_simps decode_list_iff [OF assms]
        list_ok_typed encode_list_iff)
qed

text \<open>C33. The same for conversation memberships.\<close>

theorem membership_codec_inverse:
  assumes "length bs < 2 ^ 64"
  shows "decode_and_verify_signed_conversation_membership_v1 ed bs = Inr m \<longleftrightarrow>
    mem_typed m \<and> encode_signed_conversation_membership_v1 ed m = Inr bs"
  by (auto simp: decode_and_verify_signed_conversation_membership_v1_def result_simps decode_mem_iff [OF assms]
      encode_mem_iff verify_mem_iff mem_ok_def mem_content_ok_def mem_typed_def)


text \<open>C35. Every Device of a verified device list is a messaging Device of the snapshot's Account that
  the snapshot does not revoke: its certificate is signed by the Account root, older than the
  snapshot's revision and carries both capabilities; no Device is listed twice.\<close>

theorem device_list_members_trusted:
  assumes "list_typed l" and "verify_signed_account_device_list_v1 ed l = Inr ()"
    and "d \<in> set (list_devices (list_content l))"
  shows "let snapshot = snap_content (list_authority_snapshot (list_content l)) in
    cert_account_id (cert_content d) = snap_account_id snapshot \<and> cert_signed ed d
    \<and> cert_authority_sequence (cert_content d) < snap_revision snapshot
    \<and> cert_capabilities (cert_content d) = [SignEvents, SyncHistory]
    \<and> cert_device_id (cert_content d) \<notin> (\<lambda>r. rev_device_id (rev_content r)) ` set (snap_revocations snapshot)
    \<and> distinct (map (\<lambda>d. cert_device_id (cert_content d)) (list_devices (list_content l)))"
proof -
  from assms have v: "validate_device_list_content (list_content l) = Inr ()"
    and c: "verify_signed_device_certificate_v1 ed d = Inr ()" by (auto simp: verify_list_iff)
  have "sorted_wrt (\<lambda>a b. cert_device_id (cert_content a) < cert_device_id (cert_content b)) (list_devices (list_content l))"
    using v by (simp add: validate_device_list_iff Let_def)
  from sorted_wrt_less_distinct [OF this] show ?thesis
    using v c assms(3) by (fastforce simp: validate_device_list_iff verify_cert_iff Let_def)
qed

section \<open>Examples\<close>

definition sample_membership :: CanonicalSignedConversationMembershipV1 where
  "sample_membership = (let content = \<lparr> mem_conversation_id = replicate 32 7, mem_revision = 2,
       mem_owner_account_id = replicate 32 2, mem_members = [replicate 32 1, replicate 32 2, replicate 32 4] \<rparr> in
     \<lparr> mem_content = content, mem_signature = toy_sign (replicate 32 2)
       (CANONICAL_CONVERSATION_MEMBERSHIP_SIGNATURE_DOMAIN @ enc_item (mem_content_item content)) \<rparr>)"

definition sample_device_list :: CanonicalSignedAccountDeviceListV1 where
  "sample_device_list = (let content = \<lparr> list_authority_snapshot = sample_snapshot,
       list_devices = [sample_certificate] \<rparr> in
     \<lparr> list_content = content, list_signature = toy_sign (replicate 32 1)
       (CANONICAL_ACCOUNT_DEVICE_LIST_SIGNATURE_DOMAIN @ enc_item (list_content_item content)) \<rparr>)"

lemma sample_membership_trusted:
  "mem_typed sample_membership" "verify_signed_conversation_membership_v1 toy_ed25519 sample_membership = Inr ()"
proof -
  show "mem_typed sample_membership" by (simp add: mem_typed_def sample_membership_def Let_def id32_def)
  have "sorted_wrt (<) [replicate 32 1, replicate 32 2, replicate 32 (4 :: u8)]" by code_simp
  moreover have "mem_signed toy_ed25519 sample_membership"
    by (simp add: mem_signed_def sample_membership_def Let_def)
  ultimately show "verify_signed_conversation_membership_v1 toy_ed25519 sample_membership = Inr ()"
    unfolding verify_mem_iff validate_membership_iff
    by (simp add: sample_membership_def Let_def MAX_CANONICAL_CONVERSATION_MEMBERS_def del: sorted_wrt.simps)
qed

lemma sample_device_list_trusted:
  "list_typed sample_device_list" "verify_signed_account_device_list_v1 toy_ed25519 sample_device_list = Inr ()"
proof -
  show t: "list_typed sample_device_list"
    using sample_typed by (simp add: list_typed_def sample_device_list_def Let_def)
  have c: "verify_signed_device_certificate_v1 toy_ed25519 sample_certificate = Inr ()"
    using sample_signed by (simp add: verify_cert_iff capabilities_iff sample_certificate_def Let_def)
  have "validate_device_list_content (list_content sample_device_list) = Inr ()"
    by (simp add: validate_device_list_iff sample_device_list_def sample_snapshot_def sample_certificate_def
        sample_revocation_def Let_def MAX_CANONICAL_ACCOUNT_DEVICES_def)
  moreover have "list_signed toy_ed25519 sample_device_list"
    by (simp add: list_signed_def sample_device_list_def sample_snapshot_def Let_def)
  ultimately show "verify_signed_account_device_list_v1 toy_ed25519 sample_device_list = Inr ()"
    using c sample_snapshot_trusted unfolding verify_list_iff [OF t] by (simp add: sample_device_list_def Let_def)
qed

theorem device_list_codec_inverse_witness:
  "decode_and_verify_signed_account_device_list_v1 toy_ed25519 (enc_item (list_item sample_device_list))
     = Inr sample_device_list"
proof -
  note v = sample_device_list_trusted
  then have "list_ok sample_device_list" by (simp add: list_ok_typed verify_list_iff verify_snap_iff)
  then have "length (enc_item (list_item sample_device_list)) < 2 ^ 64" by (intro within_limits_length list_item_limits)
  from device_list_codec_inverse [OF this, of toy_ed25519 sample_device_list] v show ?thesis by (simp add: encode_list_iff)
qed

theorem membership_codec_inverse_witness:
  "decode_and_verify_signed_conversation_membership_v1 toy_ed25519 (enc_item (mem_item sample_membership))
     = Inr sample_membership"
proof -
  note v = sample_membership_trusted
  then have "mem_ok sample_membership" by (simp add: verify_mem_iff mem_ok_def mem_content_ok_def mem_typed_def)
  then have "length (enc_item (mem_item sample_membership)) < 2 ^ 64" by (intro within_limits_length mem_item_limits)
  from membership_codec_inverse [OF this, of toy_ed25519 sample_membership] v show ?thesis by (simp add: encode_mem_iff)
qed

theorem device_list_members_trusted_witness: "cert_signed toy_ed25519 sample_certificate"
  using device_list_members_trusted [OF sample_device_list_trusted, of sample_certificate]
  by (simp add: sample_device_list_def Let_def)

end
