(* ===== verification/Device_Crypto.thy ===== *)
theory Device_Crypto
  imports Prelude
begin

text \<open>
  \<open>kilogram-crypto/src/lib.rs\<close>: the wrapper around HPKE and X25519. The libraries it calls are the
  record \<open>hpke_lib\<close>, an argument of every operation; what the operations rely on is stated as
  \<open>hpke_documented\<close>. A key of the libraries is its 32 bytes, so \<open>copy_fixed\<close> is the identity.
\<close>

section \<open>Libraries\<close>

record hpke_lib =
  derive_keypair :: "bytes \<Rightarrow> bytes \<times> bytes"
  public_key_from_bytes_ok :: "bytes \<Rightarrow> bool"
  encapped_key_from_bytes_ok :: "bytes \<Rightarrow> bool"
  single_shot_seal :: "bytes \<Rightarrow> bytes \<Rightarrow> bytes \<Rightarrow> bytes \<Rightarrow> (bytes \<times> bytes) option"
  single_shot_open :: "bytes \<Rightarrow> bytes \<Rightarrow> bytes \<Rightarrow> bytes \<Rightarrow> bytes \<Rightarrow> bytes option"
  x25519 :: "bytes \<Rightarrow> bytes \<Rightarrow> bytes"
  blake3_derive_key :: "string \<Rightarrow> bytes \<Rightarrow> bytes"

text \<open>What the libraries document: a derived public key parses, a sealed message opens under the
  matching private key, info and associated data, its encapsulated key parses, and the two sides of a
  key agreement compute the same secret.\<close>

definition hpke_documented :: "hpke_lib \<Rightarrow> bool" where
  "hpke_documented lib \<longleftrightarrow>
     (\<forall>seed. public_key_from_bytes_ok lib (snd (derive_keypair lib seed)))
   \<and> (\<forall>seed info pt aad enc ct. single_shot_seal lib (snd (derive_keypair lib seed)) info pt aad = Some (enc, ct) \<longrightarrow>
        encapped_key_from_bytes_ok lib enc
        \<and> single_shot_open lib (fst (derive_keypair lib seed)) enc info ct aad = Some pt)
   \<and> (\<forall>a b. x25519 lib (fst (derive_keypair lib a)) (snd (derive_keypair lib b))
        = x25519 lib (fst (derive_keypair lib b)) (snd (derive_keypair lib a)))"

section \<open>Operations\<close>

definition ENCRYPTION_KEY_BYTES :: nat where
  "ENCRYPTION_KEY_BYTES = 32"

datatype crypto_error = CryptoSecureRandom | Hpke | InvalidPairwiseContext | NonContributoryPairwiseKey

record SealedMessage =
  encapsulated_key :: bytes
  ciphertext :: bytes

record DeviceEncryptionIdentity =
  key_seed :: bytes

text \<open>\<open>generate\<close> with what \<open>getrandom::fill\<close> produced.\<close>

definition generate_identity :: "bytes option \<Rightarrow> crypto_error + DeviceEncryptionIdentity" where
  "generate_identity random = and_then (ok_or CryptoSecureRandom random) (\<lambda>seed. Inr \<lparr> key_seed = seed \<rparr>)"

definition public_key :: "hpke_lib \<Rightarrow> DeviceEncryptionIdentity \<Rightarrow> bytes" where
  "public_key lib self = snd (derive_keypair lib (key_seed self))"

definition derive_pairwise_key
  :: "hpke_lib \<Rightarrow> DeviceEncryptionIdentity \<Rightarrow> bytes \<Rightarrow> string \<Rightarrow> crypto_error + bytes" where
  "derive_pairwise_key lib self peer context =
     (if context = [] then Inl InvalidPairwiseContext
      else let (private_key, local_public_key) = derive_keypair lib (key_seed self);
               shared_secret = x25519 lib private_key peer in
        if list_all (\<lambda>byte. byte = 0) shared_secret then Inl NonContributoryPairwiseKey
        else let (first_public_key, second_public_key) =
               (if local_public_key \<le> peer then (local_public_key, peer) else (peer, local_public_key))
          in Inr (blake3_derive_key lib context (shared_secret @ first_public_key @ second_public_key)))"

definition open_sealed
  :: "hpke_lib \<Rightarrow> DeviceEncryptionIdentity \<Rightarrow> SealedMessage \<Rightarrow> bytes \<Rightarrow> bytes \<Rightarrow> crypto_error + bytes" where
  "open_sealed lib self sealed info aad =
     (let private_key = fst (derive_keypair lib (key_seed self)) in
      if \<not> encapped_key_from_bytes_ok lib (encapsulated_key sealed) then Inl Hpke
      else ok_or Hpke (single_shot_open lib private_key (encapsulated_key sealed) info (ciphertext sealed) aad))"

definition encryption_key_from_bytes :: "hpke_lib \<Rightarrow> bytes \<Rightarrow> crypto_error + bytes" where
  "encryption_key_from_bytes lib bytes = (if public_key_from_bytes_ok lib bytes then Inr bytes else Inl Hpke)"

definition seal :: "hpke_lib \<Rightarrow> bytes \<Rightarrow> bytes \<Rightarrow> bytes \<Rightarrow> bytes \<Rightarrow> crypto_error + SealedMessage" where
  "seal lib key plaintext info aad =
     (if \<not> public_key_from_bytes_ok lib key then Inl Hpke
      else and_then (ok_or Hpke (single_shot_seal lib key info plaintext aad)) (\<lambda>(enc, ct).
        Inr \<lparr> encapsulated_key = enc, ciphertext = ct \<rparr>))"

section \<open>Properties\<close>

text \<open>Two Devices derive the same pairwise key, whichever of them computes it: the public keys
  enter the derivation in byte order, so both sides hash the same material, and they fail alike.\<close>

lemma pairwise_key_symmetric:
  assumes "hpke_documented lib"
  shows "derive_pairwise_key lib a (public_key lib b) context = derive_pairwise_key lib b (public_key lib a) context"
proof -
  have "x25519 lib (fst (derive_keypair lib (key_seed a))) (snd (derive_keypair lib (key_seed b)))
      = x25519 lib (fst (derive_keypair lib (key_seed b))) (snd (derive_keypair lib (key_seed a)))"
    using assms by (auto simp: hpke_documented_def)
  then show ?thesis
    by (auto simp: derive_pairwise_key_def public_key_def Let_def split_beta dest: antisym)
qed

lemma open_seal:
  assumes "hpke_documented lib" and "seal lib (public_key lib r) plaintext info aad = Inr sealed"
  shows "open_sealed lib r sealed info aad = Inr plaintext"
  using assms
  by (fastforce simp: hpke_documented_def seal_def open_sealed_def public_key_def result_simps split: if_splits)

text \<open>Libraries for examples: a key is its own seed, sealing prefixes the key, and the shared secret
  is the bytewise sum.\<close>

definition toy_hpke :: hpke_lib where
  "toy_hpke = \<lparr> derive_keypair = (\<lambda>s. (s, s)), public_key_from_bytes_ok = (\<lambda>_. True),
     encapped_key_from_bytes_ok = (\<lambda>_. True),
     single_shot_seal = (\<lambda>k info pt aad. Some (k, info @ aad @ pt)),
     single_shot_open = (\<lambda>k enc info ct aad. if enc = k \<and> take (length info + length aad) ct = info @ aad
       then Some (drop (length info + length aad) ct) else None),
     x25519 = (\<lambda>a b. map2 (+) a b), blake3_derive_key = (\<lambda>c m. ascii c @ m) \<rparr>"

lemma map2_add_commute: "map2 (+) a b = map2 (+) b (a :: bytes)"
  by (induction a b rule: list_induct2') (auto simp: add.commute)

lemma toy_hpke_documented: "hpke_documented toy_hpke"
  by (auto simp: hpke_documented_def toy_hpke_def map2_add_commute)

theorem pairwise_key_symmetric_witness:
  "derive_pairwise_key toy_hpke \<lparr> key_seed = [1, 2] \<rparr> (public_key toy_hpke \<lparr> key_seed = [1, 1] \<rparr>) ''c''
     = derive_pairwise_key toy_hpke \<lparr> key_seed = [1, 1] \<rparr> (public_key toy_hpke \<lparr> key_seed = [1, 2] \<rparr>) ''c''
   \<and> derive_pairwise_key toy_hpke \<lparr> key_seed = [1, 1] \<rparr> [1, 2] ''c'' = Inr [99, 2, 3, 1, 1, 1, 2]"
  using pairwise_key_symmetric [OF toy_hpke_documented, of "\<lparr> key_seed = [1, 2] \<rparr>" "\<lparr> key_seed = [1, 1] \<rparr>" "''c''"]
  by (simp add: derive_pairwise_key_def toy_hpke_def ascii_def of_char_def)

end
