(* ===== verification/Mailbox.thy ===== *)
theory Mailbox
  imports Device_Crypto
begin

text \<open>
  \<open>kilogram-mailbox/src/lib.rs\<close>: the blind mailbox contract. Addresses, the read, write and store
  capabilities with what they sign, storage offers with their admission work, envelopes and receipts.
  The libraries (Ed25519, BLAKE3, postcard, HPKE) are the record \<open>mailbox_libs\<close>, an argument of the
  operations; random bytes are an argument where the code draws them.
\<close>

section \<open>Constants\<close>

definition MAILBOX_ID_DOMAIN :: bytes where
  "MAILBOX_ID_DOMAIN = ascii ''kilogram:blind-mailbox-id:v1'' @ [0]"

definition WRITE_AUTHORIZATION_DOMAIN :: bytes where
  "WRITE_AUTHORIZATION_DOMAIN = ascii ''kilogram:blind-mailbox-write:v1'' @ [0]"

definition READ_AUTHORIZATION_DOMAIN :: bytes where
  "READ_AUTHORIZATION_DOMAIN = ascii ''kilogram:blind-mailbox-read:v1'' @ [0]"

definition STORED_RECEIPT_DOMAIN :: bytes where
  "STORED_RECEIPT_DOMAIN = ascii ''kilogram:blind-mailbox-stored-receipt:v1'' @ [0]"

definition DELETE_RECEIPT_DOMAIN :: bytes where
  "DELETE_RECEIPT_DOMAIN = ascii ''kilogram:blind-mailbox-delete-receipt:v1'' @ [0]"

definition STORAGE_OFFER_DOMAIN :: bytes where
  "STORAGE_OFFER_DOMAIN = ascii ''kilogram:blind-mailbox-storage-offer:v1'' @ [0]"

definition STORAGE_OFFER_ADMISSION_WORK_DOMAIN :: bytes where
  "STORAGE_OFFER_ADMISSION_WORK_DOMAIN = ascii ''kilogram:blind-mailbox-storage-offer-admission-work:v1'' @ [0]"

definition RECEIPT_ID_DOMAIN :: bytes where
  "RECEIPT_ID_DOMAIN = ascii ''kilogram:blind-mailbox-receipt-id:v1'' @ [0]"

definition DELETE_RECEIPT_ID_DOMAIN :: bytes where
  "DELETE_RECEIPT_ID_DOMAIN = ascii ''kilogram:blind-mailbox-delete-id:v1'' @ [0]"

definition ENVELOPE_HPKE_INFO :: bytes where
  "ENVELOPE_HPKE_INFO = ascii ''kilogram:blind-mailbox-envelope:v1'' @ [0]"

definition MAILBOX_VERSION :: u8 where "MAILBOX_VERSION = 1"
definition KEY_BYTES :: nat where "KEY_BYTES = 32"
definition MAX_ADDRESS_BYTES :: nat where "MAX_ADDRESS_BYTES = 256"
definition MAX_AUTHORIZATION_BYTES :: nat where "MAX_AUTHORIZATION_BYTES = 1024"
definition MAX_RECEIPT_BYTES :: nat where "MAX_RECEIPT_BYTES = 1024"
definition MAX_MAILBOX_STORAGE_ENDPOINT_BYTES :: nat where "MAX_MAILBOX_STORAGE_ENDPOINT_BYTES = 16 * 1024"
definition MAX_MAILBOX_STORAGE_OFFER_BYTES :: nat where "MAX_MAILBOX_STORAGE_OFFER_BYTES = 24 * 1024"
definition MIN_MAILBOX_STORAGE_OFFER_VALIDITY_SECONDS :: u64 where "MIN_MAILBOX_STORAGE_OFFER_VALIDITY_SECONDS = 30"
definition MAX_MAILBOX_STORAGE_OFFER_VALIDITY_SECONDS :: u64 where "MAX_MAILBOX_STORAGE_OFFER_VALIDITY_SECONDS = 60 * 60"
definition DEFAULT_MAILBOX_STORAGE_OFFER_ADMISSION_WORK_BITS :: u8 where
  "DEFAULT_MAILBOX_STORAGE_OFFER_ADMISSION_WORK_BITS = 18"
definition MAX_MAILBOX_STORAGE_OFFER_ADMISSION_WORK_BITS :: u8 where
  "MAX_MAILBOX_STORAGE_OFFER_ADMISSION_WORK_BITS = 20"
definition MAX_MAILBOX_STORAGE_OFFER_ADMISSION_WORK_ATTEMPTS :: nat where
  "MAX_MAILBOX_STORAGE_OFFER_ADMISSION_WORK_ATTEMPTS = 2 ^ 24"
definition MIN_MAILBOX_TTL_SECONDS :: u64 where "MIN_MAILBOX_TTL_SECONDS = 60"
definition MAX_MAILBOX_TTL_SECONDS :: u64 where "MAX_MAILBOX_TTL_SECONDS = 7 * 24 * 60 * 60"
definition MAX_MAILBOX_PLAINTEXT_BYTES :: nat where "MAX_MAILBOX_PLAINTEXT_BYTES = 512 * 1024"
definition MAX_MAILBOX_ENVELOPE_BYTES :: nat where "MAX_MAILBOX_ENVELOPE_BYTES = 1024 * 1024"
definition MAX_MAILBOX_PAGE_ITEMS :: u16 where "MAX_MAILBOX_PAGE_ITEMS = 8"

section \<open>Data\<close>

datatype mailbox_error =
    MailboxEncoding
  | MailboxCrypto crypto_error
  | MailboxSecureRandom
  | MailboxInvalidPublicKey string
  | MailboxInvalidSignature
  | AuthorizationFailed
  | CapabilityMismatch
  | Invalid string
  | InvalidHex
  | Expired

record MailboxAddress =
  addr_version :: u8
  addr_read_key :: bytes
  addr_write_key :: bytes

record MailboxWriteAuthorizationContent =
  wa_version :: u8
  wa_mailbox_id :: bytes
  wa_item_id :: bytes
  wa_write_key :: bytes
  wa_requested_ttl_seconds :: u64
  wa_envelope_bytes :: u64
  wa_envelope_digest :: bytes

record MailboxWriteAuthorization =
  wa_content :: MailboxWriteAuthorizationContent
  wa_signature :: bytes

datatype MailboxReadOperation =
    ListOp (list_nonce: bytes) (list_after_item_id: "bytes option") (list_limit: u16)
  | DeleteOp (delete_item_id: bytes) (delete_receipt_id: bytes)

record MailboxReadAuthorizationContent =
  ra_version :: u8
  ra_mailbox_id :: bytes
  ra_read_key :: bytes
  ra_operation :: MailboxReadOperation

record MailboxReadAuthorization =
  ra_content :: MailboxReadAuthorizationContent
  ra_signature :: bytes

record MailboxEnvelopeContext =
  env_version :: u8
  env_mailbox_id :: bytes
  env_item_id :: bytes
  env_created_at_unix_seconds :: u64
  env_expires_at_unix_seconds :: u64

record MailboxEnvelope =
  env_context :: MailboxEnvelopeContext
  env_sealed :: SealedMessage

record MailboxStoredReceiptContent =
  sr_version :: u8
  sr_store_key :: bytes
  sr_mailbox_id :: bytes
  sr_item_id :: bytes
  sr_envelope_bytes :: u64
  sr_envelope_digest :: bytes
  sr_stored_at_unix_seconds :: u64
  sr_expires_at_unix_seconds :: u64

record MailboxStoredReceipt =
  sr_content :: MailboxStoredReceiptContent
  sr_signature :: bytes

record MailboxDeleteReceiptContent =
  dr_version :: u8
  dr_store_key :: bytes
  dr_mailbox_id :: bytes
  dr_item_id :: bytes
  dr_stored_receipt_id :: bytes
  dr_deleted_at_unix_seconds :: u64
  dr_expires_at_unix_seconds :: u64

record MailboxDeleteReceipt =
  dr_content :: MailboxDeleteReceiptContent
  dr_signature :: bytes

datatype MailboxStoragePolicyClass = BoundedVolunteer

record MailboxStorageOfferContent =
  so_version :: u8
  so_provider_endpoint :: bytes
  so_store_key :: bytes
  so_policy_class :: MailboxStoragePolicyClass
  so_capacity_hint_bytes :: u64
  so_max_record_bytes :: u64
  so_issued_at_unix_seconds :: u64
  so_expires_at_unix_seconds :: u64
  so_nonce :: bytes

record SignedMailboxStorageOffer =
  so_content :: MailboxStorageOfferContent
  so_signature :: bytes

section \<open>Libraries\<close>

text \<open>\<open>SigningKey\<close> is its secret bytes. The \<open>pc_\<close> fields are \<open>postcard::to_allocvec\<close> and
  \<open>postcard::from_bytes\<close> at the types the module uses them at.\<close>

record mailbox_libs =
  lib_ed :: ed25519
  lib_verifying_key :: "bytes \<Rightarrow> bytes"
  lib_sign :: "bytes \<Rightarrow> bytes \<Rightarrow> bytes"
  lib_blake3 :: "bytes \<Rightarrow> bytes"
  lib_hpke :: hpke_lib
  pc_address :: "MailboxAddress \<Rightarrow> bytes option"
  pc_address_from :: "bytes \<Rightarrow> MailboxAddress option"
  pc_write_content :: "MailboxWriteAuthorizationContent \<Rightarrow> bytes option"
  pc_write :: "MailboxWriteAuthorization \<Rightarrow> bytes option"
  pc_write_from :: "bytes \<Rightarrow> MailboxWriteAuthorization option"
  pc_read_content :: "MailboxReadAuthorizationContent \<Rightarrow> bytes option"
  pc_read :: "MailboxReadAuthorization \<Rightarrow> bytes option"
  pc_read_from :: "bytes \<Rightarrow> MailboxReadAuthorization option"
  pc_envelope_context :: "MailboxEnvelopeContext \<Rightarrow> bytes option"
  pc_envelope :: "MailboxEnvelope \<Rightarrow> bytes option"
  pc_envelope_from :: "bytes \<Rightarrow> MailboxEnvelope option"
  pc_stored_content :: "MailboxStoredReceiptContent \<Rightarrow> bytes option"
  pc_stored :: "MailboxStoredReceipt \<Rightarrow> bytes option"
  pc_stored_from :: "bytes \<Rightarrow> MailboxStoredReceipt option"
  pc_delete_content :: "MailboxDeleteReceiptContent \<Rightarrow> bytes option"
  pc_delete :: "MailboxDeleteReceipt \<Rightarrow> bytes option"
  pc_delete_from :: "bytes \<Rightarrow> MailboxDeleteReceipt option"
  pc_offer_content :: "MailboxStorageOfferContent \<Rightarrow> bytes option"
  pc_offer :: "SignedMailboxStorageOffer \<Rightarrow> bytes option"
  pc_offer_from :: "bytes \<Rightarrow> SignedMailboxStorageOffer option"

text \<open>What Ed25519 documents: the public key of a signing key is valid and its signatures are 64
  valid bytes that verify.\<close>

definition signatures_documented :: "'a mailbox_libs_scheme \<Rightarrow> bool" where
  "signatures_documented lib \<longleftrightarrow> (\<forall>secret message.
     signed_by (lib_ed lib) (lib_verifying_key lib secret) message (lib_sign lib secret message)
     \<and> length (lib_verifying_key lib secret) = 32)"

text \<open>What postcard documents: what was encoded decodes to the same value, and the encoding of a structure
  with fields is not empty.\<close>

definition postcard_documented :: "'a mailbox_libs_scheme \<Rightarrow> bool" where
  "postcard_documented lib \<longleftrightarrow>
     (\<forall>x b. pc_address lib x = Some b \<longrightarrow> pc_address_from lib b = Some x \<and> b \<noteq> [])
   \<and> (\<forall>x b. pc_write lib x = Some b \<longrightarrow> pc_write_from lib b = Some x \<and> b \<noteq> [])
   \<and> (\<forall>x b. pc_read lib x = Some b \<longrightarrow> pc_read_from lib b = Some x \<and> b \<noteq> [])
   \<and> (\<forall>x b. pc_envelope lib x = Some b \<longrightarrow> pc_envelope_from lib b = Some x \<and> b \<noteq> [])
   \<and> (\<forall>x b. pc_stored lib x = Some b \<longrightarrow> pc_stored_from lib b = Some x \<and> b \<noteq> [])
   \<and> (\<forall>x b. pc_delete lib x = Some b \<longrightarrow> pc_delete_from lib b = Some x \<and> b \<noteq> [])
   \<and> (\<forall>x b. pc_offer lib x = Some b \<longrightarrow> pc_offer_from lib b = Some x \<and> b \<noteq> [])"

section \<open>Shared checks\<close>

definition key_verifying :: "'a mailbox_libs_scheme \<Rightarrow> string \<Rightarrow> bytes \<Rightarrow> mailbox_error + bytes" where
  "key_verifying lib kind key =
     (if key_from_bytes_ok (lib_ed lib) key then Inr key else Inl (MailboxInvalidPublicKey kind))"

definition validate_ttl :: "u64 \<Rightarrow> mailbox_error + unit" where
  "validate_ttl ttl_seconds =
     (if \<not> (MIN_MAILBOX_TTL_SECONDS \<le> ttl_seconds \<and> ttl_seconds \<le> MAX_MAILBOX_TTL_SECONDS)
      then Inl (Invalid ''mailbox TTL is outside protocol bounds'') else Inr ())"

definition validate_envelope_time :: "u64 \<Rightarrow> u64 \<Rightarrow> mailbox_error + unit" where
  "validate_envelope_time created expires =
     and_then (ok_or (Invalid ''mailbox envelope time is invalid'') (u64_checked_sub expires created)) validate_ttl"

definition validate_envelope_bytes :: "bytes \<Rightarrow> mailbox_error + unit" where
  "validate_envelope_bytes envelope =
     (if envelope = [] \<or> length envelope > MAX_MAILBOX_ENVELOPE_BYTES
      then Inl (Invalid ''mailbox envelope size is invalid'') else Inr ())"

definition signing_bytes :: "bytes \<Rightarrow> bytes option \<Rightarrow> mailbox_error + bytes" where
  "signing_bytes domain encoded = and_then (ok_or MailboxEncoding encoded) (\<lambda>encoded. Inr (domain @ encoded))"

definition verify_signature
  :: "'a mailbox_libs_scheme \<Rightarrow> bytes \<Rightarrow> bytes \<Rightarrow> bytes option \<Rightarrow> bytes \<Rightarrow> mailbox_error + unit" where
  "verify_signature lib key domain encoded signature =
     (if \<not> signature_try_from_ok (lib_ed lib) signature then Inl MailboxInvalidSignature
      else and_then (signing_bytes domain encoded) (\<lambda>message.
        if verify_strict (lib_ed lib) key message signature then Inr () else Inl AuthorizationFailed))"

section \<open>Addresses\<close>

definition address_new :: "bytes \<Rightarrow> bytes \<Rightarrow> MailboxAddress" where
  "address_new read_key write_key =
     \<lparr> addr_version = MAILBOX_VERSION, addr_read_key = read_key, addr_write_key = write_key \<rparr>"

definition mailbox_id :: "'a mailbox_libs_scheme \<Rightarrow> MailboxAddress \<Rightarrow> bytes" where
  "mailbox_id lib address = lib_blake3 lib (MAILBOX_ID_DOMAIN @ addr_read_key address @ addr_write_key address)"

definition address_verify :: "'a mailbox_libs_scheme \<Rightarrow> MailboxAddress \<Rightarrow> mailbox_error + unit" where
  "address_verify lib address =
     (if addr_version address \<noteq> MAILBOX_VERSION then Inl (Invalid ''unsupported mailbox address version'')
      else and_then (key_verifying lib ''read'' (addr_read_key address)) (\<lambda>_.
        and_then (key_verifying lib ''write'' (addr_write_key address)) (\<lambda>_. Inr ())))"

definition address_encode :: "'a mailbox_libs_scheme \<Rightarrow> MailboxAddress \<Rightarrow> mailbox_error + bytes" where
  "address_encode lib address =
     and_then (address_verify lib address) (\<lambda>_.
     and_then (ok_or MailboxEncoding (pc_address lib address)) (\<lambda>bytes.
     if length bytes > MAX_ADDRESS_BYTES then Inl (Invalid ''mailbox address is too large'') else Inr bytes))"

definition address_decode_and_verify :: "'a mailbox_libs_scheme \<Rightarrow> bytes \<Rightarrow> mailbox_error + MailboxAddress" where
  "address_decode_and_verify lib bytes =
     (if bytes = [] \<or> length bytes > MAX_ADDRESS_BYTES then Inl (Invalid ''mailbox address size is invalid'')
      else and_then (ok_or MailboxEncoding (pc_address_from lib bytes)) (\<lambda>address.
        and_then (address_verify lib address) (\<lambda>_. Inr address)))"

section \<open>Capabilities\<close>

definition read_authorize
  :: "'a mailbox_libs_scheme \<Rightarrow> bytes \<Rightarrow> MailboxAddress \<Rightarrow> MailboxReadOperation \<Rightarrow> mailbox_error + MailboxReadAuthorization"
  where
  "read_authorize lib secret address operation =
     and_then (address_verify lib address) (\<lambda>_.
     if addr_read_key address \<noteq> lib_verifying_key lib secret then Inl CapabilityMismatch
     else let content = \<lparr> ra_version = MAILBOX_VERSION, ra_mailbox_id = mailbox_id lib address,
                ra_read_key = lib_verifying_key lib secret, ra_operation = operation \<rparr> in
       and_then (signing_bytes READ_AUTHORIZATION_DOMAIN (pc_read_content lib content)) (\<lambda>message.
       Inr \<lparr> ra_content = content, ra_signature = lib_sign lib secret message \<rparr>))"

definition authorize_list_page
  :: "'a mailbox_libs_scheme \<Rightarrow> bytes \<Rightarrow> MailboxAddress \<Rightarrow> bytes \<Rightarrow> bytes option \<Rightarrow> u16
      \<Rightarrow> mailbox_error + MailboxReadAuthorization" where
  "authorize_list_page lib secret address nonce after_item_id limit =
     (if \<not> (1 \<le> limit \<and> limit \<le> MAX_MAILBOX_PAGE_ITEMS)
      then Inl (Invalid ''mailbox list page limit is outside protocol bounds'')
      else read_authorize lib secret address (ListOp nonce after_item_id limit))"

definition authorize_list
  :: "'a mailbox_libs_scheme \<Rightarrow> bytes \<Rightarrow> MailboxAddress \<Rightarrow> bytes \<Rightarrow> mailbox_error + MailboxReadAuthorization" where
  "authorize_list lib secret address nonce = authorize_list_page lib secret address nonce None MAX_MAILBOX_PAGE_ITEMS"

definition authorize_delete
  :: "'a mailbox_libs_scheme \<Rightarrow> bytes \<Rightarrow> MailboxAddress \<Rightarrow> bytes \<Rightarrow> bytes \<Rightarrow> mailbox_error + MailboxReadAuthorization"
  where
  "authorize_delete lib secret address item_id receipt_id =
     read_authorize lib secret address (DeleteOp item_id receipt_id)"

definition write_authorize
  :: "'a mailbox_libs_scheme \<Rightarrow> bytes \<Rightarrow> MailboxAddress \<Rightarrow> bytes \<Rightarrow> u64 \<Rightarrow> bytes
      \<Rightarrow> mailbox_error + MailboxWriteAuthorization" where
  "write_authorize lib secret address item_id requested_ttl_seconds envelope =
     and_then (address_verify lib address) (\<lambda>_.
     and_then (validate_ttl requested_ttl_seconds) (\<lambda>_.
     and_then (validate_envelope_bytes envelope) (\<lambda>_.
     if addr_write_key address \<noteq> lib_verifying_key lib secret then Inl CapabilityMismatch
     else let content = \<lparr> wa_version = MAILBOX_VERSION, wa_mailbox_id = mailbox_id lib address,
                wa_item_id = item_id, wa_write_key = lib_verifying_key lib secret,
                wa_requested_ttl_seconds = requested_ttl_seconds,
                wa_envelope_bytes = word_of_nat (length envelope),
                wa_envelope_digest = lib_blake3 lib envelope \<rparr> in
       and_then (signing_bytes WRITE_AUTHORIZATION_DOMAIN (pc_write_content lib content)) (\<lambda>message.
       Inr \<lparr> wa_content = content, wa_signature = lib_sign lib secret message \<rparr>))))"

section \<open>Authorisations\<close>

definition write_authorization_verify
  :: "'a mailbox_libs_scheme \<Rightarrow> MailboxWriteAuthorization \<Rightarrow> MailboxAddress \<Rightarrow> bytes \<Rightarrow> mailbox_error + unit" where
  "write_authorization_verify lib self address envelope =
     (let content = wa_content self in
      and_then (address_verify lib address) (\<lambda>_.
      and_then (validate_envelope_bytes envelope) (\<lambda>_.
      and_then (validate_ttl (wa_requested_ttl_seconds content)) (\<lambda>_.
      if wa_version content \<noteq> MAILBOX_VERSION \<or> wa_mailbox_id content \<noteq> mailbox_id lib address
         \<or> wa_write_key content \<noteq> addr_write_key address
         \<or> wa_envelope_bytes content \<noteq> word_of_nat (length envelope)
         \<or> wa_envelope_digest content \<noteq> lib_blake3 lib envelope
      then Inl (Invalid ''mailbox write authorization does not match request'')
      else and_then (key_verifying lib ''write'' (wa_write_key content)) (\<lambda>key.
        verify_signature lib key WRITE_AUTHORIZATION_DOMAIN (pc_write_content lib content) (wa_signature self))))))"

definition write_authorization_encode
  :: "'a mailbox_libs_scheme \<Rightarrow> MailboxWriteAuthorization \<Rightarrow> mailbox_error + bytes" where
  "write_authorization_encode lib self =
     and_then (ok_or MailboxEncoding (pc_write lib self)) (\<lambda>bytes.
     if length bytes > MAX_AUTHORIZATION_BYTES then Inl (Invalid ''mailbox write authorization is too large'')
     else Inr bytes)"

definition write_authorization_decode_and_verify
  :: "'a mailbox_libs_scheme \<Rightarrow> bytes \<Rightarrow> MailboxAddress \<Rightarrow> bytes \<Rightarrow> mailbox_error + MailboxWriteAuthorization" where
  "write_authorization_decode_and_verify lib bytes address envelope =
     (if bytes = [] \<or> length bytes > MAX_AUTHORIZATION_BYTES
      then Inl (Invalid ''mailbox write authorization size is invalid'')
      else and_then (ok_or MailboxEncoding (pc_write_from lib bytes)) (\<lambda>authorization.
        and_then (write_authorization_verify lib authorization address envelope) (\<lambda>_. Inr authorization)))"

definition read_authorization_verify
  :: "'a mailbox_libs_scheme \<Rightarrow> MailboxReadAuthorization \<Rightarrow> MailboxAddress \<Rightarrow> mailbox_error + unit" where
  "read_authorization_verify lib self address =
     (let content = ra_content self in
      and_then (address_verify lib address) (\<lambda>_.
      if (case ra_operation content of
            ListOp _ _ limit \<Rightarrow> \<not> (1 \<le> limit \<and> limit \<le> MAX_MAILBOX_PAGE_ITEMS)
          | DeleteOp _ _ \<Rightarrow> False)
      then Inl (Invalid ''mailbox list page limit is outside protocol bounds'')
      else if ra_version content \<noteq> MAILBOX_VERSION \<or> ra_mailbox_id content \<noteq> mailbox_id lib address
         \<or> ra_read_key content \<noteq> addr_read_key address
      then Inl (Invalid ''mailbox read authorization does not match address'')
      else and_then (key_verifying lib ''read'' (ra_read_key content)) (\<lambda>key.
        verify_signature lib key READ_AUTHORIZATION_DOMAIN (pc_read_content lib content) (ra_signature self))))"

definition read_authorization_encode
  :: "'a mailbox_libs_scheme \<Rightarrow> MailboxReadAuthorization \<Rightarrow> mailbox_error + bytes" where
  "read_authorization_encode lib self =
     and_then (ok_or MailboxEncoding (pc_read lib self)) (\<lambda>bytes.
     if length bytes > MAX_AUTHORIZATION_BYTES then Inl (Invalid ''mailbox read authorization is too large'')
     else Inr bytes)"

definition read_authorization_decode_and_verify
  :: "'a mailbox_libs_scheme \<Rightarrow> bytes \<Rightarrow> MailboxAddress \<Rightarrow> mailbox_error + MailboxReadAuthorization" where
  "read_authorization_decode_and_verify lib bytes address =
     (if bytes = [] \<or> length bytes > MAX_AUTHORIZATION_BYTES
      then Inl (Invalid ''mailbox read authorization size is invalid'')
      else and_then (ok_or MailboxEncoding (pc_read_from lib bytes)) (\<lambda>authorization.
        and_then (read_authorization_verify lib authorization address) (\<lambda>_. Inr authorization)))"

section \<open>Envelopes\<close>

definition envelope_validate :: "MailboxEnvelope \<Rightarrow> mailbox_error + unit" where
  "envelope_validate self =
     (let context = env_context self in
      if env_version context \<noteq> MAILBOX_VERSION then Inl (Invalid ''unsupported mailbox envelope version'')
      else and_then (validate_envelope_time (env_created_at_unix_seconds context) (env_expires_at_unix_seconds context)) (\<lambda>_.
        if length (encapsulated_key (env_sealed self)) \<noteq> KEY_BYTES \<or> ciphertext (env_sealed self) = []
        then Inl (Invalid ''mailbox HPKE payload is invalid'') else Inr ()))"

definition envelope_encode :: "'a mailbox_libs_scheme \<Rightarrow> MailboxEnvelope \<Rightarrow> mailbox_error + bytes" where
  "envelope_encode lib self =
     and_then (envelope_validate self) (\<lambda>_.
     and_then (ok_or MailboxEncoding (pc_envelope lib self)) (\<lambda>bytes.
     and_then (validate_envelope_bytes bytes) (\<lambda>_. Inr bytes)))"

definition envelope_decode :: "'a mailbox_libs_scheme \<Rightarrow> bytes \<Rightarrow> mailbox_error + MailboxEnvelope" where
  "envelope_decode lib bytes =
     and_then (validate_envelope_bytes bytes) (\<lambda>_.
     and_then (ok_or MailboxEncoding (pc_envelope_from lib bytes)) (\<lambda>envelope.
     and_then (envelope_validate envelope) (\<lambda>_. Inr envelope)))"

definition envelope_seal
  :: "'a mailbox_libs_scheme \<Rightarrow> bytes \<Rightarrow> bytes \<Rightarrow> u64 \<Rightarrow> u64 \<Rightarrow> bytes \<Rightarrow> bytes \<Rightarrow> mailbox_error + MailboxEnvelope" where
  "envelope_seal lib mailbox item created expires recipient_key plaintext =
     and_then (validate_envelope_time created expires) (\<lambda>_.
     if plaintext = [] \<or> length plaintext > MAX_MAILBOX_PLAINTEXT_BYTES
     then Inl (Invalid ''mailbox plaintext size is invalid'')
     else let context = \<lparr> env_version = MAILBOX_VERSION, env_mailbox_id = mailbox, env_item_id = item,
                env_created_at_unix_seconds = created, env_expires_at_unix_seconds = expires \<rparr> in
       and_then (ok_or MailboxEncoding (pc_envelope_context lib context)) (\<lambda>aad.
       and_then (map_err MailboxCrypto (seal (lib_hpke lib) recipient_key plaintext ENVELOPE_HPKE_INFO aad)) (\<lambda>sealed.
       let envelope = \<lparr> env_context = context, env_sealed = sealed \<rparr> in
       and_then (envelope_encode lib envelope) (\<lambda>encoded.
       and_then (validate_envelope_bytes encoded) (\<lambda>_. Inr envelope)))))"

definition envelope_open
  :: "'a mailbox_libs_scheme \<Rightarrow> MailboxEnvelope \<Rightarrow> bytes \<Rightarrow> bytes \<Rightarrow> DeviceEncryptionIdentity \<Rightarrow> u64 \<Rightarrow> mailbox_error + bytes"
  where
  "envelope_open lib self expected_mailbox_id expected_item_id recipient now_unix_seconds =
     and_then (envelope_validate self) (\<lambda>_.
     let context = env_context self in
     if env_mailbox_id context \<noteq> expected_mailbox_id \<or> env_item_id context \<noteq> expected_item_id
     then Inl (Invalid ''mailbox envelope address does not match'')
     else if env_expires_at_unix_seconds context \<le> now_unix_seconds then Inl Expired
     else and_then (ok_or MailboxEncoding (pc_envelope_context lib context)) (\<lambda>aad.
       and_then (map_err MailboxCrypto (open_sealed (lib_hpke lib) recipient (env_sealed self) ENVELOPE_HPKE_INFO aad))
         (\<lambda>plaintext.
       if plaintext = [] \<or> length plaintext > MAX_MAILBOX_PLAINTEXT_BYTES
       then Inl (Invalid ''opened mailbox plaintext size is invalid'') else Inr plaintext)))"

section \<open>Receipts\<close>

definition stored_receipt
  :: "'a mailbox_libs_scheme \<Rightarrow> bytes \<Rightarrow> bytes \<Rightarrow> bytes \<Rightarrow> bytes \<Rightarrow> u64 \<Rightarrow> u64 \<Rightarrow> mailbox_error + MailboxStoredReceipt" where
  "stored_receipt lib secret mailbox item envelope stored_at expires_at =
     (let content = \<lparr> sr_version = MAILBOX_VERSION, sr_store_key = lib_verifying_key lib secret,
            sr_mailbox_id = mailbox, sr_item_id = item, sr_envelope_bytes = word_of_nat (length envelope),
            sr_envelope_digest = lib_blake3 lib envelope, sr_stored_at_unix_seconds = stored_at,
            sr_expires_at_unix_seconds = expires_at \<rparr> in
      and_then (signing_bytes STORED_RECEIPT_DOMAIN (pc_stored_content lib content)) (\<lambda>message.
      Inr \<lparr> sr_content = content, sr_signature = lib_sign lib secret message \<rparr>))"

definition delete_receipt
  :: "'a mailbox_libs_scheme \<Rightarrow> bytes \<Rightarrow> bytes \<Rightarrow> bytes \<Rightarrow> bytes \<Rightarrow> u64 \<Rightarrow> u64 \<Rightarrow> mailbox_error + MailboxDeleteReceipt" where
  "delete_receipt lib secret mailbox item stored_receipt_id deleted_at expires_at =
     (let content = \<lparr> dr_version = MAILBOX_VERSION, dr_store_key = lib_verifying_key lib secret,
            dr_mailbox_id = mailbox, dr_item_id = item, dr_stored_receipt_id = stored_receipt_id,
            dr_deleted_at_unix_seconds = deleted_at, dr_expires_at_unix_seconds = expires_at \<rparr> in
      and_then (signing_bytes DELETE_RECEIPT_DOMAIN (pc_delete_content lib content)) (\<lambda>message.
      Inr \<lparr> dr_content = content, dr_signature = lib_sign lib secret message \<rparr>))"

definition stored_receipt_verify
  :: "'a mailbox_libs_scheme \<Rightarrow> MailboxStoredReceipt \<Rightarrow> bytes \<Rightarrow> mailbox_error + unit" where
  "stored_receipt_verify lib self envelope =
     (let content = sr_content self in
      and_then (validate_envelope_bytes envelope) (\<lambda>_.
      if sr_version content \<noteq> MAILBOX_VERSION
         \<or> sr_envelope_bytes content \<noteq> word_of_nat (length envelope)
         \<or> sr_envelope_digest content \<noteq> lib_blake3 lib envelope
         \<or> sr_stored_at_unix_seconds content \<ge> sr_expires_at_unix_seconds content
      then Inl (Invalid ''mailbox stored receipt does not match envelope'')
      else and_then (key_verifying lib ''store'' (sr_store_key content)) (\<lambda>key.
        verify_signature lib key STORED_RECEIPT_DOMAIN (pc_stored_content lib content) (sr_signature self))))"

definition stored_receipt_verify_signature
  :: "'a mailbox_libs_scheme \<Rightarrow> MailboxStoredReceipt \<Rightarrow> mailbox_error + unit" where
  "stored_receipt_verify_signature lib self =
     (let content = sr_content self in
      if sr_version content \<noteq> MAILBOX_VERSION \<or> sr_stored_at_unix_seconds content \<ge> sr_expires_at_unix_seconds content
      then Inl (Invalid ''mailbox stored receipt time is invalid'')
      else and_then (key_verifying lib ''store'' (sr_store_key content)) (\<lambda>key.
        verify_signature lib key STORED_RECEIPT_DOMAIN (pc_stored_content lib content) (sr_signature self)))"

definition stored_receipt_encode :: "'a mailbox_libs_scheme \<Rightarrow> MailboxStoredReceipt \<Rightarrow> mailbox_error + bytes" where
  "stored_receipt_encode lib self =
     and_then (stored_receipt_verify_signature lib self) (\<lambda>_.
     and_then (ok_or MailboxEncoding (pc_stored lib self)) (\<lambda>bytes.
     if length bytes > MAX_RECEIPT_BYTES then Inl (Invalid ''mailbox stored receipt is too large'') else Inr bytes))"

definition stored_receipt_decode_and_verify
  :: "'a mailbox_libs_scheme \<Rightarrow> bytes \<Rightarrow> bytes \<Rightarrow> mailbox_error + MailboxStoredReceipt" where
  "stored_receipt_decode_and_verify lib bytes envelope =
     (if bytes = [] \<or> length bytes > MAX_RECEIPT_BYTES then Inl (Invalid ''mailbox stored receipt size is invalid'')
      else and_then (ok_or MailboxEncoding (pc_stored_from lib bytes)) (\<lambda>receipt.
        and_then (stored_receipt_verify lib receipt envelope) (\<lambda>_. Inr receipt)))"

definition stored_receipt_id :: "'a mailbox_libs_scheme \<Rightarrow> MailboxStoredReceipt \<Rightarrow> mailbox_error + bytes" where
  "stored_receipt_id lib self =
     and_then (stored_receipt_verify_signature lib self) (\<lambda>_.
     and_then (stored_receipt_encode lib self) (\<lambda>encoded. Inr (lib_blake3 lib (RECEIPT_ID_DOMAIN @ encoded))))"

definition delete_receipt_verify :: "'a mailbox_libs_scheme \<Rightarrow> MailboxDeleteReceipt \<Rightarrow> mailbox_error + unit" where
  "delete_receipt_verify lib self =
     (let content = dr_content self in
      if dr_version content \<noteq> MAILBOX_VERSION \<or> dr_deleted_at_unix_seconds content \<ge> dr_expires_at_unix_seconds content
      then Inl (Invalid ''mailbox delete receipt time is invalid'')
      else and_then (key_verifying lib ''store'' (dr_store_key content)) (\<lambda>key.
        verify_signature lib key DELETE_RECEIPT_DOMAIN (pc_delete_content lib content) (dr_signature self)))"

definition delete_receipt_encode :: "'a mailbox_libs_scheme \<Rightarrow> MailboxDeleteReceipt \<Rightarrow> mailbox_error + bytes" where
  "delete_receipt_encode lib self =
     and_then (delete_receipt_verify lib self) (\<lambda>_.
     and_then (ok_or MailboxEncoding (pc_delete lib self)) (\<lambda>bytes.
     if length bytes > MAX_RECEIPT_BYTES then Inl (Invalid ''mailbox delete receipt is too large'') else Inr bytes))"

definition delete_receipt_decode_and_verify
  :: "'a mailbox_libs_scheme \<Rightarrow> bytes \<Rightarrow> mailbox_error + MailboxDeleteReceipt" where
  "delete_receipt_decode_and_verify lib bytes =
     (if bytes = [] \<or> length bytes > MAX_RECEIPT_BYTES then Inl (Invalid ''mailbox delete receipt size is invalid'')
      else and_then (ok_or MailboxEncoding (pc_delete_from lib bytes)) (\<lambda>receipt.
        and_then (delete_receipt_verify lib receipt) (\<lambda>_. Inr receipt)))"

definition delete_receipt_receipt_id :: "'a mailbox_libs_scheme \<Rightarrow> MailboxDeleteReceipt \<Rightarrow> mailbox_error + bytes" where
  "delete_receipt_receipt_id lib self =
     and_then (delete_receipt_verify lib self) (\<lambda>_.
     and_then (delete_receipt_encode lib self) (\<lambda>encoded. Inr (lib_blake3 lib (DELETE_RECEIPT_ID_DOMAIN @ encoded))))"

section \<open>Storage offers\<close>

definition validate_storage_offer_content :: "MailboxStorageOfferContent \<Rightarrow> u64 \<Rightarrow> mailbox_error + unit" where
  "validate_storage_offer_content content now_unix_seconds =
     and_then (ok_or (Invalid ''mailbox storage offer time is invalid'')
       (u64_checked_sub (so_expires_at_unix_seconds content) (so_issued_at_unix_seconds content))) (\<lambda>validity.
     if so_version content \<noteq> MAILBOX_VERSION
        \<or> so_provider_endpoint content = []
        \<or> length (so_provider_endpoint content) > MAX_MAILBOX_STORAGE_ENDPOINT_BYTES
        \<or> \<not> (MIN_MAILBOX_STORAGE_OFFER_VALIDITY_SECONDS \<le> validity
             \<and> validity \<le> MAX_MAILBOX_STORAGE_OFFER_VALIDITY_SECONDS)
        \<or> so_capacity_hint_bytes content = 0
        \<or> so_max_record_bytes content = 0
        \<or> so_max_record_bytes content > so_capacity_hint_bytes content
        \<or> now_unix_seconds < so_issued_at_unix_seconds content
        \<or> now_unix_seconds \<ge> so_expires_at_unix_seconds content
     then Inl (Invalid ''mailbox storage offer fields or lifetime are invalid'') else Inr ())"

text \<open>The hasher state is the bytes fed to it.\<close>

definition storage_offer_admission_work_hasher :: "MailboxStorageOfferContent \<Rightarrow> bytes" where
  "storage_offer_admission_work_hasher content =
     STORAGE_OFFER_ADMISSION_WORK_DOMAIN @ [so_version content]
     @ to_be_bytes 8 (length (so_provider_endpoint content)) @ so_provider_endpoint content
     @ so_store_key content @ [case so_policy_class content of BoundedVolunteer \<Rightarrow> 0]
     @ to_be_bytes 8 (unat (so_capacity_hint_bytes content)) @ to_be_bytes 8 (unat (so_max_record_bytes content))
     @ to_be_bytes 8 (unat (so_issued_at_unix_seconds content))
     @ to_be_bytes 8 (unat (so_expires_at_unix_seconds content))"

text \<open>\<open>u8::leading_zeros\<close>.\<close>

definition u8_leading_zeros :: "u8 \<Rightarrow> nat" where
  "u8_leading_zeros b = length (takeWhile (\<lambda>i. \<not> bit b i) [7, 6, 5, 4, 3, 2, 1, 0])"

fun digest_work_bits :: "bytes \<Rightarrow> nat" where
  "digest_work_bits [] = 0"
| "digest_work_bits (byte # rest) = (if byte = 0 then 8 + digest_work_bits rest else u8_leading_zeros byte)"

definition storage_offer_admission_work_bits :: "'a mailbox_libs_scheme \<Rightarrow> bytes \<Rightarrow> bytes \<Rightarrow> nat" where
  "storage_offer_admission_work_bits lib base_hasher nonce = digest_work_bits (lib_blake3 lib (base_hasher @ nonce))"

fun increment_from_last :: "bytes \<Rightarrow> bytes" where
  "increment_from_last [] = []"
| "increment_from_last (byte # rest) =
     (let next = byte + 1; overflow = unat byte + 1 \<ge> 256 in
      if overflow then next # increment_from_last rest else next # rest)"

definition increment_admission_nonce :: "bytes \<Rightarrow> bytes" where
  "increment_admission_nonce nonce = rev (increment_from_last (rev nonce))"

definition storage_offer_content
  :: "'a mailbox_libs_scheme \<Rightarrow> bytes \<Rightarrow> bytes option \<Rightarrow> bytes \<Rightarrow> u64 \<Rightarrow> u64 \<Rightarrow> u64 \<Rightarrow> u64
      \<Rightarrow> mailbox_error + MailboxStorageOfferContent" where
  "storage_offer_content lib secret random provider_endpoint capacity_hint_bytes max_record_bytes issued_at validity_seconds =
     and_then (ok_or (Invalid ''mailbox storage offer expiry overflow'') (u64_checked_add issued_at validity_seconds)) (\<lambda>expires_at.
     and_then (ok_or MailboxSecureRandom random) (\<lambda>nonce.
     let content = \<lparr> so_version = MAILBOX_VERSION, so_provider_endpoint = provider_endpoint,
           so_store_key = lib_verifying_key lib secret, so_policy_class = BoundedVolunteer,
           so_capacity_hint_bytes = capacity_hint_bytes, so_max_record_bytes = max_record_bytes,
           so_issued_at_unix_seconds = issued_at, so_expires_at_unix_seconds = expires_at, so_nonce = nonce \<rparr> in
     and_then (validate_storage_offer_content content issued_at) (\<lambda>_. Inr content)))"

definition offer_verify_at :: "'a mailbox_libs_scheme \<Rightarrow> SignedMailboxStorageOffer \<Rightarrow> u64 \<Rightarrow> mailbox_error + unit" where
  "offer_verify_at lib self now_unix_seconds =
     and_then (validate_storage_offer_content (so_content self) now_unix_seconds) (\<lambda>_.
     and_then (key_verifying lib ''store'' (so_store_key (so_content self))) (\<lambda>key.
     verify_signature lib key STORAGE_OFFER_DOMAIN (pc_offer_content lib (so_content self)) (so_signature self)))"

definition sign_storage_offer
  :: "'a mailbox_libs_scheme \<Rightarrow> bytes \<Rightarrow> MailboxStorageOfferContent \<Rightarrow> mailbox_error + SignedMailboxStorageOffer" where
  "sign_storage_offer lib secret content =
     and_then (signing_bytes STORAGE_OFFER_DOMAIN (pc_offer_content lib content)) (\<lambda>message.
     let offer = \<lparr> so_content = content, so_signature = lib_sign lib secret message \<rparr> in
     and_then (offer_verify_at lib offer (so_issued_at_unix_seconds (so_content offer))) (\<lambda>_. Inr offer))"

definition storage_offer
  :: "'a mailbox_libs_scheme \<Rightarrow> bytes \<Rightarrow> bytes option \<Rightarrow> bytes \<Rightarrow> u64 \<Rightarrow> u64 \<Rightarrow> u64 \<Rightarrow> u64
      \<Rightarrow> mailbox_error + SignedMailboxStorageOffer" where
  "storage_offer lib secret random provider_endpoint capacity_hint_bytes max_record_bytes issued_at validity_seconds =
     and_then (storage_offer_content lib secret random provider_endpoint capacity_hint_bytes max_record_bytes
       issued_at validity_seconds) (sign_storage_offer lib secret)"

definition admission_work_bits :: "'a mailbox_libs_scheme \<Rightarrow> SignedMailboxStorageOffer \<Rightarrow> nat" where
  "admission_work_bits lib self =
     storage_offer_admission_work_bits lib (storage_offer_admission_work_hasher (so_content self)) (so_nonce (so_content self))"

definition verify_admission_work
  :: "'a mailbox_libs_scheme \<Rightarrow> SignedMailboxStorageOffer \<Rightarrow> u8 \<Rightarrow> mailbox_error + unit" where
  "verify_admission_work lib self minimum_work_bits =
     (if \<not> (1 \<le> minimum_work_bits \<and> minimum_work_bits \<le> MAX_MAILBOX_STORAGE_OFFER_ADMISSION_WORK_BITS)
      then Inl (Invalid ''mailbox storage offer admission work is outside protocol bounds'')
      else if admission_work_bits lib self < unat minimum_work_bits
      then Inl (Invalid ''mailbox storage offer admission work is insufficient'')
      else Inr ())"

primrec admission_work_search
  :: "nat \<Rightarrow> 'a mailbox_libs_scheme \<Rightarrow> bytes \<Rightarrow> bytes \<Rightarrow> u8 \<Rightarrow> MailboxStorageOfferContent
      \<Rightarrow> mailbox_error + SignedMailboxStorageOffer" where
  "admission_work_search 0 lib secret base_hasher minimum_work_bits content =
     Inl (Invalid ''mailbox storage offer admission work search exhausted its bound'')"
| "admission_work_search (Suc attempts) lib secret base_hasher minimum_work_bits content =
     (if storage_offer_admission_work_bits lib base_hasher (so_nonce content) \<ge> unat minimum_work_bits
      then and_then (sign_storage_offer lib secret content) (\<lambda>offer.
        and_then (verify_admission_work lib offer minimum_work_bits) (\<lambda>_. Inr offer))
      else admission_work_search attempts lib secret base_hasher minimum_work_bits
        (content\<lparr> so_nonce := increment_admission_nonce (so_nonce content) \<rparr>))"

definition storage_offer_with_admission_work
  :: "'a mailbox_libs_scheme \<Rightarrow> bytes \<Rightarrow> bytes option \<Rightarrow> bytes \<Rightarrow> u64 \<Rightarrow> u64 \<Rightarrow> u64 \<Rightarrow> u64 \<Rightarrow> u8
      \<Rightarrow> mailbox_error + SignedMailboxStorageOffer" where
  "storage_offer_with_admission_work lib secret random provider_endpoint capacity_hint_bytes max_record_bytes
      issued_at validity_seconds minimum_work_bits =
     (if \<not> (1 \<le> minimum_work_bits \<and> minimum_work_bits \<le> MAX_MAILBOX_STORAGE_OFFER_ADMISSION_WORK_BITS)
      then Inl (Invalid ''mailbox storage offer admission work is outside protocol bounds'')
      else and_then (storage_offer_content lib secret random provider_endpoint capacity_hint_bytes max_record_bytes
          issued_at validity_seconds) (\<lambda>content.
        admission_work_search MAX_MAILBOX_STORAGE_OFFER_ADMISSION_WORK_ATTEMPTS lib secret
          (storage_offer_admission_work_hasher content) minimum_work_bits content))"

definition offer_encode
  :: "'a mailbox_libs_scheme \<Rightarrow> SignedMailboxStorageOffer \<Rightarrow> u64 \<Rightarrow> mailbox_error + bytes" where
  "offer_encode lib self now_unix_seconds =
     and_then (offer_verify_at lib self now_unix_seconds) (\<lambda>_.
     and_then (ok_or MailboxEncoding (pc_offer lib self)) (\<lambda>bytes.
     if bytes = [] \<or> length bytes > MAX_MAILBOX_STORAGE_OFFER_BYTES
     then Inl (Invalid ''mailbox storage offer size is invalid'') else Inr bytes))"

definition offer_decode_and_verify
  :: "'a mailbox_libs_scheme \<Rightarrow> bytes \<Rightarrow> u64 \<Rightarrow> mailbox_error + SignedMailboxStorageOffer" where
  "offer_decode_and_verify lib bytes now_unix_seconds =
     (if bytes = [] \<or> length bytes > MAX_MAILBOX_STORAGE_OFFER_BYTES
      then Inl (Invalid ''mailbox storage offer size is invalid'')
      else and_then (ok_or MailboxEncoding (pc_offer_from lib bytes)) (\<lambda>offer.
        and_then (offer_verify_at lib offer now_unix_seconds) (\<lambda>_. Inr offer)))"

section \<open>Hexadecimal identifiers\<close>

definition hex_nibble :: "u8 \<Rightarrow> u8 option" where
  "hex_nibble value =
     (if 48 \<le> value \<and> value \<le> 57 then Some (value - 48)
      else if 97 \<le> value \<and> value \<le> 102 then Some (value - 97 + 10) else None)"

fun decode_hex_pairs :: "bytes \<Rightarrow> mailbox_error + bytes" where
  "decode_hex_pairs (h # l # rest) =
     and_then (ok_or InvalidHex (hex_nibble h)) (\<lambda>high.
     and_then (ok_or InvalidHex (hex_nibble l)) (\<lambda>low.
     and_then (decode_hex_pairs rest) (\<lambda>output. Inr ((push_bit 4 high OR low) # output))))"
| "decode_hex_pairs _ = Inr []"

definition decode_hex :: "bytes \<Rightarrow> mailbox_error + bytes" where
  "decode_hex value = (if length value \<noteq> KEY_BYTES * 2 then Inl InvalidHex else decode_hex_pairs value)"

text \<open>\<open>write!(formatter, "{byte:02x}")\<close>.\<close>

definition hex_digit :: "u8 \<Rightarrow> u8" where
  "hex_digit n = (if n < 10 then 48 + n else 97 + (n - 10))"

primrec write_hex :: "bytes \<Rightarrow> bytes" where
  "write_hex [] = []"
| "write_hex (byte # rest) = hex_digit (drop_bit 4 byte) # hex_digit (byte AND 15) # write_hex rest"

section \<open>Facts\<close>

lemma key_verifying_Inr [result_simps]: "key_verifying lib kind k = Inr k' \<longleftrightarrow> key_from_bytes_ok (lib_ed lib) k \<and> k' = k"
  by (auto simp: key_verifying_def)

lemma verify_signature_Inr [result_simps]:
  "verify_signature lib k pfx enc sg = Inr u \<longleftrightarrow> (\<exists>m. enc = Some m \<and> signature_try_from_ok (lib_ed lib) sg
     \<and> verify_strict (lib_ed lib) k (pfx @ m) sg)"
  by (auto simp: verify_signature_def signing_bytes_def result_simps)

lemma validate_ttl_Inr [result_simps]:
  "validate_ttl t = Inr u \<longleftrightarrow> MIN_MAILBOX_TTL_SECONDS \<le> t \<and> t \<le> MAX_MAILBOX_TTL_SECONDS"
  by (auto simp: validate_ttl_def)

lemma validate_envelope_bytes_Inr [result_simps]:
  "validate_envelope_bytes e = Inr u \<longleftrightarrow> e \<noteq> [] \<and> length e \<le> MAX_MAILBOX_ENVELOPE_BYTES"
  by (auto simp: validate_envelope_bytes_def)

lemma address_verify_Inr [result_simps]:
  "address_verify lib a = Inr u \<longleftrightarrow> addr_version a = MAILBOX_VERSION
     \<and> key_from_bytes_ok (lib_ed lib) (addr_read_key a) \<and> key_from_bytes_ok (lib_ed lib) (addr_write_key a)"
  by (auto simp: address_verify_def result_simps)

lemma signing_bytes_Inr [result_simps]: "signing_bytes pfx enc = Inr m \<longleftrightarrow> (\<exists>e. enc = Some e \<and> m = pfx @ e)"
  by (auto simp: signing_bytes_def result_simps)

lemma documented_signed:
  assumes "signatures_documented lib"
  shows "key_from_bytes_ok (lib_ed lib) (lib_verifying_key lib sk)"
    and "signature_try_from_ok (lib_ed lib) (lib_sign lib sk m)"
    and "verify_strict (lib_ed lib) (lib_verifying_key lib sk) m (lib_sign lib sk m)"
  using assms by (auto simp: signatures_documented_def signed_by_def)

lemma write_verify_iff:
  "write_authorization_verify lib a address envelope = Inr u \<longleftrightarrow>
     address_verify lib address = Inr () \<and> validate_envelope_bytes envelope = Inr ()
     \<and> validate_ttl (wa_requested_ttl_seconds (wa_content a)) = Inr ()
     \<and> wa_version (wa_content a) = MAILBOX_VERSION \<and> wa_mailbox_id (wa_content a) = mailbox_id lib address
     \<and> wa_write_key (wa_content a) = addr_write_key address
     \<and> wa_envelope_bytes (wa_content a) = word_of_nat (length envelope)
     \<and> wa_envelope_digest (wa_content a) = lib_blake3 lib envelope
     \<and> (\<exists>m. pc_write_content lib (wa_content a) = Some m
          \<and> signed_by (lib_ed lib) (addr_write_key address) (WRITE_AUTHORIZATION_DOMAIN @ m) (wa_signature a))"
  by (auto simp: write_authorization_verify_def result_simps Let_def signed_by_def)

lemma read_verify_iff:
  "read_authorization_verify lib a address = Inr u \<longleftrightarrow>
     address_verify lib address = Inr ()
     \<and> (case ra_operation (ra_content a) of ListOp _ _ limit \<Rightarrow> 1 \<le> limit \<and> limit \<le> MAX_MAILBOX_PAGE_ITEMS
          | DeleteOp _ _ \<Rightarrow> True)
     \<and> ra_version (ra_content a) = MAILBOX_VERSION \<and> ra_mailbox_id (ra_content a) = mailbox_id lib address
     \<and> ra_read_key (ra_content a) = addr_read_key address
     \<and> (\<exists>m. pc_read_content lib (ra_content a) = Some m
          \<and> signed_by (lib_ed lib) (addr_read_key address) (READ_AUTHORIZATION_DOMAIN @ m) (ra_signature a))"
  by (auto simp: read_authorization_verify_def result_simps Let_def signed_by_def split: MailboxReadOperation.splits)

lemma stored_verify_iff:
  "stored_receipt_verify lib r envelope = Inr u \<longleftrightarrow> validate_envelope_bytes envelope = Inr ()
     \<and> sr_version (sr_content r) = MAILBOX_VERSION
     \<and> sr_envelope_bytes (sr_content r) = word_of_nat (length envelope)
     \<and> sr_envelope_digest (sr_content r) = lib_blake3 lib envelope
     \<and> sr_stored_at_unix_seconds (sr_content r) < sr_expires_at_unix_seconds (sr_content r)
     \<and> (\<exists>m. pc_stored_content lib (sr_content r) = Some m
          \<and> signed_by (lib_ed lib) (sr_store_key (sr_content r)) (STORED_RECEIPT_DOMAIN @ m) (sr_signature r))"
  by (auto simp: stored_receipt_verify_def result_simps Let_def signed_by_def not_le)

subsection \<open>The nonce as a number\<close>

lemma from_be_bytes_append: "from_be_bytes (xs @ [b]) = from_be_bytes xs * 256 + unat b"
  by (induction xs) (auto simp: algebra_simps)

lemma length_increment_from_last [simp]: "length (increment_from_last xs) = length xs"
  by (induction xs rule: increment_from_last.induct) (auto simp: Let_def)

lemma increment_from_last_value:
  "from_be_bytes (rev (increment_from_last xs)) = (from_be_bytes (rev xs) + 1) mod 256 ^ length xs"
proof (induction xs rule: increment_from_last.induct)
  case 1
  then show ?case by simp
next
  case (2 b rest)
  let ?n = "from_be_bytes (rev rest)" and ?p = "256 ^ length rest :: nat"
  have n: "?n < ?p" using from_be_bytes_less [of "rev rest"] by simp
  show ?case
  proof (cases "unat b = 255")
    case True
    then have "b + 1 = 0" by (simp add: word_unat_eq_iff unat_word_ariths)
    moreover have "(?n * 256 + 255 + 1) mod (256 * ?p) = 256 * ((?n + 1) mod ?p)"
      using mult_mod_right [of 256 "?n + 1" ?p] by (simp add: algebra_simps)
    ultimately show ?thesis using 2 True by (simp add: from_be_bytes_append Let_def mult.commute)
  next
    case False
    then have b: "unat b < 255" using unat_u8_less [of b] by simp
    then have "unat (b + 1) = unat b + 1" by (simp add: unat_word_ariths)
    moreover have "?n * 256 + unat b + 1 < 256 * ?p"
    proof -
      have "(?n + 1) * 256 \<le> ?p * 256" using n by (intro mult_le_mono1) simp
      then show ?thesis using b by simp
    qed
    ultimately show ?thesis using b by (simp add: from_be_bytes_append Let_def)
  qed
qed

lemma increment_nonce_value:
  "from_be_bytes (increment_admission_nonce n) = (from_be_bytes n + 1) mod 256 ^ length n"
  using increment_from_last_value [of "rev n"] by (simp add: increment_admission_nonce_def)

subsection \<open>Work bits as a bound on the digest\<close>

lemma le_length_takeWhile: "n \<le> length (takeWhile p xs) \<longleftrightarrow> n \<le> length xs \<and> (\<forall>i < n. p (xs ! i))"
proof (induction xs arbitrary: n)
  case Nil
  then show ?case by auto
next
  case (Cons x xs)
  show ?case by (cases n) (use Cons in \<open>auto simp: nth_Cons' All_less_Suc2\<close>)
qed

lemma leading_zeros_ge:
  assumes "n \<le> 8"
  shows "n \<le> u8_leading_zeros b \<longleftrightarrow> unat b < 2 ^ (8 - n)"
proof -
  have idx: "[7, 6, 5, 4, 3, 2, 1, 0] ! i = 7 - i" if "i < 8" for i :: nat
    using that by (auto simp: less_Suc_eq numeral_eq_Suc)
  have "n \<le> u8_leading_zeros b \<longleftrightarrow> (\<forall>i < n. \<not> bit b (7 - i))"
    unfolding u8_leading_zeros_def le_length_takeWhile using assms idx by auto
  also have "\<dots> \<longleftrightarrow> (\<forall>j. \<not> bit b (8 - n + j))"
  proof
    assume A: "\<forall>i < n. \<not> bit b (7 - i)"
    show "\<forall>j. \<not> bit b (8 - n + j)"
    proof
      fix j
      show "\<not> bit b (8 - n + j)"
      proof (cases "j < n")
        case True
        then have "7 - (n - 1 - j) = 8 - n + j" using assms by simp
        with A True show ?thesis by (metis diff_less_Suc Suc_diff_1 less_imp_diff_less order_le_less_trans
              zero_le less_Suc_eq_le diff_diff_left diff_le_self)
      next
        case False
        then show ?thesis using assms bit_imp_le_length [of b "8 - n + j"] by auto
      qed
    qed
  next
    assume A: "\<forall>j. \<not> bit b (8 - n + j)"
    show "\<forall>i < n. \<not> bit b (7 - i)"
    proof (intro allI impI)
      fix i assume "i < n"
      then have "8 - n + (n - 1 - i) = 7 - i" using assms by simp
      with A show "\<not> bit b (7 - i)" by metis
    qed
  qed
  also have "\<dots> \<longleftrightarrow> drop_bit (8 - n) b = 0"
  proof
    assume "\<forall>j. \<not> bit b (8 - n + j)"
    then show "drop_bit (8 - n) b = 0" by (intro bit_word_eqI) (simp add: bit_drop_bit_eq add.commute)
  next
    assume "drop_bit (8 - n) b = 0"
    then have "\<not> bit (drop_bit (8 - n) b) j" for j by simp
    then show "\<forall>j. \<not> bit b (8 - n + j)" by (simp add: bit_drop_bit_eq add.commute)
  qed
  also have "\<dots> \<longleftrightarrow> unat b div 2 ^ (8 - n) = 0"
    by (simp only: word_unat_eq_iff unat_drop_bit_eq) (simp add: drop_bit_eq_div)
  finally show ?thesis by (simp add: div_eq_0_iff)
qed

lemma digest_work_bits_ge:
  "n \<le> 8 * length d \<Longrightarrow> n \<le> digest_work_bits d \<longleftrightarrow> from_be_bytes d < 2 ^ (8 * length d - n)"
proof (induction d arbitrary: n)
  case Nil
  then show ?case by simp
next
  case (Cons b d)
  have p: "(256 :: nat) ^ length d = 2 ^ (8 * length d)" by (simp add: power_mult)
  have d: "from_be_bytes d < 2 ^ (8 * length d)" using from_be_bytes_less [of d] p by simp
  show ?case
  proof (cases "b = 0")
    case True
    show ?thesis
    proof (cases "n \<le> 8")
      case le: True
      have "(2 :: nat) ^ (8 * length d) \<le> 2 ^ (8 * length (b # d) - n)"
        using le by (intro power_increasing) auto
      with d have "from_be_bytes d < 2 ^ (8 * length (b # d) - n)" by (rule order_less_le_trans)
      with le True show ?thesis by simp
    next
      case False
      then have "n - 8 \<le> 8 * length d" using Cons.prems by simp
      from Cons.IH [OF this] False True show ?thesis by (auto simp: le_diff_conv2 add.commute)
    qed
  next
    case False
    have b0: "unat b > 0" using False by (simp add: unat_gt_0)
    show ?thesis
    proof (cases "n \<le> 8")
      case True
      have e: "8 * length (b # d) - n = (8 - n) + 8 * length d" using True by simp
      have "unat b * 2 ^ (8 * length d) + from_be_bytes d < 2 ^ (8 - n) * 2 ^ (8 * length d) \<longleftrightarrow> unat b < 2 ^ (8 - n)"
      proof
        assume "unat b * 2 ^ (8 * length d) + from_be_bytes d < 2 ^ (8 - n) * 2 ^ (8 * length d)"
        then have "unat b * 2 ^ (8 * length d) < 2 ^ (8 - n) * 2 ^ (8 * length d)" by (rule add_lessD1)
        then show "unat b < 2 ^ (8 - n)" by (simp only: mult_less_cancel2)
      next
        assume "unat b < 2 ^ (8 - n)"
        then have "(unat b + 1) * 2 ^ (8 * length d) \<le> 2 ^ (8 - n) * 2 ^ (8 * length d)"
          by (intro mult_le_mono1) simp
        with d show "unat b * 2 ^ (8 * length d) + from_be_bytes d < 2 ^ (8 - n) * 2 ^ (8 * length d)" by simp
      qed
      then show ?thesis unfolding e power_add using False leading_zeros_ge [OF True, of b] by (simp add: p)
    next
      case nle: False
      have "u8_leading_zeros b < n" using nle by (simp add: u8_leading_zeros_def le_length_takeWhile flip: not_le)
      moreover have "2 ^ (8 * length (b # d) - n) \<le> (2 :: nat) ^ (8 * length d)"
        using nle by (intro power_increasing) auto
      moreover have "2 ^ (8 * length d) \<le> unat b * 2 ^ (8 * length d)" using b0 by simp
      ultimately have "\<not> unat b * 2 ^ (8 * length d) + from_be_bytes d < 2 ^ (8 * length (b # d) - n)" by linarith
      with \<open>u8_leading_zeros b < n\<close> show ?thesis using False by (simp add: p)
    qed
  qed
qed

subsection \<open>Hexadecimal text\<close>

lemma nibble_split:
  assumes "unat (h :: u8) < 16" and "unat (l :: u8) < 16"
  shows "drop_bit 4 (push_bit 4 h OR l) = h" and "(push_bit 4 h OR l) AND 15 = l"
proof -
  have th: "take_bit 4 h = h" using assms(1)
    by (simp only: word_unat_eq_iff unsigned_take_bit_eq) (simp add: take_bit_nat_eq_self)
  have tl: "take_bit 4 l = l" using assms(2)
    by (simp only: word_unat_eq_iff unsigned_take_bit_eq) (simp add: take_bit_nat_eq_self)
  have bh: "bit h n \<Longrightarrow> n < 4" for n using th by (metis bit_take_bit_iff)
  have bl: "bit l n \<Longrightarrow> n < 4" for n using tl by (metis bit_take_bit_iff)
  have mask: "(15 :: u8) = mask 4" by (simp add: mask_eq_exp_minus_1)
  show "drop_bit 4 (push_bit 4 h OR l) = h"
    by (rule bit_word_eqI) (auto simp: bit_simps dest: bh bl)
  show "(push_bit 4 h OR l) AND 15 = l"
    unfolding mask by (rule bit_word_eqI) (auto simp: bit_simps dest: bh bl)
qed

lemma nibble_join: "push_bit 4 (drop_bit 4 b) OR (b AND 15) = (b :: u8)"
proof -
  have mask: "(15 :: u8) = mask 4" by (simp add: mask_eq_exp_minus_1)
  show ?thesis unfolding mask by (rule bit_word_eqI) (auto simp: bit_simps)
qed

lemma nibble_bounds: "unat (drop_bit 4 (b :: u8)) < 16" "unat (b AND (15 :: u8)) < 16"
proof -
  show "unat (drop_bit 4 b) < 16"
    using unat_u8_less [of b] by (simp only: unat_drop_bit_eq) (simp add: drop_bit_eq_div)
  have "b AND 15 \<le> 15" by (rule word_and_le1)
  then show "unat (b AND (15 :: u8)) < 16" by (simp add: word_le_nat_alt)
qed

lemma hex_digit_nat: "unat n < 16 \<Longrightarrow> unat (hex_digit n) = (if unat n < 10 then 48 + unat n else 87 + unat n)"
  by (auto simp: hex_digit_def word_less_nat_alt unat_word_ariths unat_sub word_le_nat_alt)

lemma hex_nibble_iff: "hex_nibble c = Some n \<longleftrightarrow> unat n < 16 \<and> c = hex_digit n"
proof
  assume h: "hex_nibble c = Some n"
  then consider "48 \<le> unat c" "unat c \<le> 57" "n = c - 48" | "97 \<le> unat c" "unat c \<le> 102" "n = c - 97 + 10"
    by (auto simp: hex_nibble_def word_le_nat_alt split: if_splits)
  then show "unat n < 16 \<and> c = hex_digit n"
  proof cases
    case 1
    then have "unat n = unat c - 48" by (simp add: unat_sub word_le_nat_alt)
    then have n: "unat n < 10" "unat c = 48 + unat n" using 1(1,2) by linarith+
    then have "unat (hex_digit n) = unat c" using hex_digit_nat [of n] by simp
    with n(1) show ?thesis by (simp add: word_unat_eq_iff)
  next
    case 2
    then have "unat n = unat c - 87" by (simp add: unat_sub word_le_nat_alt)
    then have n: "10 \<le> unat n" "unat n < 16" "unat c = 87 + unat n" using 2(1,2) by linarith+
    then have "unat (hex_digit n) = unat c" using hex_digit_nat [of n] by simp
    with n(2) show ?thesis by (simp add: word_unat_eq_iff)
  qed
next
  assume A: "unat n < 16 \<and> c = hex_digit n"
  show "hex_nibble c = Some n"
  proof (cases "unat n < 10")
    case True
    then have c: "unat c = 48 + unat n" using A hex_digit_nat [of n] by simp
    then have "c - 48 = n" by (simp add: word_unat_eq_iff unat_sub word_le_nat_alt)
    with c True show ?thesis by (simp add: hex_nibble_def word_le_nat_alt)
  next
    case False
    then have c: "unat c = 87 + unat n" using A hex_digit_nat [of n] by simp
    then have "c - 97 + 10 = n" by (simp add: word_unat_eq_iff unat_sub word_le_nat_alt)
    with c False A show ?thesis by (simp add: hex_nibble_def word_le_nat_alt)
  qed
qed

lemma decode_hex_pairs_iff:
  "even (length v) \<Longrightarrow> decode_hex_pairs v = Inr b \<longleftrightarrow> v = write_hex b"
proof (induction v arbitrary: b rule: decode_hex_pairs.induct)
  case (1 h l rest)
  show ?case
  proof (cases b)
    case Nil
    then show ?thesis by (auto simp: result_simps)
  next
    case (Cons x xs)
    have "decode_hex_pairs (h # l # rest) = Inr b \<longleftrightarrow>
        (\<exists>n m. hex_nibble h = Some n \<and> hex_nibble l = Some m \<and> x = push_bit 4 n OR m) \<and> decode_hex_pairs rest = Inr xs"
      unfolding Cons by (auto simp: result_simps)
    also have "(\<exists>n m. hex_nibble h = Some n \<and> hex_nibble l = Some m \<and> x = push_bit 4 n OR m)
        \<longleftrightarrow> h = hex_digit (drop_bit 4 x) \<and> l = hex_digit (x AND 15)" (is "?L \<longleftrightarrow> ?R")
    proof
      assume ?L
      then obtain n m where nm: "hex_nibble h = Some n" "hex_nibble l = Some m" "x = push_bit 4 n OR m" by blast
      with nibble_split [of n m] show ?R unfolding hex_nibble_iff by metis
    next
      assume ?R
      then show ?L using nibble_join [of x] nibble_bounds [of x] unfolding hex_nibble_iff by metis
    qed
    also have "decode_hex_pairs rest = Inr xs \<longleftrightarrow> rest = write_hex xs" using 1 by simp
    finally show ?thesis unfolding Cons by simp
  qed
next
  case "2_1"
  then show ?case by (cases b) auto
next
  case "2_2"
  then show ?case by simp
qed

lemma length_write_hex [simp]: "length (write_hex b) = 2 * length b"
  by (induction b) auto

section \<open>Properties\<close>

text \<open>Identifiers parse from exactly their own hexadecimal text: \<open>decode_hex\<close> accepts a string as
  the 32 bytes \<open>b\<close> if and only if it is the lowercase text the \<open>Display\<close> instance writes for \<open>b\<close>.\<close>

lemma hex_text_inverse: "decode_hex value = Inr b \<longleftrightarrow> length b = KEY_BYTES \<and> value = write_hex b"
proof (cases "length value = KEY_BYTES * 2")
  case True
  then have "even (length value)" by simp
  from decode_hex_pairs_iff [OF this] True show ?thesis by (auto simp: decode_hex_def)
next
  case False
  then show ?thesis by (auto simp: decode_hex_def)
qed

end
