(* ===== verification/Framing.thy ===== *)
theory Framing
  imports Prelude
begin

text \<open>
  A serialisation in the manner of postcard, with which the examples instantiate the serialisation
  parameter of the components: a structure is the sequence of its fields, each with an eight-byte
  length in front. The second form has no bound on the fields; there a vector is a structure with its
  elements as fields.
\<close>

definition frame :: "bytes list \<Rightarrow> bytes" where
  "frame fs = concat (map (\<lambda>f. to_be_bytes 8 (length f) @ f) fs)"

function unframe :: "bytes \<Rightarrow> bytes list option" where
  "unframe bs =
     (if bs = [] then Some []
      else if length bs < 8 then None
      else let n = from_be_bytes (take 8 bs) in
        if length bs < 8 + n then None
        else map_option ((#) (take n (drop 8 bs))) (unframe (drop (8 + n) bs)))"
  by pat_completeness auto
termination by (relation "measure length") auto

declare unframe.simps [simp del]

definition framed :: "bytes list \<Rightarrow> bytes option" where
  "framed fs = (if fs \<noteq> [] \<and> list_all (\<lambda>f. length f < 256 ^ 8) fs then Some (frame fs) else None)"

lemma unframe_frame: "list_all (\<lambda>f. length f < 256 ^ 8) fs \<Longrightarrow> unframe (frame fs) = Some fs"
proof (induction fs)
  case Nil
  then show ?case by (simp add: frame_def unframe.simps)
next
  case (Cons f fs)
  have e: "frame (f # fs) = to_be_bytes 8 (length f) @ f @ frame fs" by (simp add: frame_def)
  have n: "from_be_bytes (to_be_bytes 8 (length f)) = length f"
    using Cons.prems by (simp add: from_to_be_bytes)
  have ne: "to_be_bytes 8 (length f) \<noteq> []" by (metis length_to_be_bytes length_0_conv zero_neq_numeral)
  have "unframe (frame (f # fs)) = map_option ((#) f) (unframe (frame fs))"
    unfolding e by (subst unframe.simps) (simp add: n ne Let_def del: to_be_bytes.simps)
  with Cons show ?case by simp
qed

lemma frame_nonempty: "fs \<noteq> [] \<Longrightarrow> frame fs \<noteq> []"
proof -
  assume "fs \<noteq> []"
  then have "length (frame fs) \<noteq> 0" by (cases fs) (simp_all add: frame_def)
  then show ?thesis by (metis list.size(3))
qed

lemma framed_Some: "framed fs = Some b \<Longrightarrow> unframe b = Some fs \<and> b \<noteq> []"
  by (auto simp: framed_def unframe_frame frame_nonempty split: if_splits)

lemma framed_bind:
  assumes "\<And>x. of_fields (fs x) = Some x" and "framed (fs x) = Some b"
  shows "Option.bind (unframe b) of_fields = Some x \<and> b \<noteq> []"
  using framed_Some [OF assms(2)] assms(1) by simp

lemma length_frame: "length (frame fs) = sum_list (map length fs) + 8 * length fs"
  by (induction fs) (auto simp: frame_def simp del: to_be_bytes.simps)

definition field_of_word :: "'a :: len word \<Rightarrow> bytes" where
  "field_of_word w = to_be_bytes 8 (unat w)"

definition word_of_field :: "bytes \<Rightarrow> 'a :: len word" where
  "word_of_field f = word_of_nat (from_be_bytes f)"

lemma word_of_field_of_word:
  assumes "LENGTH('a :: len) \<le> 64"
  shows "word_of_field (field_of_word w) = (w :: 'a word)"
proof -
  have "unat w < 2 ^ LENGTH('a)" by (rule unsigned_less)
  also have "(2 :: nat) ^ LENGTH('a) \<le> 2 ^ 64" using assms by (intro power_increasing) auto
  finally have "unat w mod 256 ^ 8 = unat w" by simp
  then show ?thesis by (simp add: word_of_field_def field_of_word_def from_to_be_bytes del: to_be_bytes.simps)
qed

lemma field_of_word_inverse [simp]:
  "word_of_field (field_of_word (a :: u8)) = a" "word_of_field (field_of_word (b :: u16)) = b"
  "word_of_field (field_of_word (c :: u64)) = c" "length (field_of_word w) = 8"
  by (simp_all add: word_of_field_of_word) (simp add: field_of_word_def)

section \<open>A total serialisation\<close>

text \<open>Fields of any length: every byte of a field is preceded by 1, and a field ends with 0.\<close>

definition pack :: "bytes list \<Rightarrow> bytes" where
  "pack fs = concat (map (\<lambda>f. concat (map (\<lambda>b. [1, b]) f) @ [0]) fs)"

fun unpack :: "bytes \<Rightarrow> bytes \<Rightarrow> bytes list option" where
  "unpack field [] = (if field = [] then Some [] else None)"
| "unpack field [t] = (if t = 0 then Some [field] else None)"
| "unpack field (t # b # rest) =
     (if t = 0 then map_option ((#) field) (unpack [] (b # rest)) else if t = 1 then unpack (field @ [b]) rest else None)"

lemma unpack_end: "unpack field (0 # rest) = map_option ((#) field) (unpack [] rest)"
  by (cases rest) auto

lemma unpack_field: "unpack field (concat (map (\<lambda>b. [1, b]) f) @ rest) = unpack (field @ f) rest"
  by (induction f arbitrary: field) auto

lemma unpack_pack [simp]: "unpack [] (pack fs) = Some fs"
  by (induction fs) (auto simp: pack_def unpack_field unpack_end)

lemma those_map_Some [simp]: "those (map Some xs) = Some xs"
  by (induction xs) auto

definition unpack_struct :: "(bytes list \<Rightarrow> 'a option) \<Rightarrow> bytes \<Rightarrow> 'a option" where
  "unpack_struct of_fields b = Option.bind (unpack [] b) of_fields"

lemma unpack_struct [simp]: "unpack_struct of_fields (pack fs) = of_fields fs"
  by (simp add: unpack_struct_def)

definition pack_list :: "('a \<Rightarrow> bytes) \<Rightarrow> 'a list \<Rightarrow> bytes" where
  "pack_list enc xs = pack (map enc xs)"

definition unpack_list :: "(bytes \<Rightarrow> 'a option) \<Rightarrow> bytes \<Rightarrow> 'a list option" where
  "unpack_list dec b = Option.bind (unpack [] b) (\<lambda>fs. those (map dec fs))"

lemma unpack_list: "(\<And>x. dec (enc x) = Some x) \<Longrightarrow> unpack_list dec (pack_list enc xs) = Some xs"
  by (simp add: unpack_list_def pack_list_def comp_def)

end
