(* ===== verification/Mailbox_Contract.thy ===== *)
theory Mailbox_Contract
  imports Mailbox Framing
begin

text \<open>
  What the mailbox contract of \<^verbatim>\<open>kilogram-mailbox/src/lib.rs\<close> promises, over the operations of
  \<open>Mailbox\<close>: authorisations bind what they authorise, every signed object survives its encoding,
  envelopes open for their recipient, and an admitted storage offer carries the work it claims. The
  second part is an instance of the libraries, used by the examples.
\<close>

section \<open>Sample libraries\<close>

subsection \<open>The fields of each structure\<close>

definition address_fields :: "MailboxAddress \<Rightarrow> bytes list" where
  "address_fields a = [field_of_word (addr_version a), addr_read_key a, addr_write_key a]"

fun address_of :: "bytes list \<Rightarrow> MailboxAddress option" where
  "address_of [v, r, w] = Some \<lparr> addr_version = word_of_field v, addr_read_key = r, addr_write_key = w \<rparr>"
| "address_of _ = None"

definition write_content_fields :: "MailboxWriteAuthorizationContent \<Rightarrow> bytes list" where
  "write_content_fields c = [field_of_word (wa_version c), wa_mailbox_id c, wa_item_id c, wa_write_key c,
     field_of_word (wa_requested_ttl_seconds c), field_of_word (wa_envelope_bytes c), wa_envelope_digest c]"

definition write_fields :: "MailboxWriteAuthorization \<Rightarrow> bytes list" where
  "write_fields a = wa_signature a # write_content_fields (wa_content a)"

fun write_of :: "bytes list \<Rightarrow> MailboxWriteAuthorization option" where
  "write_of [s, v, m, i, k, t, n, d] = Some \<lparr> wa_content = \<lparr> wa_version = word_of_field v, wa_mailbox_id = m,
     wa_item_id = i, wa_write_key = k, wa_requested_ttl_seconds = word_of_field t,
     wa_envelope_bytes = word_of_field n, wa_envelope_digest = d \<rparr>, wa_signature = s \<rparr>"
| "write_of _ = None"

definition read_content_fields :: "MailboxReadAuthorizationContent \<Rightarrow> bytes list" where
  "read_content_fields c = [field_of_word (ra_version c), ra_mailbox_id c, ra_read_key c]
     @ (case ra_operation c of
          ListOp nonce after limit \<Rightarrow> [[0], nonce, case after of None \<Rightarrow> [] | Some a \<Rightarrow> 1 # a, field_of_word limit]
        | DeleteOp item receipt \<Rightarrow> [[1], item, receipt])"

definition read_fields :: "MailboxReadAuthorization \<Rightarrow> bytes list" where
  "read_fields a = ra_signature a # read_content_fields (ra_content a)"

fun read_of :: "bytes list \<Rightarrow> MailboxReadAuthorization option" where
  "read_of [s, v, m, k, t, n, a, l] = Some \<lparr> ra_content = \<lparr> ra_version = word_of_field v, ra_mailbox_id = m,
     ra_read_key = k, ra_operation = ListOp n (case a of [] \<Rightarrow> None | _ # x \<Rightarrow> Some x) (word_of_field l) \<rparr>,
     ra_signature = s \<rparr>"
| "read_of [s, v, m, k, t, i, r] = Some \<lparr> ra_content = \<lparr> ra_version = word_of_field v, ra_mailbox_id = m,
     ra_read_key = k, ra_operation = DeleteOp i r \<rparr>, ra_signature = s \<rparr>"
| "read_of _ = None"

definition envelope_context_fields :: "MailboxEnvelopeContext \<Rightarrow> bytes list" where
  "envelope_context_fields c = [field_of_word (env_version c), env_mailbox_id c, env_item_id c,
     field_of_word (env_created_at_unix_seconds c), field_of_word (env_expires_at_unix_seconds c)]"

definition envelope_fields :: "MailboxEnvelope \<Rightarrow> bytes list" where
  "envelope_fields e = encapsulated_key (env_sealed e) # ciphertext (env_sealed e) # envelope_context_fields (env_context e)"

fun envelope_of :: "bytes list \<Rightarrow> MailboxEnvelope option" where
  "envelope_of [k, ct, v, m, i, c, x] = Some \<lparr> env_context = \<lparr> env_version = word_of_field v, env_mailbox_id = m,
     env_item_id = i, env_created_at_unix_seconds = word_of_field c, env_expires_at_unix_seconds = word_of_field x \<rparr>,
     env_sealed = \<lparr> encapsulated_key = k, ciphertext = ct \<rparr> \<rparr>"
| "envelope_of _ = None"

definition stored_content_fields :: "MailboxStoredReceiptContent \<Rightarrow> bytes list" where
  "stored_content_fields c = [field_of_word (sr_version c), sr_store_key c, sr_mailbox_id c, sr_item_id c,
     field_of_word (sr_envelope_bytes c), sr_envelope_digest c, field_of_word (sr_stored_at_unix_seconds c),
     field_of_word (sr_expires_at_unix_seconds c)]"

definition stored_fields :: "MailboxStoredReceipt \<Rightarrow> bytes list" where
  "stored_fields r = sr_signature r # stored_content_fields (sr_content r)"

fun stored_of :: "bytes list \<Rightarrow> MailboxStoredReceipt option" where
  "stored_of [s, v, k, m, i, n, d, t, x] = Some \<lparr> sr_content = \<lparr> sr_version = word_of_field v, sr_store_key = k,
     sr_mailbox_id = m, sr_item_id = i, sr_envelope_bytes = word_of_field n, sr_envelope_digest = d,
     sr_stored_at_unix_seconds = word_of_field t, sr_expires_at_unix_seconds = word_of_field x \<rparr>, sr_signature = s \<rparr>"
| "stored_of _ = None"

definition delete_content_fields :: "MailboxDeleteReceiptContent \<Rightarrow> bytes list" where
  "delete_content_fields c = [field_of_word (dr_version c), dr_store_key c, dr_mailbox_id c, dr_item_id c,
     dr_stored_receipt_id c, field_of_word (dr_deleted_at_unix_seconds c), field_of_word (dr_expires_at_unix_seconds c)]"

definition delete_fields :: "MailboxDeleteReceipt \<Rightarrow> bytes list" where
  "delete_fields r = dr_signature r # delete_content_fields (dr_content r)"

fun delete_of :: "bytes list \<Rightarrow> MailboxDeleteReceipt option" where
  "delete_of [s, v, k, m, i, r, t, x] = Some \<lparr> dr_content = \<lparr> dr_version = word_of_field v, dr_store_key = k,
     dr_mailbox_id = m, dr_item_id = i, dr_stored_receipt_id = r, dr_deleted_at_unix_seconds = word_of_field t,
     dr_expires_at_unix_seconds = word_of_field x \<rparr>, dr_signature = s \<rparr>"
| "delete_of _ = None"

definition offer_content_fields :: "MailboxStorageOfferContent \<Rightarrow> bytes list" where
  "offer_content_fields c = [field_of_word (so_version c), so_provider_endpoint c, so_store_key c,
     field_of_word (so_capacity_hint_bytes c), field_of_word (so_max_record_bytes c),
     field_of_word (so_issued_at_unix_seconds c), field_of_word (so_expires_at_unix_seconds c), so_nonce c]"

definition offer_fields :: "SignedMailboxStorageOffer \<Rightarrow> bytes list" where
  "offer_fields r = so_signature r # offer_content_fields (so_content r)"

fun offer_of :: "bytes list \<Rightarrow> SignedMailboxStorageOffer option" where
  "offer_of [s, v, p, k, c, m, t, x, n] = Some \<lparr> so_content = \<lparr> so_version = word_of_field v,
     so_provider_endpoint = p, so_store_key = k, so_policy_class = BoundedVolunteer,
     so_capacity_hint_bytes = word_of_field c, so_max_record_bytes = word_of_field m,
     so_issued_at_unix_seconds = word_of_field t, so_expires_at_unix_seconds = word_of_field x, so_nonce = n \<rparr>,
     so_signature = s \<rparr>"
| "offer_of _ = None"

lemma bounded_volunteer [simp]: "BoundedVolunteer = p"
  by (cases p) simp

lemma fields_inverse:
  "address_of (address_fields a) = Some a" "write_of (write_fields w) = Some w" "read_of (read_fields r) = Some r"
  "envelope_of (envelope_fields e) = Some e" "stored_of (stored_fields s) = Some s"
  "delete_of (delete_fields d) = Some d" "offer_of (offer_fields p) = Some p"
  by (simp_all add: address_fields_def write_fields_def write_content_fields_def read_fields_def read_content_fields_def
      envelope_fields_def envelope_context_fields_def stored_fields_def stored_content_fields_def delete_fields_def
      delete_content_fields_def offer_fields_def offer_content_fields_def
      split: MailboxReadOperation.splits option.splits)

subsection \<open>The libraries\<close>

definition toy_key :: "bytes \<Rightarrow> bytes" where
  "toy_key secret = take 32 (secret @ replicate 32 0)"

definition toy_blake3 :: "bytes \<Rightarrow> bytes" where
  "toy_blake3 message = rev (take 32 (rev message @ replicate 32 0))"

definition toy_libs_with :: "'a \<Rightarrow> 'a mailbox_libs_scheme" where
  "toy_libs_with extra = \<lparr> lib_ed = toy_ed25519, lib_verifying_key = toy_key,
     lib_sign = (\<lambda>secret. toy_sign (toy_key secret)), lib_blake3 = toy_blake3, lib_hpke = toy_hpke,
     pc_address = framed \<circ> address_fields, pc_address_from = (\<lambda>b. Option.bind (unframe b) address_of),
     pc_write_content = framed \<circ> write_content_fields,
     pc_write = framed \<circ> write_fields, pc_write_from = (\<lambda>b. Option.bind (unframe b) write_of),
     pc_read_content = framed \<circ> read_content_fields,
     pc_read = framed \<circ> read_fields, pc_read_from = (\<lambda>b. Option.bind (unframe b) read_of),
     pc_envelope_context = framed \<circ> envelope_context_fields,
     pc_envelope = framed \<circ> envelope_fields, pc_envelope_from = (\<lambda>b. Option.bind (unframe b) envelope_of),
     pc_stored_content = framed \<circ> stored_content_fields,
     pc_stored = framed \<circ> stored_fields, pc_stored_from = (\<lambda>b. Option.bind (unframe b) stored_of),
     pc_delete_content = framed \<circ> delete_content_fields,
     pc_delete = framed \<circ> delete_fields, pc_delete_from = (\<lambda>b. Option.bind (unframe b) delete_of),
     pc_offer_content = framed \<circ> offer_content_fields,
     pc_offer = framed \<circ> offer_fields, pc_offer_from = (\<lambda>b. Option.bind (unframe b) offer_of), \<dots> = extra \<rparr>"

abbreviation toy_libs :: mailbox_libs where
  "toy_libs \<equiv> toy_libs_with ()"

lemma length_toy [simp]: "length (toy_key s) = 32" "length (toy_blake3 m) = 32"
  by (simp_all add: toy_key_def toy_blake3_def)

lemma toy_signatures_documented: "signatures_documented (toy_libs_with x)"
  by (auto simp: signatures_documented_def toy_libs_with_def)

lemma toy_postcard_documented: "postcard_documented (toy_libs_with x)"
  unfolding postcard_documented_def
  by (auto simp: toy_libs_with_def dest: framed_bind [rotated] intro: fields_inverse)

section \<open>Facts\<close>

lemma write_authorize_Inr:
  "write_authorize lib secret address item ttl envelope = Inr a \<longleftrightarrow>
     address_verify lib address = Inr () \<and> validate_ttl ttl = Inr () \<and> validate_envelope_bytes envelope = Inr ()
     \<and> addr_write_key address = lib_verifying_key lib secret
     \<and> wa_content a = \<lparr> wa_version = MAILBOX_VERSION, wa_mailbox_id = mailbox_id lib address, wa_item_id = item,
          wa_write_key = addr_write_key address, wa_requested_ttl_seconds = ttl,
          wa_envelope_bytes = word_of_nat (length envelope), wa_envelope_digest = lib_blake3 lib envelope \<rparr>
     \<and> (\<exists>m. pc_write_content lib (wa_content a) = Some m
          \<and> wa_signature a = lib_sign lib secret (WRITE_AUTHORIZATION_DOMAIN @ m))"
  by (cases a) (auto simp: write_authorize_def Let_def result_simps)

lemma read_authorize_Inr:
  "read_authorize lib secret address operation = Inr a \<longleftrightarrow>
     address_verify lib address = Inr () \<and> addr_read_key address = lib_verifying_key lib secret
     \<and> ra_content a = \<lparr> ra_version = MAILBOX_VERSION, ra_mailbox_id = mailbox_id lib address,
          ra_read_key = addr_read_key address, ra_operation = operation \<rparr>
     \<and> (\<exists>m. pc_read_content lib (ra_content a) = Some m
          \<and> ra_signature a = lib_sign lib secret (READ_AUTHORIZATION_DOMAIN @ m))"
  by (cases a) (auto simp: read_authorize_def Let_def result_simps)

lemma signed_by_documented: "signatures_documented lib \<Longrightarrow>
    signed_by (lib_ed lib) (lib_verifying_key lib secret) m (lib_sign lib secret m)"
  by (simp add: signatures_documented_def)

lemma length_eq_u64:
  assumes "length xs \<le> MAX_MAILBOX_ENVELOPE_BYTES" and "length ys \<le> MAX_MAILBOX_ENVELOPE_BYTES"
    and "(word_of_nat (length xs) :: u64) = word_of_nat (length ys)"
  shows "length xs = length ys"
proof -
  have "unat (word_of_nat n :: u64) = n" if "n \<le> MAX_MAILBOX_ENVELOPE_BYTES" for n
    using that by (simp add: unat_of_nat MAX_MAILBOX_ENVELOPE_BYTES_def)
  with assms show ?thesis by metis
qed

lemma stored_receipt_Inr:
  "stored_receipt lib secret mailbox item envelope stored_at expires = Inr r \<longleftrightarrow>
     sr_content r = \<lparr> sr_version = MAILBOX_VERSION, sr_store_key = lib_verifying_key lib secret,
       sr_mailbox_id = mailbox, sr_item_id = item, sr_envelope_bytes = word_of_nat (length envelope),
       sr_envelope_digest = lib_blake3 lib envelope, sr_stored_at_unix_seconds = stored_at,
       sr_expires_at_unix_seconds = expires \<rparr>
     \<and> (\<exists>m. pc_stored_content lib (sr_content r) = Some m \<and> sr_signature r = lib_sign lib secret (STORED_RECEIPT_DOMAIN @ m))"
  by (cases r) (auto simp: stored_receipt_def Let_def result_simps)

lemma delete_receipt_Inr:
  "delete_receipt lib secret mailbox item rid deleted_at expires = Inr r \<longleftrightarrow>
     dr_content r = \<lparr> dr_version = MAILBOX_VERSION, dr_store_key = lib_verifying_key lib secret,
       dr_mailbox_id = mailbox, dr_item_id = item, dr_stored_receipt_id = rid, dr_deleted_at_unix_seconds = deleted_at,
       dr_expires_at_unix_seconds = expires \<rparr>
     \<and> (\<exists>m. pc_delete_content lib (dr_content r) = Some m \<and> dr_signature r = lib_sign lib secret (DELETE_RECEIPT_DOMAIN @ m))"
  by (cases r) (auto simp: delete_receipt_def Let_def result_simps)

lemma stored_receipt_verifies:
  assumes "signatures_documented lib" and "stored_receipt lib secret mailbox item envelope stored_at expires = Inr r"
    and "validate_envelope_bytes envelope = Inr ()" and "stored_at < expires"
  shows "stored_receipt_verify lib r envelope = Inr ()"
  using assms signed_by_documented [OF assms(1)]
  by (auto simp: stored_receipt_Inr stored_verify_iff)

lemma delete_receipt_verifies:
  assumes "signatures_documented lib" and "delete_receipt lib secret mailbox item rid deleted_at expires = Inr r"
    and "deleted_at < expires"
  shows "delete_receipt_verify lib r = Inr ()"
  using assms documented_signed [OF assms(1)]
  by (auto simp: delete_receipt_Inr delete_receipt_verify_def result_simps Let_def not_le)

lemma stored_signature_of_verify:
  "stored_receipt_verify lib r envelope = Inr () \<Longrightarrow> stored_receipt_verify_signature lib r = Inr ()"
  by (auto simp: stored_receipt_verify_signature_def stored_verify_iff result_simps Let_def signed_by_def not_le)

subsection \<open>Encodings\<close>

lemma to_be_bytes_mod: "to_be_bytes n (v mod 256 ^ n) = to_be_bytes n v"
proof -
  have "to_be_bytes n (v mod 256 ^ n) = to_be_bytes n (from_be_bytes (to_be_bytes n v))"
    by (simp add: from_to_be_bytes)
  then show ?thesis using to_from_be_bytes_eq [of "to_be_bytes n v"] by simp
qed

lemma increment_nonce_bytes:
  "increment_admission_nonce n = to_be_bytes (length n) (from_be_bytes n + 1)"
proof -
  have "length (increment_admission_nonce n) = length n" by (simp add: increment_admission_nonce_def)
  then have "increment_admission_nonce n = to_be_bytes (length n) (from_be_bytes (increment_admission_nonce n))"
    using to_from_be_bytes_eq by metis
  then show ?thesis unfolding increment_nonce_value to_be_bytes_mod .
qed

lemma increment_nonce_shift:
  "to_be_bytes (length n) (from_be_bytes (increment_admission_nonce n) + k) = to_be_bytes (length n) (from_be_bytes n + Suc k)"
proof -
  have "to_be_bytes (length n) (((from_be_bytes n + 1) mod 256 ^ length n + k) mod 256 ^ length n)
      = to_be_bytes (length n) ((from_be_bytes n + Suc k) mod 256 ^ length n)"
    by (simp add: mod_add_left_eq del: to_be_bytes.simps)
  then show ?thesis by (simp only: to_be_bytes_mod increment_nonce_value)
qed

lemma hasher_nonce [simp]:
  "storage_offer_admission_work_hasher (content\<lparr> so_nonce := n \<rparr>) = storage_offer_admission_work_hasher content"
  by (simp add: storage_offer_admission_work_hasher_def)

lemma validate_offer_nonce [simp]:
  "validate_storage_offer_content (content\<lparr> so_nonce := n \<rparr>) now = validate_storage_offer_content content now"
  by (simp add: validate_storage_offer_content_def)

lemma sign_offer_Inr:
  assumes "signatures_documented lib" and "so_store_key content = lib_verifying_key lib secret"
  shows "sign_storage_offer lib secret content = Inr offer \<longleftrightarrow>
    validate_storage_offer_content content (so_issued_at_unix_seconds content) = Inr ()
    \<and> (\<exists>m. pc_offer_content lib content = Some m
        \<and> offer = \<lparr> so_content = content, so_signature = lib_sign lib secret (STORAGE_OFFER_DOMAIN @ m) \<rparr>)"
  using documented_signed [OF assms(1)] assms(2)
  by (auto simp: sign_storage_offer_def offer_verify_at_def result_simps Let_def)


section \<open>Properties\<close>

text \<open>C27. A write authorisation binds one mailbox, one item and one envelope: authorising succeeds exactly
  when the address is well-formed, the lifetime and the envelope are within the protocol bounds and the
  capability holds the write key of the address; the result verifies for that request and for no
  envelope of another size or digest, and for no other mailbox or write key.\<close>

theorem write_authorization_binds_request:
  assumes "signatures_documented lib"
  shows "((\<exists>a. write_authorize lib secret address item ttl envelope = Inr a) \<longleftrightarrow>
        addr_version address = MAILBOX_VERSION
        \<and> key_from_bytes_ok (lib_ed lib) (addr_read_key address) \<and> addr_write_key address = lib_verifying_key lib secret
        \<and> MIN_MAILBOX_TTL_SECONDS \<le> ttl \<and> ttl \<le> MAX_MAILBOX_TTL_SECONDS
        \<and> envelope \<noteq> [] \<and> length envelope \<le> MAX_MAILBOX_ENVELOPE_BYTES
        \<and> pc_write_content lib \<lparr> wa_version = MAILBOX_VERSION, wa_mailbox_id = mailbox_id lib address, wa_item_id = item,
            wa_write_key = addr_write_key address, wa_requested_ttl_seconds = ttl,
            wa_envelope_bytes = word_of_nat (length envelope), wa_envelope_digest = lib_blake3 lib envelope \<rparr> \<noteq> None)
    \<and> (\<forall>a. write_authorize lib secret address item ttl envelope = Inr a \<longrightarrow>
          write_authorization_verify lib a address envelope = Inr ()
        \<and> wa_item_id (wa_content a) = item \<and> wa_requested_ttl_seconds (wa_content a) = ttl
        \<and> (\<forall>address' envelope'. write_authorization_verify lib a address' envelope' = Inr () \<longrightarrow>
             mailbox_id lib address' = mailbox_id lib address \<and> addr_write_key address' = addr_write_key address
             \<and> length envelope' = length envelope \<and> lib_blake3 lib envelope' = lib_blake3 lib envelope))"
    (is "(?made \<longleftrightarrow> ?ok) \<and> ?bound")
proof
  have "?made \<longleftrightarrow> ?ok" using documented_signed(1) [OF assms, of secret]
    unfolding write_authorize_Inr by (auto simp: result_simps intro!: exI [where x = "\<lparr> wa_content = _, wa_signature = _ \<rparr>"])
  then show "?made \<longleftrightarrow> ?ok" .
  show ?bound using signed_by_documented [OF assms]
    by (auto simp: write_authorize_Inr write_verify_iff result_simps dest: length_eq_u64)
qed

text \<open>C28. A read authorisation binds one mailbox and one operation: listing is authorised only for page
  limits within the protocol bound, the issued authorisation verifies for the address it was made for
  and carries exactly the operation asked for, and it verifies for no address with another mailbox id
  or read key.\<close>

theorem read_authorization_binds_operation:
  assumes "signatures_documented lib"
  shows "(authorize_list_page lib secret address nonce after limit = Inr a \<longrightarrow>
          1 \<le> limit \<and> limit \<le> MAX_MAILBOX_PAGE_ITEMS \<and> ra_operation (ra_content a) = ListOp nonce after limit
          \<and> read_authorization_verify lib a address = Inr ())
    \<and> (authorize_delete lib secret address item receipt = Inr a \<longrightarrow>
          ra_operation (ra_content a) = DeleteOp item receipt \<and> read_authorization_verify lib a address = Inr ())
    \<and> (read_authorize lib secret address operation = Inr a \<and> read_authorization_verify lib a address' = Inr () \<longrightarrow>
          mailbox_id lib address' = mailbox_id lib address \<and> addr_read_key address' = addr_read_key address)"
  using signed_by_documented [OF assms]
  by (auto simp: authorize_list_page_def authorize_delete_def read_authorize_Inr read_verify_iff split: if_splits)

text \<open>C32. Every object of the mailbox contract that was encoded decodes to itself, with its verification
  repeated: addresses, write and read authorisations, envelopes, stored and delete receipts and storage
  offers.\<close>

theorem mailbox_codecs_roundtrip:
  assumes "postcard_documented lib"
  shows "(address_encode lib a = Inr b \<longrightarrow> address_decode_and_verify lib b = Inr a)
    \<and> (write_authorization_encode lib w = Inr b \<longrightarrow>
         write_authorization_decode_and_verify lib b a e = and_then (write_authorization_verify lib w a e) (\<lambda>_. Inr w))
    \<and> (read_authorization_encode lib r = Inr b \<longrightarrow>
         read_authorization_decode_and_verify lib b a = and_then (read_authorization_verify lib r a) (\<lambda>_. Inr r))
    \<and> (envelope_encode lib v = Inr b \<longrightarrow> envelope_decode lib b = Inr v)
    \<and> (stored_receipt_encode lib s = Inr b \<longrightarrow>
         stored_receipt_decode_and_verify lib b e = and_then (stored_receipt_verify lib s e) (\<lambda>_. Inr s))
    \<and> (delete_receipt_encode lib d = Inr b \<longrightarrow> delete_receipt_decode_and_verify lib b = Inr d)
    \<and> (offer_encode lib p now = Inr b \<longrightarrow> offer_decode_and_verify lib b now = Inr p)"
  using assms unfolding postcard_documented_def
  by (intro conjI impI)
    (auto simp: address_encode_def address_decode_and_verify_def write_authorization_encode_def
      write_authorization_decode_and_verify_def read_authorization_encode_def read_authorization_decode_and_verify_def
      envelope_encode_def envelope_decode_def stored_receipt_encode_def stored_receipt_decode_and_verify_def
      delete_receipt_encode_def delete_receipt_decode_and_verify_def offer_encode_def offer_decode_and_verify_def
      result_simps split: if_splits)


text \<open>C29. An envelope sealed for a recipient is returned to that recipient, before it expires, exactly as
  it was written; under another mailbox or item id it is refused, and once the expiry is reached it is
  refused as expired.\<close>

theorem envelope_opens_for_recipient:
  assumes "hpke_documented (lib_hpke lib)"
    and "envelope_seal lib mailbox item created expires (public_key (lib_hpke lib) recipient) plaintext = Inr envelope"
  shows "envelope_open lib envelope mailbox' item' recipient now =
    (if mailbox' \<noteq> mailbox \<or> item' \<noteq> item then Inl (Invalid ''mailbox envelope address does not match'')
     else if expires \<le> now then Inl Expired else Inr plaintext)"
proof -
  from assms(2) obtain aad sealed where parts:
      "env_context envelope = \<lparr> env_version = MAILBOX_VERSION, env_mailbox_id = mailbox, env_item_id = item,
         env_created_at_unix_seconds = created, env_expires_at_unix_seconds = expires \<rparr>"
      "pc_envelope_context lib (env_context envelope) = Some aad" "env_sealed envelope = sealed"
      "seal (lib_hpke lib) (public_key (lib_hpke lib) recipient) plaintext ENVELOPE_HPKE_INFO aad = Inr sealed"
      "envelope_validate envelope = Inr ()" "plaintext \<noteq> []" "length plaintext \<le> MAX_MAILBOX_PLAINTEXT_BYTES"
    by (auto simp: envelope_seal_def envelope_encode_def result_simps Let_def split: if_splits)
  with open_seal [OF assms(1) parts(4)] show ?thesis
    by (simp add: envelope_open_def Let_def)
qed

text \<open>C30. The admission work a storage offer carries is real: an offer made with a minimum of \<open>bits\<close> has a
  nonce whose digest, read as a number, lies below \<open>2 ^ (256 - bits)\<close>; it verifies at its issue time,
  passes the work check, and its digest passes no stronger check than its leading zeros allow.\<close>

theorem admission_work_bounds_digest:
  assumes "signatures_documented lib" and "\<And>m. length (lib_blake3 lib m) = 32"
    and "storage_offer_with_admission_work lib secret random endpoint capacity record_bytes issued validity bits = Inr offer"
  shows "from_be_bytes (lib_blake3 lib (storage_offer_admission_work_hasher (so_content offer) @ so_nonce (so_content offer)))
      < 2 ^ (256 - unat bits)
    \<and> offer_verify_at lib offer issued = Inr ()
    \<and> verify_admission_work lib offer bits = Inr ()
    \<and> (\<forall>stronger. verify_admission_work lib offer stronger = Inr () \<longrightarrow>
         from_be_bytes (lib_blake3 lib (storage_offer_admission_work_hasher (so_content offer) @ so_nonce (so_content offer)))
         < 2 ^ (256 - unat stronger))"
proof -
  have bound: "from_be_bytes (lib_blake3 lib (storage_offer_admission_work_hasher (so_content offer) @ so_nonce (so_content offer)))
      < 2 ^ (256 - unat n)" if "verify_admission_work lib offer n = Inr ()" for n
  proof -
    from that have "unat n \<le> digest_work_bits (lib_blake3 lib (storage_offer_admission_work_hasher (so_content offer) @ so_nonce (so_content offer)))"
      by (auto simp: verify_admission_work_def admission_work_bits_def storage_offer_admission_work_bits_def not_less split: if_splits)
    moreover have "unat n \<le> 8 * 32" using unat_u8_less [of n] by simp
    ultimately show ?thesis using digest_work_bits_ge [of "unat n"] assms(2) by force
  qed
  have search: "offer_verify_at lib offer (so_issued_at_unix_seconds content) = Inr ()
        \<and> verify_admission_work lib offer bits = Inr ()"
    if "admission_work_search k lib secret base bits content = Inr offer" for k base content
    using that
  proof (induction k arbitrary: content)
    case 0
    then show ?case by simp
  next
    case (Suc k)
    from Suc.IH [of "content\<lparr> so_nonce := increment_admission_nonce (so_nonce content) \<rparr>"] Suc.prems
    show ?case by (auto simp: result_simps sign_storage_offer_def Let_def split: if_splits)
  qed
  from assms(3) obtain content where "storage_offer_content lib secret random endpoint capacity record_bytes issued validity = Inr content"
      and s: "admission_work_search MAX_MAILBOX_STORAGE_OFFER_ADMISSION_WORK_ATTEMPTS lib secret
         (storage_offer_admission_work_hasher content) bits content = Inr offer"
    by (auto simp: storage_offer_with_admission_work_def result_simps split: if_splits)
  then have "so_issued_at_unix_seconds content = issued" by (auto simp: storage_offer_content_def result_simps Let_def)
  with search [OF s] bound show ?thesis by blast
qed

text \<open>The first hit of a search that starts one step later.\<close>

lemma first_hit_shift:
  fixes work :: "nat \<Rightarrow> nat"
  assumes "work 0 < b"
    and "case res of Inr x \<Rightarrow> \<exists>i < k. nonce x = at (Suc i) \<and> (\<forall>j \<le> i. b \<le> work (Suc j) \<longleftrightarrow> j = i)
      | Inl e \<Rightarrow> \<forall>j < k. work (Suc j) < b"
  shows "case res of Inr x \<Rightarrow> \<exists>i < Suc k. nonce x = at i \<and> (\<forall>j \<le> i. b \<le> work j \<longleftrightarrow> j = i)
      | Inl e \<Rightarrow> \<forall>j < Suc k. work j < b"
proof (cases res)
  case (Inl e)
  with assms show ?thesis by (simp add: All_less_Suc2)
next
  case (Inr x)
  with assms(2) obtain i where i: "i < k" "nonce x = at (Suc i)" "\<forall>j \<le> i. b \<le> work (Suc j) \<longleftrightarrow> j = i" by auto
  have "b \<le> work j \<longleftrightarrow> j = Suc i" if "j \<le> Suc i" for j using that i(3) assms(1) by (cases j) auto
  with i(1,2) show ?thesis unfolding Inr sum.case by (intro exI [of _ "Suc i"]) blast
qed

lemma admission_search_hit:
  assumes "signatures_documented lib" and "so_store_key content = lib_verifying_key lib secret"
    and "validate_storage_offer_content content (so_issued_at_unix_seconds content) = Inr ()"
    and "1 \<le> bits" and "bits \<le> MAX_MAILBOX_STORAGE_OFFER_ADMISSION_WORK_BITS" and "pc_offer_content lib content \<noteq> None"
    and "unat bits \<le> storage_offer_admission_work_bits lib (storage_offer_admission_work_hasher content) (so_nonce content)"
  shows "\<exists>offer. admission_work_search (Suc k) lib secret (storage_offer_admission_work_hasher content) bits content = Inr offer
    \<and> so_content offer = content"
proof -
  obtain offer where o: "sign_storage_offer lib secret content = Inr offer" "so_content offer = content"
    using sign_offer_Inr [OF assms(1,2)] assms(3,6) by auto
  then have "verify_admission_work lib offer bits = Inr ()"
    using assms(4,5,7) by (auto simp: verify_admission_work_def admission_work_bits_def)
  with o assms(7) show ?thesis by simp
qed

text \<open>C31. The admission-work search finds the first nonce that carries the work, counting up from the random
  one with wrap-around, whenever one of the allowed attempts has it; the offer it signs holds that nonce.
  It fails only when none of them has.\<close>

theorem admission_search_finds_first:
  assumes "signatures_documented lib" and "so_store_key content = lib_verifying_key lib secret"
    and "validate_storage_offer_content content (so_issued_at_unix_seconds content) = Inr ()"
    and "1 \<le> bits" and "bits \<le> MAX_MAILBOX_STORAGE_OFFER_ADMISSION_WORK_BITS"
    and "length (so_nonce content) = 32"
    and "\<And>n. length n = 32 \<Longrightarrow> pc_offer_content lib (content\<lparr> so_nonce := n \<rparr>) \<noteq> None"
  shows "case admission_work_search attempts lib secret (storage_offer_admission_work_hasher content) bits content of
      Inr offer \<Rightarrow> \<exists>k < attempts. so_nonce (so_content offer) = to_be_bytes 32 (from_be_bytes (so_nonce content) + k)
        \<and> (\<forall>j \<le> k. unat bits \<le> storage_offer_admission_work_bits lib (storage_offer_admission_work_hasher content)
             (to_be_bytes 32 (from_be_bytes (so_nonce content) + j)) \<longleftrightarrow> j = k)
    | Inl e \<Rightarrow> \<forall>j < attempts. storage_offer_admission_work_bits lib (storage_offer_admission_work_hasher content)
        (to_be_bytes 32 (from_be_bytes (so_nonce content) + j)) < unat bits"
  using assms(2-)
proof (induction attempts arbitrary: content)
  case 0
  then show ?case by simp
next
  case (Suc k)
  let ?work = "\<lambda>n. storage_offer_admission_work_bits lib (storage_offer_admission_work_hasher content) n"
  have n0: "to_be_bytes 32 (from_be_bytes (so_nonce content)) = so_nonce content"
    using to_from_be_bytes_eq [of "so_nonce content"] Suc.prems(5) by simp
  show ?case
  proof (cases "unat bits \<le> ?work (so_nonce content)")
    case True
    have "content\<lparr> so_nonce := so_nonce content \<rparr> = content" by simp
    then have "pc_offer_content lib content \<noteq> None" using Suc.prems(5,6) by metis
    from admission_search_hit [OF assms(1) Suc.prems(1-4) this True] obtain offer where
      o: "admission_work_search (Suc k) lib secret (storage_offer_admission_work_hasher content) bits content = Inr offer"
        "so_content offer = content" by blast
    then show ?thesis using True n0 unfolding o(1) sum.case by (intro exI [of _ 0]) simp
  next
    case False
    let ?next = "content\<lparr> so_nonce := increment_admission_nonce (so_nonce content) \<rparr>"
    have len: "length (increment_admission_nonce (so_nonce content)) = 32"
      using Suc.prems(5) by (simp add: increment_admission_nonce_def)
    have shift: "to_be_bytes 32 (from_be_bytes (so_nonce ?next) + j)
        = to_be_bytes 32 (from_be_bytes (so_nonce content) + Suc j)" for j
      using increment_nonce_shift [of "so_nonce content" j] Suc.prems(5) by simp
    have w0: "?work (to_be_bytes 32 (from_be_bytes (so_nonce content) + 0)) < unat bits" using False n0 by simp
    have step: "admission_work_search (Suc k) lib secret (storage_offer_admission_work_hasher content) bits content
        = admission_work_search k lib secret (storage_offer_admission_work_hasher content) bits ?next"
      using False by simp
    show ?thesis unfolding step
      by (rule first_hit_shift [where work = "\<lambda>j. ?work (to_be_bytes 32 (from_be_bytes (so_nonce content) + j))"
            and nonce = "\<lambda>offer. so_nonce (so_content offer)" and at = "\<lambda>j. to_be_bytes 32 (from_be_bytes (so_nonce content) + j)"])
        (use w0 Suc.IH [of ?next, unfolded shift hasher_nonce] Suc.prems len in simp_all)
  qed
qed


section \<open>Examples\<close>

lemma framed_short: "fs \<noteq> [] \<Longrightarrow> list_all (\<lambda>f. length f < 256 ^ 8) fs \<Longrightarrow> framed fs = Some (frame fs)"
  by (simp add: framed_def)

lemma toy_libs_simps [simp]:
  "lib_ed (toy_libs_with x) = toy_ed25519" "lib_verifying_key (toy_libs_with x) = toy_key" "lib_sign (toy_libs_with x) s = toy_sign (toy_key s)"
  "lib_blake3 (toy_libs_with x) = toy_blake3" "lib_hpke (toy_libs_with x) = toy_hpke"
  "pc_address (toy_libs_with x) a = framed (address_fields a)"
  "pc_write_content (toy_libs_with x) wc = framed (write_content_fields wc)" "pc_write (toy_libs_with x) w = framed (write_fields w)"
  "pc_read_content (toy_libs_with x) rc = framed (read_content_fields rc)" "pc_read (toy_libs_with x) r = framed (read_fields r)"
  "pc_envelope_context (toy_libs_with x) ec = framed (envelope_context_fields ec)" "pc_envelope (toy_libs_with x) e = framed (envelope_fields e)"
  "pc_stored_content (toy_libs_with x) sc = framed (stored_content_fields sc)" "pc_stored (toy_libs_with x) st = framed (stored_fields st)"
  "pc_delete_content (toy_libs_with x) dc = framed (delete_content_fields dc)" "pc_delete (toy_libs_with x) d = framed (delete_fields d)"
  "pc_offer_content (toy_libs_with x) oc = framed (offer_content_fields oc)" "pc_offer (toy_libs_with x) p = framed (offer_fields p)"
  by (simp_all add: toy_libs_with_def)

lemma toy_key_ok [simp]: "key_from_bytes_ok toy_ed25519 k \<longleftrightarrow> length k = 32"
  by (simp add: toy_ed25519_def)

lemma length_mailbox_id [simp]: "length (mailbox_id (toy_libs_with x) a) = 32"
  by (simp add: mailbox_id_def)

lemma mailbox_id_toy: "mailbox_id (toy_libs_with x) a = mailbox_id toy_libs a"
  by (simp add: mailbox_id_def)

lemmas mailbox_limits = MAILBOX_VERSION_def MIN_MAILBOX_TTL_SECONDS_def MAX_MAILBOX_TTL_SECONDS_def
  MAX_MAILBOX_ENVELOPE_BYTES_def MAX_MAILBOX_PAGE_ITEMS_def MAX_MAILBOX_PLAINTEXT_BYTES_def KEY_BYTES_def

definition sample_address :: MailboxAddress where
  "sample_address = address_new (toy_key [1]) (toy_key [2])"

lemma sample_address_verifies [simp]:
  "address_verify (toy_libs_with x) sample_address = Inr ()" "addr_read_key sample_address = toy_key [1]"
  "addr_write_key sample_address = toy_key [2]" "addr_version sample_address = MAILBOX_VERSION"
  by (simp_all add: sample_address_def address_new_def result_simps)

definition sample_write :: MailboxWriteAuthorization where
  "sample_write = (let content = \<lparr> wa_version = MAILBOX_VERSION, wa_mailbox_id = mailbox_id toy_libs sample_address,
      wa_item_id = replicate 32 7, wa_write_key = toy_key [2], wa_requested_ttl_seconds = 60, wa_envelope_bytes = 1,
      wa_envelope_digest = toy_blake3 [9] \<rparr> in
    \<lparr> wa_content = content, wa_signature = toy_sign (toy_key [2]) (WRITE_AUTHORIZATION_DOMAIN @ frame (write_content_fields content)) \<rparr>)"

definition sample_list :: MailboxReadAuthorization where
  "sample_list = (let content = \<lparr> ra_version = MAILBOX_VERSION, ra_mailbox_id = mailbox_id toy_libs sample_address,
      ra_read_key = toy_key [1], ra_operation = ListOp (replicate 32 3) None 8 \<rparr> in
    \<lparr> ra_content = content, ra_signature = toy_sign (toy_key [1]) (READ_AUTHORIZATION_DOMAIN @ frame (read_content_fields content)) \<rparr>)"

lemma sample_write_made:
  "write_authorize (toy_libs_with x) [2] sample_address (replicate 32 7) 60 [9] = Inr sample_write"
  by (simp add: write_authorize_Inr sample_write_def Let_def result_simps mailbox_limits write_content_fields_def framed_short
      mailbox_id_toy [of x])

theorem write_authorization_binds_request_witness:
  "write_authorize toy_libs [2] sample_address (replicate 32 7) 60 [9] = Inr sample_write
   \<and> write_authorization_verify toy_libs sample_write sample_address [9] = Inr ()"
proof -
  from sample_write_made [of "()"] show ?thesis using write_authorization_binds_request [OF toy_signatures_documented [of "()"], of "[2]" sample_address "replicate 32 7" 60 "[9]"]
    by blast
qed

theorem read_authorization_binds_operation_witness:
  "authorize_list toy_libs [1] sample_address (replicate 32 3) = Inr sample_list
   \<and> read_authorization_verify toy_libs sample_list sample_address = Inr ()"
proof -
  have made: "authorize_list_page toy_libs [1] sample_address (replicate 32 3) None 8 = Inr sample_list"
    by (simp add: authorize_list_page_def read_authorize_Inr sample_list_def Let_def mailbox_limits
        read_content_fields_def framed_short)
  moreover have "authorize_list toy_libs [1] sample_address (replicate 32 3) = authorize_list_page toy_libs [1] sample_address (replicate 32 3) None 8"
    by (simp add: authorize_list_def mailbox_limits)
  ultimately show ?thesis
    using read_authorization_binds_operation [OF toy_signatures_documented [of "()"], of "[1]" sample_address "replicate 32 3" None 8 sample_list]
    by simp
qed

theorem mailbox_codecs_roundtrip_witness:
  "address_encode toy_libs sample_address = Inr (frame (address_fields sample_address))
   \<and> address_decode_and_verify toy_libs (frame (address_fields sample_address)) = Inr sample_address"
proof -
  have "address_encode toy_libs sample_address = Inr (frame (address_fields sample_address))"
    by (simp add: address_encode_def address_fields_def framed_short MAX_ADDRESS_BYTES_def length_frame)
  with mailbox_codecs_roundtrip [OF toy_postcard_documented [of "()"], of sample_address] show ?thesis by blast
qed

definition sample_envelope :: MailboxEnvelope where
  "sample_envelope = (let context = \<lparr> env_version = MAILBOX_VERSION, env_mailbox_id = replicate 32 4, env_item_id = replicate 32 5,
      env_created_at_unix_seconds = 100, env_expires_at_unix_seconds = 160 \<rparr> in
    \<lparr> env_context = context, env_sealed = \<lparr> encapsulated_key = replicate 32 6,
        ciphertext = ENVELOPE_HPKE_INFO @ frame (envelope_context_fields context) @ [8, 9] \<rparr> \<rparr>)"

theorem envelope_opens_for_recipient_witness:
  "envelope_seal toy_libs (replicate 32 4) (replicate 32 5) 100 160 (public_key toy_hpke \<lparr> key_seed = replicate 32 6 \<rparr>) [8, 9]
     = Inr sample_envelope
   \<and> envelope_open toy_libs sample_envelope (replicate 32 4) (replicate 32 5) \<lparr> key_seed = replicate 32 6 \<rparr> 159 = Inr [8, 9]
   \<and> envelope_open toy_libs sample_envelope (replicate 32 4) (replicate 32 5) \<lparr> key_seed = replicate 32 6 \<rparr> 160 = Inl Expired"
proof -
  have info: "length ENVELOPE_HPKE_INFO = 35" by (simp add: ENVELOPE_HPKE_INFO_def)
  have made: "envelope_seal toy_libs (replicate 32 4) (replicate 32 5) 100 160 (public_key toy_hpke \<lparr> key_seed = replicate 32 6 \<rparr>) [8, 9]
     = Inr sample_envelope"
    by (simp add: envelope_seal_def envelope_encode_def envelope_validate_def validate_envelope_time_def validate_ttl_def
        u64_checked_sub_def mailbox_limits sample_envelope_def Let_def envelope_context_fields_def envelope_fields_def
        framed_short seal_def public_key_def toy_hpke_def validate_envelope_bytes_def length_frame info frame_nonempty)
  have doc: "hpke_documented (lib_hpke toy_libs)" by (simp add: toy_hpke_documented)
  show ?thesis
    using made envelope_opens_for_recipient [OF doc, of "replicate 32 4" "replicate 32 5" 100 160 "\<lparr> key_seed = replicate 32 6 \<rparr>" "[8, 9]"]
    by simp
qed


definition sample_offer_content :: "bytes \<Rightarrow> MailboxStorageOfferContent" where
  "sample_offer_content nonce = \<lparr> so_version = MAILBOX_VERSION, so_provider_endpoint = [1], so_store_key = toy_key [3],
     so_policy_class = BoundedVolunteer, so_capacity_hint_bytes = 10, so_max_record_bytes = 5,
     so_issued_at_unix_seconds = 100, so_expires_at_unix_seconds = 160, so_nonce = nonce \<rparr>"

lemma sample_offer_content_valid:
  "validate_storage_offer_content (sample_offer_content n) 100 = Inr ()"
  "storage_offer_content toy_libs [3] (Some n) [1] 10 5 100 60 = Inr (sample_offer_content n)"
  by (simp_all add: validate_storage_offer_content_def storage_offer_content_def sample_offer_content_def
      u64_checked_sub_def u64_checked_add_def MAX_MAILBOX_STORAGE_ENDPOINT_BYTES_def
      MIN_MAILBOX_STORAGE_OFFER_VALIDITY_SECONDS_def MAX_MAILBOX_STORAGE_OFFER_VALIDITY_SECONDS_def)

lemma digest_work_bits_zeros: "digest_work_bits (replicate n 0) = 8 * n"
  by (induction n) auto

lemma toy_blake3_suffix: "length n = 32 \<Longrightarrow> toy_blake3 (m @ n) = n"
  by (simp add: toy_blake3_def)

lemma zero_nonce_work:
  "storage_offer_admission_work_bits toy_libs base (replicate 32 0) = 256"
  using digest_work_bits_zeros [of 32]
  by (simp add: storage_offer_admission_work_bits_def toy_blake3_suffix)

lemma sample_offer_encodes: "length n = 32 \<Longrightarrow> framed (offer_content_fields (sample_offer_content n))
    = Some (frame (offer_content_fields (sample_offer_content n)))"
  by (simp add: offer_content_fields_def sample_offer_content_def framed_short)

definition sample_offer :: "bytes \<Rightarrow> SignedMailboxStorageOffer" where
  "sample_offer nonce = \<lparr> so_content = sample_offer_content nonce, so_signature =
     toy_sign (toy_key [3]) (STORAGE_OFFER_DOMAIN @ frame (offer_content_fields (sample_offer_content nonce))) \<rparr>"

lemma sample_offer_signed: "length n = 32 \<Longrightarrow> sign_storage_offer toy_libs [3] (sample_offer_content n) = Inr (sample_offer n)"
proof -
  assume "length n = 32"
  moreover have "so_store_key (sample_offer_content n) = toy_key [3]" "so_issued_at_unix_seconds (sample_offer_content n) = 100"
    by (simp_all add: sample_offer_content_def)
  ultimately show ?thesis
    using sign_offer_Inr [OF toy_signatures_documented [of "()"], of "sample_offer_content n" "[3]" "sample_offer n"]
      sample_offer_encodes [of n] sample_offer_content_valid(1) [of n]
    by (simp add: sample_offer_def)
qed

theorem admission_work_bounds_digest_witness:
  "storage_offer_with_admission_work toy_libs [3] (Some (replicate 32 0)) [1] 10 5 100 60 18 = Inr (sample_offer (replicate 32 0))
   \<and> verify_admission_work toy_libs (sample_offer (replicate 32 0)) 18 = Inr ()"
proof -
  obtain n where n: "MAX_MAILBOX_STORAGE_OFFER_ADMISSION_WORK_ATTEMPTS = Suc n"
    using not0_implies_Suc [of MAX_MAILBOX_STORAGE_OFFER_ADMISSION_WORK_ATTEMPTS]
    by (auto simp: MAX_MAILBOX_STORAGE_OFFER_ADMISSION_WORK_ATTEMPTS_def)
  have nonce: "so_nonce (sample_offer_content m) = m" for m by (simp add: sample_offer_content_def)
  have made: "storage_offer_with_admission_work toy_libs [3] (Some (replicate 32 0)) [1] 10 5 100 60 18
      = Inr (sample_offer (replicate 32 0))"
    unfolding storage_offer_with_admission_work_def n
    by (simp add: sample_offer_content_valid zero_nonce_work sample_offer_signed nonce verify_admission_work_def
        admission_work_bits_def MAX_MAILBOX_STORAGE_OFFER_ADMISSION_WORK_BITS_def sample_offer_def)
  with admission_work_bounds_digest [OF toy_signatures_documented [of "()"] _ made] show ?thesis by simp
qed

lemma nonce_wraps: "to_be_bytes n (from_be_bytes (replicate n 255) + 1) = replicate n 0"
proof -
  have "from_be_bytes (replicate n 255) + 1 = 256 ^ n" by (induction n) auto
  moreover have "to_be_bytes n (256 ^ n) = to_be_bytes n 0" using to_be_bytes_mod [of n "256 ^ n"] by simp
  moreover have "to_be_bytes n 0 = replicate n 0" by (induction n) auto
  ultimately show ?thesis by simp
qed

theorem admission_search_finds_first_witness:
  "\<exists>offer. admission_work_search 2 toy_libs [3]
      (storage_offer_admission_work_hasher (sample_offer_content (replicate 32 255))) 18
      (sample_offer_content (replicate 32 255)) = Inr offer \<and> so_nonce (so_content offer) = replicate 32 0"
proof -
  let ?c = "sample_offer_content (replicate 32 255)"
  let ?run = "admission_work_search 2 toy_libs [3] (storage_offer_admission_work_hasher ?c) 18 ?c"
  have wrap: "to_be_bytes 32 (from_be_bytes (so_nonce ?c) + 1) = replicate 32 0"
    using nonce_wraps [of 32] by (simp add: sample_offer_content_def del: to_be_bytes.simps)
  have first: "storage_offer_admission_work_bits toy_libs base (to_be_bytes 32 (from_be_bytes (so_nonce ?c) + 0)) < 18" for base
  proof -
    have n0: "to_be_bytes 32 (from_be_bytes (so_nonce ?c)) = 255 # replicate 31 255"
      using to_from_be_bytes_eq [of "so_nonce ?c"] by (simp add: sample_offer_content_def flip: replicate_Suc)
    have "u8_leading_zeros 255 = 0" by code_simp
    then have "digest_work_bits (255 # replicate 31 255) = 0" by simp
    then show ?thesis unfolding storage_offer_admission_work_bits_def add_0_right n0 by (simp add: toy_blake3_suffix)
  qed
  have hyp: "pc_offer_content toy_libs (?c\<lparr> so_nonce := n \<rparr>) \<noteq> None" if "length n = 32" for n
    using sample_offer_encodes [OF that] by (simp add: sample_offer_content_def)
  have ok: "so_store_key ?c = lib_verifying_key toy_libs [3]" "so_issued_at_unix_seconds ?c = 100"
      "(1 :: u8) \<le> 18" "(18 :: u8) \<le> MAX_MAILBOX_STORAGE_OFFER_ADMISSION_WORK_BITS" "length (so_nonce ?c) = 32"
    by (simp_all add: sample_offer_content_def MAX_MAILBOX_STORAGE_OFFER_ADMISSION_WORK_BITS_def)
  note run = admission_search_finds_first [OF toy_signatures_documented [of "()"] ok(1) _ ok(3,4,5), of 2]
  show ?thesis
  proof (cases ?run)
    case (Inl e)
    with run ok hyp sample_offer_content_valid(1) wrap zero_nonce_work show ?thesis by (force dest: spec [of _ 1])
  next
    case (Inr offer)
    then obtain k where k: "k < 2" "so_nonce (so_content offer) = to_be_bytes 32 (from_be_bytes (so_nonce ?c) + k)"
        "\<forall>j \<le> k. unat (18 :: u8) \<le> storage_offer_admission_work_bits toy_libs (storage_offer_admission_work_hasher ?c)
           (to_be_bytes 32 (from_be_bytes (so_nonce ?c) + j)) \<longleftrightarrow> j = k"
      using run ok hyp sample_offer_content_valid(1) by auto
    then have "k = 1" using first [of "storage_offer_admission_work_hasher ?c"] by (cases k) auto
    with k wrap Inr show ?thesis by auto
  qed
qed


end
