(* ===== verification/Ordered_Table.thy ===== *)
theory Ordered_Table
  imports Prelude "HOL-Library.Multiset"
begin

text \<open>
  A table of the embedded database: byte-string keys with one value each, iterated in the order of
  the keys. The operations are those the stores use of it (\<open>get\<close>, \<open>insert\<close>, \<open>remove\<close>, \<open>retain\<close>,
  \<open>len\<close>, iteration). The locale \<open>ordered_table\<close> is the contract the stores rely on, with the lemmas on
  weighted sums over the entries from which their accounting follows.
\<close>

lemma append_less_same: "p @ x < p @ (y :: bytes) \<longleftrightarrow> x < y"
  by (induction p) auto

type_synonym 'v table = "(bytes \<times> 'v) list"

definition t_get :: "'v table \<Rightarrow> bytes \<Rightarrow> 'v option" where
  "t_get t k = map_of t k"

primrec t_insert :: "bytes \<Rightarrow> 'v \<Rightarrow> 'v table \<Rightarrow> 'v table" where
  "t_insert k v [] = [(k, v)]"
| "t_insert k v (e # es) =
     (if fst e < k then e # t_insert k v es else if fst e = k then (k, v) # es else (k, v) # e # es)"

definition t_remove :: "bytes \<Rightarrow> 'v table \<Rightarrow> 'v table" where
  "t_remove k t = filter (\<lambda>e. fst e \<noteq> k) t"

definition t_retain :: "(bytes \<Rightarrow> 'v \<Rightarrow> bool) \<Rightarrow> 'v table \<Rightarrow> 'v table" where
  "t_retain keep t = filter (\<lambda>(k, v). keep k v) t"

definition t_valid :: "'v table \<Rightarrow> bool" where
  "t_valid t \<longleftrightarrow> sorted_wrt (<) (map fst t)"

locale ordered_table =
  fixes get :: "'t \<Rightarrow> bytes \<Rightarrow> 'v option"
    and insert :: "bytes \<Rightarrow> 'v \<Rightarrow> 't \<Rightarrow> 't"
    and remove :: "bytes \<Rightarrow> 't \<Rightarrow> 't"
    and retain :: "(bytes \<Rightarrow> 'v \<Rightarrow> bool) \<Rightarrow> 't \<Rightarrow> 't"
    and entries :: "'t \<Rightarrow> (bytes \<times> 'v) list"
    and valid :: "'t \<Rightarrow> bool"
  assumes entries_sorted: "valid t \<Longrightarrow> sorted_wrt (<) (map fst (entries t))"
    and get_entries: "valid t \<Longrightarrow> get t k = Some v \<longleftrightarrow> (k, v) \<in> set (entries t)"
    and valid_insert: "valid t \<Longrightarrow> valid (insert k v t)"
    and valid_remove: "valid t \<Longrightarrow> valid (remove k t)"
    and valid_retain: "valid t \<Longrightarrow> valid (retain p t)"
    and entries_insert: "valid t \<Longrightarrow> get t k = None \<Longrightarrow>
          mset (entries (insert k v t)) = add_mset (k, v) (mset (entries t))"
    and get_insert: "valid t \<Longrightarrow> get (insert k v t) k' = (if k' = k then Some v else get t k')"
    and entries_remove: "valid t \<Longrightarrow> entries (remove k t) = filter (\<lambda>e. fst e \<noteq> k) (entries t)"
    and entries_retain: "valid t \<Longrightarrow> entries (retain p t) = filter (\<lambda>(k, v). p k v) (entries t)"
begin

definition weight :: "(bytes \<Rightarrow> 'v \<Rightarrow> nat) \<Rightarrow> 't \<Rightarrow> nat" where
  "weight w t = sum_list (map (\<lambda>(k, v). w k v) (entries t))"

lemma weight_mset: "weight w t = sum_mset (image_mset (\<lambda>(k, v). w k v) (mset (entries t)))"
  by (simp add: weight_def sum_mset_sum_list flip: mset_map)

lemma keys_distinct: "valid t \<Longrightarrow> distinct (map fst (entries t))"
  using entries_sorted sorted_wrt_less_distinct [of "\<lambda>x. x" "map fst (entries t)"] by simp

lemma get_remove:
  assumes "valid t"
  shows "get (remove k t) k' = (if k' = k then None else get t k')"
proof -
  have "get (remove k t) k' = Some v \<longleftrightarrow> k' \<noteq> k \<and> get t k' = Some v" for v
    using get_entries [OF valid_remove [OF assms]] get_entries [OF assms] entries_remove [OF assms] by auto
  then show ?thesis by (metis not_Some_eq)
qed

lemma weight_insert: "valid t \<Longrightarrow> get t k = None \<Longrightarrow> weight w (insert k v t) = weight w t + w k v"
  by (simp add: weight_mset entries_insert)

lemma remove_absent: "valid t \<Longrightarrow> get t k = None \<Longrightarrow> entries (remove k t) = entries t"
proof -
  assume v: "valid t" and n: "get t k = None"
  have "fst e \<noteq> k" if "e \<in> set (entries t)" for e
    using get_entries [OF v, of k "snd e"] n that by (cases e) auto
  then show ?thesis using entries_remove [OF v] by (simp add: filter_id_conv)
qed

lemma weight_remove:
  assumes v: "valid t" and g: "get t k = Some x"
  shows "weight w t = weight w (remove k t) + w k x"
proof -
  from g get_entries [OF v] have "(k, x) \<in> set (entries t)" by simp
  then obtain as bs where s: "entries t = as @ (k, x) # bs" by (meson split_list)
  with keys_distinct [OF v] have "filter (\<lambda>e. fst e \<noteq> k) as = as" "filter (\<lambda>e. fst e \<noteq> k) bs = bs"
    by (auto simp: filter_id_conv)
  with s have "entries (remove k t) = as @ bs" using entries_remove [OF v] by simp
  with s show ?thesis by (simp add: weight_def)
qed

lemma weight_retain_le: "valid t \<Longrightarrow> weight w (retain p t) \<le> weight w t"
proof -
  have "sum_list (map f (filter q xs)) \<le> sum_list (map f xs)" for f :: "_ \<Rightarrow> nat" and q xs
    by (induction xs) auto
  then show "valid t \<Longrightarrow> weight w (retain p t) \<le> weight w t"
    by (simp add: weight_def entries_retain)
qed

end

lemma t_get_set: "t_valid t \<Longrightarrow> t_get t k = Some v \<longleftrightarrow> (k, v) \<in> set t"
  using sorted_wrt_less_distinct [of "\<lambda>x. x" "map fst t"] by (auto simp: t_get_def t_valid_def intro: map_of_is_SomeI dest: map_of_SomeD)

lemma t_insert_keys: "set (map fst (t_insert k v t)) = Set.insert k (set (map fst t))"
  by (induction t) auto

lemma t_valid_insert: "t_valid t \<Longrightarrow> t_valid (t_insert k v t)"
proof (induction t)
  case Nil
  then show ?case by (simp add: t_valid_def)
next
  case (Cons e es)
  then show ?case using t_insert_keys [of k v es]
    by (auto simp: t_valid_def not_less intro: less_trans le_neq_trans)
qed

lemma t_get_insert: "t_valid t \<Longrightarrow> t_get (t_insert k v t) k' = (if k' = k then Some v else t_get t k')"
  by (induction t) (auto simp: t_get_def t_valid_def)

lemma t_insert_mset: "t_get t k = None \<Longrightarrow> mset (t_insert k v t) = add_mset (k, v) (mset t)"
  by (induction t) (auto simp: t_get_def split: if_splits)

interpretation tbl: ordered_table t_get t_insert t_remove t_retain "\<lambda>t. t" t_valid
proof
  fix t :: "'v table" and k k' :: bytes and v :: 'v and p
  assume V: "t_valid t"
  show "sorted_wrt (<) (map fst t)" using V by (simp add: t_valid_def)
  show "t_get t k = Some v \<longleftrightarrow> (k, v) \<in> set t" using V by (rule t_get_set)
  show "t_valid (t_insert k v t)" using V by (rule t_valid_insert)
  show "t_valid (t_remove k t)" "t_valid (t_retain p t)"
    using V by (auto simp: t_valid_def t_remove_def t_retain_def sorted_wrt_map intro: sorted_wrt_filter)
  show "mset (t_insert k v t) = add_mset (k, v) (mset t)" if "t_get t k = None"
    using that by (rule t_insert_mset)
  show "t_get (t_insert k v t) k' = (if k' = k then Some v else t_get t k')" using V by (rule t_get_insert)
  show "t_remove k t = filter (\<lambda>e. fst e \<noteq> k) t" by (simp add: t_remove_def)
  show "t_retain p t = filter (\<lambda>(k, v). p k v) t" by (simp add: t_retain_def)
qed

end
