(* ===== verification/Mailbox_Store.thy ===== *)
theory Mailbox_Store
  imports Mailbox_Contract Ordered_Table
begin

text \<open>
  \<^verbatim>\<open>kilogram-mailbox/src/store.rs\<close>: the blind mailbox store. A store is its database (five tables of
  the embedded database), its identity and its configuration. Each operation runs in one write
  transaction: a closure from the database to an error, which rolls back, or to an outcome and the
  database that is committed. Values of the item and tombstone tables are encoded bytes, as in the
  code, so a record that does not decode is a branch of every operation. Failures of the database and
  the file system themselves are outside the model.
\<close>

section \<open>Data\<close>

definition STORE_KEY :: bytes where "STORE_KEY = ascii ''store-key''"
definition TOTAL_BYTES_KEY :: bytes where "TOTAL_BYTES_KEY = ascii ''total-envelope-bytes''"
definition TOTAL_ITEMS_KEY :: bytes where "TOTAL_ITEMS_KEY = ascii ''total-live-items''"
definition RECORD_VERSION :: u8 where "RECORD_VERSION = 1"
definition ITEM_KEY_BYTES :: nat where "ITEM_KEY_BYTES = 64"
definition MAX_ABSOLUTE_ITEMS :: u64 where "MAX_ABSOLUTE_ITEMS = 10000000"
definition MAX_ABSOLUTE_TOTAL_BYTES :: u64 where "MAX_ABSOLUTE_TOTAL_BYTES = 1024 * 1024 * 1024 * 1024"
definition MAX_ABSOLUTE_ITEMS_PER_MAILBOX :: u64 where "MAX_ABSOLUTE_ITEMS_PER_MAILBOX = 4096"
definition DEFAULT_MAX_ITEMS_PER_MAILBOX :: u64 where "DEFAULT_MAX_ITEMS_PER_MAILBOX = 128"
definition DEFAULT_MAX_TOTAL_ITEMS :: u64 where "DEFAULT_MAX_TOTAL_ITEMS = 100000"
definition DEFAULT_MAX_TOTAL_BYTES :: u64 where "DEFAULT_MAX_TOTAL_BYTES = 1024 * 1024 * 1024"

datatype store_error =
    StoreContract mailbox_error
  | StoreInvalid string
  | StorePostcard

record MailboxStoreConfig =
  data_dir :: string
  max_envelope_bytes :: nat
  max_items_per_mailbox :: u64
  max_total_items :: u64
  max_total_bytes :: u64

record StoredRecord =
  rec_version :: u8
  rec_requested_ttl_seconds :: u64
  rec_envelope :: bytes
  rec_receipt :: MailboxStoredReceipt

record StoredTombstone =
  tomb_version :: u8
  tomb_stored_receipt_id :: bytes
  tomb_delete_receipt :: MailboxDeleteReceipt

datatype MailboxPutOutcome =
    Created MailboxStoredReceipt
  | AlreadyPresent MailboxStoredReceipt
  | Conflict
  | Tombstoned
  | CapacityExceeded

record StoredMailboxItem =
  item_item_id :: bytes
  item_expires_at_unix_seconds :: u64
  item_envelope :: bytes
  item_receipt :: MailboxStoredReceipt

record StoredMailboxPage =
  page_items :: "StoredMailboxItem list"
  next_after_item_id :: "bytes option"
  more_available :: bool

datatype DeleteOutcome =
    Deleted MailboxDeleteReceipt
  | AlreadyDeleted MailboxDeleteReceipt
  | Absent
  | ReceiptMismatch
  | TombstoneCapacityExceeded

record CleanupReport =
  removed_items :: u64
  removed_tombstones :: u64
  live_items :: u64
  live_envelope_bytes :: u64

text \<open>The tables of the database file.\<close>

record database =
  item_table :: "bytes table"
  tombstone_table :: "bytes table"
  mailbox_count_table :: "u64 table"
  meta_table :: "u64 table"
  identity_table :: "bytes table"

record BlindMailboxStore =
  store_database :: database
  store_identity :: bytes
  store_config :: MailboxStoreConfig

text \<open>postcard at the two types of the store, with what it documents: it inverts its encoding, and
  the encoding of a record adds to its byte strings less than 256 bytes of versions, numbers and
  lengths.\<close>

record store_libs = mailbox_libs +
  pc_record :: "StoredRecord \<Rightarrow> bytes option"
  pc_record_from :: "bytes \<Rightarrow> StoredRecord option"
  pc_tombstone :: "StoredTombstone \<Rightarrow> bytes option"
  pc_tombstone_from :: "bytes \<Rightarrow> StoredTombstone option"

definition record_field_bytes :: "StoredRecord \<Rightarrow> nat" where
  "record_field_bytes r = (let content = sr_content (rec_receipt r) in
     length (rec_envelope r) + length (sr_store_key content) + length (sr_mailbox_id content) + length (sr_item_id content)
     + length (sr_envelope_digest content) + length (sr_signature (rec_receipt r)))"

definition tombstone_field_bytes :: "StoredTombstone \<Rightarrow> nat" where
  "tombstone_field_bytes t = (let content = dr_content (tomb_delete_receipt t) in
     length (tomb_stored_receipt_id t) + length (dr_store_key content) + length (dr_mailbox_id content)
     + length (dr_item_id content) + length (dr_stored_receipt_id content) + length (dr_signature (tomb_delete_receipt t)))"

definition store_postcard_documented :: "'a store_libs_scheme \<Rightarrow> bool" where
  "store_postcard_documented lib \<longleftrightarrow>
     (\<forall>r b. pc_record lib r = Some b \<longrightarrow> pc_record_from lib b = Some r \<and> length b < record_field_bytes r + 256)
   \<and> (\<forall>t b. pc_tombstone lib t = Some b \<longrightarrow> pc_tombstone_from lib b = Some t \<and> length b < tombstone_field_bytes t + 256)"

section \<open>Configuration and records\<close>

definition config_new :: "string \<Rightarrow> MailboxStoreConfig" where
  "config_new dir = \<lparr> data_dir = dir, max_envelope_bytes = MAX_MAILBOX_ENVELOPE_BYTES,
     max_items_per_mailbox = DEFAULT_MAX_ITEMS_PER_MAILBOX, max_total_items = DEFAULT_MAX_TOTAL_ITEMS,
     max_total_bytes = DEFAULT_MAX_TOTAL_BYTES \<rparr>"

definition config_validate :: "MailboxStoreConfig \<Rightarrow> store_error + unit" where
  "config_validate self =
     and_then (ensure (data_dir self \<noteq> []) (StoreInvalid ''mailbox data directory is empty'')) (\<lambda>_.
     and_then (ensure (1 \<le> max_envelope_bytes self \<and> max_envelope_bytes self \<le> MAX_MAILBOX_ENVELOPE_BYTES)
       (StoreInvalid ''mailbox envelope limit is outside protocol bounds'')) (\<lambda>_.
     and_then (ensure (1 \<le> max_items_per_mailbox self \<and> max_items_per_mailbox self \<le> MAX_ABSOLUTE_ITEMS_PER_MAILBOX)
       (StoreInvalid ''mailbox per-address item limit is invalid'')) (\<lambda>_.
     and_then (ensure (max_items_per_mailbox self \<le> max_total_items self \<and> max_total_items self \<le> MAX_ABSOLUTE_ITEMS)
       (StoreInvalid ''mailbox total item limit is invalid'')) (\<lambda>_.
     ensure (word_of_nat (max_envelope_bytes self) \<le> max_total_bytes self \<and> max_total_bytes self \<le> MAX_ABSOLUTE_TOTAL_BYTES)
       (StoreInvalid ''mailbox total byte limit is invalid'')))))"

definition record_validate :: "'a store_libs_scheme \<Rightarrow> StoredRecord \<Rightarrow> store_error + unit" where
  "record_validate lib self =
     (let receipt = sr_content (rec_receipt self) in
      and_then (ensure (rec_version self = RECORD_VERSION) (StoreInvalid ''unsupported mailbox record version'')) (\<lambda>_.
      and_then (ensure (MIN_MAILBOX_TTL_SECONDS \<le> rec_requested_ttl_seconds self
          \<and> rec_requested_ttl_seconds self \<le> MAX_MAILBOX_TTL_SECONDS) (StoreInvalid ''stored mailbox TTL is invalid'')) (\<lambda>_.
      and_then (ensure (rec_envelope self \<noteq> [] \<and> length (rec_envelope self) \<le> MAX_MAILBOX_ENVELOPE_BYTES)
        (StoreInvalid ''stored mailbox envelope is invalid'')) (\<lambda>_.
      and_then (map_err StoreContract (stored_receipt_verify lib (rec_receipt self) (rec_envelope self))) (\<lambda>_.
      ensure (u64_saturating_sub (sr_expires_at_unix_seconds receipt) (sr_stored_at_unix_seconds receipt)
          = rec_requested_ttl_seconds self) (StoreInvalid ''stored mailbox receipt TTL mismatch''))))))"

definition record_new
  :: "'a store_libs_scheme \<Rightarrow> u64 \<Rightarrow> bytes \<Rightarrow> MailboxStoredReceipt \<Rightarrow> store_error + StoredRecord" where
  "record_new lib requested_ttl_seconds envelope receipt =
     (let record = \<lparr> rec_version = RECORD_VERSION, rec_requested_ttl_seconds = requested_ttl_seconds,
        rec_envelope = envelope, rec_receipt = receipt \<rparr> in
      and_then (record_validate lib record) (\<lambda>_. Inr record))"

definition record_encode :: "'a store_libs_scheme \<Rightarrow> StoredRecord \<Rightarrow> store_error + bytes" where
  "record_encode lib self = and_then (record_validate lib self) (\<lambda>_. ok_or StorePostcard (pc_record lib self))"

definition record_decode :: "'a store_libs_scheme \<Rightarrow> bytes \<Rightarrow> store_error + StoredRecord" where
  "record_decode lib bytes =
     and_then (ensure (length bytes \<le> MAX_MAILBOX_ENVELOPE_BYTES + 2048) (StoreInvalid ''mailbox record is too large'')) (\<lambda>_.
     and_then (ok_or StorePostcard (pc_record_from lib bytes)) (\<lambda>record.
     and_then (record_validate lib record) (\<lambda>_. Inr record)))"

definition record_expired_at :: "StoredRecord \<Rightarrow> u64 \<Rightarrow> bool" where
  "record_expired_at self now \<longleftrightarrow> sr_expires_at_unix_seconds (sr_content (rec_receipt self)) \<le> now"

definition tombstone_validate :: "'a store_libs_scheme \<Rightarrow> StoredTombstone \<Rightarrow> store_error + unit" where
  "tombstone_validate lib self =
     and_then (ensure (tomb_version self = RECORD_VERSION) (StoreInvalid ''unsupported mailbox tombstone version'')) (\<lambda>_.
     and_then (map_err StoreContract (delete_receipt_verify lib (tomb_delete_receipt self))) (\<lambda>_.
     ensure (dr_stored_receipt_id (dr_content (tomb_delete_receipt self)) = tomb_stored_receipt_id self)
       (StoreInvalid ''mailbox tombstone receipt mismatch'')))"

definition tombstone_encode :: "'a store_libs_scheme \<Rightarrow> StoredTombstone \<Rightarrow> store_error + bytes" where
  "tombstone_encode lib self = and_then (tombstone_validate lib self) (\<lambda>_. ok_or StorePostcard (pc_tombstone lib self))"

definition tombstone_decode :: "'a store_libs_scheme \<Rightarrow> bytes \<Rightarrow> store_error + StoredTombstone" where
  "tombstone_decode lib bytes =
     and_then (ensure (length bytes \<le> 2048) (StoreInvalid ''mailbox tombstone is too large'')) (\<lambda>_.
     and_then (ok_or StorePostcard (pc_tombstone_from lib bytes)) (\<lambda>tombstone.
     and_then (tombstone_validate lib tombstone) (\<lambda>_. Inr tombstone)))"

definition tombstone_expired_at :: "StoredTombstone \<Rightarrow> u64 \<Rightarrow> bool" where
  "tombstone_expired_at self now \<longleftrightarrow> dr_expires_at_unix_seconds (dr_content (tomb_delete_receipt self)) \<le> now"

section \<open>Accounting tables\<close>

definition item_key :: "bytes \<Rightarrow> bytes \<Rightarrow> bytes" where
  "item_key mailbox item = mailbox @ item"

definition read_meta :: "database \<Rightarrow> u64 \<times> u64" where
  "read_meta db = (case_option 0 id (t_get (meta_table db) TOTAL_ITEMS_KEY), case_option 0 id (t_get (meta_table db) TOTAL_BYTES_KEY))"

definition write_meta :: "u64 \<Rightarrow> u64 \<Rightarrow> database \<Rightarrow> database" where
  "write_meta items bytes db =
     db\<lparr> meta_table := t_insert TOTAL_BYTES_KEY bytes (t_insert TOTAL_ITEMS_KEY items (meta_table db)) \<rparr>"

definition read_mailbox_count :: "database \<Rightarrow> bytes \<Rightarrow> u64" where
  "read_mailbox_count db mailbox = case_option 0 id (t_get (mailbox_count_table db) mailbox)"

definition write_mailbox_count :: "bytes \<Rightarrow> u64 \<Rightarrow> database \<Rightarrow> database" where
  "write_mailbox_count mailbox n db =
     db\<lparr> mailbox_count_table := (if n = 0 then t_remove mailbox (mailbox_count_table db)
        else t_insert mailbox n (mailbox_count_table db)) \<rparr>"

section \<open>Transactions\<close>

definition transact
  :: "(database \<Rightarrow> store_error + 'r \<times> database) \<Rightarrow> BlindMailboxStore \<Rightarrow> (store_error + 'r) \<times> BlindMailboxStore" where
  "transact body self = (case body (store_database self) of
     Inl e \<Rightarrow> (Inl e, self)
   | Inr (outcome, db) \<Rightarrow> (Inr outcome, self\<lparr> store_database := db \<rparr>))"

section \<open>Open\<close>

definition live_usage :: "BlindMailboxStore \<Rightarrow> u64 \<times> u64" where
  "live_usage self = read_meta (store_database self)"

definition init_meta :: "bytes \<Rightarrow> u64 table \<Rightarrow> u64 table" where
  "init_meta key meta = (if t_get meta key = None then t_insert key 0 meta else meta)"

definition init_identity :: "bytes \<Rightarrow> bytes table \<Rightarrow> store_error + bytes table" where
  "init_identity expected tbl = (case t_get tbl STORE_KEY of
     Some current \<Rightarrow> and_then (ensure (current = expected)
       (StoreInvalid ''mailbox store identity does not match existing database'')) (\<lambda>_. Inr tbl)
   | None \<Rightarrow> Inr (t_insert STORE_KEY expected tbl))"

text \<open>\<open>real_directory\<close> is what the file system says of the data directory, \<open>disk\<close> the tables of the
  database file found there (empty when it is created).\<close>

definition store_open
  :: "'a store_libs_scheme \<Rightarrow> MailboxStoreConfig \<Rightarrow> bytes \<Rightarrow> bool \<Rightarrow> database \<Rightarrow> (store_error + BlindMailboxStore) \<times> database" where
  "store_open lib config identity real_directory disk =
     (case and_then (config_validate config) (\<lambda>_.
        and_then (ensure real_directory
          (StoreInvalid ''mailbox data directory must be a real directory, not a symlink'')) (\<lambda>_.
        let meta = init_meta TOTAL_ITEMS_KEY (init_meta TOTAL_BYTES_KEY (meta_table disk)) in
        and_then (init_identity (lib_verifying_key lib identity) (identity_table disk)) (\<lambda>tbl.
        Inr (disk\<lparr> meta_table := meta, identity_table := tbl \<rparr>)))) of
      Inl e \<Rightarrow> (Inl e, disk)
    | Inr db \<Rightarrow>
       (let store = \<lparr> store_database = db, store_identity = identity, store_config = config \<rparr>;
            (items, bytes) = live_usage store in
        (and_then (ensure (items \<le> max_total_items config \<and> bytes \<le> max_total_bytes config)
           (StoreInvalid ''existing mailbox data exceeds configured capacity'')) (\<lambda>_. Inr store), db)))"

definition store_storage_offer
  :: "'a store_libs_scheme \<Rightarrow> BlindMailboxStore \<Rightarrow> bytes option \<Rightarrow> bytes \<Rightarrow> u64 \<Rightarrow> u64 \<Rightarrow> store_error + SignedMailboxStorageOffer" where
  "store_storage_offer lib self random provider_endpoint issued_at validity_seconds =
     map_err StoreContract (storage_offer_with_admission_work lib (store_identity self) random provider_endpoint
       (max_total_bytes (store_config self)) (word_of_nat (max_envelope_bytes (store_config self))) issued_at validity_seconds
       DEFAULT_MAILBOX_STORAGE_OFFER_ADMISSION_WORK_BITS)"

section \<open>Put\<close>

definition put_candidate
  :: "'a store_libs_scheme \<Rightarrow> BlindMailboxStore \<Rightarrow> MailboxAddress \<Rightarrow> MailboxWriteAuthorization \<Rightarrow> bytes \<Rightarrow> u64
      \<Rightarrow> store_error + StoredRecord" where
  "put_candidate lib self address authorization envelope now =
     (let content = wa_content authorization in
      and_then (map_err StoreContract (write_authorization_verify lib authorization address envelope)) (\<lambda>_.
      and_then (ensure (length envelope \<le> max_envelope_bytes (store_config self))
        (StoreInvalid ''mailbox envelope exceeds configured limit'')) (\<lambda>_.
      and_then (ok_or (StoreInvalid ''mailbox expiry overflow'') (u64_checked_add now (wa_requested_ttl_seconds content))) (\<lambda>expires.
      and_then (map_err StoreContract (stored_receipt lib (store_identity self) (mailbox_id lib address) (wa_item_id content)
        envelope now expires)) (\<lambda>receipt.
      record_new lib (wa_requested_ttl_seconds content) envelope receipt)))))"

definition put_current
  :: "'a store_libs_scheme \<Rightarrow> bytes \<Rightarrow> StoredRecord \<Rightarrow> u64 \<Rightarrow> database \<Rightarrow> store_error + MailboxPutOutcome option" where
  "put_current lib key candidate now db = (case t_get (item_table db) key of
     None \<Rightarrow> Inr None
   | Some current_bytes \<Rightarrow> and_then (record_decode lib current_bytes) (\<lambda>current.
       if \<not> record_expired_at current now then
         Inr (Some (if rec_requested_ttl_seconds current = rec_requested_ttl_seconds candidate
                      \<and> rec_envelope current = rec_envelope candidate
                    then AlreadyPresent (rec_receipt current) else Conflict))
       else Inr None))"

definition put_tombstone :: "'a store_libs_scheme \<Rightarrow> bytes \<Rightarrow> u64 \<Rightarrow> database \<Rightarrow> store_error + bool \<times> database" where
  "put_tombstone lib key now db = (case t_get (tombstone_table db) key of
     None \<Rightarrow> Inr (False, db)
   | Some tombstone_bytes \<Rightarrow> and_then (tombstone_decode lib tombstone_bytes) (\<lambda>tombstone.
       if \<not> tombstone_expired_at tombstone now then Inr (True, db)
       else Inr (False, db\<lparr> tombstone_table := t_remove key (tombstone_table db) \<rparr>)))"

definition put_expired
  :: "'a store_libs_scheme \<Rightarrow> bytes \<Rightarrow> bytes \<Rightarrow> database \<Rightarrow> store_error + u64 \<times> u64 \<times> u64 \<times> database" where
  "put_expired lib mailbox key db =
     (let (total_items, total_bytes) = read_meta db; mailbox_count = read_mailbox_count db mailbox in
      case t_get (item_table db) key of
        None \<Rightarrow> Inr (total_items, total_bytes, mailbox_count, db)
      | Some current_bytes \<Rightarrow> and_then (record_decode lib current_bytes) (\<lambda>current.
          Inr (u64_saturating_sub total_items 1,
               u64_saturating_sub total_bytes (word_of_nat (length (rec_envelope current))),
               u64_saturating_sub mailbox_count 1,
               db\<lparr> item_table := t_remove key (item_table db) \<rparr>)))"

definition put_txn
  :: "'a store_libs_scheme \<Rightarrow> MailboxStoreConfig \<Rightarrow> bytes \<Rightarrow> bytes \<Rightarrow> StoredRecord \<Rightarrow> u64 \<Rightarrow> database
      \<Rightarrow> store_error + MailboxPutOutcome \<times> database" where
  "put_txn lib config mailbox key candidate now db =
     and_then (put_current lib key candidate now db) (\<lambda>early. case early of
       Some outcome \<Rightarrow> Inr (outcome, db)
     | None \<Rightarrow>
       and_then (put_tombstone lib key now db) (\<lambda>(tombstoned, db).
       if tombstoned then Inr (Tombstoned, db)
       else and_then (put_expired lib mailbox key db) (\<lambda>(total_items, total_bytes, mailbox_count, db).
         let envelope_bytes = word_of_nat (length (rec_envelope candidate)) in
         if total_items \<ge> max_total_items config \<or> mailbox_count \<ge> max_items_per_mailbox config
            \<or> u64_saturating_add total_bytes envelope_bytes > max_total_bytes config
         then Inr (CapacityExceeded, db)
         else and_then (record_encode lib candidate) (\<lambda>encoded.
           Inr (Created (rec_receipt candidate),
             write_meta (total_items + 1) (u64_saturating_add total_bytes envelope_bytes)
              (write_mailbox_count mailbox (mailbox_count + 1)
               (db\<lparr> item_table := t_insert key encoded (item_table db) \<rparr>)))))))"

definition store_put
  :: "'a store_libs_scheme \<Rightarrow> BlindMailboxStore \<Rightarrow> MailboxAddress \<Rightarrow> MailboxWriteAuthorization \<Rightarrow> bytes \<Rightarrow> u64
      \<Rightarrow> (store_error + MailboxPutOutcome) \<times> BlindMailboxStore" where
  "store_put lib self address authorization envelope now =
     (case put_candidate lib self address authorization envelope now of
        Inl e \<Rightarrow> (Inl e, self)
      | Inr candidate \<Rightarrow>
         (let mailbox = mailbox_id lib address; key = item_key mailbox (wa_item_id (wa_content authorization)) in
          transact (put_txn lib (store_config self) mailbox key candidate now) self))"

section \<open>Cleanup\<close>

definition retain_item :: "'a store_libs_scheme \<Rightarrow> u64 \<Rightarrow> bytes \<Rightarrow> bytes \<Rightarrow> bool" where
  "retain_item lib now key v \<longleftrightarrow> length key = ITEM_KEY_BYTES
     \<and> (case record_decode lib v of Inl _ \<Rightarrow> False | Inr record \<Rightarrow> \<not> record_expired_at record now)"

definition retain_tombstone :: "'a store_libs_scheme \<Rightarrow> u64 \<Rightarrow> bytes \<Rightarrow> bytes \<Rightarrow> bool" where
  "retain_tombstone lib now key v \<longleftrightarrow> length key = ITEM_KEY_BYTES
     \<and> (case tombstone_decode lib v of Inl _ \<Rightarrow> False | Inr tombstone \<Rightarrow> \<not> tombstone_expired_at tombstone now)"

text \<open>The counters the \<open>retain\<close> closure updates for an entry it keeps.\<close>

definition count_item
  :: "'a store_libs_scheme \<Rightarrow> u64 \<Rightarrow> bytes \<times> bytes \<Rightarrow> u64 \<times> u64 \<times> u64 table \<Rightarrow> u64 \<times> u64 \<times> u64 table" where
  "count_item lib now = (\<lambda>(key, v) (items, bytes, counts).
     if retain_item lib now key v then
       case record_decode lib v of
         Inl _ \<Rightarrow> (items, bytes, counts)
       | Inr record \<Rightarrow> (u64_saturating_add items 1,
           u64_saturating_add bytes (word_of_nat (length (rec_envelope record))),
           t_insert (take 32 key) (u64_saturating_add (case_option 0 id (t_get counts (take 32 key))) 1) counts)
     else (items, bytes, counts))"

definition cleanup_txn :: "'a store_libs_scheme \<Rightarrow> u64 \<Rightarrow> database \<Rightarrow> store_error + CleanupReport \<times> database" where
  "cleanup_txn lib now db =
     (let (items, bytes, counts) = fold (count_item lib now) (item_table db) (0, 0, []);
          kept = t_retain (retain_item lib now) (item_table db);
          kept_tombstones = t_retain (retain_tombstone lib now) (tombstone_table db) in
      Inr (\<lparr> removed_items = u64_saturating_sub (word_of_nat (length (item_table db))) (word_of_nat (length kept)),
             removed_tombstones =
               u64_saturating_sub (word_of_nat (length (tombstone_table db))) (word_of_nat (length kept_tombstones)),
             live_items = items, live_envelope_bytes = bytes \<rparr>,
           write_meta items bytes
             (db\<lparr> item_table := kept, tombstone_table := kept_tombstones,
                mailbox_count_table := fold (\<lambda>(mailbox, n). t_insert mailbox n) counts
                  (t_retain (\<lambda>_ _. False) (mailbox_count_table db)) \<rparr>)))"

definition store_cleanup
  :: "'a store_libs_scheme \<Rightarrow> BlindMailboxStore \<Rightarrow> u64 \<Rightarrow> (store_error + CleanupReport) \<times> BlindMailboxStore" where
  "store_cleanup lib self now = transact (cleanup_txn lib now) self"


section \<open>List\<close>

fun list_entries
  :: "'a store_libs_scheme \<Rightarrow> bytes \<Rightarrow> bytes option \<Rightarrow> nat \<Rightarrow> (bytes \<times> bytes) list \<Rightarrow> StoredMailboxItem list
      \<Rightarrow> store_error + StoredMailboxItem list" where
  "list_entries lib mailbox after limit [] items = Inr items"
| "list_entries lib mailbox after limit ((key, v) # rest) items =
     (if length key \<noteq> ITEM_KEY_BYTES \<or> take 32 key \<noteq> mailbox then list_entries lib mailbox after limit rest items
      else let item_id = drop 32 key in
        if (case after of None \<Rightarrow> False | Some a \<Rightarrow> item_id \<le> a) then list_entries lib mailbox after limit rest items
        else and_then (record_decode lib v) (\<lambda>record.
          let receipt = rec_receipt record in
          and_then (ensure (sr_mailbox_id (sr_content receipt) = mailbox \<and> sr_item_id (sr_content receipt) = item_id)
            (StoreInvalid ''mailbox record key does not match signed receipt'')) (\<lambda>_.
          let items = items @ [\<lparr> item_item_id = item_id,
                item_expires_at_unix_seconds = sr_expires_at_unix_seconds (sr_content receipt),
                item_envelope = rec_envelope record, item_receipt = receipt \<rparr>] in
          if length items > limit then Inr items else list_entries lib mailbox after limit rest items)))"

definition page_of :: "nat \<Rightarrow> StoredMailboxItem list \<Rightarrow> StoredMailboxPage" where
  "page_of limit items =
     (let more = length items > limit; items = (if more then take limit items else items) in
      \<lparr> page_items = items,
        next_after_item_id = (if more then (if items = [] then None else Some (item_item_id (last items))) else None),
        more_available = more \<rparr>)"

definition store_list_page
  :: "'a store_libs_scheme \<Rightarrow> BlindMailboxStore \<Rightarrow> MailboxAddress \<Rightarrow> MailboxReadAuthorization \<Rightarrow> u64
      \<Rightarrow> (store_error + StoredMailboxPage) \<times> BlindMailboxStore" where
  "store_list_page lib self address authorization now =
     (case read_authorization_verify lib authorization address of
        Inl e \<Rightarrow> (Inl (StoreContract e), self)
      | Inr _ \<Rightarrow> (case ra_operation (ra_content authorization) of
          DeleteOp _ _ \<Rightarrow> (Inl (StoreInvalid ''mailbox read authorization is not a list operation''), self)
        | ListOp _ after limit \<Rightarrow> (case store_cleanup lib self now of
            (Inl e, self) \<Rightarrow> (Inl e, self)
          | (Inr _, self) \<Rightarrow>
             (and_then (list_entries lib (mailbox_id lib address) after (unat limit) (item_table (store_database self)) [])
                (\<lambda>items. Inr (page_of (unat limit) items)), self))))"

definition store_list
  :: "'a store_libs_scheme \<Rightarrow> BlindMailboxStore \<Rightarrow> MailboxAddress \<Rightarrow> MailboxReadAuthorization \<Rightarrow> u64
      \<Rightarrow> (store_error + StoredMailboxItem list) \<times> BlindMailboxStore" where
  "store_list lib self address authorization now =
     (case store_list_page lib self address authorization now of
        (r, self) \<Rightarrow> (and_then r (\<lambda>page. Inr (page_items page)), self))"

section \<open>Delete\<close>

definition delete_current
  :: "'a store_libs_scheme \<Rightarrow> BlindMailboxStore \<Rightarrow> bytes \<Rightarrow> bytes \<Rightarrow> bytes \<Rightarrow> u64 \<Rightarrow> bytes \<Rightarrow> database
      \<Rightarrow> store_error + DeleteOutcome \<times> database" where
  "delete_current lib self mailbox item_id receipt_id now current_bytes db =
     (let key = item_key mailbox item_id in
      and_then (record_decode lib current_bytes) (\<lambda>current.
      and_then (map_err StoreContract (stored_receipt_id lib (rec_receipt current))) (\<lambda>current_id.
      if current_id \<noteq> receipt_id then Inr (ReceiptMismatch, db)
      else if word_of_nat (length (tombstone_table db)) \<ge> max_total_items (store_config self)
      then Inr (TombstoneCapacityExceeded, db)
      else and_then (map_err StoreContract (Mailbox.delete_receipt lib (store_identity self) mailbox item_id receipt_id now
          (sr_expires_at_unix_seconds (sr_content (rec_receipt current))))) (\<lambda>receipt.
        let tombstone = \<lparr> tomb_version = RECORD_VERSION, tomb_stored_receipt_id = receipt_id, tomb_delete_receipt = receipt \<rparr> in
        and_then (tombstone_encode lib tombstone) (\<lambda>encoded.
        let db = db\<lparr> item_table := t_remove key (item_table db),
                     tombstone_table := t_insert key encoded (tombstone_table db) \<rparr>;
            (total_items, total_bytes) = read_meta db;
            db = write_meta (u64_saturating_sub total_items 1)
              (u64_saturating_sub total_bytes (word_of_nat (length (rec_envelope current)))) db;
            mailbox_count = read_mailbox_count db mailbox in
        Inr (Deleted receipt, write_mailbox_count mailbox (u64_saturating_sub mailbox_count 1) db))))))"

definition delete_absent
  :: "'a store_libs_scheme \<Rightarrow> bytes \<Rightarrow> bytes \<Rightarrow> database \<Rightarrow> store_error + DeleteOutcome \<times> database" where
  "delete_absent lib key receipt_id db = (case t_get (tombstone_table db) key of
     None \<Rightarrow> Inr (Absent, db)
   | Some tombstone_bytes \<Rightarrow> and_then (tombstone_decode lib tombstone_bytes) (\<lambda>tombstone.
       Inr (if tomb_stored_receipt_id tombstone = receipt_id then AlreadyDeleted (tomb_delete_receipt tombstone)
            else ReceiptMismatch, db)))"

definition delete_txn
  :: "'a store_libs_scheme \<Rightarrow> BlindMailboxStore \<Rightarrow> bytes \<Rightarrow> bytes \<Rightarrow> bytes \<Rightarrow> u64 \<Rightarrow> database
      \<Rightarrow> store_error + DeleteOutcome \<times> database" where
  "delete_txn lib self mailbox item_id receipt_id now db =
     (case t_get (item_table db) (item_key mailbox item_id) of
        Some current_bytes \<Rightarrow> delete_current lib self mailbox item_id receipt_id now current_bytes db
      | None \<Rightarrow> delete_absent lib (item_key mailbox item_id) receipt_id db)"

definition store_delete
  :: "'a store_libs_scheme \<Rightarrow> BlindMailboxStore \<Rightarrow> MailboxAddress \<Rightarrow> MailboxReadAuthorization \<Rightarrow> u64
      \<Rightarrow> (store_error + DeleteOutcome) \<times> BlindMailboxStore" where
  "store_delete lib self address authorization now =
     (case read_authorization_verify lib authorization address of
        Inl e \<Rightarrow> (Inl (StoreContract e), self)
      | Inr _ \<Rightarrow> (case ra_operation (ra_content authorization) of
          ListOp _ _ _ \<Rightarrow> (Inl (StoreInvalid ''mailbox read authorization is not a delete operation''), self)
        | DeleteOp item_id receipt_id \<Rightarrow> (case store_cleanup lib self now of
            (Inl e, self) \<Rightarrow> (Inl e, self)
          | (Inr _, self) \<Rightarrow> transact (delete_txn lib self (mailbox_id lib address) item_id receipt_id now) self)))"


end
