(* ===== verification/Store_Invariant.thy ===== *)
theory Store_Invariant
  imports Mailbox_Store
begin

text \<open>
  The invariant of the blind mailbox store and its preservation by every operation. The accounting
  counters never undercount the tables, they stay within the configured capacity, and every stored
  value decodes to a record signed by this store under the key it is stored at.
\<close>

section \<open>Invariant\<close>

text \<open>What the libraries document, collected: signatures verify and are 64 bytes, digests are 32 bytes,
  postcard inverts its encodings.\<close>

definition store_documented :: "'a store_libs_scheme \<Rightarrow> bool" where
  "store_documented lib \<longleftrightarrow> signatures_documented lib \<and> store_postcard_documented lib
     \<and> (\<forall>m. length (lib_blake3 lib m) = 32) \<and> (\<forall>secret m. length (lib_sign lib secret m) = 64)"

definition item_ok :: "'a store_libs_scheme \<Rightarrow> bytes \<Rightarrow> bytes \<Rightarrow> bytes \<Rightarrow> bool" where
  "item_ok lib identity key v \<longleftrightarrow> (\<exists>r. record_decode lib v = Inr r
     \<and> key = item_key (sr_mailbox_id (sr_content (rec_receipt r))) (sr_item_id (sr_content (rec_receipt r)))
     \<and> length (sr_mailbox_id (sr_content (rec_receipt r))) = 32 \<and> length (sr_item_id (sr_content (rec_receipt r))) = 32
     \<and> sr_store_key (sr_content (rec_receipt r)) = lib_verifying_key lib identity)"

definition tombstone_ok :: "'a store_libs_scheme \<Rightarrow> bytes \<Rightarrow> bytes \<Rightarrow> bytes \<Rightarrow> bool" where
  "tombstone_ok lib identity key v \<longleftrightarrow> (\<exists>t. tombstone_decode lib v = Inr t
     \<and> key = item_key (dr_mailbox_id (dr_content (tomb_delete_receipt t))) (dr_item_id (dr_content (tomb_delete_receipt t)))
     \<and> length key = 64
     \<and> dr_store_key (dr_content (tomb_delete_receipt t)) = lib_verifying_key lib identity)"

definition envelope_weight :: "'a store_libs_scheme \<Rightarrow> bytes \<Rightarrow> bytes \<Rightarrow> nat" where
  "envelope_weight lib key v = (case record_decode lib v of Inl _ \<Rightarrow> 0 | Inr r \<Rightarrow> length (rec_envelope r))"

definition mailbox_weight :: "bytes \<Rightarrow> bytes \<Rightarrow> bytes \<Rightarrow> nat" where
  "mailbox_weight mailbox key v = (if take 32 key = mailbox then 1 else 0)"

abbreviation stored_items :: "database \<Rightarrow> nat" where
  "stored_items db \<equiv> length (item_table db)"

definition stored_bytes :: "'a store_libs_scheme \<Rightarrow> database \<Rightarrow> nat" where
  "stored_bytes lib db = tbl.weight (envelope_weight lib) (item_table db)"

definition stored_in_mailbox :: "bytes \<Rightarrow> database \<Rightarrow> nat" where
  "stored_in_mailbox mailbox db = tbl.weight (mailbox_weight mailbox) (item_table db)"

definition tables_ok :: "'a store_libs_scheme \<Rightarrow> bytes \<Rightarrow> database \<Rightarrow> bool" where
  "tables_ok lib identity db \<longleftrightarrow> t_valid (item_table db) \<and> t_valid (tombstone_table db)
     \<and> t_valid (mailbox_count_table db) \<and> t_valid (meta_table db)
     \<and> (\<forall>(key, v) \<in> set (item_table db). item_ok lib identity key v)
     \<and> (\<forall>(key, v) \<in> set (tombstone_table db). tombstone_ok lib identity key v)"

definition counters_cover :: "'a store_libs_scheme \<Rightarrow> database \<Rightarrow> bool" where
  "counters_cover lib db \<longleftrightarrow> stored_items db \<le> unat (fst (read_meta db))
     \<and> stored_bytes lib db \<le> unat (snd (read_meta db))
     \<and> (\<forall>mailbox. stored_in_mailbox mailbox db \<le> unat (read_mailbox_count db mailbox))"

definition counters_bounded :: "MailboxStoreConfig \<Rightarrow> database \<Rightarrow> bool" where
  "counters_bounded config db \<longleftrightarrow> fst (read_meta db) \<le> max_total_items config
     \<and> snd (read_meta db) \<le> max_total_bytes config
     \<and> (\<forall>mailbox. read_mailbox_count db mailbox \<le> max_items_per_mailbox config)
     \<and> length (tombstone_table db) \<le> unat (max_total_items config)"

definition store_inv :: "'a store_libs_scheme \<Rightarrow> BlindMailboxStore \<Rightarrow> bool" where
  "store_inv lib s \<longleftrightarrow> config_validate (store_config s) = Inr () \<and> tables_ok lib (store_identity s) (store_database s) \<and> counters_cover lib (store_database s)
     \<and> counters_bounded (store_config s) (store_database s)"

lemmas store_inv_defs = store_inv_def tables_ok_def counters_cover_def counters_bounded_def

section \<open>Counters and tables\<close>

lemma meta_keys_differ: "TOTAL_ITEMS_KEY \<noteq> TOTAL_BYTES_KEY"
  by (simp add: TOTAL_ITEMS_KEY_def TOTAL_BYTES_KEY_def ascii_def)

lemma read_write_meta [simp]:
  "t_valid (meta_table db) \<Longrightarrow> read_meta (write_meta items bs db) = (items, bs)"
  by (simp add: read_meta_def write_meta_def t_get_insert t_valid_insert meta_keys_differ)

lemma write_meta_tables [simp]:
  "item_table (write_meta i b db) = item_table db" "tombstone_table (write_meta i b db) = tombstone_table db"
  "mailbox_count_table (write_meta i b db) = mailbox_count_table db"
  "read_mailbox_count (write_meta i b db) mb = read_mailbox_count db mb"
  "t_valid (meta_table db) \<Longrightarrow> t_valid (meta_table (write_meta i b db))"
  by (simp_all add: write_meta_def read_mailbox_count_def t_valid_insert)

lemma write_mailbox_count_tables [simp]:
  "item_table (write_mailbox_count m n db) = item_table db" "tombstone_table (write_mailbox_count m n db) = tombstone_table db"
  "meta_table (write_mailbox_count m n db) = meta_table db" "read_meta (write_mailbox_count m n db) = read_meta db"
  "t_valid (mailbox_count_table db) \<Longrightarrow> t_valid (mailbox_count_table (write_mailbox_count m n db))"
  "t_valid (mailbox_count_table db) \<Longrightarrow>
     read_mailbox_count (write_mailbox_count m n db) m' = (if m' = m then n else read_mailbox_count db m')"
  by (simp_all add: write_mailbox_count_def read_meta_def read_mailbox_count_def t_valid_insert tbl.valid_remove
      t_get_insert tbl.get_remove)

lemma update_tables [simp]:
  "read_meta (db\<lparr> item_table := it \<rparr>) = read_meta db" "read_mailbox_count (db\<lparr> item_table := it \<rparr>) m = read_mailbox_count db m"
  "read_meta (db\<lparr> tombstone_table := tt \<rparr>) = read_meta db"
  "read_mailbox_count (db\<lparr> tombstone_table := tt \<rparr>) m = read_mailbox_count db m"
  "stored_bytes lib (db\<lparr> tombstone_table := tt \<rparr>) = stored_bytes lib db"
  "stored_in_mailbox m (db\<lparr> tombstone_table := tt \<rparr>) = stored_in_mailbox m db"
  by (simp_all add: read_meta_def read_mailbox_count_def stored_bytes_def stored_in_mailbox_def)

lemma stored_meta [simp]:
  "stored_bytes lib (write_meta i b db) = stored_bytes lib db" "stored_in_mailbox m (write_meta i b db) = stored_in_mailbox m db"
  "stored_bytes lib (write_mailbox_count mb n db) = stored_bytes lib db"
  "stored_in_mailbox m (write_mailbox_count mb n db) = stored_in_mailbox m db"
  by (simp_all add: stored_bytes_def stored_in_mailbox_def)

lemma stored_items_weight: "length t = tbl.weight (\<lambda>_ _. 1) t"
  by (induction t) (auto simp: tbl.weight_def)

lemma length_insert_le: "length (t_insert k v t) \<le> Suc (length t)"
  by (induction t) auto

text \<open>Removing and adding one entry changes each measure by its weight.\<close>

lemma remove_measures:
  assumes "t_valid t" and "t_get t k = Some v"
  shows "length t = Suc (length (t_remove k t))"
    and "tbl.weight w t = tbl.weight w (t_remove k t) + w k v"
  using tbl.weight_remove [OF assms, of "\<lambda>_ _. 1"] tbl.weight_remove [OF assms, of w]
  by (simp_all add: stored_items_weight)

lemma insert_measures:
  assumes "t_valid t" and "t_get t k = None"
  shows "length (t_insert k v t) = Suc (length t)"
    and "tbl.weight w (t_insert k v t) = tbl.weight w t + w k v"
  using tbl.weight_insert [OF assms, of "\<lambda>_ _. 1" v] tbl.weight_insert [OF assms, of w v]
  by (simp_all add: stored_items_weight)

lemma set_t_insert: "t_valid t \<Longrightarrow> (k', v') \<in> set (t_insert k v t) \<longleftrightarrow> (if k' = k then v' = v else (k', v') \<in> set t)"
  using t_get_set [OF t_valid_insert [of t k v], of k' v'] t_get_set [of t k' v'] t_get_insert [of t k v k'] by auto

lemma set_t_remove: "e \<in> set (t_remove k t) \<longleftrightarrow> e \<in> set t \<and> fst e \<noteq> k"
  by (auto simp: t_remove_def)

section \<open>Records\<close>

lemma record_validate_Inr [result_simps]:
  "record_validate lib r = Inr u \<longleftrightarrow> rec_version r = RECORD_VERSION
     \<and> MIN_MAILBOX_TTL_SECONDS \<le> rec_requested_ttl_seconds r \<and> rec_requested_ttl_seconds r \<le> MAX_MAILBOX_TTL_SECONDS
     \<and> stored_receipt_verify lib (rec_receipt r) (rec_envelope r) = Inr ()
     \<and> u64_saturating_sub (sr_expires_at_unix_seconds (sr_content (rec_receipt r)))
         (sr_stored_at_unix_seconds (sr_content (rec_receipt r))) = rec_requested_ttl_seconds r"
  by (auto simp: record_validate_def result_simps Let_def stored_verify_iff)

lemma record_decode_Inr:
  "record_decode lib b = Inr r \<longleftrightarrow> length b \<le> MAX_MAILBOX_ENVELOPE_BYTES + 2048 \<and> pc_record_from lib b = Some r
     \<and> record_validate lib r = Inr ()"
  by (auto simp: record_decode_def result_simps)

lemma tombstone_decode_Inr:
  "tombstone_decode lib b = Inr t \<longleftrightarrow> length b \<le> 2048 \<and> pc_tombstone_from lib b = Some t \<and> tombstone_validate lib t = Inr ()"
  by (auto simp: tombstone_decode_def result_simps)

lemma record_decode_envelope:
  "record_decode lib b = Inr r \<Longrightarrow> length (rec_envelope r) \<le> MAX_MAILBOX_ENVELOPE_BYTES"
  by (auto simp: record_decode_Inr result_simps stored_verify_iff)

lemma unat_envelope_length:
  "length e \<le> MAX_MAILBOX_ENVELOPE_BYTES \<Longrightarrow> unat (word_of_nat (length e) :: u64) = length e"
  by (simp add: unat_of_nat MAX_MAILBOX_ENVELOPE_BYTES_def)

lemma store_documentedD:
  assumes "store_documented lib"
  shows "signatures_documented lib" "length (lib_blake3 lib m) = 32" "length (lib_sign lib secret m) = 64"
    "length (lib_verifying_key lib secret) = 32"
    "pc_record lib r = Some b \<Longrightarrow> pc_record_from lib b = Some r \<and> length b < record_field_bytes r + 256"
    "pc_tombstone lib t = Some b \<Longrightarrow> pc_tombstone_from lib b = Some t \<and> length b < tombstone_field_bytes t + 256"
  using assms by (auto simp: store_documented_def store_postcard_documented_def signatures_documented_def)

text \<open>The candidate of a put is what the authorisation asked for, receipted by this store.\<close>

lemma put_candidate_Inr:
  assumes "put_candidate lib s address a envelope now = Inr r"
  shows "rec_envelope r = envelope" "rec_requested_ttl_seconds r = wa_requested_ttl_seconds (wa_content a)"
    "record_validate lib r = Inr ()" "length envelope \<le> max_envelope_bytes (store_config s)"
    "length envelope \<le> MAX_MAILBOX_ENVELOPE_BYTES"
    "stored_receipt lib (store_identity s) (mailbox_id lib address) (wa_item_id (wa_content a)) envelope now
       (now + wa_requested_ttl_seconds (wa_content a)) = Inr (rec_receipt r)"
    "write_authorization_verify lib a address envelope = Inr ()"
    "unat now + unat (wa_requested_ttl_seconds (wa_content a)) < 2 ^ 64"
  using assms
  by (auto simp: put_candidate_def Let_def result_simps record_new_def u64_checked_add_def stored_verify_iff split: if_splits)

lemma candidate_decodes:
  assumes doc: "store_documented lib" and c: "put_candidate lib s address a envelope now = Inr r"
    and item: "length (wa_item_id (wa_content a)) = 32" and e: "record_encode lib r = Inr b"
  shows "record_decode lib b = Inr r"
    and "item_ok lib (store_identity s) (item_key (mailbox_id lib address) (wa_item_id (wa_content a))) b"
proof -
  note d = store_documentedD [OF doc] and p = put_candidate_Inr [OF c]
  from e have pc: "pc_record lib r = Some b" by (auto simp: record_encode_def result_simps)
  have receipt: "sr_store_key (sr_content (rec_receipt r)) = lib_verifying_key lib (store_identity s)"
      "sr_mailbox_id (sr_content (rec_receipt r)) = mailbox_id lib address"
      "sr_item_id (sr_content (rec_receipt r)) = wa_item_id (wa_content a)"
      "sr_envelope_digest (sr_content (rec_receipt r)) = lib_blake3 lib envelope"
      "length (sr_signature (rec_receipt r)) = 64"
    using p(6) d(3) by (auto simp: stored_receipt_Inr)
  have "length b < length envelope + 32 * 4 + 64 + 256"
    using d(5) [OF pc] p(1) receipt item d(2,4) by (simp add: record_field_bytes_def Let_def mailbox_id_def)
  with p(5) have "length b \<le> MAX_MAILBOX_ENVELOPE_BYTES + 2048" by simp
  then show dec: "record_decode lib b = Inr r" using d(5) [OF pc] p(3) by (simp add: record_decode_Inr)
  show "item_ok lib (store_identity s) (item_key (mailbox_id lib address) (wa_item_id (wa_content a))) b"
    unfolding item_ok_def using dec receipt item d(2) by (simp add: mailbox_id_def)
qed

lemma item_okE:
  assumes "item_ok lib identity key v"
  obtains r where "record_decode lib v = Inr r" "length key = 64" "take 32 key = sr_mailbox_id (sr_content (rec_receipt r))"
    "drop 32 key = sr_item_id (sr_content (rec_receipt r))" "sr_store_key (sr_content (rec_receipt r)) = lib_verifying_key lib identity"
  using assms by (auto simp: item_ok_def item_key_def)

lemma tables_item:
  assumes "tables_ok lib identity db" and "t_get (item_table db) key = Some v"
  shows "item_ok lib identity key v"
  using assms t_get_set [of "item_table db" key v] by (auto simp: tables_ok_def)

lemma tables_tombstone:
  assumes "tables_ok lib identity db" and "t_get (tombstone_table db) key = Some v"
  shows "tombstone_ok lib identity key v"
  using assms t_get_set [of "tombstone_table db" key v] by (auto simp: tables_ok_def)


section \<open>Put\<close>

lemma unat_inc: "a < (b :: u64) \<Longrightarrow> unat (a + 1) = Suc (unat a) \<and> a + 1 \<le> b"
proof -
  assume "a < b"
  then have "unat a < unat b" by (simp add: word_less_nat_alt)
  moreover have "unat b < 2 ^ 64" using unsigned_less [of b, where ?'a = nat] by simp
  ultimately have "unat (a + 1) = unat a + 1" by (subst unat_add_u64) simp_all
  with \<open>unat a < unat b\<close> show ?thesis by (simp add: word_le_nat_alt)
qed

lemma tables_ok_remove:
  "tables_ok lib identity db \<Longrightarrow> tables_ok lib identity (db\<lparr> item_table := t_remove key (item_table db) \<rparr>)"
  "tables_ok lib identity db \<Longrightarrow> tables_ok lib identity (db\<lparr> tombstone_table := t_remove key (tombstone_table db) \<rparr>)"
  by (auto simp: tables_ok_def tbl.valid_remove set_t_remove)

lemma tables_ok_insert:
  "tables_ok lib identity db \<Longrightarrow> item_ok lib identity key v \<Longrightarrow>
     tables_ok lib identity (db\<lparr> item_table := t_insert key v (item_table db) \<rparr>)"
  "tables_ok lib identity db \<Longrightarrow> tombstone_ok lib identity key v \<Longrightarrow>
     tables_ok lib identity (db\<lparr> tombstone_table := t_insert key v (tombstone_table db) \<rparr>)"
  by (auto simp: tables_ok_def t_valid_insert set_t_insert split: if_splits)

lemma tables_ok_counters [simp]:
  "tables_ok lib identity db \<Longrightarrow> tables_ok lib identity (write_meta i b db)"
  "tables_ok lib identity db \<Longrightarrow> tables_ok lib identity (write_mailbox_count m n db)"
  by (auto simp: tables_ok_def)

lemma item_weights:
  assumes "item_ok lib identity key v" and "record_decode lib v = Inr r"
  shows "envelope_weight lib key v = length (rec_envelope r)"
    and "unat (word_of_nat (length (rec_envelope r)) :: u64) = length (rec_envelope r)"
  using assms record_decode_envelope [of lib v r] by (auto simp: envelope_weight_def unat_envelope_length)

lemma stored_remove:
  assumes "t_valid (item_table db)" and "t_get (item_table db) key = Some v"
  shows "stored_items db = Suc (length (t_remove key (item_table db)))"
    and "stored_bytes lib db = stored_bytes lib (db\<lparr> item_table := t_remove key (item_table db) \<rparr>) + envelope_weight lib key v"
    and "stored_in_mailbox m db = stored_in_mailbox m (db\<lparr> item_table := t_remove key (item_table db) \<rparr>) + mailbox_weight m key v"
  using remove_measures [OF assms] by (simp_all add: stored_bytes_def stored_in_mailbox_def)

lemma stored_insert:
  assumes "t_valid (item_table db)" and "t_get (item_table db) key = None"
  shows "length (t_insert key v (item_table db)) = Suc (stored_items db)"
    and "stored_bytes lib (db\<lparr> item_table := t_insert key v (item_table db) \<rparr>) = stored_bytes lib db + envelope_weight lib key v"
    and "stored_in_mailbox m (db\<lparr> item_table := t_insert key v (item_table db) \<rparr>) = stored_in_mailbox m db + mailbox_weight m key v"
  using insert_measures [OF assms] by (simp_all add: stored_bytes_def stored_in_mailbox_def)

text \<open>After the expired item is out of the table, the local counters still cover what is left, and so do
  the stored ones.\<close>

lemma put_expired_covers:
  assumes inv: "tables_ok lib identity db" "counters_cover lib db" and mb: "take 32 key = mailbox"
    and p: "put_expired lib mailbox key db = Inr (ti, tb, mc, db')"
  shows "tables_ok lib identity db'" "t_get (item_table db') key = None" "counters_cover lib db'"
    "stored_items db' \<le> unat ti" "stored_bytes lib db' \<le> unat tb" "stored_in_mailbox mailbox db' \<le> unat mc"
    "ti \<le> fst (read_meta db)" "tb \<le> snd (read_meta db)" "mc \<le> read_mailbox_count db mailbox"
    "db' = db\<lparr> item_table := t_remove key (item_table db) \<rparr>"
proof -
  have v: "t_valid (item_table db)" using inv(1) by (simp add: tables_ok_def)
  have same: "db\<lparr> item_table := t_remove key (item_table db) \<rparr> = db" if "t_get (item_table db) key = None"
    using tbl.remove_absent [OF v that] by simp
  show db': "db' = db\<lparr> item_table := t_remove key (item_table db) \<rparr>"
    using p same by (auto simp: put_expired_def Let_def split_beta result_simps split: option.splits)
  show "tables_ok lib identity db'" unfolding db' by (rule tables_ok_remove(1) [OF inv(1)])
  show "t_get (item_table db') key = None" unfolding db' by (simp add: tbl.get_remove [OF v])
  have all: "counters_cover lib db' \<and> stored_items db' \<le> unat ti \<and> stored_bytes lib db' \<le> unat tb
      \<and> stored_in_mailbox mailbox db' \<le> unat mc \<and> ti \<le> fst (read_meta db) \<and> tb \<le> snd (read_meta db)
      \<and> mc \<le> read_mailbox_count db mailbox"
  proof (cases "t_get (item_table db) key")
    case None
    with p same [OF None] inv(2) show ?thesis
      by (auto simp: put_expired_def Let_def split_beta counters_cover_def)
  next
    case (Some w)
    with p obtain r where r: "record_decode lib w = Inr r" "ti = u64_saturating_sub (fst (read_meta db)) 1"
        "tb = u64_saturating_sub (snd (read_meta db)) (word_of_nat (length (rec_envelope r)))"
        "mc = u64_saturating_sub (read_mailbox_count db mailbox) 1"
      by (auto simp: put_expired_def Let_def split_beta result_simps)
    note weights = item_weights [OF tables_item [OF inv(1) Some] r(1)]
    have less: "stored_items db = Suc (stored_items db')" "stored_bytes lib db = stored_bytes lib db' + length (rec_envelope r)"
        "stored_in_mailbox m db = stored_in_mailbox m db' + mailbox_weight m key w" for m
      using stored_remove(1,3) [OF v Some] stored_remove(2) [OF v Some, of lib] weights by (simp_all add: db')
    have one: "mailbox_weight mailbox key w = 1" using mb by (simp add: mailbox_weight_def)
    note cover = inv(2) [unfolded counters_cover_def]
    have "stored_in_mailbox m db' \<le> unat (read_mailbox_count db' m)" for m
    proof -
      have "stored_in_mailbox m db \<le> unat (read_mailbox_count db m)" using cover by blast
      moreover have "read_mailbox_count db' m = read_mailbox_count db m" by (simp add: db')
      ultimately show ?thesis using less(3) [of m] by (metis add_leD1)
    qed
    moreover have "stored_items db' \<le> unat (fst (read_meta db'))" "stored_bytes lib db' \<le> unat (snd (read_meta db'))"
      using cover less(1,2) by (simp_all add: db')
    moreover have "stored_items db' \<le> unat ti" "stored_bytes lib db' \<le> unat tb"
      unfolding r unat_saturating_sub weights using cover less(1,2) by auto
    moreover have "stored_in_mailbox mailbox db' \<le> unat mc"
      unfolding r unat_saturating_sub using cover less(3) [of mailbox] one by (metis add_le_imp_le_diff unat_1)
    moreover have "ti \<le> fst (read_meta db)" "tb \<le> snd (read_meta db)" "mc \<le> read_mailbox_count db mailbox"
      unfolding r word_le_nat_alt unat_saturating_sub by simp_all
    ultimately show ?thesis by (simp add: counters_cover_def)
  qed
  then show "counters_cover lib db'" "stored_items db' \<le> unat ti" "stored_bytes lib db' \<le> unat tb"
      "stored_in_mailbox mailbox db' \<le> unat mc" "ti \<le> fst (read_meta db)" "tb \<le> snd (read_meta db)"
      "mc \<le> read_mailbox_count db mailbox" by auto
qed


lemma saturating_add_exact:
  assumes "u64_saturating_add a b \<le> c" and "unat c < 2 ^ 64 - 1"
  shows "unat (u64_saturating_add a b) = unat a + unat b"
  using assms by (auto simp: word_le_nat_alt unat_saturating_add min_def split: if_splits)

lemma config_bytes_bounded: "config_validate config = Inr () \<Longrightarrow> unat (max_total_bytes config) < 2 ^ 64 - 1"
proof -
  assume "config_validate config = Inr ()"
  then have "unat (max_total_bytes config) \<le> unat MAX_ABSOLUTE_TOTAL_BYTES"
    by (simp add: config_validate_def result_simps word_le_nat_alt)
  also have "unat MAX_ABSOLUTE_TOTAL_BYTES = 2 ^ 40" by (simp add: MAX_ABSOLUTE_TOTAL_BYTES_def)
  finally show ?thesis by simp
qed

lemma put_created_inv:
  fixes ti tb mc tb' :: u64
  assumes ok: "tables_ok lib identity db" and absent: "t_get (item_table db) key = None" and cover: "counters_cover lib db"
    and local: "stored_items db \<le> unat ti" "stored_bytes lib db \<le> unat tb" "stored_in_mailbox mailbox db \<le> unat mc"
    and bounded: "counters_bounded config db"
    and room: "ti < max_total_items config" "mc < max_items_per_mailbox config"
      "unat tb' = unat tb + length (rec_envelope candidate)" "tb' \<le> max_total_bytes config"
    and mb: "take 32 key = mailbox"
    and enc: "record_decode lib b = Inr candidate \<and> item_ok lib identity key b"
    and db': "db' = write_meta (ti + 1) tb' (write_mailbox_count mailbox (mc + 1)
      (db\<lparr> item_table := t_insert key b (item_table db) \<rparr>))"
  shows "tables_ok lib identity db' \<and> counters_cover lib db' \<and> counters_bounded config db'"
proof -
  have v: "t_valid (item_table db)" "t_valid (mailbox_count_table db)" "t_valid (meta_table db)"
    using ok by (simp_all add: tables_ok_def)
  let ?ins = "db\<lparr> item_table := t_insert key b (item_table db) \<rparr>"
  note weights = item_weights [OF conjunct2 [OF enc] conjunct1 [OF enc]]
  have more: "stored_items ?ins = Suc (stored_items db)"
      "stored_bytes lib ?ins = stored_bytes lib db + length (rec_envelope candidate)"
      "stored_in_mailbox m ?ins = stored_in_mailbox m db + mailbox_weight m key b" for m
    using stored_insert(1) [OF v(1) absent, of b] stored_insert(3) [OF v(1) absent, of m b]
      stored_insert(2) [OF v(1) absent, of lib b] weights(1) by simp_all
  have meta: "read_meta db' = (ti + 1, tb')"
      "read_mailbox_count db' m = (if m = mailbox then mc + 1 else read_mailbox_count db m)" for m
    unfolding db' using v by simp_all
  have tables: "item_table db' = item_table ?ins" "tombstone_table db' = tombstone_table db" by (simp_all add: db')
  have "stored_in_mailbox m db' \<le> unat (read_mailbox_count db' m)" for m
  proof -
    have "stored_in_mailbox m db' = stored_in_mailbox m db + mailbox_weight m key b" using more(3) [of m] by (simp add: db')
    moreover have "stored_in_mailbox m db \<le> unat (read_mailbox_count db m)" using cover by (simp add: counters_cover_def)
    ultimately show ?thesis unfolding meta using local(3) unat_inc [OF room(2)] mb by (auto simp: mailbox_weight_def)
  qed
  then have "counters_cover lib db'"
    using more(1,2) local room(3) unat_inc [OF room(1)] by (simp add: counters_cover_def meta tables) (simp add: db')
  moreover have "tables_ok lib identity db'"
    unfolding db' using tables_ok_insert(1) [OF ok] enc by simp
  moreover have "counters_bounded config db'"
    using bounded unat_inc [OF room(1)] unat_inc [OF room(2)] room(4) by (simp add: counters_bounded_def meta tables)
  ultimately show ?thesis by blast
qed

lemma put_txn_inv:
  assumes config: "config_validate config = Inr ()"
    and inv: "tables_ok lib identity db" "counters_cover lib db" "counters_bounded config db"
    and small: "length (rec_envelope candidate) \<le> MAX_MAILBOX_ENVELOPE_BYTES" and mb: "take 32 key = mailbox"
    and enc: "\<And>b. record_encode lib candidate = Inr b \<Longrightarrow> record_decode lib b = Inr candidate \<and> item_ok lib identity key b"
    and p: "put_txn lib config mailbox key candidate now db = Inr (outcome, db')"
  shows "tables_ok lib identity db' \<and> counters_cover lib db' \<and> counters_bounded config db'"
proof -
  from p obtain early where early: "put_current lib key candidate now db = Inr early"
    by (auto simp: put_txn_def result_simps)
  show ?thesis
  proof (cases early)
    case (Some x)
    with p early inv show ?thesis by (simp add: put_txn_def)
  next
    case None
    with p early obtain t db1 where t: "put_tombstone lib key now db = Inr (t, db1)"
      by (auto simp: put_txn_def result_simps)
    have db1: "tables_ok lib identity db1 \<and> counters_cover lib db1 \<and> counters_bounded config db1"
    proof -
      have "length (t_remove key (tombstone_table db)) \<le> length (tombstone_table db)" by (simp add: t_remove_def)
      then show ?thesis using t inv tables_ok_remove(2) [OF inv(1)]
        by (auto simp: put_tombstone_def result_simps counters_cover_def counters_bounded_def split: option.splits if_splits)
    qed
    show ?thesis
    proof (cases t)
      case True
      with p early None t db1 show ?thesis by (simp add: put_txn_def)
    next
      case False
      with p early None t obtain ti tb mc db2 where e: "put_expired lib mailbox key db1 = Inr (ti, tb, mc, db2)"
        by (auto simp: put_txn_def result_simps)
      note cover = put_expired_covers [OF conjunct1 [OF db1] conjunct1 [OF conjunct2 [OF db1]] mb e]
      have bounded: "counters_bounded config db2" using db1 by (simp add: counters_bounded_def cover(10))
      let ?n = "word_of_nat (length (rec_envelope candidate)) :: u64"
      show ?thesis
      proof (cases "ti \<ge> max_total_items config \<or> mc \<ge> max_items_per_mailbox config \<or> u64_saturating_add tb ?n > max_total_bytes config")
        case True
        with p early None t False e have "db' = db2" by (simp add: put_txn_def Let_def)
        with cover(1,3) bounded show ?thesis by simp
      next
        case room: False
        with p early None t False e obtain b where b: "record_encode lib candidate = Inr b"
            "db' = write_meta (ti + 1) (u64_saturating_add tb ?n)
               (write_mailbox_count mailbox (mc + 1) (db2\<lparr> item_table := t_insert key b (item_table db2) \<rparr>))"
          by (auto simp: put_txn_def Let_def result_simps)
        have "u64_saturating_add tb ?n \<le> max_total_bytes config" using room by (simp add: not_less)
        from saturating_add_exact [OF this config_bytes_bounded [OF config]]
        have "unat (u64_saturating_add tb ?n) = unat tb + length (rec_envelope candidate)"
          by (simp add: unat_envelope_length [OF small])
        with room show ?thesis
          by (intro put_created_inv [OF cover(1-6) bounded _ _ _ _ mb enc [OF b(1)] b(2)]) (simp_all add: not_le not_less)
      qed
    qed
  qed
qed


lemma store_put_inv:
  assumes doc: "store_documented lib" and inv: "store_inv lib s" and item: "length (wa_item_id (wa_content a)) = 32"
  shows "store_inv lib (snd (store_put lib s address a envelope now))"
proof (cases "put_candidate lib s address a envelope now")
  case (Inl e)
  with inv show ?thesis by (simp add: store_put_def)
next
  case (Inr c)
  let ?m = "mailbox_id lib address"
  let ?key = "item_key ?m (wa_item_id (wa_content a))"
  have len: "length ?m = 32" using store_documentedD(2) [OF doc] by (simp add: mailbox_id_def)
  have mb: "take 32 ?key = ?m" using len by (simp add: item_key_def)
  have small: "length (rec_envelope c) \<le> MAX_MAILBOX_ENVELOPE_BYTES" using put_candidate_Inr(1,5) [OF Inr] by simp
  have enc: "record_decode lib b = Inr c \<and> item_ok lib (store_identity s) ?key b" if "record_encode lib c = Inr b" for b
    using candidate_decodes [OF doc Inr item that] by blast
  show ?thesis
  proof (cases "put_txn lib (store_config s) ?m ?key c now (store_database s)")
    case Inl': (Inl e)
    then show ?thesis using Inr inv by (simp add: store_put_def transact_def Let_def)
  next
    case Inr': (Inr p)
    obtain outcome db' where p: "p = (outcome, db')" by (cases p)
    have "tables_ok lib (store_identity s) db' \<and> counters_cover lib db' \<and> counters_bounded (store_config s) db'"
      by (rule put_txn_inv [OF _ _ _ _ small mb enc Inr' [unfolded p]]) (use inv in \<open>simp_all add: store_inv_def\<close>)
    then show ?thesis using Inr Inr' p inv by (simp add: store_put_def transact_def Let_def store_inv_def)
  qed
qed

section \<open>Cleanup\<close>

definition live_entries :: "'a store_libs_scheme \<Rightarrow> u64 \<Rightarrow> bytes table \<Rightarrow> bytes table" where
  "live_entries lib now t = t_retain (retain_item lib now) t"

text \<open>The counters the cleanup loop builds are the exact measures of the entries it keeps, as long as
  these fit 64 bits.\<close>

definition counts_agree :: "u64 table \<Rightarrow> bytes table \<Rightarrow> bool" where
  "counts_agree counts t \<longleftrightarrow> t_valid counts
     \<and> (\<forall>m. unat (case_option 0 id (t_get counts m) :: u64) = tbl.weight (mailbox_weight m) t)"

lemma weight_snoc: "tbl.weight w (t @ [(k, v)]) = tbl.weight w t + w k v"
  by (simp add: tbl.weight_def)

lemma live_weight_le: "tbl.weight w (live_entries lib now t) \<le> tbl.weight w t"
  by (induction t) (auto simp: tbl.weight_def live_entries_def t_retain_def)

lemma mailbox_weight_le: "tbl.weight (mailbox_weight m) t \<le> length t"
  by (induction t) (auto simp: tbl.weight_def mailbox_weight_def)

lemma live_length_le: "length (live_entries lib now t) \<le> length t"
  by (simp add: live_entries_def t_retain_def)

lemma counts_agree_step:
  assumes "counts_agree c t" and "length t + 1 < 2 ^ 64"
  shows "counts_agree (t_insert (take 32 k) (u64_saturating_add (case_option 0 id (t_get c (take 32 k))) 1) c) (t @ [(k, v)])"
proof -
  have v: "t_valid c" and w: "unat (case_option 0 id (t_get c m) :: u64) = tbl.weight (mailbox_weight m) t" for m
    using assms(1) by (auto simp: counts_agree_def)
  have "unat (u64_saturating_add (case_option 0 id (t_get c m)) 1) = tbl.weight (mailbox_weight m) t + 1" for m
    using w [of m] mailbox_weight_le [of m t] assms(2) by (simp add: unat_saturating_add)
  with v w show ?thesis
    by (auto simp: counts_agree_def t_valid_insert t_get_insert weight_snoc mailbox_weight_def)
qed

lemma count_items_exact:
  assumes "fold (count_item lib now) t (0, 0, []) = (items, bytes, counts)"
    and "length t < 2 ^ 64" and "tbl.weight (envelope_weight lib) t < 2 ^ 64"
  shows "unat items = length (live_entries lib now t)"
    and "unat bytes = tbl.weight (envelope_weight lib) (live_entries lib now t)"
    and "counts_agree counts (live_entries lib now t)"
proof -
  have "unat items = length (live_entries lib now t) \<and> unat bytes = tbl.weight (envelope_weight lib) (live_entries lib now t)
      \<and> counts_agree counts (live_entries lib now t)"
    using assms
  proof (induction t arbitrary: items bytes counts rule: rev_induct)
    case Nil
    then show ?case by (simp add: live_entries_def t_retain_def tbl.weight_def counts_agree_def t_valid_def t_get_def)
  next
    case (snoc e t)
    obtain k v where e: "e = (k, v)" by (cases e)
    obtain i b c where f: "fold (count_item lib now) t (0, 0, []) = (i, b, c)" by (metis prod_cases3)
    have small: "length t < 2 ^ 64" "tbl.weight (envelope_weight lib) t + envelope_weight lib k v < 2 ^ 64" "length t + 1 < 2 ^ 64"
      using snoc.prems by (simp_all add: e weight_snoc)
    from snoc.IH [OF f small(1)] small(2)
    have IH: "unat i = length (live_entries lib now t)" "unat b = tbl.weight (envelope_weight lib) (live_entries lib now t)"
        "counts_agree c (live_entries lib now t)" by simp_all
    show ?case
    proof (cases "retain_item lib now k v")
      case False
      with f IH snoc.prems(1) show ?thesis by (simp add: e count_item_def live_entries_def t_retain_def)
    next
      case True
      then obtain r where r: "record_decode lib v = Inr r" by (auto simp: retain_item_def split: sum.splits)
      have new: "live_entries lib now (t @ [e]) = live_entries lib now t @ [(k, v)]"
        using True by (simp add: e live_entries_def t_retain_def)
      have out: "items = u64_saturating_add i 1" "bytes = u64_saturating_add b (word_of_nat (length (rec_envelope r)))"
          "counts = t_insert (take 32 k) (u64_saturating_add (case_option 0 id (t_get c (take 32 k))) 1) c"
        using snoc.prems(1) f True r by (auto simp: e count_item_def)
      have ew: "envelope_weight lib k v = length (rec_envelope r)"
          "unat (word_of_nat (length (rec_envelope r)) :: u64) = length (rec_envelope r)"
        using r record_decode_envelope [OF r] by (simp_all add: envelope_weight_def unat_envelope_length)
      note le = live_length_le [of lib now t] live_weight_le [of "envelope_weight lib" lib now t]
      have "unat items = Suc (unat i)" unfolding out unat_saturating_add using IH(1) le(1) small(3) by simp
      moreover have "unat bytes = unat b + length (rec_envelope r)"
        unfolding out unat_saturating_add ew using IH(2) le(2) small(2) ew(1) by simp
      moreover have "counts_agree counts (live_entries lib now (t @ [e]))"
        unfolding out new using counts_agree_step [OF IH(3)] le(1) small(3) by simp
      ultimately show ?thesis using IH(1,2) by (simp add: new weight_snoc ew)
    qed
  qed
  then show "unat items = length (live_entries lib now t)"
    "unat bytes = tbl.weight (envelope_weight lib) (live_entries lib now t)"
    "counts_agree counts (live_entries lib now t)" by auto
qed


lemma rebuild_counts:
  assumes "t_valid t0" and "distinct (map fst cs)"
  shows "t_valid (fold (\<lambda>(m, n). t_insert m n) cs t0)"
    and "t_get (fold (\<lambda>(m, n). t_insert m n) cs t0) k = (case map_of cs k of None \<Rightarrow> t_get t0 k | Some n \<Rightarrow> Some n)"
  using assms
proof (induction cs arbitrary: t0)
  case Nil
  { case 1 then show ?case by simp }
  { case 2 then show ?case by simp }
next
  case (Cons c cs)
  { case 1 with Cons.IH(1) [of "t_insert (fst c) (snd c) t0"] show ?case by (simp add: split_beta t_valid_insert) }
  { case 2
    then have "map_of cs (fst c) = None" by (simp add: map_of_eq_None_iff)
    with 2 Cons.IH(2) [of "t_insert (fst c) (snd c) t0"] show ?case
      by (auto simp: split_beta t_valid_insert t_get_insert split: option.splits) }
qed

lemma retain_none: "t_retain (\<lambda>_ _. False) t = []"
  by (simp add: t_retain_def)

text \<open>The state after a cleanup: exactly the unexpired entries, with exact counters.\<close>

lemma cleanup_txn_exact:
  assumes tables: "tables_ok lib identity db" and cover: "counters_cover lib db" and bounded: "counters_bounded config db"
  obtains report db' where "cleanup_txn lib now db = Inr (report, db')"
    "item_table db' = live_entries lib now (item_table db)"
    "tombstone_table db' = t_retain (retain_tombstone lib now) (tombstone_table db)"
    "unat (fst (read_meta db')) = stored_items db'" "unat (snd (read_meta db')) = stored_bytes lib db'"
    "\<And>m. unat (read_mailbox_count db' m) = stored_in_mailbox m db'"
    "(live_items report, live_envelope_bytes report) = read_meta db'"
    "unat (removed_items report) = stored_items db - stored_items db'"
    "unat (removed_tombstones report) = length (tombstone_table db) - length (tombstone_table db')"
    "t_valid (mailbox_count_table db')" "t_valid (meta_table db')" "identity_table db' = identity_table db"
proof -
  obtain items bytes counts where f: "fold (count_item lib now) (item_table db) (0, 0, []) = (items, bytes, counts)"
    by (metis prod_cases3)
  have u: "unat (x :: u64) < 2 ^ 64" for x using unsigned_less [of x, where ?'a = nat] by simp
  have fits: "length (item_table db) < 2 ^ 64" "tbl.weight (envelope_weight lib) (item_table db) < 2 ^ 64"
      "length (tombstone_table db) < 2 ^ 64"
    using cover bounded u by (auto simp: counters_cover_def counters_bounded_def stored_bytes_def intro: le_less_trans)
  note exact = count_items_exact [OF f fits(1,2)]
  from exact(3) have c: "t_valid counts" by (simp add: counts_agree_def)
  let ?counts = "fold (\<lambda>(m, n). t_insert m n) counts []"
  have cv: "t_valid ?counts" and cg: "t_get ?counts = t_get counts"
    using rebuild_counts [of "[]" counts] tbl.keys_distinct [OF c]
    by (auto simp: t_valid_def fun_eq_iff t_get_def [of counts] t_get_def [of "[]"] split: option.splits)
  obtain report db' where run: "cleanup_txn lib now db = Inr (report, db')" by (simp add: cleanup_txn_def Let_def split_beta)
  have db': "db' = write_meta items bytes (db\<lparr> item_table := live_entries lib now (item_table db),
        tombstone_table := t_retain (retain_tombstone lib now) (tombstone_table db), mailbox_count_table := ?counts \<rparr>)"
    and report: "live_items report = items" "live_envelope_bytes report = bytes"
      "removed_items report = u64_saturating_sub (word_of_nat (stored_items db)) (word_of_nat (length (live_entries lib now (item_table db))))"
      "removed_tombstones report = u64_saturating_sub (word_of_nat (length (tombstone_table db)))
         (word_of_nat (length (t_retain (retain_tombstone lib now) (tombstone_table db))))"
    using run by (auto simp: cleanup_txn_def f Let_def retain_none live_entries_def)
  have mv: "t_valid (meta_table db)" using tables by (simp add: tables_ok_def)
  have meta: "read_meta db' = (items, bytes)" unfolding db' using mv by simp
  have nat: "unat (word_of_nat n :: u64) = n" if "n < 2 ^ 64" for n using that by (simp add: unat_of_nat)
  have le: "length (live_entries lib now (item_table db)) < 2 ^ 64"
      "length (t_retain (retain_tombstone lib now) (tombstone_table db)) < 2 ^ 64"
    using live_length_le [of lib now "item_table db"] fits(1) le_less_trans [OF length_filter_le fits(3)]
    by (simp_all add: t_retain_def)
  show thesis
  proof (rule that [OF run])
    show "item_table db' = live_entries lib now (item_table db)"
      "tombstone_table db' = t_retain (retain_tombstone lib now) (tombstone_table db)"
      "t_valid (mailbox_count_table db')" "identity_table db' = identity_table db"
      using cv by (simp_all add: db') (simp add: write_meta_def)
    show "unat (fst (read_meta db')) = stored_items db'" "unat (snd (read_meta db')) = stored_bytes lib db'"
      using exact(1,2) by (simp_all add: meta) (simp_all add: db' stored_bytes_def)
    show "unat (read_mailbox_count db' m) = stored_in_mailbox m db'" for m
      using exact(3) cg by (simp add: counts_agree_def db' read_mailbox_count_def stored_in_mailbox_def write_meta_def)
    show "(live_items report, live_envelope_bytes report) = read_meta db'" by (simp add: meta report)
    show "unat (removed_items report) = stored_items db - stored_items db'"
      "unat (removed_tombstones report) = length (tombstone_table db) - length (tombstone_table db')"
      unfolding report unat_saturating_sub using nat fits le by (simp_all add: db')
    show "t_valid (meta_table db')" using mv by (simp add: db')
  qed
qed

lemma cleanup_txn_inv:
  assumes tables: "tables_ok lib identity db" and cover: "counters_cover lib db" and bounded: "counters_bounded config db"
    and run: "cleanup_txn lib now db = Inr (report, db')"
  shows "tables_ok lib identity db' \<and> counters_cover lib db' \<and> counters_bounded config db'"
proof -
  obtain report' db'' where run': "cleanup_txn lib now db = Inr (report', db'')"
    and t: "item_table db'' = live_entries lib now (item_table db)"
      "tombstone_table db'' = t_retain (retain_tombstone lib now) (tombstone_table db)"
    and exact: "unat (fst (read_meta db'')) = stored_items db''" "unat (snd (read_meta db'')) = stored_bytes lib db''"
      "\<And>m. unat (read_mailbox_count db'' m) = stored_in_mailbox m db''"
    and v: "t_valid (mailbox_count_table db'')" "t_valid (meta_table db'')"
    by (rule cleanup_txn_exact [OF assms(1-3), of now]) blast
  have [simp]: "db' = db''" using run run' by simp
  have "tables_ok lib identity db''"
    using tables v unfolding tables_ok_def t live_entries_def by (auto simp: tbl.valid_retain) (auto simp: t_retain_def)
  moreover have "counters_cover lib db''" unfolding counters_cover_def using exact by simp
  moreover have "counters_bounded config db''"
  proof -
    have m: "stored_in_mailbox m db'' \<le> stored_in_mailbox m db" and b: "stored_bytes lib db'' \<le> stored_bytes lib db" for m
      by (simp_all add: stored_in_mailbox_def stored_bytes_def t live_weight_le)
    have i: "stored_items db'' \<le> stored_items db" and "length (tombstone_table db'') \<le> length (tombstone_table db)"
      by (simp_all add: t live_length_le t_retain_def)
    moreover have "unat (read_mailbox_count db'' x) \<le> unat (max_items_per_mailbox config)" for x
    proof -
      have "stored_in_mailbox x db \<le> unat (read_mailbox_count db x)" using cover by (simp add: counters_cover_def)
      also have "\<dots> \<le> unat (max_items_per_mailbox config)" using bounded by (simp add: counters_bounded_def word_le_nat_alt)
      finally show ?thesis using m [of x] exact(3) [of x] by simp
    qed
    moreover have "stored_items db \<le> unat (max_total_items config)" "stored_bytes lib db \<le> unat (max_total_bytes config)"
      using cover bounded by (auto simp: counters_cover_def counters_bounded_def word_le_nat_alt intro: order_trans)
    ultimately show ?thesis using bounded b exact(1,2) by (simp add: counters_bounded_def word_le_nat_alt)
  qed
  ultimately show ?thesis by simp
qed


lemma store_cleanup_inv:
  assumes "store_inv lib s"
  shows "store_inv lib (snd (store_cleanup lib s now))"
  using assms cleanup_txn_inv [of lib "store_identity s" "store_database s" "store_config s" now]
  by (auto simp: store_cleanup_def transact_def store_inv_def split: sum.splits prod.splits)

lemma store_cleanup_fields [simp]:
  "store_identity (snd (store_cleanup lib s now)) = store_identity s"
  "store_config (snd (store_cleanup lib s now)) = store_config s"
  by (auto simp: store_cleanup_def transact_def split: sum.splits prod.splits)

lemma store_cleanup_ok: "\<exists>report. fst (store_cleanup lib s now) = Inr report"
  by (auto simp: store_cleanup_def transact_def cleanup_txn_def Let_def split: prod.splits)

section \<open>List and delete\<close>

lemma store_list_page_state:
  "snd (store_list_page lib s address a now) = s \<or> snd (store_list_page lib s address a now) = snd (store_cleanup lib s now)"
  by (auto simp: store_list_page_def split: sum.splits MailboxReadOperation.splits prod.splits)

lemma store_list_page_inv: "store_inv lib s \<Longrightarrow> store_inv lib (snd (store_list_page lib s address a now))"
  using store_list_page_state [of lib s address a now] store_cleanup_inv [of lib s now] by auto

lemma tombstone_made_ok:
  assumes doc: "store_documented lib"
    and d: "Mailbox.delete_receipt lib identity mailbox item rid now expires = Inr receipt"
    and len: "length mailbox = 32" "length item = 32" "length rid = 32"
    and e: "tombstone_encode lib \<lparr> tomb_version = RECORD_VERSION, tomb_stored_receipt_id = rid, tomb_delete_receipt = receipt \<rparr> = Inr b"
  shows "tombstone_ok lib identity (item_key mailbox item) b"
    and "tombstone_decode lib b = Inr \<lparr> tomb_version = RECORD_VERSION, tomb_stored_receipt_id = rid, tomb_delete_receipt = receipt \<rparr>"
proof -
  let ?t = "\<lparr> tomb_version = RECORD_VERSION, tomb_stored_receipt_id = rid, tomb_delete_receipt = receipt \<rparr>"
  note dd = store_documentedD [OF doc]
  from e have pc: "pc_tombstone lib ?t = Some b" and val: "tombstone_validate lib ?t = Inr ()"
    by (auto simp: tombstone_encode_def result_simps)
  have r: "dr_content receipt = \<lparr> dr_version = MAILBOX_VERSION, dr_store_key = lib_verifying_key lib identity,
       dr_mailbox_id = mailbox, dr_item_id = item, dr_stored_receipt_id = rid, dr_deleted_at_unix_seconds = now,
       dr_expires_at_unix_seconds = expires \<rparr>" "length (dr_signature receipt) = 64"
    using d dd(3) by (auto simp: delete_receipt_Inr)
  have "length b \<le> 2048" using dd(6) [OF pc] len dd(4) by (simp add: tombstone_field_bytes_def r)
  then show dec: "tombstone_decode lib b = Inr ?t" using dd(6) [OF pc] val by (simp add: tombstone_decode_Inr)
  show "tombstone_ok lib identity (item_key mailbox item) b"
    unfolding tombstone_ok_def using dec len by (simp add: r item_key_def)
qed

lemma stored_receipt_id_length:
  "store_documented lib \<Longrightarrow> stored_receipt_id lib r = Inr rid \<Longrightarrow> length rid = 32"
  by (auto simp: stored_receipt_id_def result_simps dest: store_documentedD(2))

text \<open>The one branch of a delete that changes the tables.\<close>

lemma delete_current_cases:
  assumes "delete_current lib s mailbox item rid now v db = Inr (outcome, db')"
  obtains (same) "db' = db" "outcome = ReceiptMismatch \<or> outcome = TombstoneCapacityExceeded"
  | (deleted) r receipt b where "record_decode lib v = Inr r" "stored_receipt_id lib (rec_receipt r) = Inr rid"
      "word_of_nat (length (tombstone_table db)) < max_total_items (store_config s)"
      "Mailbox.delete_receipt lib (store_identity s) mailbox item rid now (sr_expires_at_unix_seconds (sr_content (rec_receipt r))) = Inr receipt"
      "tombstone_encode lib \<lparr> tomb_version = RECORD_VERSION, tomb_stored_receipt_id = rid, tomb_delete_receipt = receipt \<rparr> = Inr b"
      "outcome = Deleted receipt"
      "db' = write_mailbox_count mailbox (u64_saturating_sub (read_mailbox_count db mailbox) 1)
         (write_meta (u64_saturating_sub (fst (read_meta db)) 1)
           (u64_saturating_sub (snd (read_meta db)) (word_of_nat (length (rec_envelope r))))
           (db\<lparr> item_table := t_remove (item_key mailbox item) (item_table db),
               tombstone_table := t_insert (item_key mailbox item) b (tombstone_table db) \<rparr>))"
  using assms
  by (auto simp: delete_current_def Let_def split_beta result_simps not_le split: if_splits)

lemma delete_txn_inv:
  assumes doc: "store_documented lib" and inv: "store_inv lib s" and len: "length mailbox = 32"
    and run: "delete_txn lib s mailbox item rid now (store_database s) = Inr (outcome, db')"
  shows "store_inv lib (s\<lparr> store_database := db' \<rparr>)"
proof (cases "t_get (item_table (store_database s)) (item_key mailbox item)")
  case None
  with run have "db' = store_database s"
    by (auto simp: delete_txn_def delete_absent_def result_simps split: option.splits)
  with inv show ?thesis by (simp add: store_inv_def)
next
  case (Some v)
  let ?db = "store_database s" and ?key = "item_key mailbox item"
  have inv': "tables_ok lib (store_identity s) ?db" "counters_cover lib ?db" "counters_bounded (store_config s) ?db"
      "config_validate (store_config s) = Inr ()"
    using inv by (simp_all add: store_inv_def)
  have valid: "t_valid (item_table ?db)" "t_valid (tombstone_table ?db)" "t_valid (mailbox_count_table ?db)" "t_valid (meta_table ?db)"
    using inv'(1) by (simp_all add: tables_ok_def)
  have ok: "item_ok lib (store_identity s) ?key v" by (rule tables_item [OF inv'(1) Some])
  then have item: "length item = 32" using len by (auto simp: item_ok_def item_key_def dest: arg_cong [where f = length])
  from run Some have "delete_current lib s mailbox item rid now v ?db = Inr (outcome, db')" by (simp add: delete_txn_def)
  then show ?thesis
  proof (cases rule: delete_current_cases)
    case same
    with inv show ?thesis by (simp add: store_inv_def)
  next
    case (deleted r receipt b)
    have rid: "length rid = 32" by (rule stored_receipt_id_length [OF doc deleted(2)])
    have pe: "put_expired lib mailbox ?key ?db = Inr (u64_saturating_sub (fst (read_meta ?db)) 1,
        u64_saturating_sub (snd (read_meta ?db)) (word_of_nat (length (rec_envelope r))),
        u64_saturating_sub (read_mailbox_count ?db mailbox) 1, ?db\<lparr> item_table := t_remove ?key (item_table ?db) \<rparr>)"
      using Some deleted(1) by (simp add: put_expired_def Let_def split_beta)
    have mb: "take 32 ?key = mailbox" using len by (simp add: item_key_def)
    note cover = put_expired_covers [OF inv'(1,2) mb pe]
    let ?mid = "?db\<lparr> item_table := t_remove ?key (item_table ?db), tombstone_table := t_insert ?key b (tombstone_table ?db) \<rparr>"
    have mid: "?mid = (?db\<lparr> item_table := t_remove ?key (item_table ?db) \<rparr>)\<lparr> tombstone_table := t_insert ?key b (tombstone_table ?db) \<rparr>"
      by simp
    have tables: "tables_ok lib (store_identity s) db'"
      using tables_ok_insert(2) [OF cover(1) tombstone_made_ok(1) [OF doc deleted(4) len item rid deleted(5)]]
      unfolding deleted(7) by simp
    have meta: "read_meta db' = (u64_saturating_sub (fst (read_meta ?db)) 1,
        u64_saturating_sub (snd (read_meta ?db)) (word_of_nat (length (rec_envelope r))))"
        "read_mailbox_count db' m = (if m = mailbox then u64_saturating_sub (read_mailbox_count ?db mailbox) 1
           else read_mailbox_count ?db m)" for m
      unfolding deleted(7) using valid(3,4) by simp_all
    have stored: "stored_items db' = length (t_remove ?key (item_table ?db))"
        "stored_bytes lib db' = stored_bytes lib (?db\<lparr> item_table := t_remove ?key (item_table ?db) \<rparr>)"
        "stored_in_mailbox m db' = stored_in_mailbox m (?db\<lparr> item_table := t_remove ?key (item_table ?db) \<rparr>)" for m
      unfolding deleted(7) by (simp_all add: stored_bytes_def stored_in_mailbox_def)
    have "counters_cover lib db'"
      using cover(3-6) by (auto simp: counters_cover_def meta stored)
    moreover have "counters_bounded (store_config s) db'"
    proof -
      have "length (tombstone_table ?db) < 2 ^ 64"
        using inv'(3) unsigned_less [of "max_total_items (store_config s)", where ?'a = nat] by (simp add: counters_bounded_def)
      then have "length (tombstone_table ?db) < unat (max_total_items (store_config s))"
        using deleted(3) by (simp add: word_less_nat_alt unat_of_nat)
      moreover have "length (tombstone_table db') \<le> Suc (length (tombstone_table ?db))"
        unfolding deleted(7) using length_insert_le by simp
      ultimately show ?thesis using inv'(3) cover(7-9) by (auto simp: counters_bounded_def meta intro: order_trans)
    qed
    ultimately show ?thesis using tables inv'(4) by (simp add: store_inv_def)
  qed
qed

lemma store_delete_inv:
  assumes doc: "store_documented lib" and inv: "store_inv lib s"
  shows "store_inv lib (snd (store_delete lib s address a now))"
proof -
  have len: "length (mailbox_id lib address) = 32" using store_documentedD(2) [OF doc] by (simp add: mailbox_id_def)
  note clean = store_cleanup_inv [OF inv, of now]
  show ?thesis
    using inv clean delete_txn_inv [OF doc _ len, of "snd (store_cleanup lib s now)"]
    by (auto simp: store_delete_def transact_def split: sum.splits MailboxReadOperation.splits prod.splits)
qed

section \<open>Reachable stores\<close>

definition empty_database :: database where
  "empty_database = \<lparr> item_table = [], tombstone_table = [], mailbox_count_table = [], meta_table = [], identity_table = [] \<rparr>"

text \<open>The life of a store under one configuration and identity: opened on a new database file, any
  sequence of requests at any times, closed and opened again. Item identifiers are the 32 bytes their
  type holds.\<close>

inductive store_reachable :: "'a store_libs_scheme \<Rightarrow> MailboxStoreConfig \<Rightarrow> bytes \<Rightarrow> BlindMailboxStore \<Rightarrow> bool"
  for lib :: "'a store_libs_scheme" and config :: MailboxStoreConfig and identity :: bytes where
  created: "fst (store_open lib config identity True empty_database) = Inr s \<Longrightarrow> store_reachable lib config identity s"
| reopened: "store_reachable lib config identity s \<Longrightarrow>
    fst (store_open lib config identity True (store_database s)) = Inr s' \<Longrightarrow> store_reachable lib config identity s'"
| put: "store_reachable lib config identity s \<Longrightarrow> length (wa_item_id (wa_content a)) = 32 \<Longrightarrow>
    store_reachable lib config identity (snd (store_put lib s address a envelope now))"
| list_page: "store_reachable lib config identity s \<Longrightarrow>
    store_reachable lib config identity (snd (store_list_page lib s address r now))"
| delete: "store_reachable lib config identity s \<Longrightarrow>
    store_reachable lib config identity (snd (store_delete lib s address r now))"
| cleanup: "store_reachable lib config identity s \<Longrightarrow>
    store_reachable lib config identity (snd (store_cleanup lib s now))"

lemma store_open_Inr:
  assumes "fst (store_open lib config identity dir disk) = Inr s"
  shows "config_validate config = Inr ()" "store_config s = config" "store_identity s = identity"
    "item_table (store_database s) = item_table disk" "tombstone_table (store_database s) = tombstone_table disk"
    "mailbox_count_table (store_database s) = mailbox_count_table disk"
    "meta_table (store_database s) = init_meta TOTAL_ITEMS_KEY (init_meta TOTAL_BYTES_KEY (meta_table disk))"
    "fst (read_meta (store_database s)) \<le> max_total_items config" "snd (read_meta (store_database s)) \<le> max_total_bytes config"
    "t_get (identity_table (store_database s)) STORE_KEY = Some (lib_verifying_key lib identity)
       \<or> \<not> t_valid (identity_table disk)"
  using assms
  by (auto simp: store_open_def Let_def split_beta result_simps live_usage_def init_identity_def t_get_insert
      split: sum.splits option.splits)

lemma init_meta_simps:
  assumes "t_valid t"
  shows "t_valid (init_meta key t)" "case_option 0 id (t_get (init_meta key t) k) = (case_option 0 id (t_get t k) :: u64)"
  using assms by (auto simp: init_meta_def t_valid_insert t_get_insert split: option.splits)

lemma store_open_inv:
  assumes open_ok: "fst (store_open lib config identity dir disk) = Inr s"
    and disk: "tables_ok lib identity disk" "counters_cover lib disk" "counters_bounded config disk"
  shows "store_inv lib s"
proof -
  note o = store_open_Inr [OF open_ok]
  have mv: "t_valid (meta_table disk)" using disk(1) by (simp add: tables_ok_def)
  have meta: "read_meta (store_database s) = read_meta disk"
    unfolding read_meta_def o(7) using mv by (simp add: init_meta_simps)
  have counts: "read_mailbox_count (store_database s) m = read_mailbox_count disk m" for m
    by (simp add: read_mailbox_count_def o(6))
  have stored: "stored_bytes lib (store_database s) = stored_bytes lib disk"
      "stored_in_mailbox m (store_database s) = stored_in_mailbox m disk" for m
    by (simp_all add: stored_bytes_def stored_in_mailbox_def o(4))
  show ?thesis using disk mv o(1,2,3)
    by (simp add: store_inv_def tables_ok_def counters_cover_def counters_bounded_def meta counts stored o(4-7) init_meta_simps)
qed


lemma operation_fields [simp]:
  "store_identity (snd (store_put lib s address a e now)) = store_identity s"
  "store_config (snd (store_put lib s address a e now)) = store_config s"
  "store_identity (snd (store_list_page lib s address r now)) = store_identity s"
  "store_config (snd (store_list_page lib s address r now)) = store_config s"
  "store_identity (snd (store_delete lib s address r now)) = store_identity s"
  "store_config (snd (store_delete lib s address r now)) = store_config s"
proof -
  show "store_identity (snd (store_put lib s address a e now)) = store_identity s"
    "store_config (snd (store_put lib s address a e now)) = store_config s"
    by (auto simp: store_put_def transact_def Let_def split: sum.splits prod.splits)
  show "store_identity (snd (store_list_page lib s address r now)) = store_identity s"
    "store_config (snd (store_list_page lib s address r now)) = store_config s"
    using store_list_page_state [of lib s address r now] by auto
  have c: "store_cleanup lib s now = (x, s') \<Longrightarrow> store_identity s' = store_identity s \<and> store_config s' = store_config s" for x s'
    using store_cleanup_fields [of lib s now] by simp
  show "store_identity (snd (store_delete lib s address r now)) = store_identity s"
    "store_config (snd (store_delete lib s address r now)) = store_config s"
    by (auto simp: store_delete_def transact_def dest: c split: sum.splits prod.splits MailboxReadOperation.splits)
qed

lemma reachable_inv:
  assumes "store_documented lib" and "store_reachable lib config identity s"
  shows "store_inv lib s \<and> store_config s = config \<and> store_identity s = identity"
  using assms(2)
proof (induction rule: store_reachable.induct)
  case (created s)
  have "tables_ok lib identity empty_database" "counters_cover lib empty_database" "counters_bounded config empty_database"
    by (simp_all add: tables_ok_def counters_cover_def counters_bounded_def empty_database_def t_valid_def stored_bytes_def
        stored_in_mailbox_def tbl.weight_def read_meta_def read_mailbox_count_def t_get_def)
  from store_open_inv [OF created this] store_open_Inr(2,3) [OF created] show ?case by simp
next
  case (reopened s s')
  then have "tables_ok lib identity (store_database s)" "counters_cover lib (store_database s)"
      "counters_bounded config (store_database s)" by (auto simp: store_inv_def)
  from store_open_inv [OF reopened.hyps(2) this] store_open_Inr(2,3) [OF reopened.hyps(2)] show ?case by simp
qed (auto intro: store_put_inv [OF assms(1)] store_list_page_inv store_delete_inv [OF assms(1)] store_cleanup_inv)


end
