(* ===== verification/Store_Sample.thy ===== *)
theory Store_Sample
  imports Store_Invariant
begin

text \<open>
  A small store for the examples: the sample libraries with an encoding of records and tombstones, a
  configuration for three items and three bytes, and a few requests whose outcomes are computed.
\<close>

section \<open>Libraries\<close>

definition record_fields :: "StoredRecord \<Rightarrow> bytes list" where
  "record_fields r = field_of_word (rec_version r) # field_of_word (rec_requested_ttl_seconds r) # rec_envelope r
     # stored_fields (rec_receipt r)"

fun record_of_fields :: "bytes list \<Rightarrow> StoredRecord option" where
  "record_of_fields (v # t # e # fs) = map_option (\<lambda>r. \<lparr> rec_version = word_of_field v,
     rec_requested_ttl_seconds = word_of_field t, rec_envelope = e, rec_receipt = r \<rparr>) (stored_of fs)"
| "record_of_fields _ = None"

definition tombstone_fields :: "StoredTombstone \<Rightarrow> bytes list" where
  "tombstone_fields t = field_of_word (tomb_version t) # tomb_stored_receipt_id t # delete_fields (tomb_delete_receipt t)"

fun tombstone_of_fields :: "bytes list \<Rightarrow> StoredTombstone option" where
  "tombstone_of_fields (v # i # fs) = map_option (\<lambda>r. \<lparr> tomb_version = word_of_field v,
     tomb_stored_receipt_id = i, tomb_delete_receipt = r \<rparr>) (delete_of fs)"
| "tombstone_of_fields _ = None"

definition toy_store_libs :: store_libs where
  "toy_store_libs = toy_libs_with \<lparr> pc_record = framed \<circ> record_fields,
     pc_record_from = (\<lambda>b. Option.bind (unframe b) record_of_fields),
     pc_tombstone = framed \<circ> tombstone_fields,
     pc_tombstone_from = (\<lambda>b. Option.bind (unframe b) tombstone_of_fields) \<rparr>"

lemma record_fields_inverse: "record_of_fields (record_fields r) = Some r"
  by (simp add: record_fields_def fields_inverse)

lemma tombstone_fields_inverse: "tombstone_of_fields (tombstone_fields t) = Some t"
  by (simp add: tombstone_fields_def fields_inverse)

lemma toy_store_simps [simp]:
  "lib_ed toy_store_libs = toy_ed25519" "lib_verifying_key toy_store_libs = toy_key"
  "lib_sign toy_store_libs s = toy_sign (toy_key s)" "lib_blake3 toy_store_libs = toy_blake3"
  "pc_write_content toy_store_libs wc = framed (write_content_fields wc)"
  "pc_read_content toy_store_libs rc = framed (read_content_fields rc)"
  "pc_stored_content toy_store_libs sc = framed (stored_content_fields sc)"
  "pc_stored toy_store_libs st = framed (stored_fields st)"
  "pc_delete_content toy_store_libs dc = framed (delete_content_fields dc)"
  "pc_record toy_store_libs r = framed (record_fields r)"
  "pc_record_from toy_store_libs b = Option.bind (unframe b) record_of_fields"
  "pc_tombstone toy_store_libs t = framed (tombstone_fields t)"
  "pc_tombstone_from toy_store_libs b = Option.bind (unframe b) tombstone_of_fields"
  by (simp_all add: toy_store_libs_def toy_libs_with_def)

lemma framed_length: "framed fs = Some b \<Longrightarrow> length b = sum_list (map length fs) + 8 * length fs"
  by (auto simp: framed_def length_frame split: if_splits)

lemma toy_store_documented: "store_documented toy_store_libs"
proof -
  have "pc_record_from toy_store_libs b = Some r \<and> length b < record_field_bytes r + 256"
    if "pc_record toy_store_libs r = Some b" for r b
    using framed_bind [of record_of_fields record_fields r b] framed_length [of "record_fields r" b] that
    by (simp add: record_fields_inverse record_field_bytes_def Let_def record_fields_def stored_fields_def stored_content_fields_def)
  moreover have "pc_tombstone_from toy_store_libs b = Some t \<and> length b < tombstone_field_bytes t + 256"
    if "pc_tombstone toy_store_libs t = Some b" for t b
    using framed_bind [of tombstone_of_fields tombstone_fields t b] framed_length [of "tombstone_fields t" b] that
    by (simp add: tombstone_fields_inverse tombstone_field_bytes_def Let_def tombstone_fields_def delete_fields_def delete_content_fields_def)
  moreover have "signatures_documented toy_store_libs"
    unfolding toy_store_libs_def by (rule toy_signatures_documented)
  ultimately show ?thesis by (simp add: store_documented_def store_postcard_documented_def)
qed

section \<open>Requests\<close>

definition sample_mailbox :: bytes where
  "sample_mailbox = mailbox_id toy_libs sample_address"

lemma mailbox_sample [simp]: "mailbox_id toy_store_libs sample_address = sample_mailbox" "length sample_mailbox = 32"
proof -
  show "mailbox_id toy_store_libs sample_address = sample_mailbox"
    unfolding toy_store_libs_def sample_mailbox_def by (rule mailbox_id_toy)
  show "length sample_mailbox = 32" by (simp add: sample_mailbox_def)
qed

text \<open>The authorisation to store an envelope, and the record the store makes of it at a given time.\<close>

definition sample_auth :: "bytes \<Rightarrow> u64 \<Rightarrow> bytes \<Rightarrow> MailboxWriteAuthorization" where
  "sample_auth item ttl envelope = (let content = \<lparr> wa_version = MAILBOX_VERSION, wa_mailbox_id = sample_mailbox, wa_item_id = item,
      wa_write_key = toy_key [2], wa_requested_ttl_seconds = ttl, wa_envelope_bytes = word_of_nat (length envelope),
      wa_envelope_digest = toy_blake3 envelope \<rparr> in
    \<lparr> wa_content = content, wa_signature = toy_sign (toy_key [2]) (WRITE_AUTHORIZATION_DOMAIN @ frame (write_content_fields content)) \<rparr>)"

definition sample_receipt :: "bytes \<Rightarrow> u64 \<Rightarrow> bytes \<Rightarrow> u64 \<Rightarrow> MailboxStoredReceipt" where
  "sample_receipt item ttl envelope now = (let content = \<lparr> sr_version = MAILBOX_VERSION, sr_store_key = toy_key [3],
      sr_mailbox_id = sample_mailbox, sr_item_id = item, sr_envelope_bytes = word_of_nat (length envelope),
      sr_envelope_digest = toy_blake3 envelope, sr_stored_at_unix_seconds = now, sr_expires_at_unix_seconds = now + ttl \<rparr> in
    \<lparr> sr_content = content, sr_signature = toy_sign (toy_key [3]) (STORED_RECEIPT_DOMAIN @ frame (stored_content_fields content)) \<rparr>)"

definition sample_record :: "bytes \<Rightarrow> u64 \<Rightarrow> bytes \<Rightarrow> u64 \<Rightarrow> StoredRecord" where
  "sample_record item ttl envelope now = \<lparr> rec_version = RECORD_VERSION, rec_requested_ttl_seconds = ttl,
     rec_envelope = envelope, rec_receipt = sample_receipt item ttl envelope now \<rparr>"

definition sample_config :: MailboxStoreConfig where
  "sample_config = \<lparr> data_dir = ''mailbox'', max_envelope_bytes = 2, max_items_per_mailbox = 2, max_total_items = 3, max_total_bytes = 3 \<rparr>"

definition sample_database :: database where
  "sample_database = empty_database\<lparr> meta_table := t_insert TOTAL_ITEMS_KEY 0 (t_insert TOTAL_BYTES_KEY 0 []),
     identity_table := t_insert STORE_KEY (toy_key [3]) [] \<rparr>"

definition sample_store :: BlindMailboxStore where
  "sample_store = \<lparr> store_database = sample_database, store_identity = [3], store_config = sample_config \<rparr>"

lemma sample_config_valid: "config_validate sample_config = Inr ()"
  by (simp add: config_validate_def sample_config_def MAX_MAILBOX_ENVELOPE_BYTES_def MAX_ABSOLUTE_ITEMS_PER_MAILBOX_def
      MAX_ABSOLUTE_ITEMS_def MAX_ABSOLUTE_TOTAL_BYTES_def)

lemma sample_store_opened: "fst (store_open toy_store_libs sample_config [3] True empty_database) = Inr sample_store"
proof -
  have "init_meta TOTAL_ITEMS_KEY (init_meta TOTAL_BYTES_KEY []) = t_insert TOTAL_ITEMS_KEY 0 (t_insert TOTAL_BYTES_KEY 0 [])"
    using meta_keys_differ by (simp add: init_meta_def t_get_def)
  moreover have "t_get (t_insert TOTAL_ITEMS_KEY (0 :: u64) (t_insert TOTAL_BYTES_KEY 0 [])) k = (if k = TOTAL_ITEMS_KEY \<or> k = TOTAL_BYTES_KEY then Some 0 else None)" for k
    by (simp add: t_get_insert t_valid_insert t_valid_def) (simp add: t_get_def)
  ultimately show ?thesis
    by (simp add: store_open_def sample_config_valid init_identity_def t_get_def [of "[]"] empty_database_def Let_def split_beta
        live_usage_def read_meta_def sample_store_def sample_database_def)
qed

lemma sample_reachable: "store_reachable toy_store_libs sample_config [3] sample_store"
  by (rule store_reachable.created [OF sample_store_opened])

lemma sample_auth_verifies:
  assumes "length item = 32" and "validate_ttl ttl = Inr ()" and "validate_envelope_bytes envelope = Inr ()"
  shows "write_authorization_verify toy_store_libs (sample_auth item ttl envelope) sample_address envelope = Inr ()"
proof -
  have "address_verify toy_store_libs sample_address = Inr ()" by (simp add: toy_store_libs_def)
  moreover have "length envelope < 256 ^ 8" using assms(3) by (simp add: result_simps MAX_MAILBOX_ENVELOPE_BYTES_def)
  ultimately show ?thesis using assms
    by (simp add: write_verify_iff sample_auth_def Let_def write_content_fields_def framed_short)
qed

lemma sample_record_valid:
  assumes "length item = 32" and "validate_ttl ttl = Inr ()" and "validate_envelope_bytes envelope = Inr ()"
    and "unat now + unat ttl < 2 ^ 64"
  shows "stored_receipt toy_store_libs [3] sample_mailbox item envelope now (now + ttl) = Inr (sample_receipt item ttl envelope now)"
    and "record_validate toy_store_libs (sample_record item ttl envelope now) = Inr ()"
proof -
  have t: "unat (now + ttl) = unat now + unat ttl" using assms(4) by (rule unat_add_u64)
  have ttl: "unat ttl \<ge> 60" using assms(2) by (simp add: result_simps word_le_nat_alt MIN_MAILBOX_TTL_SECONDS_def)
  have less: "now < now + ttl" using t ttl by (simp add: word_less_nat_alt)
  have sub: "u64_saturating_sub (now + ttl) now = ttl"
    using less_imp_le [OF less] by (simp add: u64_saturating_sub_def)
  show made: "stored_receipt toy_store_libs [3] sample_mailbox item envelope now (now + ttl) = Inr (sample_receipt item ttl envelope now)"
    using assms(1) by (simp add: stored_receipt_Inr sample_receipt_def Let_def stored_content_fields_def framed_short)
  have "stored_receipt_verify toy_store_libs (sample_receipt item ttl envelope now) envelope = Inr ()"
    by (rule stored_receipt_verifies [OF _ made assms(3) less]) (use toy_store_documented in \<open>simp add: store_documented_def\<close>)
  with assms(2) sub show "record_validate toy_store_libs (sample_record item ttl envelope now) = Inr ()"
    by (simp add: record_validate_Inr sample_record_def sample_receipt_def Let_def validate_ttl_Inr)
qed

lemma sample_candidate:
  assumes "length item = 32" and "validate_ttl ttl = Inr ()" and "envelope \<noteq> []" and "length envelope \<le> 2"
    and "unat now + unat ttl < 2 ^ 64" and "store_config s = sample_config" and "store_identity s = [3]"
  shows "put_candidate toy_store_libs s sample_address (sample_auth item ttl envelope) envelope now = Inr (sample_record item ttl envelope now)"
proof -
  have e: "validate_envelope_bytes envelope = Inr ()" using assms(3,4) by (simp add: result_simps MAX_MAILBOX_ENVELOPE_BYTES_def)
  have a: "wa_item_id (wa_content (sample_auth item ttl envelope)) = item"
      "wa_requested_ttl_seconds (wa_content (sample_auth item ttl envelope)) = ttl"
    by (simp_all add: sample_auth_def Let_def)
  show ?thesis
    using sample_auth_verifies [OF assms(1,2) e] sample_record_valid [OF assms(1,2) e assms(5)] assms(4-7)
    by (simp add: put_candidate_def a sample_config_def u64_checked_add_def record_new_def Let_def flip: sample_record_def)
qed

definition sample_value :: "bytes \<Rightarrow> u64 \<Rightarrow> bytes \<Rightarrow> u64 \<Rightarrow> bytes" where
  "sample_value item ttl envelope now = frame (record_fields (sample_record item ttl envelope now))"

lemma sample_record_encodes:
  assumes "length item = 32" and "length envelope \<le> 2"
  shows "framed (record_fields (sample_record item ttl envelope now)) = Some (sample_value item ttl envelope now)"
  using assms by (simp add: framed_short record_fields_def stored_fields_def stored_content_fields_def sample_record_def
      sample_receipt_def Let_def sample_value_def)

lemma sample_value_decodes:
  assumes "length item = 32" and "validate_ttl ttl = Inr ()" and "envelope \<noteq> []" and "length envelope \<le> 2" and "unat now + unat ttl < 2 ^ 64"
  shows "record_encode toy_store_libs (sample_record item ttl envelope now) = Inr (sample_value item ttl envelope now)"
    and "record_decode toy_store_libs (sample_value item ttl envelope now) = Inr (sample_record item ttl envelope now)"
proof -
  have e: "validate_envelope_bytes envelope = Inr ()" using assms(3,4) by (simp add: result_simps MAX_MAILBOX_ENVELOPE_BYTES_def)
  show enc: "record_encode toy_store_libs (sample_record item ttl envelope now) = Inr (sample_value item ttl envelope now)"
    using sample_record_valid(2) [OF assms(1,2) e assms(5)] sample_record_encodes [OF assms(1,4)] by (simp add: record_encode_def)
  have c: "put_candidate toy_store_libs sample_store sample_address (sample_auth item ttl envelope) envelope now
      = Inr (sample_record item ttl envelope now)"
    using sample_candidate [OF assms, of sample_store] by (simp add: sample_store_def)
  have "length (wa_item_id (wa_content (sample_auth item ttl envelope))) = 32" using assms(1) by (simp add: sample_auth_def Let_def)
  from candidate_decodes(1) [OF toy_store_documented c this enc]
  show "record_decode toy_store_libs (sample_value item ttl envelope now) = Inr (sample_record item ttl envelope now)" .
qed


section \<open>A run\<close>

text \<open>A put into an empty place of a store with room.\<close>

definition stored_database :: "bytes \<Rightarrow> u64 \<Rightarrow> bytes \<Rightarrow> u64 \<Rightarrow> u64 \<Rightarrow> u64 \<Rightarrow> u64 \<Rightarrow> database \<Rightarrow> database" where
  "stored_database item ttl envelope now ti tb mc db = write_meta ti tb (write_mailbox_count sample_mailbox mc
     (db\<lparr> item_table := t_insert (item_key sample_mailbox item) (sample_value item ttl envelope now) (item_table db) \<rparr>))"

lemma sample_put_created:
  assumes ok: "length item = 32" "validate_ttl ttl = Inr ()" "envelope \<noteq> []" "length envelope \<le> 2" "unat now + unat ttl < 2 ^ 64"
    and s: "store_config s = sample_config" "store_identity s = [3]"
    and free: "t_get (item_table (store_database s)) (item_key sample_mailbox item) = None"
      "t_get (tombstone_table (store_database s)) (item_key sample_mailbox item) = None"
    and counters: "read_meta (store_database s) = (ti, tb)" "read_mailbox_count (store_database s) sample_mailbox = mc"
    and room: "ti < 3" "mc < 2" "u64_saturating_add tb (word_of_nat (length envelope)) \<le> 3"
  shows "store_put toy_store_libs s sample_address (sample_auth item ttl envelope) envelope now
    = (Inr (Created (sample_receipt item ttl envelope now)), s\<lparr> store_database :=
        stored_database item ttl envelope now (ti + 1) (u64_saturating_add tb (word_of_nat (length envelope))) (mc + 1) (store_database s) \<rparr>)"
proof -
  have item: "wa_item_id (wa_content (sample_auth item ttl envelope)) = item" by (simp add: sample_auth_def Let_def)
  have rec: "rec_envelope (sample_record item ttl envelope now) = envelope"
      "rec_receipt (sample_record item ttl envelope now) = sample_receipt item ttl envelope now"
    by (simp_all add: sample_record_def)
  have "put_txn toy_store_libs sample_config sample_mailbox (item_key sample_mailbox item) (sample_record item ttl envelope now) now (store_database s)
      = Inr (Created (sample_receipt item ttl envelope now),
          stored_database item ttl envelope now (ti + 1) (u64_saturating_add tb (word_of_nat (length envelope))) (mc + 1) (store_database s))"
    using free counters room sample_value_decodes(1) [OF ok]
    by (simp add: put_txn_def put_current_def put_tombstone_def put_expired_def Let_def rec sample_config_def stored_database_def not_le not_less)
  then show ?thesis using sample_candidate [OF ok s] s by (simp add: store_put_def transact_def item Let_def)
qed

definition item_a :: bytes where "item_a = replicate 32 7"
definition item_b :: bytes where "item_b = replicate 32 8"

lemma sample_items [simp]: "length item_a = 32" "length item_b = 32" "item_a \<noteq> item_b"
    "item_key sample_mailbox item_a \<noteq> item_key sample_mailbox item_b" "item_key sample_mailbox item_b \<noteq> item_key sample_mailbox item_a"
  by (simp_all add: item_a_def item_b_def item_key_def replicate_eq_replicate)

lemma sample_keys_less: "item_key sample_mailbox item_a < item_key sample_mailbox item_b"
proof -
  have "replicate (Suc 31) (7 :: u8) < replicate (Suc 31) 8" unfolding replicate_Suc by simp
  then show ?thesis by (simp add: item_key_def append_less_same item_a_def item_b_def)
qed

definition store_a :: BlindMailboxStore where
  "store_a = sample_store\<lparr> store_database := stored_database item_a 60 [9] 1000 1 1 1 sample_database \<rparr>"

definition store_ab :: BlindMailboxStore where
  "store_ab = store_a\<lparr> store_database := stored_database item_b 120 [1, 2] 1000 2 3 2 (store_database store_a) \<rparr>"

lemma stored_database_simps [simp]:
  assumes "t_valid (item_table db)" "t_valid (mailbox_count_table db)" "t_valid (meta_table db)"
  shows "read_meta (stored_database item ttl e now ti tb mc db) = (ti, tb)"
    "read_mailbox_count (stored_database item ttl e now ti tb mc db) sample_mailbox = mc"
    "t_get (item_table (stored_database item ttl e now ti tb mc db)) k
      = (if k = item_key sample_mailbox item then Some (sample_value item ttl e now) else t_get (item_table db) k)"
    "tombstone_table (stored_database item ttl e now ti tb mc db) = tombstone_table db"
    "t_valid (item_table (stored_database item ttl e now ti tb mc db))"
    "t_valid (mailbox_count_table (stored_database item ttl e now ti tb mc db))"
    "t_valid (meta_table (stored_database item ttl e now ti tb mc db))"
    "item_table (stored_database item ttl e now ti tb mc db) = t_insert (item_key sample_mailbox item) (sample_value item ttl e now) (item_table db)"
  using assms by (simp_all add: stored_database_def t_get_insert t_valid_insert)

lemma small_table [simp]: "t_valid []" "t_get [] k = None" "t_valid [(k, v)]"
  by (simp_all add: t_valid_def t_get_def)

lemma sample_database_simps [simp]:
  "item_table sample_database = []" "tombstone_table sample_database = []" "mailbox_count_table sample_database = []"
  "read_meta sample_database = (0, 0)" "read_mailbox_count sample_database m = 0" "t_valid (meta_table sample_database)"
  by (simp_all add: sample_database_def empty_database_def read_meta_def read_mailbox_count_def t_get_insert t_valid_insert
      del: t_insert.simps)

lemma sample_ttls [simp]: "validate_ttl 60 = Inr ()" "validate_ttl 120 = Inr ()"
  by (simp_all add: result_simps mailbox_limits)

lemma put_a: "store_put toy_store_libs sample_store sample_address (sample_auth item_a 60 [9]) [9] 1000
    = (Inr (Created (sample_receipt item_a 60 [9] 1000)), store_a)"
  by (subst sample_put_created [where ti = 0 and tb = 0 and mc = 0])
    (simp_all add: sample_store_def store_a_def u64_saturating_add_def)

lemma put_b: "store_put toy_store_libs store_a sample_address (sample_auth item_b 120 [1, 2]) [1, 2] 1000
    = (Inr (Created (sample_receipt item_b 120 [1, 2] 1000)), store_ab)"
  by (subst sample_put_created [where ti = 1 and tb = 1 and mc = 1])
    (simp_all add: sample_store_def store_a_def store_ab_def u64_saturating_add_def t_get_def)

lemma reachable_ab: "store_reachable toy_store_libs sample_config [3] store_a" "store_reachable toy_store_libs sample_config [3] store_ab"
proof -
  have len: "length (wa_item_id (wa_content (sample_auth item_a 60 [9]))) = 32" "length (wa_item_id (wa_content (sample_auth item_b 120 [1, 2]))) = 32"
    by (simp_all add: sample_auth_def Let_def)
  show a: "store_reachable toy_store_libs sample_config [3] store_a"
    using store_reachable.put [OF sample_reachable len(1), of sample_address "[9]" 1000] by (simp add: put_a)
  show "store_reachable toy_store_libs sample_config [3] store_ab"
    using store_reachable.put [OF a len(2), of sample_address "[1, 2]" 1000] by (simp add: put_b)
qed


section \<open>A deletion and a listing\<close>

definition receipt_a :: bytes where
  "receipt_a = toy_blake3 (RECEIPT_ID_DOMAIN @ frame (stored_fields (sample_receipt item_a 60 [9] 1000)))"

lemma receipt_a_id: "stored_receipt_id toy_store_libs (sample_receipt item_a 60 [9] 1000) = Inr receipt_a"
proof -
  have "record_validate toy_store_libs (sample_record item_a 60 [9] 1000) = Inr ()"
    by (rule sample_record_valid(2)) (simp_all add: result_simps MAX_MAILBOX_ENVELOPE_BYTES_def)
  then have "stored_receipt_verify_signature toy_store_libs (sample_receipt item_a 60 [9] 1000) = Inr ()"
    by (intro stored_signature_of_verify [of _ _ "[9]"]) (simp add: record_validate_Inr sample_record_def)
  moreover have "framed (stored_fields (sample_receipt item_a 60 [9] 1000)) = Some (frame (stored_fields (sample_receipt item_a 60 [9] 1000)))"
      "length (frame (stored_fields (sample_receipt item_a 60 [9] 1000))) \<le> 1024"
    by (simp_all add: framed_short length_frame stored_fields_def stored_content_fields_def sample_receipt_def Let_def)
  ultimately show ?thesis
    by (simp add: stored_receipt_id_def stored_receipt_encode_def MAX_RECEIPT_BYTES_def receipt_a_def)
qed

definition sample_read :: "MailboxReadOperation \<Rightarrow> MailboxReadAuthorization" where
  "sample_read operation = (let content = \<lparr> ra_version = MAILBOX_VERSION, ra_mailbox_id = sample_mailbox,
      ra_read_key = toy_key [1], ra_operation = operation \<rparr> in
    \<lparr> ra_content = content, ra_signature = toy_sign (toy_key [1]) (READ_AUTHORIZATION_DOMAIN @ frame (read_content_fields content)) \<rparr>)"

lemma sample_read_operation [simp]: "ra_operation (ra_content (sample_read operation)) = operation"
  by (simp add: sample_read_def Let_def)

lemma sample_read_verifies:
  "read_authorization_verify toy_store_libs (sample_read (DeleteOp item_a receipt_a)) sample_address = Inr ()"
  "read_authorization_verify toy_store_libs (sample_read (ListOp item_a None 1)) sample_address = Inr ()"
  by (simp_all add: read_verify_iff sample_read_def Let_def read_content_fields_def framed_short receipt_a_def
      toy_store_libs_def [THEN arg_cong, of "\<lambda>l. address_verify l sample_address"] MAX_MAILBOX_PAGE_ITEMS_def)

definition delete_receipt_a :: MailboxDeleteReceipt where
  "delete_receipt_a = (let content = \<lparr> dr_version = MAILBOX_VERSION, dr_store_key = toy_key [3], dr_mailbox_id = sample_mailbox,
      dr_item_id = item_a, dr_stored_receipt_id = receipt_a, dr_deleted_at_unix_seconds = 1010, dr_expires_at_unix_seconds = 1060 \<rparr> in
    \<lparr> dr_content = content, dr_signature = toy_sign (toy_key [3]) (DELETE_RECEIPT_DOMAIN @ frame (delete_content_fields content)) \<rparr>)"

lemma delete_a: "fst (store_delete toy_store_libs store_a sample_address (sample_read (DeleteOp item_a receipt_a)) 1010)
    = Inr (Deleted delete_receipt_a)"
proof -
  let ?lib = toy_store_libs and ?key = "item_key sample_mailbox item_a" and ?v = "sample_value item_a 60 [9] 1000"
  have dec: "record_decode ?lib ?v = Inr (sample_record item_a 60 [9] 1000)" by (rule sample_value_decodes(2)) simp_all
  have items: "item_table (store_database store_a) = [(?key, ?v)]" "tombstone_table (store_database store_a) = []"
    by (simp_all add: store_a_def)
  have "retain_item ?lib 1010 ?key ?v"
    by (simp add: retain_item_def dec record_expired_at_def sample_record_def sample_receipt_def Let_def ITEM_KEY_BYTES_def item_key_def)
  then obtain report s where clean: "store_cleanup ?lib store_a 1010 = (Inr report, s)" "store_config s = sample_config" "store_identity s = [3]"
      "item_table (store_database s) = [(?key, ?v)]" "tombstone_table (store_database s) = []"
    using items by (auto simp: store_cleanup_def cleanup_txn_def transact_def Let_def split_beta t_retain_def store_a_def sample_store_def)
  have rid: "stored_receipt_id ?lib (rec_receipt (sample_record item_a 60 [9] 1000)) = Inr receipt_a"
    using receipt_a_id by (simp add: sample_record_def)
  have made: "Mailbox.delete_receipt ?lib [3] sample_mailbox item_a receipt_a 1010
      (sr_expires_at_unix_seconds (sr_content (rec_receipt (sample_record item_a 60 [9] 1000)))) = Inr delete_receipt_a"
    by (simp add: delete_receipt_Inr delete_receipt_a_def Let_def sample_record_def sample_receipt_def delete_content_fields_def
        framed_short receipt_a_def)
  have "delete_receipt_verify ?lib delete_receipt_a = Inr ()"
    by (rule delete_receipt_verifies [OF _ made])
      (use toy_store_documented in \<open>simp_all add: store_documented_def sample_record_def sample_receipt_def Let_def\<close>)
  then obtain b where "tombstone_encode ?lib \<lparr> tomb_version = RECORD_VERSION, tomb_stored_receipt_id = receipt_a,
      tomb_delete_receipt = delete_receipt_a \<rparr> = Inr b"
    by (simp add: tombstone_encode_def tombstone_validate_def tombstone_fields_def delete_fields_def delete_content_fields_def
        delete_receipt_a_def Let_def framed_short receipt_a_def)
  then have "fst (transact (delete_txn ?lib s sample_mailbox item_a receipt_a 1010) s) = Inr (Deleted delete_receipt_a)"
    using clean(2-5) dec rid made
    by (simp add: transact_def delete_txn_def delete_current_def Let_def t_get_def sample_config_def split_beta)
  then show ?thesis using clean(1) sample_read_verifies(1) by (simp add: store_delete_def)
qed


end
