(* ===== verification/Store_Properties.thy ===== *)
theory Store_Properties
  imports Store_Sample
begin

text \<open>
  The properties of the blind mailbox store. A store is seen as two finite maps, the records and the
  tombstones it holds; the specification of each request is a function on that view, and the requests
  of the model refine it. Capacity, survival of stored items, replay protection and paging follow.
\<close>

section \<open>Views and specifications\<close>

record mailbox_view =
  view_items :: "bytes \<Rightarrow> StoredRecord option"
  view_tombstones :: "bytes \<Rightarrow> StoredTombstone option"

definition ok_option :: "'e + 'a \<Rightarrow> 'a option" where
  "ok_option r = (case r of Inl _ \<Rightarrow> None | Inr x \<Rightarrow> Some x)"

definition view_of :: "'a store_libs_scheme \<Rightarrow> database \<Rightarrow> mailbox_view" where
  "view_of lib db = \<lparr> view_items = (\<lambda>key. Option.bind (t_get (item_table db) key) (\<lambda>v. ok_option (record_decode lib v))),
     view_tombstones = (\<lambda>key. Option.bind (t_get (tombstone_table db) key) (\<lambda>v. ok_option (tombstone_decode lib v))) \<rparr>"

definition put_spec :: "bytes \<Rightarrow> StoredRecord \<Rightarrow> u64 \<Rightarrow> bool \<Rightarrow> mailbox_view \<Rightarrow> MailboxPutOutcome \<times> mailbox_view" where
  "put_spec key candidate now full view =
     (let free = view\<lparr> view_items := (view_items view)(key := None), view_tombstones := (view_tombstones view)(key := None) \<rparr>;
          blocked = (case view_tombstones view key of None \<Rightarrow> False | Some t \<Rightarrow> \<not> tombstone_expired_at t now);
          store = (if blocked then (Tombstoned, view)
                   else if full then (CapacityExceeded, free)
                   else (Created (rec_receipt candidate), free\<lparr> view_items := (view_items view)(key \<mapsto> candidate) \<rparr>)) in
      case view_items view key of
        None \<Rightarrow> store
      | Some current \<Rightarrow>
         if record_expired_at current now then store
         else if rec_requested_ttl_seconds current = rec_requested_ttl_seconds candidate
              \<and> rec_envelope current = rec_envelope candidate
         then (AlreadyPresent (rec_receipt current), view) else (Conflict, view))"

definition cleanup_spec :: "u64 \<Rightarrow> mailbox_view \<Rightarrow> mailbox_view" where
  "cleanup_spec now view =
     \<lparr> view_items = (\<lambda>key. case view_items view key of None \<Rightarrow> None
          | Some r \<Rightarrow> if record_expired_at r now then None else Some r),
       view_tombstones = (\<lambda>key. case view_tombstones view key of None \<Rightarrow> None
          | Some t \<Rightarrow> if tombstone_expired_at t now then None else Some t) \<rparr>"

text \<open>Usage that leaves no room for the candidate once the entry under its key is out.\<close>

definition over_capacity :: "'a store_libs_scheme \<Rightarrow> MailboxStoreConfig \<Rightarrow> bytes \<Rightarrow> StoredRecord \<Rightarrow> database \<Rightarrow> bool" where
  "over_capacity lib config key candidate db \<longleftrightarrow>
     (let rest = db\<lparr> item_table := t_remove key (item_table db) \<rparr> in
      stored_items rest \<ge> unat (max_total_items config)
      \<or> stored_in_mailbox (take 32 key) rest \<ge> unat (max_items_per_mailbox config)
      \<or> stored_bytes lib rest + length (rec_envelope candidate) > unat (max_total_bytes config))"

definition counters_exact :: "'a store_libs_scheme \<Rightarrow> database \<Rightarrow> bool" where
  "counters_exact lib db \<longleftrightarrow> unat (fst (read_meta db)) = stored_items db \<and> unat (snd (read_meta db)) = stored_bytes lib db
     \<and> (\<forall>m. unat (read_mailbox_count db m) = stored_in_mailbox m db)"

section \<open>Facts\<close>

lemma view_item_Some:
  assumes "tables_ok lib identity db" and "t_get (item_table db) key = Some v"
  obtains r where "record_decode lib v = Inr r" "view_items (view_of lib db) key = Some r"
  using tables_item [OF assms] assms(2) by (auto simp: item_ok_def view_of_def ok_option_def)

lemma view_tombstone_Some:
  assumes "tables_ok lib identity db" and "t_get (tombstone_table db) key = Some v"
  obtains t where "tombstone_decode lib v = Inr t" "view_tombstones (view_of lib db) key = Some t"
  using tables_tombstone [OF assms] assms(2) by (auto simp: tombstone_ok_def view_of_def ok_option_def)

lemma view_None:
  "t_get (item_table db) key = None \<Longrightarrow> view_items (view_of lib db) key = None"
  "t_get (tombstone_table db) key = None \<Longrightarrow> view_tombstones (view_of lib db) key = None"
  by (simp_all add: view_of_def)

lemma view_remove:
  assumes "tables_ok lib identity db"
  shows "view_of lib (db\<lparr> item_table := t_remove key (item_table db) \<rparr>)
      = (view_of lib db)\<lparr> view_items := (view_items (view_of lib db))(key := None) \<rparr>"
    and "view_of lib (db\<lparr> tombstone_table := t_remove key (tombstone_table db) \<rparr>)
      = (view_of lib db)\<lparr> view_tombstones := (view_tombstones (view_of lib db))(key := None) \<rparr>"
  using assms by (auto simp: view_of_def tables_ok_def tbl.get_remove fun_eq_iff)

lemma view_insert:
  assumes "tables_ok lib identity db" and "record_decode lib b = Inr r"
  shows "view_of lib (db\<lparr> item_table := t_insert key b (item_table db) \<rparr>)
      = (view_of lib db)\<lparr> view_items := (view_items (view_of lib db))(key \<mapsto> r) \<rparr>"
  using assms by (auto simp: view_of_def tables_ok_def t_get_insert fun_eq_iff ok_option_def)

lemma view_counters [simp]:
  "view_of lib (write_meta i b db) = view_of lib db" "view_of lib (write_mailbox_count m n db) = view_of lib db"
  by (simp_all add: view_of_def)

lemma put_expired_Inr:
  assumes "tables_ok lib identity db"
  obtains ti tb mc where "put_expired lib mailbox key db
      = Inr (ti, tb, mc, db\<lparr> item_table := t_remove key (item_table db) \<rparr>)"
proof (cases "t_get (item_table db) key")
  case None
  have "t_valid (item_table db)" using assms by (simp add: tables_ok_def)
  from tbl.remove_absent [OF this None] have "db\<lparr> item_table := t_remove key (item_table db) \<rparr> = db" by simp
  with None that show thesis by (auto simp: put_expired_def Let_def split_beta)
next
  case (Some v)
  obtain r where "record_decode lib v = Inr r" by (rule view_item_Some [OF assms Some])
  with Some that show thesis by (auto simp: put_expired_def Let_def split_beta)
qed

lemma put_expired_exact:
  assumes tables: "tables_ok lib identity db" and cover: "counters_cover lib db" and exact: "counters_exact lib db"
    and mb: "take 32 key = mailbox" and p: "put_expired lib mailbox key db = Inr (ti, tb, mc, db')"
  shows "unat ti = stored_items db' \<and> unat tb = stored_bytes lib db' \<and> unat mc = stored_in_mailbox mailbox db'"
proof -
  have v: "t_valid (item_table db)" using tables by (simp add: tables_ok_def)
  note db' = put_expired_covers(10) [OF tables cover mb p]
  show ?thesis
  proof (cases "t_get (item_table db) key")
    case None
    from tbl.remove_absent [OF v None] have "db' = db" by (simp add: db')
    with p None exact show ?thesis by (auto simp: put_expired_def Let_def split_beta counters_exact_def)
  next
    case (Some w)
    with p obtain r where r: "record_decode lib w = Inr r" "ti = u64_saturating_sub (fst (read_meta db)) 1"
        "tb = u64_saturating_sub (snd (read_meta db)) (word_of_nat (length (rec_envelope r)))"
        "mc = u64_saturating_sub (read_mailbox_count db mailbox) 1"
      by (auto simp: put_expired_def Let_def split_beta result_simps)
    note weights = item_weights [OF tables_item [OF tables Some] r(1)]
    have "stored_in_mailbox mailbox db = stored_in_mailbox mailbox db' + 1"
      using stored_remove(3) [OF v Some, of mailbox] mb by (simp add: db' mailbox_weight_def)
    with exact stored_remove(1) [OF v Some] stored_remove(2) [OF v Some, of lib] weights show ?thesis
      unfolding r unat_saturating_sub by (simp add: counters_exact_def db')
  qed
qed

definition put_full :: "MailboxStoreConfig \<Rightarrow> StoredRecord \<Rightarrow> u64 \<Rightarrow> u64 \<Rightarrow> u64 \<Rightarrow> bool" where
  "put_full config candidate ti tb mc \<longleftrightarrow> ti \<ge> max_total_items config \<or> mc \<ge> max_items_per_mailbox config
     \<or> u64_saturating_add tb (word_of_nat (length (rec_envelope candidate))) > max_total_bytes config"

lemma put_full_iff:
  assumes "config_validate config = Inr ()" and "length (rec_envelope candidate) \<le> MAX_MAILBOX_ENVELOPE_BYTES"
  shows "put_full config candidate ti tb mc \<longleftrightarrow> unat ti \<ge> unat (max_total_items config)
    \<or> unat mc \<ge> unat (max_items_per_mailbox config) \<or> unat tb + length (rec_envelope candidate) > unat (max_total_bytes config)"
  using config_bytes_bounded [OF assms(1)]
  by (auto simp: put_full_def word_le_nat_alt word_less_nat_alt unat_saturating_add unat_envelope_length [OF assms(2)] min_def)

lemma put_current_cases:
  assumes tables: "tables_ok lib identity db"
  obtains (live) r where "view_items (view_of lib db) key = Some r" "\<not> record_expired_at r now"
      "put_current lib key c now db = Inr (Some (if rec_requested_ttl_seconds r = rec_requested_ttl_seconds c
         \<and> rec_envelope r = rec_envelope c then AlreadyPresent (rec_receipt r) else Conflict))"
  | (free) "put_current lib key c now db = Inr None" "\<And>r. view_items (view_of lib db) key = Some r \<Longrightarrow> record_expired_at r now"
proof (cases "t_get (item_table db) key")
  case None
  then show ?thesis by (intro free) (simp_all add: put_current_def view_None)
next
  case (Some v)
  obtain r where "record_decode lib v = Inr r" "view_items (view_of lib db) key = Some r"
    by (rule view_item_Some [OF tables Some])
  then show ?thesis using Some free live by (cases "record_expired_at r now") (auto simp: put_current_def)
qed

definition without_tombstone :: "bytes \<Rightarrow> database \<Rightarrow> database" where
  "without_tombstone key db = (if t_get (tombstone_table db) key = None then db
     else db\<lparr> tombstone_table := t_remove key (tombstone_table db) \<rparr>)"

lemma put_tombstone_cases:
  assumes tables: "tables_ok lib identity db"
  obtains (blocked) t where "view_tombstones (view_of lib db) key = Some t" "\<not> tombstone_expired_at t now"
      "put_tombstone lib key now db = Inr (True, db)"
  | (clear) "put_tombstone lib key now db = Inr (False, without_tombstone key db)"
      "\<And>t. view_tombstones (view_of lib db) key = Some t \<Longrightarrow> tombstone_expired_at t now"
proof (cases "t_get (tombstone_table db) key")
  case None
  then show ?thesis by (intro clear) (simp_all add: put_tombstone_def view_None without_tombstone_def)
next
  case (Some v)
  obtain t where "tombstone_decode lib v = Inr t" "view_tombstones (view_of lib db) key = Some t"
    by (rule view_tombstone_Some [OF tables Some])
  then show ?thesis using Some clear blocked
    by (cases "tombstone_expired_at t now") (auto simp: put_tombstone_def without_tombstone_def)
qed

lemma without_tombstone:
  assumes "tables_ok lib identity db" and "counters_cover lib db"
  shows "tables_ok lib identity (without_tombstone key db)" "counters_cover lib (without_tombstone key db)"
    "view_of lib (without_tombstone key db)
       = (view_of lib db)\<lparr> view_tombstones := (view_tombstones (view_of lib db))(key := None) \<rparr>"
    "item_table (without_tombstone key db) = item_table db"
    "counters_exact lib db \<Longrightarrow> counters_exact lib (without_tombstone key db)"
  using assms tables_ok_remove(2) [OF assms(1)] view_remove(2) [OF assms(1), of key] view_None(2) [of db key lib]
  by (auto simp: without_tombstone_def counters_cover_def counters_exact_def fun_upd_idem)

lemma put_full_capacity:
  assumes config: "config_validate config = Inr ()" and small: "length (rec_envelope c) \<le> MAX_MAILBOX_ENVELOPE_BYTES"
    and tables: "tables_ok lib identity db" and cover: "counters_cover lib db" and mb: "take 32 key = mailbox"
    and e: "put_expired lib mailbox key (without_tombstone key db) = Inr (ti, tb, mc, db')"
  shows "over_capacity lib config key c db \<Longrightarrow> put_full config c ti tb mc"
    and "counters_exact lib db \<Longrightarrow> put_full config c ti tb mc \<longleftrightarrow> over_capacity lib config key c db"
proof -
  note w = without_tombstone [OF tables cover, of key]
  have rest: "stored_items db' = length (t_remove key (item_table db))"
      "stored_bytes lib db' = stored_bytes lib (db\<lparr> item_table := t_remove key (item_table db) \<rparr>)"
      "stored_in_mailbox m db' = stored_in_mailbox m (db\<lparr> item_table := t_remove key (item_table db) \<rparr>)" for m
    by (simp_all add: put_expired_covers(10) [OF w(1,2) mb e] stored_bytes_def stored_in_mailbox_def w(4))
  show "over_capacity lib config key c db \<Longrightarrow> put_full config c ti tb mc"
    using put_expired_covers(4-6) [OF w(1,2) mb e] mb unfolding put_full_iff [OF config small]
    by (auto simp: over_capacity_def Let_def rest)
  assume "counters_exact lib db"
  from put_expired_exact [OF w(1,2) w(5) [OF this] mb e]
  show "put_full config c ti tb mc \<longleftrightarrow> over_capacity lib config key c db"
    unfolding put_full_iff [OF config small] using mb by (simp add: over_capacity_def Let_def rest)
qed

lemma put_txn_refines:
  assumes config: "config_validate config = Inr ()" and small: "length (rec_envelope c) \<le> MAX_MAILBOX_ENVELOPE_BYTES"
    and tables: "tables_ok lib identity db" and cover: "counters_cover lib db" and mb: "take 32 key = mailbox"
    and enc: "record_encode lib c = Inr b" "record_decode lib b = Inr c"
  shows "\<exists>full db'. put_txn lib config mailbox key c now db = Inr (fst (put_spec key c now full (view_of lib db)), db')
    \<and> view_of lib db' = snd (put_spec key c now full (view_of lib db))
    \<and> (over_capacity lib config key c db \<longrightarrow> full)
    \<and> (counters_exact lib db \<longrightarrow> (full \<longleftrightarrow> over_capacity lib config key c db))"
proof -
  define db1 where db1: "db1 = without_tombstone key db"
  note w = without_tombstone [OF tables cover, of key, folded db1]
  obtain ti tb mc where e: "put_expired lib mailbox key db1 = Inr (ti, tb, mc, db1\<lparr> item_table := t_remove key (item_table db1) \<rparr>)"
    by (rule put_expired_Inr [OF w(1)])
  let ?full = "put_full config c ti tb mc"
  have view2: "view_of lib (db1\<lparr> item_table := t_remove key (item_table db1) \<rparr>)
      = (view_of lib db)\<lparr> view_items := (view_items (view_of lib db))(key := None),
          view_tombstones := (view_tombstones (view_of lib db))(key := None) \<rparr>"
    unfolding view_remove(1) [OF w(1)] w(3) by simp
  have tables2: "tables_ok lib identity (db1\<lparr> item_table := t_remove key (item_table db1) \<rparr>)"
    by (rule tables_ok_remove(1) [OF w(1)])
  let ?db2 = "db1\<lparr> item_table := t_remove key (item_table db1) \<rparr>"
  let ?n = "word_of_nat (length (rec_envelope c)) :: u64"
  let ?new = "write_meta (ti + 1) (u64_saturating_add tb ?n) (write_mailbox_count mailbox (mc + 1)
    (?db2\<lparr> item_table := t_insert key b (item_table ?db2) \<rparr>))"
  have new: "view_of lib ?new = (view_of lib db)\<lparr> view_items := (view_items (view_of lib db))(key \<mapsto> c),
      view_tombstones := (view_tombstones (view_of lib db))(key := None) \<rparr>"
    using view_insert [OF tables2 enc(2), of key] unfolding view2 by simp
  have store: "\<exists>db'. put_txn lib config mailbox key c now db = Inr (fst (put_spec key c now ?full (view_of lib db)), db')
      \<and> view_of lib db' = snd (put_spec key c now ?full (view_of lib db))"
    using tables
  proof (cases rule: put_current_cases [where key = key and c = c and now = now])
      case live
      then show ?thesis by (auto simp: put_txn_def put_spec_def Let_def)
    next
      case free
      have spec: "put_spec key c now ?full (view_of lib db) =
          (if (case view_tombstones (view_of lib db) key of None \<Rightarrow> False | Some t \<Rightarrow> \<not> tombstone_expired_at t now)
           then (Tombstoned, view_of lib db)
           else if ?full then (CapacityExceeded, view_of lib ?db2) else (Created (rec_receipt c), view_of lib ?new))"
        unfolding new view2 using free(2) by (auto simp: put_spec_def Let_def split: option.splits)
      from tables show ?thesis
      proof (cases rule: put_tombstone_cases [where key = key and now = now])
        case blocked
        then show ?thesis using free(1) by (simp add: spec put_txn_def)
      next
        case clear
        then show ?thesis using free(1) e enc(1) unfolding spec db1
          by (auto simp: put_txn_def Let_def put_full_def split: option.splits)
      qed
    qed
  with put_full_capacity [OF config small tables cover mb e [unfolded db1]] show ?thesis by blast
qed

lemma get_retain:
  assumes "t_valid t"
  shows "t_get (t_retain p t) k = (case t_get t k of None \<Rightarrow> None | Some v \<Rightarrow> if p k v then Some v else None)"
proof -
  have iff: "t_get (t_retain p t) k = Some v \<longleftrightarrow> t_get t k = Some v \<and> p k v" for v
    using t_get_set [OF tbl.valid_retain [OF assms], of p k v] t_get_set [OF assms, of k v] by (auto simp: t_retain_def)
  show ?thesis
  proof (cases "t_get (t_retain p t) k")
    case None
    then have "\<not> (t_get t k = Some v \<and> p k v)" for v using iff [of v] by simp
    with None show ?thesis by (auto split: option.split)
  next
    case (Some v)
    with iff [of v] show ?thesis by simp
  qed
qed

lemma view_cleanup:
  assumes "tables_ok lib identity db" and "item_table db' = live_entries lib now (item_table db)"
    and "tombstone_table db' = t_retain (retain_tombstone lib now) (tombstone_table db)"
  shows "view_of lib db' = cleanup_spec now (view_of lib db)"
proof -
  have v: "t_valid (item_table db)" "t_valid (tombstone_table db)" using assms(1) by (simp_all add: tables_ok_def)
  have "view_items (view_of lib db') key = view_items (cleanup_spec now (view_of lib db)) key" for key
  proof (cases "t_get (item_table db) key")
    case None
    then show ?thesis by (simp add: view_of_def cleanup_spec_def assms(2) live_entries_def get_retain [OF v(1)])
  next
    case (Some w)
    from tables_item [OF assms(1) Some] obtain r where "record_decode lib w = Inr r" "length key = 64" by (rule item_okE)
    with Some show ?thesis
      by (simp add: view_of_def cleanup_spec_def assms(2) live_entries_def get_retain [OF v(1)] retain_item_def ITEM_KEY_BYTES_def ok_option_def)
  qed
  moreover have "view_tombstones (view_of lib db') key = view_tombstones (cleanup_spec now (view_of lib db)) key" for key
  proof (cases "t_get (tombstone_table db) key")
    case None
    then show ?thesis by (simp add: view_of_def cleanup_spec_def assms(3) get_retain [OF v(2)])
  next
    case (Some w)
    from tables_tombstone [OF assms(1) Some] obtain t where "tombstone_decode lib w = Inr t" "length key = 64"
      by (auto simp: tombstone_ok_def)
    with Some show ?thesis
      by (simp add: view_of_def cleanup_spec_def assms(3) get_retain [OF v(2)] retain_tombstone_def ITEM_KEY_BYTES_def ok_option_def)
  qed
  ultimately show ?thesis by (intro mailbox_view.equality ext) simp_all
qed


section \<open>Properties\<close>

text \<open>C2. Whatever requests a store has served since its creation, at whatever times, and across restarts, it
  never holds more than its configuration allows: the number of items, the bytes of their envelopes,
  the items of any one mailbox and the tombstones.\<close>

theorem store_capacity_bounded:
  assumes "store_documented lib" and "store_reachable lib config identity s"
  shows "length (item_table (store_database s)) \<le> unat (max_total_items config)
    \<and> stored_bytes lib (store_database s) \<le> unat (max_total_bytes config)
    \<and> stored_in_mailbox mailbox (store_database s) \<le> unat (max_items_per_mailbox config)
    \<and> length (tombstone_table (store_database s)) \<le> unat (max_total_items config)"
proof -
  have cover: "counters_cover lib (store_database s)" and bounded: "counters_bounded config (store_database s)"
    using reachable_inv [OF assms] by (auto simp: store_inv_def)
  let ?db = "store_database s"
  have "stored_items ?db \<le> unat (fst (read_meta ?db))" "stored_bytes lib ?db \<le> unat (snd (read_meta ?db))"
      "stored_in_mailbox mailbox ?db \<le> unat (read_mailbox_count ?db mailbox)"
    using cover by (simp_all add: counters_cover_def)
  moreover have "unat (fst (read_meta ?db)) \<le> unat (max_total_items config)" "unat (snd (read_meta ?db)) \<le> unat (max_total_bytes config)"
      "unat (read_mailbox_count ?db mailbox) \<le> unat (max_items_per_mailbox config)"
      "length (tombstone_table ?db) \<le> unat (max_total_items config)"
    using bounded by (simp_all add: counters_bounded_def word_le_nat_alt)
  ultimately show ?thesis by linarith
qed

text \<open>C25. Every value a store holds is what its tables promise: an item decodes to a record whose receipt
  matches its envelope, is signed by this store and names the mailbox and item it is filed under; a
  tombstone decodes to a delete receipt signed by this store for the key it is filed under.\<close>

theorem stored_values_typed:
  assumes "store_documented lib" and "store_reachable lib config identity s"
  shows "(t_get (item_table (store_database s)) key = Some v \<longrightarrow>
      (\<exists>r. record_decode lib v = Inr r \<and> stored_receipt_verify lib (rec_receipt r) (rec_envelope r) = Inr ()
         \<and> sr_store_key (sr_content (rec_receipt r)) = lib_verifying_key lib identity
         \<and> key = item_key (sr_mailbox_id (sr_content (rec_receipt r))) (sr_item_id (sr_content (rec_receipt r)))
         \<and> length key = ITEM_KEY_BYTES))
    \<and> (t_get (tombstone_table (store_database s)) key = Some v \<longrightarrow>
      (\<exists>t. tombstone_decode lib v = Inr t \<and> delete_receipt_verify lib (tomb_delete_receipt t) = Inr ()
         \<and> dr_store_key (dr_content (tomb_delete_receipt t)) = lib_verifying_key lib identity
         \<and> key = item_key (dr_mailbox_id (dr_content (tomb_delete_receipt t))) (dr_item_id (dr_content (tomb_delete_receipt t)))
         \<and> length key = ITEM_KEY_BYTES))"
proof -
  have ok: "tables_ok lib identity (store_database s)" using reachable_inv [OF assms] by (auto simp: store_inv_def)
  have "stored_receipt_verify lib (rec_receipt r) (rec_envelope r) = Inr ()" if "record_decode lib v = Inr r" for r
    using that by (simp add: record_decode_Inr result_simps)
  moreover have "delete_receipt_verify lib (tomb_delete_receipt t) = Inr ()" if "tombstone_decode lib v = Inr t" for t
    using that by (simp add: tombstone_decode_Inr tombstone_validate_def result_simps)
  ultimately show ?thesis
    using tables_item [OF ok, of key v] tables_tombstone [OF ok, of key v] length_append
    unfolding item_ok_def tombstone_ok_def ITEM_KEY_BYTES_def item_key_def by fastforce
qed

text \<open>C22. A put does what its specification says on the view of the store: a live item under the same key is
  acknowledged again or conflicts, a live tombstone blocks it, otherwise expired leftovers are dropped
  and the record is stored unless capacity is exhausted. Capacity is refused whenever storing would
  exceed it, and, when the counters are exact, only then.\<close>

theorem put_refines_spec:
  assumes doc: "store_documented lib" and reach: "store_reachable lib config identity s"
    and item: "length (wa_item_id (wa_content a)) = 32"
    and c: "put_candidate lib s address a envelope now = Inr c" and pc: "pc_record lib c \<noteq> None"
  shows "\<exists>full. fst (store_put lib s address a envelope now)
        = Inr (fst (put_spec (item_key (mailbox_id lib address) (wa_item_id (wa_content a))) c now full (view_of lib (store_database s))))
    \<and> view_of lib (store_database (snd (store_put lib s address a envelope now)))
        = snd (put_spec (item_key (mailbox_id lib address) (wa_item_id (wa_content a))) c now full (view_of lib (store_database s)))
    \<and> (over_capacity lib config (item_key (mailbox_id lib address) (wa_item_id (wa_content a))) c (store_database s) \<longrightarrow> full)
    \<and> (counters_exact lib (store_database s) \<longrightarrow>
         (full \<longleftrightarrow> over_capacity lib config (item_key (mailbox_id lib address) (wa_item_id (wa_content a))) c (store_database s)))"
proof -
  let ?m = "mailbox_id lib address"
  let ?key = "item_key ?m (wa_item_id (wa_content a))"
  have inv: "config_validate config = Inr ()" "tables_ok lib identity (store_database s)" "counters_cover lib (store_database s)"
      "store_config s = config"
    using reachable_inv [OF doc reach] by (auto simp: store_inv_def)
  have mb: "take 32 ?key = ?m" using store_documentedD(2) [OF doc] by (simp add: item_key_def mailbox_id_def)
  note p = put_candidate_Inr [OF c]
  have small: "length (rec_envelope c) \<le> MAX_MAILBOX_ENVELOPE_BYTES" using p(1,5) by simp
  obtain b where b: "record_encode lib c = Inr b" using pc p(3) by (auto simp: record_encode_def)
  from put_txn_refines [OF inv(1) small inv(2,3) mb b candidate_decodes(1) [OF doc c item b]]
  obtain full db' where "put_txn lib config ?m ?key c now (store_database s)
        = Inr (fst (put_spec ?key c now full (view_of lib (store_database s))), db')"
      "view_of lib db' = snd (put_spec ?key c now full (view_of lib (store_database s)))"
      "over_capacity lib config ?key c (store_database s) \<longrightarrow> full"
      "counters_exact lib (store_database s) \<longrightarrow> (full \<longleftrightarrow> over_capacity lib config ?key c (store_database s))"
    by blast
  then show ?thesis using c inv(4) by (intro exI [of _ full]) (simp add: store_put_def transact_def Let_def)
qed

text \<open>C24. A cleanup keeps exactly the unexpired items and tombstones, and leaves the counters exact: items,
  bytes and the count of every mailbox equal what the tables hold, and the report gives the same
  numbers with the numbers of removed entries.\<close>

theorem cleanup_refines_spec:
  assumes doc: "store_documented lib" and reach: "store_reachable lib config identity s"
  shows "\<exists>report. fst (store_cleanup lib s now) = Inr report
    \<and> view_of lib (store_database (snd (store_cleanup lib s now))) = cleanup_spec now (view_of lib (store_database s))
    \<and> counters_exact lib (store_database (snd (store_cleanup lib s now)))
    \<and> (live_items report, live_envelope_bytes report) = live_usage (snd (store_cleanup lib s now))
    \<and> unat (removed_items report) + length (item_table (store_database (snd (store_cleanup lib s now))))
        = length (item_table (store_database s))
    \<and> unat (removed_tombstones report) + length (tombstone_table (store_database (snd (store_cleanup lib s now))))
        = length (tombstone_table (store_database s))"
proof -
  have inv: "tables_ok lib identity (store_database s)" "counters_cover lib (store_database s)" "counters_bounded config (store_database s)"
    using reachable_inv [OF doc reach] by (auto simp: store_inv_def)
  obtain report db' where run: "cleanup_txn lib now (store_database s) = Inr (report, db')"
    and t: "item_table db' = live_entries lib now (item_table (store_database s))"
      "tombstone_table db' = t_retain (retain_tombstone lib now) (tombstone_table (store_database s))"
    and exact: "unat (fst (read_meta db')) = stored_items db'" "unat (snd (read_meta db')) = stored_bytes lib db'"
      "\<And>m. unat (read_mailbox_count db' m) = stored_in_mailbox m db'"
    and report: "(live_items report, live_envelope_bytes report) = read_meta db'"
      "unat (removed_items report) = stored_items (store_database s) - stored_items db'"
      "unat (removed_tombstones report) = length (tombstone_table (store_database s)) - length (tombstone_table db')"
    by (rule cleanup_txn_exact [OF inv, of now]) blast
  have s': "store_cleanup lib s now = (Inr report, s\<lparr> store_database := db' \<rparr>)"
    using run by (simp add: store_cleanup_def transact_def)
  have "stored_items db' \<le> stored_items (store_database s)" "length (tombstone_table db') \<le> length (tombstone_table (store_database s))"
    by (simp_all add: t live_length_le t_retain_def)
  then show ?thesis using exact report view_cleanup [OF inv(1) t]
    by (auto simp: s' counters_exact_def live_usage_def)
qed


text \<open>C26. The accounting drifts on one path: a put that finds an expired item under its key and is then refused
  for capacity has removed the item, but leaves every counter as it was, so the counters overcount
  until the next cleanup.\<close>

theorem capacity_refusal_overcounts:
  assumes doc: "store_documented lib" and reach: "store_reachable lib config identity s"
    and c: "put_candidate lib s address a envelope now = Inr c"
    and key: "key = item_key (mailbox_id lib address) (wa_item_id (wa_content a))"
    and expired: "view_items (view_of lib (store_database s)) key = Some r" "record_expired_at r now"
    and free: "t_get (tombstone_table (store_database s)) key = None"
    and full: "over_capacity lib config key c (store_database s)"
  shows "fst (store_put lib s address a envelope now) = Inr CapacityExceeded
    \<and> Suc (length (item_table (store_database (snd (store_put lib s address a envelope now))))) = length (item_table (store_database s))
    \<and> read_meta (store_database (snd (store_put lib s address a envelope now))) = read_meta (store_database s)
    \<and> read_mailbox_count (store_database (snd (store_put lib s address a envelope now))) m = read_mailbox_count (store_database s) m
    \<and> \<not> counters_exact lib (store_database (snd (store_put lib s address a envelope now)))"
proof -
  let ?db = "store_database s" and ?m = "mailbox_id lib address"
  have inv: "config_validate config = Inr ()" "tables_ok lib identity ?db" "counters_cover lib ?db" "store_config s = config"
    using reachable_inv [OF doc reach] by (auto simp: store_inv_def)
  have valid: "t_valid (item_table ?db)" using inv(2) by (simp add: tables_ok_def)
  have mb: "take 32 key = ?m" using store_documentedD(2) [OF doc] by (simp add: key item_key_def mailbox_id_def)
  obtain v where v: "t_get (item_table ?db) key = Some v" "record_decode lib v = Inr r"
    using expired(1) view_item_Some [OF inv(2), of key] view_None(1) [of ?db key lib] by (metis not_Some_eq option.inject)
  obtain ti tb mc where e: "put_expired lib ?m key ?db = Inr (ti, tb, mc, ?db\<lparr> item_table := t_remove key (item_table ?db) \<rparr>)"
    by (rule put_expired_Inr [OF inv(2)])
  have small: "length (rec_envelope c) \<le> MAX_MAILBOX_ENVELOPE_BYTES" using put_candidate_Inr(1,5) [OF c] by simp
  have "without_tombstone key ?db = ?db" using free by (simp add: without_tombstone_def)
  with put_full_capacity(1) [OF inv(1) small inv(2,3) mb _ full] e have "put_full config c ti tb mc" by simp
  then have run: "put_txn lib config ?m key c now ?db = Inr (CapacityExceeded, ?db\<lparr> item_table := t_remove key (item_table ?db) \<rparr>)"
    using v expired(2) free e by (simp add: put_txn_def put_current_def put_tombstone_def put_full_def Let_def)
  then have put: "store_put lib s address a envelope now
      = (Inr CapacityExceeded, s\<lparr> store_database := ?db\<lparr> item_table := t_remove key (item_table ?db) \<rparr> \<rparr>)"
    using c inv(4) key by (simp add: store_put_def transact_def Let_def)
  have "stored_items ?db \<le> unat (fst (read_meta ?db))" using inv(3) by (simp add: counters_cover_def)
  then show ?thesis using remove_measures(1) [OF valid v(1)] by (simp add: put counters_exact_def)
qed

section \<open>Examples\<close>

lemma store_ab_items: "item_table (store_database store_ab) = [(item_key sample_mailbox item_a, sample_value item_a 60 [9] 1000),
    (item_key sample_mailbox item_b, sample_value item_b 120 [1, 2] 1000)]"
  using sample_keys_less by (simp add: store_ab_def store_a_def)

lemma sample_values:
  "record_decode toy_store_libs (sample_value item_a 60 [9] 1000) = Inr (sample_record item_a 60 [9] 1000)"
  "record_decode toy_store_libs (sample_value item_b 120 [1, 2] 1000) = Inr (sample_record item_b 120 [1, 2] 1000)"
  by (rule sample_value_decodes(2); simp)+

theorem store_capacity_bounded_witness:
  "length (item_table (store_database store_ab)) = 2 \<and> length (item_table (store_database store_ab)) \<le> unat (max_total_items sample_config)
   \<and> stored_bytes toy_store_libs (store_database store_ab) \<le> 3"
  using store_capacity_bounded [OF toy_store_documented reachable_ab(2)] store_ab_items by (simp add: sample_config_def)

theorem stored_values_typed_witness:
  "\<exists>r. record_decode toy_store_libs (sample_value item_a 60 [9] 1000) = Inr r
     \<and> stored_receipt_verify toy_store_libs (rec_receipt r) (rec_envelope r) = Inr ()"
  using stored_values_typed [OF toy_store_documented reachable_ab(2), of "item_key sample_mailbox item_a" "sample_value item_a 60 [9] 1000"]
    store_ab_items by (auto simp: t_get_def)

theorem put_refines_spec_witness:
  "\<exists>full. Inr (Created (sample_receipt item_a 60 [9] 1000)) = (Inr (fst (put_spec (item_key sample_mailbox item_a)
      (sample_record item_a 60 [9] 1000) 1000 full (view_of toy_store_libs (store_database sample_store)))) :: store_error + MailboxPutOutcome)"
proof -
  have c: "put_candidate toy_store_libs sample_store sample_address (sample_auth item_a 60 [9]) [9] 1000 = Inr (sample_record item_a 60 [9] 1000)"
    by (rule sample_candidate) (simp_all add: sample_store_def)
  have a: "wa_item_id (wa_content (sample_auth item_a 60 [9])) = item_a" by (simp add: sample_auth_def Let_def)
  have pc: "pc_record toy_store_libs (sample_record item_a 60 [9] 1000) \<noteq> None" by (simp add: sample_record_encodes)
  from put_refines_spec [OF toy_store_documented sample_reachable _ c pc] show ?thesis by (auto simp: a put_a)
qed

theorem cleanup_refines_spec_witness:
  "\<exists>report. fst (store_cleanup toy_store_libs store_ab 1060) = Inr report
     \<and> view_items (view_of toy_store_libs (store_database (snd (store_cleanup toy_store_libs store_ab 1060)))) (item_key sample_mailbox item_a) = None"
proof -
  have "view_items (view_of toy_store_libs (store_database store_ab)) (item_key sample_mailbox item_a) = Some (sample_record item_a 60 [9] 1000)"
    by (simp add: view_of_def store_ab_items t_get_def sample_values ok_option_def)
  then show ?thesis using cleanup_refines_spec [OF toy_store_documented reachable_ab(2), of 1060]
    by (auto simp: cleanup_spec_def record_expired_at_def sample_record_def sample_receipt_def Let_def)
qed

theorem capacity_refusal_overcounts_witness:
  "fst (store_put toy_store_libs store_ab sample_address (sample_auth item_a 60 [5, 6]) [5, 6] 1060) = Inr CapacityExceeded
   \<and> length (item_table (store_database (snd (store_put toy_store_libs store_ab sample_address (sample_auth item_a 60 [5, 6]) [5, 6] 1060)))) = 1
   \<and> read_meta (store_database (snd (store_put toy_store_libs store_ab sample_address (sample_auth item_a 60 [5, 6]) [5, 6] 1060))) = (2, 3)"
proof -
  let ?key = "item_key sample_mailbox item_a"
  have c: "put_candidate toy_store_libs store_ab sample_address (sample_auth item_a 60 [5, 6]) [5, 6] 1060 = Inr (sample_record item_a 60 [5, 6] 1060)"
    by (rule sample_candidate) (simp_all add: store_ab_def store_a_def sample_store_def)
  have key: "?key = item_key (mailbox_id toy_store_libs sample_address) (wa_item_id (wa_content (sample_auth item_a 60 [5, 6])))"
    by (simp add: sample_auth_def Let_def)
  have old: "view_items (view_of toy_store_libs (store_database store_ab)) ?key = Some (sample_record item_a 60 [9] 1000)"
    by (simp add: view_of_def store_ab_items t_get_def sample_values ok_option_def)
  have exp: "record_expired_at (sample_record item_a 60 [9] 1000) 1060"
    by (simp add: record_expired_at_def sample_record_def sample_receipt_def Let_def)
  have tomb: "t_get (tombstone_table (store_database store_ab)) ?key = None" by (simp add: store_ab_def store_a_def)
  have "over_capacity toy_store_libs sample_config ?key (sample_record item_a 60 [5, 6] 1060) (store_database store_ab)"
    by (simp add: over_capacity_def Let_def store_ab_items t_remove_def stored_bytes_def tbl.weight_def envelope_weight_def
        sample_values sample_record_def sample_config_def)
  from capacity_refusal_overcounts [OF toy_store_documented reachable_ab(2) c key old exp tomb this]
  show ?thesis using store_ab_items by (simp add: store_ab_def store_a_def)
qed


end
