(* ===== verification/Store_Lifecycle.thy ===== *)
theory Store_Lifecycle
  imports Store_Properties
begin

text \<open>
  The life of an item in the blind mailbox store over whole sequences of requests: it survives until
  it expires or its owner deletes it, a deleted item stays deleted, and the pages of a listing
  enumerate exactly the live items of the mailbox.
\<close>

section \<open>Requests\<close>

datatype store_request =
    PutRequest MailboxAddress MailboxWriteAuthorization bytes (request_time: u64)
  | ListRequest MailboxAddress MailboxReadAuthorization (request_time: u64)
  | DeleteRequest MailboxAddress MailboxReadAuthorization (request_time: u64)
  | CleanupRequest (request_time: u64)

fun serve :: "'a store_libs_scheme \<Rightarrow> store_request \<Rightarrow> BlindMailboxStore \<Rightarrow> BlindMailboxStore" where
  "serve lib (PutRequest address a envelope now) s = snd (store_put lib s address a envelope now)"
| "serve lib (ListRequest address a now) s = snd (store_list_page lib s address a now)"
| "serve lib (DeleteRequest address a now) s = snd (store_delete lib s address a now)"
| "serve lib (CleanupRequest now) s = snd (store_cleanup lib s now)"

fun request_typed :: "store_request \<Rightarrow> bool" where
  "request_typed (PutRequest address a envelope now) \<longleftrightarrow> length (wa_item_id (wa_content a)) = 32"
| "request_typed _ \<longleftrightarrow> True"


lemma serve_inv:
  assumes "store_documented lib" and "store_inv lib s" and "request_typed q"
  shows "store_inv lib (serve lib q s)"
  using assms store_put_inv store_delete_inv store_list_page_inv store_cleanup_inv by (cases q) auto

lemma serve_reachable:
  "store_reachable lib config identity s \<Longrightarrow> request_typed q \<Longrightarrow> store_reachable lib config identity (serve lib q s)"
  by (cases q) (auto intro: store_reachable.intros)

lemma fold_serve_inv:
  "store_documented lib \<Longrightarrow> store_inv lib s \<Longrightarrow> list_all request_typed qs \<Longrightarrow> store_inv lib (fold (serve lib) qs s)"
  by (induction qs arbitrary: s) (auto intro: serve_inv)

section \<open>What a request leaves alone\<close>

abbreviation items_of :: "'a store_libs_scheme \<Rightarrow> BlindMailboxStore \<Rightarrow> bytes \<Rightarrow> StoredRecord option" where
  "items_of lib s \<equiv> view_items (view_of lib (store_database s))"

abbreviation tombstones_of :: "'a store_libs_scheme \<Rightarrow> BlindMailboxStore \<Rightarrow> bytes \<Rightarrow> StoredTombstone option" where
  "tombstones_of lib s \<equiv> view_tombstones (view_of lib (store_database s))"

lemma cleanup_view:
  assumes "store_inv lib s"
  shows "view_of lib (store_database (snd (store_cleanup lib s now))) = cleanup_spec now (view_of lib (store_database s))"
proof -
  have inv: "tables_ok lib (store_identity s) (store_database s)" "counters_cover lib (store_database s)"
      "counters_bounded (store_config s) (store_database s)" using assms by (simp_all add: store_inv_def)
  obtain report db' where run: "cleanup_txn lib now (store_database s) = Inr (report, db')"
    and t: "item_table db' = live_entries lib now (item_table (store_database s))"
      "tombstone_table db' = t_retain (retain_tombstone lib now) (tombstone_table (store_database s))"
    by (rule cleanup_txn_exact [OF inv, of now]) blast
  from run view_cleanup [OF inv(1) t] show ?thesis by (simp add: store_cleanup_def transact_def)
qed

lemma list_page_view:
  assumes "store_inv lib s"
  shows "view_of lib (store_database (snd (store_list_page lib s address a now))) \<in>
    {view_of lib (store_database s), cleanup_spec now (view_of lib (store_database s))}"
  using store_list_page_state [of lib s address a now] cleanup_view [OF assms, of now] by auto

text \<open>A put touches at most the entries under its own key, and nothing when a live item or a live tombstone is there.\<close>

lemma put_txn_frame:
  assumes tables: "tables_ok lib identity db" and run: "put_txn lib config mailbox key c now db = Inr (outcome, db')"
  shows "k \<noteq> key \<Longrightarrow> view_items (view_of lib db') k = view_items (view_of lib db) k
      \<and> view_tombstones (view_of lib db') k = view_tombstones (view_of lib db) k"
    and "view_items (view_of lib db) key = Some r \<Longrightarrow> \<not> record_expired_at r now \<Longrightarrow> db' = db"
    and "view_items (view_of lib db) key = None \<Longrightarrow> view_tombstones (view_of lib db) key = Some t \<Longrightarrow>
      \<not> tombstone_expired_at t now \<Longrightarrow> db' = db \<and> outcome = Tombstoned"
proof -
  have valid: "t_valid (item_table db)" "t_valid (tombstone_table db)" using tables by (simp_all add: tables_ok_def)
  have frame: "t_get (item_table db') k = t_get (item_table db) k \<and> t_get (tombstone_table db') k = t_get (tombstone_table db) k"
    if "k \<noteq> key"
  proof -
    obtain early where early: "put_current lib key c now db = Inr early" using run by (auto simp: put_txn_def result_simps)
    show ?thesis
    proof (cases early)
      case (Some x)
      with run early show ?thesis by (simp add: put_txn_def)
    next
      case None
      with run early obtain t db1 where t: "put_tombstone lib key now db = Inr (t, db1)" by (auto simp: put_txn_def result_simps)
      have db1: "item_table db1 = item_table db" "t_get (tombstone_table db1) k = t_get (tombstone_table db) k"
        using t that by (auto simp: put_tombstone_def result_simps tbl.get_remove [OF valid(2)] split: option.splits if_splits)
      show ?thesis
      proof (cases t)
        case True
        with run early None t db1 show ?thesis by (simp add: put_txn_def)
      next
        case False
        with run early None t obtain ti tb mc db2 where e: "put_expired lib mailbox key db1 = Inr (ti, tb, mc, db2)"
          by (auto simp: put_txn_def result_simps)
        have db2: "tombstone_table db2 = tombstone_table db1" "t_get (item_table db2) k = t_get (item_table db) k" "t_valid (item_table db2)"
          using e that valid(1) db1(1)
          by (auto simp: put_expired_def Let_def split_beta result_simps tbl.get_remove tbl.valid_remove split: option.splits)
        show ?thesis using run early None t False e db1 db2 that
          by (auto simp: put_txn_def Let_def result_simps t_get_insert split: if_splits)
      qed
    qed
  qed
  then show "k \<noteq> key \<Longrightarrow> view_items (view_of lib db') k = view_items (view_of lib db) k
      \<and> view_tombstones (view_of lib db') k = view_tombstones (view_of lib db) k" by (simp add: view_of_def)
  show "db' = db" if "view_items (view_of lib db) key = Some r" "\<not> record_expired_at r now"
    using tables by (cases rule: put_current_cases [where key = key and c = c and now = now])
      (use run that in \<open>auto simp: put_txn_def\<close>)
  show "db' = db \<and> outcome = Tombstoned" if i: "view_items (view_of lib db) key = None"
      and t: "view_tombstones (view_of lib db) key = Some t" "\<not> tombstone_expired_at t now"
  proof -
    from tables have "put_current lib key c now db = Inr None"
      by (cases rule: put_current_cases [where key = key and c = c and now = now]) (use i in auto)
    moreover from tables have "put_tombstone lib key now db = Inr (True, db)"
      by (cases rule: put_tombstone_cases [where key = key and now = now]) (use t in auto)
    ultimately show ?thesis using run by (simp add: put_txn_def)
  qed
qed


lemma put_keeps_tombstone:
  assumes "store_inv lib s" and "items_of lib s key = None" and "tombstones_of lib s key = Some t" and "\<not> tombstone_expired_at t now"
  shows "items_of lib (snd (store_put lib s address a envelope now)) key = None
    \<and> tombstones_of lib (snd (store_put lib s address a envelope now)) key = Some t"
    and "key = item_key (mailbox_id lib address) (wa_item_id (wa_content a)) \<Longrightarrow>
      put_candidate lib s address a envelope now = Inr c \<Longrightarrow> fst (store_put lib s address a envelope now) = Inr Tombstoned"
proof -
  have tables: "tables_ok lib (store_identity s) (store_database s)" using assms(1) by (simp add: store_inv_def)
  let ?key = "item_key (mailbox_id lib address) (wa_item_id (wa_content a))"
  show "items_of lib (snd (store_put lib s address a envelope now)) key = None
    \<and> tombstones_of lib (snd (store_put lib s address a envelope now)) key = Some t"
  proof (cases "put_candidate lib s address a envelope now")
    case (Inl e)
    with assms show ?thesis by (simp add: store_put_def)
  next
    case (Inr c)
    show ?thesis
    proof (cases "put_txn lib (store_config s) (mailbox_id lib address) ?key c now (store_database s)")
      case Inl': (Inl e)
      with Inr assms show ?thesis by (simp add: store_put_def transact_def Let_def)
    next
      case Inr': (Inr p)
      obtain outcome db' where p: "p = (outcome, db')" by (cases p)
      note frame = put_txn_frame [OF tables Inr' [unfolded p]]
      from frame(1) [of key] frame(3) [of t] assms(2-4)
      have "view_items (view_of lib db') key = None \<and> view_tombstones (view_of lib db') key = Some t"
        by (cases "key = ?key") auto
      with Inr Inr' p show ?thesis by (simp add: store_put_def transact_def Let_def)
    qed
  qed
  assume key: "key = ?key" and c: "put_candidate lib s address a envelope now = Inr c"
  from tables have "put_current lib ?key c now (store_database s) = Inr None"
    by (cases rule: put_current_cases [where key = ?key and c = c and now = now]) (use assms(2) key in auto)
  moreover from tables have "put_tombstone lib ?key now (store_database s) = Inr (True, store_database s)"
    by (cases rule: put_tombstone_cases [where key = ?key and now = now]) (use assms(3,4) key in auto)
  ultimately show "fst (store_put lib s address a envelope now) = Inr Tombstoned"
    using c by (simp add: store_put_def transact_def Let_def put_txn_def)
qed

text \<open>A delete touches at most the entries under its own key, and nothing when the item there has another
  receipt or is already gone.\<close>

lemma delete_txn_frame:
  assumes inv: "store_inv lib s" and run: "delete_txn lib s mailbox item rid now (store_database s) = Inr (outcome, db')"
  shows "key \<noteq> item_key mailbox item \<Longrightarrow> view_items (view_of lib db') key = items_of lib s key
      \<and> view_tombstones (view_of lib db') key = tombstones_of lib s key"
    and "items_of lib s (item_key mailbox item) = Some r \<Longrightarrow> stored_receipt_id lib (rec_receipt r) \<noteq> Inr rid \<Longrightarrow> db' = store_database s"
    and "items_of lib s (item_key mailbox item) = None \<Longrightarrow> db' = store_database s"
proof -
  let ?db = "store_database s" and ?key = "item_key mailbox item"
  have tables: "tables_ok lib (store_identity s) ?db" using inv by (simp add: store_inv_def)
  then have valid: "t_valid (item_table ?db)" "t_valid (tombstone_table ?db)" by (simp_all add: tables_ok_def)
  have none: "db' = ?db" if "t_get (item_table ?db) ?key = None"
    using run that by (auto simp: delete_txn_def delete_absent_def result_simps split: option.splits)
  show "key \<noteq> ?key \<Longrightarrow> view_items (view_of lib db') key = items_of lib s key
      \<and> view_tombstones (view_of lib db') key = tombstones_of lib s key"
  proof (cases "t_get (item_table ?db) ?key")
    case None
    with none show ?thesis by simp
  next
    case (Some v)
    assume "key \<noteq> ?key"
    from run Some have "delete_current lib s mailbox item rid now v ?db = Inr (outcome, db')" by (simp add: delete_txn_def)
    then show ?thesis
      by (cases rule: delete_current_cases)
        (use \<open>key \<noteq> ?key\<close> valid in \<open>auto simp: view_of_def tbl.get_remove t_get_insert\<close>)
  qed
  show "db' = ?db" if "items_of lib s ?key = None"
    using none that view_item_Some [OF tables, of ?key] by (cases "t_get (item_table ?db) ?key") auto
  show "db' = ?db" if r: "items_of lib s ?key = Some r" "stored_receipt_id lib (rec_receipt r) \<noteq> Inr rid"
  proof (cases "t_get (item_table ?db) ?key")
    case None
    with none show ?thesis by simp
  next
    case (Some v)
    then have v: "record_decode lib v = Inr r" using r(1) view_item_Some [OF tables Some] by fastforce
    from run Some have "delete_current lib s mailbox item rid now v ?db = Inr (outcome, db')" by (simp add: delete_txn_def)
    then show ?thesis by (cases rule: delete_current_cases) (use v r(2) in auto)
  qed
qed


lemma cleanup_spec_Some:
  "view_items (cleanup_spec now view) key = Some r \<longleftrightarrow> view_items view key = Some r \<and> \<not> record_expired_at r now"
  by (auto simp: cleanup_spec_def split: option.splits)

section \<open>One request\<close>

lemma store_delete_cases:
  obtains (refused) "snd (store_delete lib s address a now) = s" "\<And>x. fst (store_delete lib s address a now) \<noteq> Inr x"
      "\<And>item rid. ra_operation (ra_content a) = DeleteOp item rid \<Longrightarrow> read_authorization_verify lib a address \<noteq> Inr ()"
  | (served) item rid where "ra_operation (ra_content a) = DeleteOp item rid"
      "store_delete lib s address a now = transact (delete_txn lib (snd (store_cleanup lib s now)) (mailbox_id lib address) item rid now)
         (snd (store_cleanup lib s now))"
proof -
  obtain report where "fst (store_cleanup lib s now) = Inr report" using store_cleanup_ok by blast
  then obtain s1 where c: "store_cleanup lib s now = (Inr report, s1)" by (cases "store_cleanup lib s now") auto
  show thesis using that
    by (cases "read_authorization_verify lib a address"; cases "ra_operation (ra_content a)")
      (auto simp: store_delete_def c)
qed

lemma cleanup_keeps:
  assumes "store_inv lib s"
  shows "items_of lib s key = Some r \<Longrightarrow> \<not> record_expired_at r now \<Longrightarrow> items_of lib (snd (store_cleanup lib s now)) key = Some r"
    and "items_of lib s key = None \<Longrightarrow> items_of lib (snd (store_cleanup lib s now)) key = None"
    and "tombstones_of lib s key = Some t \<Longrightarrow> \<not> tombstone_expired_at t now \<Longrightarrow>
      tombstones_of lib (snd (store_cleanup lib s now)) key = Some t"
  by (simp_all add: cleanup_view [OF assms] cleanup_spec_def)


lemma delete_keeps_tombstone:
  assumes inv: "store_inv lib s" and i: "items_of lib s key = None"
    and t: "tombstones_of lib s key = Some t" "\<not> tombstone_expired_at t now"
  shows "items_of lib (snd (store_delete lib s address a now)) key = None
    \<and> tombstones_of lib (snd (store_delete lib s address a now)) key = Some t"
    and "ra_operation (ra_content a) = DeleteOp item (tomb_stored_receipt_id t) \<Longrightarrow> key = item_key (mailbox_id lib address) item \<Longrightarrow>
      read_authorization_verify lib a address = Inr () \<Longrightarrow>
      fst (store_delete lib s address a now) = Inr (AlreadyDeleted (tomb_delete_receipt t))"
proof -
  let ?s = "snd (store_cleanup lib s now)" and ?m = "mailbox_id lib address"
  have inv': "store_inv lib ?s" by (rule store_cleanup_inv [OF inv])
  have kept: "items_of lib ?s key = None" "tombstones_of lib ?s key = Some t"
    using cleanup_keeps(2,3) [OF inv] i t by auto
  show "items_of lib (snd (store_delete lib s address a now)) key = None
    \<and> tombstones_of lib (snd (store_delete lib s address a now)) key = Some t"
  proof (cases rule: store_delete_cases [of lib s address a now])
    case refused
    with i t show ?thesis by simp
  next
    case (served item rid)
    show ?thesis
    proof (cases "delete_txn lib ?s ?m item rid now (store_database ?s)")
      case (Inl e)
      with served kept show ?thesis by (simp add: transact_def)
    next
      case (Inr p)
      obtain outcome db' where p: "p = (outcome, db')" by (cases p)
      note frame = delete_txn_frame [OF inv' Inr [unfolded p]]
      have "view_items (view_of lib db') key = None \<and> view_tombstones (view_of lib db') key = Some t"
        using frame(1) [of key] frame(3) kept by (cases "key = item_key ?m item") auto
      with served Inr p show ?thesis by (simp add: transact_def)
    qed
  qed
  assume a: "ra_operation (ra_content a) = DeleteOp item (tomb_stored_receipt_id t)" "key = item_key ?m item"
    "read_authorization_verify lib a address = Inr ()"
  have tables: "tables_ok lib (store_identity ?s) (store_database ?s)" using inv' unfolding store_inv_def by blast
  have none: "t_get (item_table (store_database ?s)) key = None"
    using kept(1) view_item_Some [OF tables, of key] by (cases "t_get (item_table (store_database ?s)) key") auto
  obtain v where v: "t_get (tombstone_table (store_database ?s)) key = Some v" "tombstone_decode lib v = Inr t"
    using kept(2) view_tombstone_Some [OF tables, of key] view_None(2) [of _ key lib]
    by (cases "t_get (tombstone_table (store_database ?s)) key") fastforce+
  show "fst (store_delete lib s address a now) = Inr (AlreadyDeleted (tomb_delete_receipt t))"
  proof (cases rule: store_delete_cases [of lib s address a now])
    case refused
    then show ?thesis using a by blast
  next
    case (served item' rid)
    with a none v show ?thesis by (simp add: transact_def delete_txn_def delete_absent_def)
  qed
qed


lemma serve_keeps_tombstone:
  assumes inv: "store_inv lib s" and i: "items_of lib s key = None"
    and t: "tombstones_of lib s key = Some t" "\<not> tombstone_expired_at t (request_time q)"
  shows "items_of lib (serve lib q s) key = None \<and> tombstones_of lib (serve lib q s) key = Some t"
proof (cases q)
  case (PutRequest address a e now)
  with put_keeps_tombstone(1) [OF inv i t(1)] t(2) show ?thesis by simp
next
  case (ListRequest address a now)
  with store_list_page_state [of lib s address a now] cleanup_keeps(2,3) [OF inv] i t show ?thesis by auto
next
  case (DeleteRequest address a now)
  with delete_keeps_tombstone(1) [OF inv i t(1)] t(2) show ?thesis by simp
next
  case (CleanupRequest now)
  with cleanup_keeps(2,3) [OF inv] i t show ?thesis by simp
qed


section \<open>Sequences of requests\<close>


lemma run_keeps_tombstone:
  assumes "store_documented lib" and "store_inv lib s" and "items_of lib s key = None" and "tombstones_of lib s key = Some t"
    and "list_all (\<lambda>q. request_typed q \<and> \<not> tombstone_expired_at t (request_time q)) qs"
  shows "items_of lib (fold (serve lib) qs s) key = None \<and> tombstones_of lib (fold (serve lib) qs s) key = Some t"
  using assms
proof (induction qs arbitrary: s)
  case Nil
  then show ?case by simp
next
  case (Cons q qs)
  from serve_keeps_tombstone [OF Cons.prems(2-4)] serve_inv [OF Cons.prems(1,2)] Cons.prems(5)
  show ?case by (simp add: Cons.IH [OF Cons.prems(1)])
qed

lemma deleted_state:
  assumes doc: "store_documented lib" and inv: "store_inv lib s"
    and d: "fst (store_delete lib s address a now) = Inr (Deleted receipt)"
    and op: "ra_operation (ra_content a) = DeleteOp item rid"
  shows "items_of lib (snd (store_delete lib s address a now)) (item_key (mailbox_id lib address) item) = None"
    and "tombstones_of lib (snd (store_delete lib s address a now)) (item_key (mailbox_id lib address) item)
      = Some \<lparr> tomb_version = RECORD_VERSION, tomb_stored_receipt_id = rid, tomb_delete_receipt = receipt \<rparr>"
proof -
  let ?s = "snd (store_cleanup lib s now)" and ?m = "mailbox_id lib address"
  let ?t = "\<lparr> tomb_version = RECORD_VERSION, tomb_stored_receipt_id = rid, tomb_delete_receipt = receipt \<rparr>"
  have inv': "store_inv lib ?s" by (rule store_cleanup_inv [OF inv])
  then have tables: "tables_ok lib (store_identity ?s) (store_database ?s)" unfolding store_inv_def by blast
  then have valid: "t_valid (item_table (store_database ?s))" "t_valid (tombstone_table (store_database ?s))"
    by (simp_all add: tables_ok_def)
  have "items_of lib (snd (store_delete lib s address a now)) (item_key ?m item) = None
    \<and> tombstones_of lib (snd (store_delete lib s address a now)) (item_key ?m item) = Some ?t"
  proof (cases rule: store_delete_cases [of lib s address a now])
    case refused
    with d show ?thesis by simp
  next
    case (served item' rid')
    with d op obtain db' where run: "delete_txn lib ?s ?m item rid now (store_database ?s) = Inr (Deleted receipt, db')"
        and s': "snd (store_delete lib s address a now) = ?s\<lparr> store_database := db' \<rparr>"
      by (auto simp: transact_def split: sum.splits prod.splits)
    then obtain v where v: "t_get (item_table (store_database ?s)) (item_key ?m item) = Some v"
        and run': "delete_current lib ?s ?m item rid now v (store_database ?s) = Inr (Deleted receipt, db')"
      by (auto simp: delete_txn_def delete_absent_def result_simps split: option.splits if_splits)
    have len: "length ?m = 32" using store_documentedD(2) [OF doc] by (simp add: mailbox_id_def)
    have item: "length item = 32"
      using tables_item [OF tables v] len by (auto simp: item_ok_def item_key_def dest: arg_cong [where f = length])
    from run' show ?thesis
    proof (cases rule: delete_current_cases)
      case same
      then show ?thesis by simp
    next
      case (deleted r receipt' b)
      have rid: "length rid = 32" by (rule stored_receipt_id_length [OF doc deleted(2)])
      have [simp]: "receipt' = receipt" using deleted(6) by simp
      have "tombstone_decode lib b = Inr ?t"
        using tombstone_made_ok(2) [OF doc deleted(4) len item rid deleted(5)] by simp
      then show ?thesis unfolding s' deleted(7)
        using valid by (simp add: view_of_def tbl.get_remove t_get_insert ok_option_def)
    qed
  qed
  then show "items_of lib (snd (store_delete lib s address a now)) (item_key ?m item) = None"
    "tombstones_of lib (snd (store_delete lib s address a now)) (item_key ?m item) = Some ?t" by auto
qed


section \<open>Listing\<close>

definition item_of_record :: "StoredRecord \<Rightarrow> StoredMailboxItem" where
  "item_of_record r = \<lparr> item_item_id = sr_item_id (sr_content (rec_receipt r)),
     item_expires_at_unix_seconds = sr_expires_at_unix_seconds (sr_content (rec_receipt r)),
     item_envelope = rec_envelope r, item_receipt = rec_receipt r \<rparr>"

definition after_cursor :: "bytes option \<Rightarrow> bytes \<Rightarrow> bool" where
  "after_cursor after item \<longleftrightarrow> (case after of None \<Rightarrow> True | Some a \<Rightarrow> a < item)"

definition record_of :: "'a store_libs_scheme \<Rightarrow> bytes \<Rightarrow> StoredRecord" where
  "record_of lib v = (case record_decode lib v of Inr r \<Rightarrow> r | Inl _ \<Rightarrow> undefined)"

text \<open>All items of a mailbox past a cursor, in the order of their identifiers.\<close>

definition listing :: "'a store_libs_scheme \<Rightarrow> bytes \<Rightarrow> bytes option \<Rightarrow> bytes table \<Rightarrow> StoredMailboxItem list" where
  "listing lib mailbox after t = map (\<lambda>(key, v). item_of_record (record_of lib v))
     (filter (\<lambda>(key, v). take 32 key = mailbox \<and> after_cursor after (drop 32 key)) t)"

lemma list_entries_listing:
  assumes "\<forall>(key, v) \<in> set es. item_ok lib identity key v" and "length items \<le> limit"
  shows "list_entries lib mailbox after limit es items = Inr (take (Suc limit) (items @ listing lib mailbox after es))"
  using assms
proof (induction es arbitrary: items)
  case Nil
  then show ?case by (simp add: listing_def)
next
  case (Cons e es)
  obtain key v where e: "e = (key, v)" by (cases e)
  from Cons.prems(1) have "item_ok lib identity key v" by (auto simp: e)
  then obtain r where r: "record_decode lib v = Inr r" "length key = 64" "take 32 key = sr_mailbox_id (sr_content (rec_receipt r))"
      "drop 32 key = sr_item_id (sr_content (rec_receipt r))" by (rule item_okE)
  have cursor: "(case after of None \<Rightarrow> False | Some a \<Rightarrow> drop 32 key \<le> a) \<longleftrightarrow> \<not> after_cursor after (drop 32 key)"
    by (auto simp: after_cursor_def not_le split: option.splits)
  show ?case
  proof (cases "take 32 key = mailbox \<and> after_cursor after (drop 32 key)")
    case False
    then have "list_entries lib mailbox after limit (e # es) items = list_entries lib mailbox after limit es items"
      using cursor by (auto simp: e Let_def)
    moreover have "listing lib mailbox after (e # es) = listing lib mailbox after es"
      using False by (auto simp: e listing_def)
    ultimately show ?thesis using Cons by simp
  next
    case True
    let ?items = "items @ [item_of_record r]"
    have step: "list_entries lib mailbox after limit (e # es) items =
        (if length ?items > limit then Inr ?items else list_entries lib mailbox after limit es ?items)"
    proof -
      have "\<not> (case after of None \<Rightarrow> False | Some a \<Rightarrow> sr_item_id (sr_content (rec_receipt r)) \<le> a)"
        using True cursor unfolding r(4) by simp
      with True r show ?thesis by (simp add: e ITEM_KEY_BYTES_def Let_def item_of_record_def)
    qed
    have l: "listing lib mailbox after (e # es) = item_of_record r # listing lib mailbox after es"
      using True r by (simp add: e listing_def record_of_def)
    show ?thesis
    proof (cases "length ?items > limit")
      case True
      then have "take (Suc limit) (items @ item_of_record r # listing lib mailbox after es) = ?items"
        using Cons.prems(2) by (simp add: take_Cons')
      with True show ?thesis by (simp add: step l)
    next
      case False
      with Cons.IH [of ?items] Cons.prems(1) show ?thesis by (simp add: step l)
    qed
  qed
qed

lemma listing_sorted:
  assumes tables: "tables_ok lib identity db"
  shows "sorted_wrt (<) (map item_item_id (listing lib mailbox after (item_table db)))"
proof -
  have valid: "sorted_wrt (<) (map fst (item_table db))" using tables by (simp add: tables_ok_def t_valid_def)
  have "sorted_wrt (\<lambda>e e'. fst e < fst e') (filter (\<lambda>(key, v). take 32 key = mailbox \<and> after_cursor after (drop 32 key)) (item_table db))"
    using valid by (intro sorted_wrt_filter) (simp add: sorted_wrt_map)
  then have "sorted_wrt (\<lambda>e e'. item_item_id (item_of_record (record_of lib (snd e))) < item_item_id (item_of_record (record_of lib (snd e'))))
      (filter (\<lambda>(key, v). take 32 key = mailbox \<and> after_cursor after (drop 32 key)) (item_table db))"
  proof (rule sorted_wrt_mono_rel [rotated])
    fix e e'
    assume in_table: "e \<in> set (filter (\<lambda>(key, v). take 32 key = mailbox \<and> after_cursor after (drop 32 key)) (item_table db))"
        "e' \<in> set (filter (\<lambda>(key, v). take 32 key = mailbox \<and> after_cursor after (drop 32 key)) (item_table db))"
      and less: "fst e < fst e'"
    have id: "item_item_id (item_of_record (record_of lib (snd x))) = drop 32 (fst x)" if "x \<in> set (item_table db)" for x
      using tables that by (auto simp: tables_ok_def record_of_def item_of_record_def elim!: item_okE dest!: bspec)
    have "take 32 (fst e) @ drop 32 (fst e) < take 32 (fst e') @ drop 32 (fst e')" using less by simp
    moreover have "take 32 (fst e) = take 32 (fst e')" using in_table by auto
    ultimately have "drop 32 (fst e) < drop 32 (fst e')" by (metis append_less_same)
    with id in_table show "item_item_id (item_of_record (record_of lib (snd e))) < item_item_id (item_of_record (record_of lib (snd e')))"
      by auto
  qed
  then show ?thesis by (simp add: listing_def sorted_wrt_map split_beta)
qed

lemma filter_past_nth:
  assumes "sorted_wrt (<) (map f xs)" and "0 < n" and "n \<le> length xs"
  shows "filter (\<lambda>x. f (xs ! (n - 1)) < (f x :: 'b :: linorder)) xs = drop n xs"
proof -
  have "filter (\<lambda>x. f (xs ! (n - 1)) < f x) (take n xs) = []"
  proof -
    have "f x \<le> f (xs ! (n - 1))" if "x \<in> set (take n xs)" for x
    proof -
      from that obtain i where i: "i < n" "x = xs ! i" using assms(3) by (auto simp: in_set_conv_nth)
      then show ?thesis using sorted_wrt_nth_less [OF assms(1), of i "n - 1"] assms(2,3) by (cases "i = n - 1") (auto intro: less_imp_le)
    qed
    then show ?thesis by (auto simp: filter_empty_conv not_less)
  qed
  moreover have "filter (\<lambda>x. f (xs ! (n - 1)) < f x) (drop n xs) = drop n xs"
  proof -
    have "f (xs ! (n - 1)) < f x" if "x \<in> set (drop n xs)" for x
    proof -
      from that obtain i where "i < length xs - n" "x = xs ! (n + i)" using assms(3) by (auto simp: in_set_conv_nth)
      then have i: "n + i < length xs" "x = xs ! (n + i)" by simp_all
      then show ?thesis using sorted_wrt_nth_less [OF assms(1), of "n - 1" "n + i"] assms(2) by simp
    qed
    then show ?thesis by (simp add: filter_id_conv)
  qed
  moreover have "filter p xs = filter p (take n xs) @ filter p (drop n xs)" for p by (simp flip: filter_append)
  ultimately show ?thesis by simp
qed

lemma listing_next:
  assumes tables: "tables_ok lib identity db" and i: "i \<in> set (listing lib mailbox after (item_table db))"
  shows "listing lib mailbox (Some (item_item_id i)) (item_table db)
    = filter (\<lambda>x. item_item_id i < item_item_id x) (listing lib mailbox after (item_table db))"
proof -
  have id: "item_item_id (item_of_record (record_of lib v)) = drop 32 key" if "(key, v) \<in> set (item_table db)" for key v
    using tables that by (auto simp: tables_ok_def record_of_def item_of_record_def elim!: item_okE dest!: bspec)
  from i have past: "after_cursor after (item_item_id i)" by (auto simp: listing_def id)
  have "after_cursor after x" if "item_item_id i < x" for x
    using past that by (auto simp: after_cursor_def split: option.splits)
  then have "filter (\<lambda>(key, v). take 32 key = mailbox \<and> after_cursor (Some (item_item_id i)) (drop 32 key)) (item_table db)
      = filter (\<lambda>(key, v). (take 32 key = mailbox \<and> after_cursor after (drop 32 key))
          \<and> item_item_id i < item_item_id (item_of_record (record_of lib v))) (item_table db)"
    by (intro filter_cong) (auto simp: id after_cursor_def)
  then show ?thesis by (simp add: listing_def filter_map o_def case_prod_unfold conj_commute)
qed

lemma listing_set:
  assumes tables: "tables_ok lib identity db" and len: "length mailbox = 32"
  shows "i \<in> set (listing lib mailbox after (item_table db)) \<longleftrightarrow> (\<exists>r. view_items (view_of lib db) (item_key mailbox (item_item_id i)) = Some r
    \<and> after_cursor after (item_item_id i) \<and> i = item_of_record r)"
proof -
  have v: "t_valid (item_table db)" using tables by (simp add: tables_ok_def)
  have key: "item_key (take 32 key) (item_item_id (item_of_record r)) = key" "item_item_id (item_of_record r) = drop 32 key"
    if "(key, w) \<in> set (item_table db)" "record_decode lib w = Inr r" for key w r
  proof -
    from tables that(1) have "item_ok lib identity key w" by (auto simp: tables_ok_def)
    then show "item_key (take 32 key) (item_item_id (item_of_record r)) = key" "item_item_id (item_of_record r) = drop 32 key"
      using that(2) by (auto simp: item_of_record_def item_key_def item_ok_def)
  qed
  show ?thesis
  proof
    assume "i \<in> set (listing lib mailbox after (item_table db))"
    then obtain key w where kw: "(key, w) \<in> set (item_table db)" "take 32 key = mailbox" "after_cursor after (drop 32 key)"
        "i = item_of_record (record_of lib w)" by (auto simp: listing_def)
    then obtain r where r: "record_decode lib w = Inr r" using tables by (auto simp: tables_ok_def item_ok_def)
    have i: "i = item_of_record r" using kw(4) r by (simp add: record_of_def)
    have "t_get (item_table db) key = Some w" using t_get_set [OF v] kw(1) by blast
    then have "view_items (view_of lib db) key = Some r" using r by (simp add: view_of_def ok_option_def)
    then show "\<exists>r. view_items (view_of lib db) (item_key mailbox (item_item_id i)) = Some r
        \<and> after_cursor after (item_item_id i) \<and> i = item_of_record r"
      using i kw(2,3) key [OF kw(1) r] by metis
  next
    assume "\<exists>r. view_items (view_of lib db) (item_key mailbox (item_item_id i)) = Some r
        \<and> after_cursor after (item_item_id i) \<and> i = item_of_record r"
    then obtain r w where r: "t_get (item_table db) (item_key mailbox (item_item_id i)) = Some w" "record_decode lib w = Inr r"
        "after_cursor after (item_item_id i)" "i = item_of_record r"
      using view_item_Some [OF tables, of "item_key mailbox (item_item_id i)"] view_None(1) [of db _ lib]
      by (metis not_Some_eq option.inject)
    then have "(item_key mailbox (item_item_id i), w) \<in> set (item_table db)" using t_get_set [OF v] by blast
    with r len show "i \<in> set (listing lib mailbox after (item_table db))"
      by (force simp: listing_def item_key_def record_of_def)
  qed
qed

section \<open>Properties\<close>


text \<open>C21. A deleted message stays deleted until the expiry of its receipt: after \<open>Deleted\<close>, through any
  sequence of requests before that time, storing the item again answers \<open>Tombstoned\<close> and repeating the
  delete request answers \<open>AlreadyDeleted\<close> with the same receipt.\<close>

theorem deleted_item_stays_deleted:
  assumes "store_documented lib" and "store_reachable lib config identity s"
    and "ra_operation (ra_content a) = DeleteOp item rid"
    and "fst (store_delete lib s address a now) = Inr (Deleted receipt)"
    and "list_all (\<lambda>q. request_typed q \<and> request_time q < dr_expires_at_unix_seconds (dr_content receipt)) qs"
    and "later < dr_expires_at_unix_seconds (dr_content receipt)"
  shows "fst (store_delete lib (fold (serve lib) qs (snd (store_delete lib s address a now))) address a later)
        = Inr (AlreadyDeleted receipt)
    \<and> (wa_item_id (wa_content w) = item \<longrightarrow>
        put_candidate lib (fold (serve lib) qs (snd (store_delete lib s address a now))) address w envelope later = Inr c \<longrightarrow>
        fst (store_put lib (fold (serve lib) qs (snd (store_delete lib s address a now))) address w envelope later) = Inr Tombstoned)"
proof -
  have inv: "store_inv lib s" using reachable_inv [OF assms(1,2)] by simp
  let ?t = "\<lparr> tomb_version = RECORD_VERSION, tomb_stored_receipt_id = rid, tomb_delete_receipt = receipt \<rparr>"
  let ?s = "fold (serve lib) qs (snd (store_delete lib s address a now))" and ?key = "item_key (mailbox_id lib address) item"
  have inv1: "store_inv lib (snd (store_delete lib s address a now))" by (rule store_delete_inv [OF assms(1) inv])
  have typed: "list_all request_typed qs" using assms(5) by (simp add: list_all_iff)
  have live: "list_all (\<lambda>q. request_typed q \<and> \<not> tombstone_expired_at ?t (request_time q)) qs"
    using assms(5) by (auto simp: list_all_iff tombstone_expired_at_def not_le)
  note kept = run_keeps_tombstone [OF assms(1) inv1 deleted_state [OF assms(1) inv assms(4,3)] live]
  have inv2: "store_inv lib ?s" by (rule fold_serve_inv [OF assms(1) inv1 typed])
  have now: "\<not> tombstone_expired_at ?t later" using assms(6) by (simp add: tombstone_expired_at_def not_le)
  have auth: "read_authorization_verify lib a address = Inr ()"
    using assms(4) by (auto simp: store_delete_def split: sum.splits)
  show ?thesis
    using delete_keeps_tombstone(2) [OF inv2 conjunct1 [OF kept] conjunct2 [OF kept] now, of a item address] assms(3) auth
      put_keeps_tombstone(2) [OF inv2 conjunct1 [OF kept] conjunct2 [OF kept] now, of address w envelope c]
    by auto
qed


text \<open>C23. The pages of a listing enumerate the mailbox: a page holds the first items past the cursor, in
  strictly increasing order of their identifiers, exactly those that are live at the time of the
  request; more items are announced when there are more, and the announced cursor continues exactly
  where the page ended.\<close>

theorem list_page_enumerates:
  assumes doc: "store_documented lib" and reach: "store_reachable lib config identity s"
    and auth: "read_authorization_verify lib a address = Inr ()" and op: "ra_operation (ra_content a) = ListOp nonce after limit"
  shows "let result = store_list_page lib s address a now; t = item_table (store_database (snd result));
             mailbox = mailbox_id lib address; all = listing lib mailbox after t in
    (\<exists>page. fst result = Inr page \<and> page_items page = take (unat limit) all
       \<and> more_available page = (length all > unat limit)
       \<and> (case next_after_item_id page of
            None \<Rightarrow> page_items page = all
          | Some next \<Rightarrow> page_items page @ listing lib mailbox (Some next) t = all \<and> length (page_items page) = unat limit))
    \<and> sorted_wrt (<) (map item_item_id all)
    \<and> (\<forall>i. i \<in> set all \<longleftrightarrow> (\<exists>r. items_of lib s (item_key mailbox (item_item_id i)) = Some r
          \<and> \<not> record_expired_at r now \<and> after_cursor after (item_item_id i) \<and> i = item_of_record r))"
proof -
  have inv: "store_inv lib s" using reachable_inv [OF doc reach] by simp
  let ?m = "mailbox_id lib address" and ?s = "snd (store_cleanup lib s now)"
  let ?t = "item_table (store_database ?s)"
  let ?all = "listing lib ?m after ?t"
  have len: "length ?m = 32" using store_documentedD(2) [OF doc] by (simp add: mailbox_id_def)
  have tables: "tables_ok lib (store_identity ?s) (store_database ?s)" using store_cleanup_inv [OF inv, of now] unfolding store_inv_def by blast
  then have ok: "\<forall>(key, v) \<in> set ?t. item_ok lib (store_identity ?s) key v" by (simp add: tables_ok_def)
  obtain report where r: "fst (store_cleanup lib s now) = Inr report" using store_cleanup_ok by blast
  then obtain s1 where c: "store_cleanup lib s now = (Inr report, s1)" by (cases "store_cleanup lib s now") auto
  have limit: "0 < unat limit" using auth op by (auto simp: read_verify_iff word_le_nat_alt)
  have result: "store_list_page lib s address a now = (Inr (page_of (unat limit) (take (Suc (unat limit)) ?all)), ?s)"
    using list_entries_listing [OF ok, of "[]" "unat limit" ?m after] by (simp add: store_list_page_def auth op c)
  define all where "all = ?all"
  have sorted: "sorted_wrt (<) (map item_item_id all)" unfolding all_def by (rule listing_sorted [OF tables])
  have rest: "listing lib ?m (Some (item_item_id (all ! (unat limit - 1)))) ?t = drop (unat limit) all"
    if "unat limit < length all"
  proof -
    have "all ! (unat limit - 1) \<in> set all" using that limit by (intro nth_mem) simp
    from listing_next [OF tables this [unfolded all_def]] filter_past_nth [OF sorted limit] that
    show ?thesis unfolding all_def by simp
  qed
  have last: "last (take (unat limit) all) = all ! (unat limit - 1)" "take (unat limit) all \<noteq> []" if "unat limit < length all"
  proof -
    show ne: "take (unat limit) all \<noteq> []" using that limit by auto
    show "last (take (unat limit) all) = all ! (unat limit - 1)"
      using that limit by (subst last_conv_nth [OF ne]) (simp add: min_def)
  qed
  have set: "i \<in> set all \<longleftrightarrow> (\<exists>r. items_of lib s (item_key ?m (item_item_id i)) = Some r
      \<and> \<not> record_expired_at r now \<and> after_cursor after (item_item_id i) \<and> i = item_of_record r)" for i
    unfolding all_def listing_set [OF tables len] cleanup_view [OF inv] cleanup_spec_Some by blast
  have "page_items page @ rest = all" if "page_items page = take (unat limit) all" "rest = drop (unat limit) all" for page rest
    using that by simp
  then have "case next_after_item_id (page_of (unat limit) (take (Suc (unat limit)) all)) of
        None \<Rightarrow> page_items (page_of (unat limit) (take (Suc (unat limit)) all)) = all
      | Some next \<Rightarrow> page_items (page_of (unat limit) (take (Suc (unat limit)) all)) @ listing lib ?m (Some next) ?t = all
          \<and> length (page_items (page_of (unat limit) (take (Suc (unat limit)) all))) = unat limit"
    using rest last by (cases "unat limit < length all") (simp_all add: page_of_def Let_def min_def)
  moreover have "page_items (page_of (unat limit) (take (Suc (unat limit)) all)) = take (unat limit) all"
      "more_available (page_of (unat limit) (take (Suc (unat limit)) all)) = (length all > unat limit)"
    by (auto simp: page_of_def Let_def min_def)
  ultimately show ?thesis unfolding result Let_def fst_conv snd_conv all_def [symmetric]
    using sorted set by blast
qed


section \<open>Examples\<close>


theorem deleted_item_stays_deleted_witness:
  "fst (store_delete toy_store_libs (snd (store_delete toy_store_libs store_a sample_address (sample_read (DeleteOp item_a receipt_a)) 1010))
      sample_address (sample_read (DeleteOp item_a receipt_a)) 1059) = Inr (AlreadyDeleted delete_receipt_a)"
proof -
  have e: "dr_expires_at_unix_seconds (dr_content delete_receipt_a) = 1060" by (simp add: delete_receipt_a_def Let_def)
  have "list_all (\<lambda>q. request_typed q \<and> request_time q < dr_expires_at_unix_seconds (dr_content delete_receipt_a)) []"
      "1059 < dr_expires_at_unix_seconds (dr_content delete_receipt_a)" by (simp_all add: e)
  from deleted_item_stays_deleted [OF toy_store_documented reachable_ab(1) sample_read_operation delete_a this]
  show ?thesis by simp
qed

theorem list_page_enumerates_witness:
  "\<exists>page. fst (store_list_page toy_store_libs store_ab sample_address (sample_read (ListOp item_a None 1)) 1000) = Inr page
     \<and> (more_available page \<longleftrightarrow> length (listing toy_store_libs sample_mailbox None (item_table (store_database
         (snd (store_list_page toy_store_libs store_ab sample_address (sample_read (ListOp item_a None 1)) 1000))))) > 1)"
  using list_page_enumerates [OF toy_store_documented reachable_ab(2) sample_read_verifies(2) sample_read_operation, of 1000]
  by (auto simp: Let_def)


end
