(* ===== verification/Signed_Object.thy ===== *)
theory Signed_Object
  imports Prelude
begin

text \<open>
  The contract shared by the signed objects of the identity and protocol crates: a content that is
  checked, turned into the bytes that are signed, and carried with a signature; verification repeats
  the check and verifies the signature under the key the content names, encoding and decoding verify.
  The locale \<open>signed_object\<close> states how the operations are put together; certificates, revocations,
  snapshots, device lists, memberships, events and synchronisation messages are instances of it.
\<close>

locale signed_object =
  fixes ed :: ed25519
    and content :: "'o \<Rightarrow> 'c"
    and signature :: "'o \<Rightarrow> bytes"
    and check :: "'c \<Rightarrow> 'e + unit"
    and preimage :: "'c \<Rightarrow> 'e + bytes"
    and signer :: "'c \<Rightarrow> bytes"
    and verify_key :: "bytes \<Rightarrow> bytes \<Rightarrow> bytes \<Rightarrow> 'e + unit"
    and verify :: "'o \<Rightarrow> 'e + unit"
  assumes verify_key_iff: "verify_key k m s = Inr () \<longleftrightarrow> signed_by ed k m s"
    and verify_shape: "verify x = and_then (check (content x)) (\<lambda>_. and_then (preimage (content x)) (\<lambda>m.
          verify_key (signer (content x)) m (signature x)))"
begin

lemma verify_iff: "verify x = Inr u \<longleftrightarrow> check (content x) = Inr ()
    \<and> (\<exists>m. preimage (content x) = Inr m \<and> signed_by ed (signer (content x)) m (signature x))"
  by (simp add: verify_shape result_simps verify_key_iff)

lemma verified_check: "verify x = Inr u \<Longrightarrow> check (content x) = Inr ()"
  by (simp add: verify_iff)

lemma verify_issued:
  assumes "check (content x) = Inr ()" and "preimage (content x) = Inr m" and "signed_by ed (signer (content x)) m (signature x)"
  shows "verify x = Inr ()"
  using assms by (simp add: verify_iff)

end

text \<open>Objects that also travel: \<open>encode\<close> and \<open>decode_and_verify\<close> over a serialisation of the object.\<close>

locale signed_codec = signed_object ed content signature check preimage signer verify_key verify
  for ed :: ed25519 and content :: "'o \<Rightarrow> 'c" and signature :: "'o \<Rightarrow> bytes" and check :: "'c \<Rightarrow> 'e + unit"
    and preimage :: "'c \<Rightarrow> 'e + bytes" and signer :: "'c \<Rightarrow> bytes"
    and verify_key :: "bytes \<Rightarrow> bytes \<Rightarrow> bytes \<Rightarrow> 'e + unit" and verify :: "'o \<Rightarrow> 'e + unit" +
  fixes ser :: "'o \<Rightarrow> bytes option"
    and de :: "bytes \<Rightarrow> 'o option"
    and codec_error :: 'e
    and encode :: "'o \<Rightarrow> 'e + bytes"
    and decode :: "bytes \<Rightarrow> 'e + 'o"
  assumes encode_shape: "encode x = and_then (verify x) (\<lambda>_. ok_or codec_error (ser x))"
    and decode_shape: "decode b = and_then (ok_or codec_error (de b)) (\<lambda>x. and_then (verify x) (\<lambda>_. Inr x))"
begin

lemma encode_iff: "encode x = Inr b \<longleftrightarrow> verify x = Inr () \<and> ser x = Some b"
  by (simp add: encode_shape result_simps)

lemma decode_iff: "decode b = Inr x \<longleftrightarrow> de b = Some x \<and> verify x = Inr ()"
  by (auto simp: decode_shape result_simps)

lemma decode_verified: "decode b = Inr x \<Longrightarrow> verify x = Inr ()"
  by (simp add: decode_iff)

lemma decode_encode:
  assumes "encode x = Inr b" and "\<And>y c. ser y = Some c \<Longrightarrow> de c = Some y"
  shows "decode b = Inr x"
  using assms by (auto simp: encode_iff decode_iff)

end

end
