(* ===== verification/Identity_Data.thy ===== *)
theory Identity_Data
  imports Signed_Object
begin

text \<open>
  The data of \<^verbatim>\<open>kilogram-identity/src/account.rs\<close>: the objects an Account Root signs, the errors and the
  libraries. Identifiers are the 32 bytes they wrap. Ed25519, BLAKE3 and postcard are the record
  \<open>identity_libs\<close>, an argument of the operations that use them.
\<close>

section \<open>Data\<close>

definition AUTHORITY_VERSION :: u8 where "AUTHORITY_VERSION = 1"
definition DEVICE_CERTIFICATE_VERSION :: u8 where "DEVICE_CERTIFICATE_VERSION = 2"
definition ACCOUNT_DEVICE_LIST_VERSION :: u8 where "ACCOUNT_DEVICE_LIST_VERSION = 1"
definition ACCOUNT_ROOT_RECOVERY_VERSION :: u8 where "ACCOUNT_ROOT_RECOVERY_VERSION = 1"
definition MAX_ACCOUNT_DEVICES :: nat where "MAX_ACCOUNT_DEVICES = 32"
definition MAX_ACCOUNT_ROOT_RECOVERY_MEMBERSHIPS :: nat where "MAX_ACCOUNT_ROOT_RECOVERY_MEMBERSHIPS = 16 * 1024"
definition MAX_ACCOUNT_ROOT_RECOVERY_PACKAGE_BYTES :: nat where
  "MAX_ACCOUNT_ROOT_RECOVERY_PACKAGE_BYTES = 32 * 1024 * 1024"
definition MAX_ACCOUNT_ROOT_RECOVERY_WITNESS_BYTES :: nat where "MAX_ACCOUNT_ROOT_RECOVERY_WITNESS_BYTES = 4 * 1024"

definition DEVICE_CERTIFICATE_SIGNATURE_DOMAIN :: bytes where
  "DEVICE_CERTIFICATE_SIGNATURE_DOMAIN = ascii ''kilogram:device-certificate-signature:v2'' @ [0]"
definition DEVICE_REVOCATION_SIGNATURE_DOMAIN :: bytes where
  "DEVICE_REVOCATION_SIGNATURE_DOMAIN = ascii ''kilogram:device-revocation-signature:v1'' @ [0]"
definition AUTHORITY_SNAPSHOT_SIGNATURE_DOMAIN :: bytes where
  "AUTHORITY_SNAPSHOT_SIGNATURE_DOMAIN = ascii ''kilogram:account-authority-snapshot-signature:v1'' @ [0]"
definition CONVERSATION_MEMBERSHIP_SIGNATURE_DOMAIN :: bytes where
  "CONVERSATION_MEMBERSHIP_SIGNATURE_DOMAIN = ascii ''kilogram:conversation-membership-signature:v1'' @ [0]"
definition ACCOUNT_DEVICE_LIST_SIGNATURE_DOMAIN :: bytes where
  "ACCOUNT_DEVICE_LIST_SIGNATURE_DOMAIN = ascii ''kilogram:account-device-list-signature:v1'' @ [0]"
definition DEVICE_LINK_AUTHORIZATION_SIGNATURE_DOMAIN :: bytes where
  "DEVICE_LINK_AUTHORIZATION_SIGNATURE_DOMAIN = ascii ''kilogram:device-link-authorization-signature:v1'' @ [0]"
definition PUBLICATION_CONFLICT_RESOLUTION_SIGNATURE_DOMAIN :: bytes where
  "PUBLICATION_CONFLICT_RESOLUTION_SIGNATURE_DOMAIN = ascii ''kilogram:publication-conflict-resolution-root-signature:v1'' @ [0]"
definition ACCOUNT_ROOT_RECOVERY_PACKAGE_SIGNATURE_DOMAIN :: bytes where
  "ACCOUNT_ROOT_RECOVERY_PACKAGE_SIGNATURE_DOMAIN = ascii ''kilogram:account-root-recovery-package-signature:v1'' @ [0]"
definition ACCOUNT_ROOT_RECOVERY_WITNESS_SIGNATURE_DOMAIN :: bytes where
  "ACCOUNT_ROOT_RECOVERY_WITNESS_SIGNATURE_DOMAIN = ascii ''kilogram:account-root-recovery-witness-signature:v1'' @ [0]"
definition ACCOUNT_ROOT_RECOVERY_PACKAGE_MAGIC :: bytes where
  "ACCOUNT_ROOT_RECOVERY_PACKAGE_MAGIC = ascii ''KILOGRAM-ARPKG01''"
definition ACCOUNT_ROOT_RECOVERY_WITNESS_MAGIC :: bytes where
  "ACCOUNT_ROOT_RECOVERY_WITNESS_MAGIC = ascii ''KILOGRAM-ARWIT01''"
definition ACCOUNT_ROOT_RECOVERY_PACKAGE_ID_DOMAIN :: string where
  "ACCOUNT_ROOT_RECOVERY_PACKAGE_ID_DOMAIN = ''Kilogram Account Root recovery package ID v1''"

datatype DeviceCapability = CapSignEvents | CapSyncHistory

text \<open>The derived order is the order of the constructors.\<close>

instantiation DeviceCapability :: linorder
begin

fun less_eq_DeviceCapability :: "DeviceCapability \<Rightarrow> DeviceCapability \<Rightarrow> bool" where
  "less_eq_DeviceCapability CapSyncHistory CapSignEvents = False"
| "less_eq_DeviceCapability _ _ = True"

definition less_DeviceCapability :: "DeviceCapability \<Rightarrow> DeviceCapability \<Rightarrow> bool" where
  "less_DeviceCapability a b \<longleftrightarrow> a \<noteq> b \<and> a \<le> b"

instance
proof
  fix x y z :: DeviceCapability
  show "(x < y) = (x \<le> y \<and> \<not> y \<le> x)" by (cases x; cases y) (auto simp: less_DeviceCapability_def)
  show "x \<le> x" by (cases x) auto
  show "x \<le> z" if "x \<le> y" "y \<le> z" using that by (cases x; cases y; cases z) auto
  show "x = y" if "x \<le> y" "y \<le> x" using that by (cases x; cases y) auto
  show "x \<le> y \<or> y \<le> x" by (cases x; cases y) auto
qed

end

definition MESSAGING :: "DeviceCapability list" where
  "MESSAGING = [CapSignEvents, CapSyncHistory]"

record DeviceCertificateContent =
  dcc_version :: u8
  dcc_account_id :: bytes
  dcc_device_id :: bytes
  dcc_encryption_public_key :: bytes
  dcc_authority_sequence :: u64
  dcc_capabilities :: "DeviceCapability list"

record DeviceCertificate =
  dc_content :: DeviceCertificateContent
  dc_signature :: bytes

record DeviceRevocationContent =
  rvc_version :: u8
  rvc_account_id :: bytes
  rvc_device_id :: bytes
  rvc_authority_sequence :: u64

record DeviceRevocation =
  rv_content :: DeviceRevocationContent
  rv_signature :: bytes

record AccountAuthoritySnapshotContent =
  aasc_version :: u8
  aasc_account_id :: bytes
  aasc_revision :: u64
  aasc_revocations :: "DeviceRevocation list"

record AccountAuthoritySnapshot =
  aas_content :: AccountAuthoritySnapshotContent
  aas_signature :: bytes

record AccountDeviceListSnapshotContent =
  adlc_version :: u8
  adlc_authority_snapshot :: AccountAuthoritySnapshot
  adlc_devices :: "DeviceCertificate list"

record AccountDeviceListSnapshot =
  adl_content :: AccountDeviceListSnapshotContent
  adl_signature :: bytes

record ConversationMembershipSnapshotContent =
  cmsc_version :: u8
  cmsc_conversation_id :: bytes
  cmsc_revision :: u64
  cmsc_owner_account_id :: bytes
  cmsc_members :: "bytes list"

record ConversationMembershipSnapshot =
  cms_content :: ConversationMembershipSnapshotContent
  cms_signature :: bytes

record AccountRootRecoveryPackageContent =
  arpc_version :: u8
  arpc_account_id :: bytes
  arpc_authority_snapshot :: AccountAuthoritySnapshot
  arpc_device_list :: AccountDeviceListSnapshot
  arpc_conversation_memberships :: "ConversationMembershipSnapshot list"

record AccountRootRecoveryPackage =
  arp_content :: AccountRootRecoveryPackageContent
  arp_signature :: bytes

record AccountRootRecoveryWitnessContent =
  arwc_version :: u8
  arwc_account_id :: bytes
  arwc_authority_revision :: u64
  arwc_package_id :: bytes

record AccountRootRecoveryWitness =
  arw_content :: AccountRootRecoveryWitnessContent
  arw_signature :: bytes

record AuthorizedDevice =
  ad_account_id :: bytes
  ad_device_id :: bytes
  ad_certificate_authority_sequence :: u64
  ad_capabilities :: "DeviceCapability list"

text \<open>The methods that read one field of the content.\<close>

abbreviation certificate_account_id :: "DeviceCertificate \<Rightarrow> bytes" where
  "certificate_account_id c \<equiv> dcc_account_id (dc_content c)"
abbreviation certificate_device_id :: "DeviceCertificate \<Rightarrow> bytes" where
  "certificate_device_id c \<equiv> dcc_device_id (dc_content c)"
abbreviation certificate_sequence :: "DeviceCertificate \<Rightarrow> u64" where
  "certificate_sequence c \<equiv> dcc_authority_sequence (dc_content c)"
abbreviation revocation_device_id :: "DeviceRevocation \<Rightarrow> bytes" where
  "revocation_device_id r \<equiv> rvc_device_id (rv_content r)"
abbreviation revocation_sequence :: "DeviceRevocation \<Rightarrow> u64" where
  "revocation_sequence r \<equiv> rvc_authority_sequence (rv_content r)"
abbreviation snapshot_account_id :: "AccountAuthoritySnapshot \<Rightarrow> bytes" where
  "snapshot_account_id s \<equiv> aasc_account_id (aas_content s)"
abbreviation snapshot_revision :: "AccountAuthoritySnapshot \<Rightarrow> u64" where
  "snapshot_revision s \<equiv> aasc_revision (aas_content s)"
abbreviation snapshot_revocations :: "AccountAuthoritySnapshot \<Rightarrow> DeviceRevocation list" where
  "snapshot_revocations s \<equiv> aasc_revocations (aas_content s)"
abbreviation list_snapshot :: "AccountDeviceListSnapshot \<Rightarrow> AccountAuthoritySnapshot" where
  "list_snapshot l \<equiv> adlc_authority_snapshot (adl_content l)"
abbreviation list_revision :: "AccountDeviceListSnapshot \<Rightarrow> u64" where
  "list_revision l \<equiv> snapshot_revision (list_snapshot l)"
abbreviation list_devices :: "AccountDeviceListSnapshot \<Rightarrow> DeviceCertificate list" where
  "list_devices l \<equiv> adlc_devices (adl_content l)"
abbreviation membership_conversation_id :: "ConversationMembershipSnapshot \<Rightarrow> bytes" where
  "membership_conversation_id m \<equiv> cmsc_conversation_id (cms_content m)"
abbreviation membership_revision :: "ConversationMembershipSnapshot \<Rightarrow> u64" where
  "membership_revision m \<equiv> cmsc_revision (cms_content m)"
abbreviation membership_owner :: "ConversationMembershipSnapshot \<Rightarrow> bytes" where
  "membership_owner m \<equiv> cmsc_owner_account_id (cms_content m)"
abbreviation membership_members :: "ConversationMembershipSnapshot \<Rightarrow> bytes list" where
  "membership_members m \<equiv> cmsc_members (cms_content m)"
abbreviation package_account_id :: "AccountRootRecoveryPackage \<Rightarrow> bytes" where
  "package_account_id p \<equiv> arpc_account_id (arp_content p)"
abbreviation package_authority_revision :: "AccountRootRecoveryPackage \<Rightarrow> u64" where
  "package_authority_revision p \<equiv> snapshot_revision (arpc_authority_snapshot (arp_content p))"

text \<open>The errors of the modelled operations, grouped by the object they concern; mismatches carry the
  expected value first.\<close>

datatype signature_error = InvalidDevicePublicKey | InvalidAccountPublicKey | InvalidSignatureEncoding | InvalidSignature

datatype certificate_error =
    EmptyDeviceCapabilities | DuplicateDeviceCapability | NonCanonicalDeviceCapabilities
  | DeviceCertificateDeviceMismatch bytes bytes | DeviceCertificateEncryptionKeyMismatch
  | MissingDeviceCapability DeviceCapability | DeviceRevoked bytes | CertificateOutsideSnapshot u64 u64
  | DeviceCertificateMissing | DeviceCertificateAlreadyInstalled

datatype authority_error =
    AuthoritySequenceExhausted | LegacyAuthorityState | UnsupportedAuthorityLogVersion string
  | DeviceAlreadyRevoked bytes | DeviceNotActive bytes | CannotRemoveLastActiveDevice
  | NonCanonicalAuthoritySnapshot | DuplicateDeviceRevocation bytes | RevocationOutsideSnapshot u64 u64
  | AccountAuthorityWriteLocked | AccountAuthoritySnapshotMissing
  | AuthoritySnapshotRollback bytes u64 u64 | AuthoritySnapshotEquivocation bytes u64

datatype device_list_error =
    UnsupportedAccountDeviceListVersion u8 | EmptyAccountDeviceList | TooManyAccountDevices nat
  | DuplicateAccountDevice bytes | NonCanonicalAccountDeviceList | AccountDeviceListAlreadyPublished u64
  | AccountDeviceListMissing | DeviceEnrollmentIdentityConflict bytes | AccountDeviceListRollback u64 u64

datatype membership_error =
    ConversationMembershipAlreadyExists bytes | ConversationMembershipMissing bytes
  | ConversationMembershipOwnerMismatch bytes bytes | AccountNotConversationMember bytes
  | DuplicateConversationMember bytes | NonCanonicalConversationMembers
  | ConversationMembershipRevisionExhausted | InvalidConversationMembershipRevision
  | ConversationMembershipRollback bytes u64 u64 | ConversationMembershipEquivocation bytes u64
  | ConversationMembershipNotAddOnly bytes

datatype recovery_error =
    UnsupportedAccountRootRecoveryVersion u8 | AccountRootRecoveryPackageTooLarge nat
  | AccountRootRecoveryWitnessTooLarge nat | InvalidAccountRootRecoveryPackageMagic
  | InvalidAccountRootRecoveryWitnessMagic | AccountRootRecoveryWitnessMismatch
  | AccountRootRecoveryDeviceListAhead u64 u64 | AccountRootRecoveryDeviceListRevisionMismatch u64 u64
  | TooManyAccountRootRecoveryMemberships nat | DuplicateAccountRootRecoveryMembership bytes
  | NonCanonicalAccountRootRecoveryMemberships | AccountRecoveryPhraseAccountMismatch bytes bytes
  | AccountRootRecoveryVerificationFailed | AccountRootRecoveryCheckpointChanged

datatype identity_error =
    SignatureError signature_error
  | CertificateError certificate_error
  | AuthorityError authority_error
  | DeviceListError device_list_error
  | MembershipError membership_error
  | RecoveryError recovery_error
  | AccountMismatch bytes bytes
  | UnsupportedAccountAuthorityVersion u8
  | InvalidSequence | SequenceExhausted | AuthorityEncoding | AuthorityIo

section \<open>Libraries\<close>

text \<open>Ed25519 (a signing key is its secret bytes), the keyed derivation of BLAKE3 and postcard at the
  types the module uses it at.\<close>

record identity_libs =
  id_ed :: ed25519
  id_verifying_key :: "bytes \<Rightarrow> bytes"
  id_sign :: "bytes \<Rightarrow> bytes \<Rightarrow> bytes"
  id_derive_key :: "string \<Rightarrow> bytes \<Rightarrow> bytes"
  pc_certificate_content :: "DeviceCertificateContent \<Rightarrow> bytes option"
  pc_certificate :: "DeviceCertificate \<Rightarrow> bytes option"
  pc_certificate_from :: "bytes \<Rightarrow> DeviceCertificate option"
  pc_revocation_content :: "DeviceRevocationContent \<Rightarrow> bytes option"
  pc_revocation :: "DeviceRevocation \<Rightarrow> bytes option"
  pc_revocation_from :: "bytes \<Rightarrow> DeviceRevocation option"
  pc_snapshot_content :: "AccountAuthoritySnapshotContent \<Rightarrow> bytes option"
  pc_snapshot :: "AccountAuthoritySnapshot \<Rightarrow> bytes option"
  pc_snapshot_from :: "bytes \<Rightarrow> AccountAuthoritySnapshot option"
  pc_device_list_content :: "AccountDeviceListSnapshotContent \<Rightarrow> bytes option"
  pc_device_list :: "AccountDeviceListSnapshot \<Rightarrow> bytes option"
  pc_device_list_from :: "bytes \<Rightarrow> AccountDeviceListSnapshot option"
  pc_membership_content :: "ConversationMembershipSnapshotContent \<Rightarrow> bytes option"
  pc_membership :: "ConversationMembershipSnapshot \<Rightarrow> bytes option"
  pc_membership_from :: "bytes \<Rightarrow> ConversationMembershipSnapshot option"
  pc_package_content :: "AccountRootRecoveryPackageContent \<Rightarrow> bytes option"
  pc_package :: "AccountRootRecoveryPackage \<Rightarrow> bytes option"
  pc_package_from :: "bytes \<Rightarrow> AccountRootRecoveryPackage option"
  pc_witness_content :: "AccountRootRecoveryWitnessContent \<Rightarrow> bytes option"
  pc_witness :: "AccountRootRecoveryWitness \<Rightarrow> bytes option"
  pc_witness_from :: "bytes \<Rightarrow> AccountRootRecoveryWitness option"

text \<open>What the libraries document: a signature verifies under the public key of its signing key,
  which has 32 bytes; what postcard encoded, it decodes to the same value.\<close>

definition root_signatures_documented :: "'a identity_libs_scheme \<Rightarrow> bool" where
  "root_signatures_documented lib \<longleftrightarrow> (\<forall>secret message.
     signed_by (id_ed lib) (id_verifying_key lib secret) message (id_sign lib secret message)
     \<and> length (id_verifying_key lib secret) = 32)"

definition inverts :: "('x \<Rightarrow> bytes option) \<Rightarrow> (bytes \<Rightarrow> 'x option) \<Rightarrow> bool" where
  "inverts ser de \<longleftrightarrow> (\<forall>x b. ser x = Some b \<longrightarrow> de b = Some x)"

definition root_postcard_documented :: "'a identity_libs_scheme \<Rightarrow> bool" where
  "root_postcard_documented lib \<longleftrightarrow>
     inverts (pc_certificate lib) (pc_certificate_from lib) \<and> inverts (pc_revocation lib) (pc_revocation_from lib)
   \<and> inverts (pc_snapshot lib) (pc_snapshot_from lib) \<and> inverts (pc_device_list lib) (pc_device_list_from lib)
   \<and> inverts (pc_membership lib) (pc_membership_from lib) \<and> inverts (pc_package lib) (pc_package_from lib)
   \<and> inverts (pc_witness lib) (pc_witness_from lib)"

end
