(* ===== verification/Identity_Authority.thy ===== *)
theory Identity_Authority
  imports Identity_Data
begin

text \<open>
  \<^verbatim>\<open>kilogram-identity/src/account.rs\<close>: issuing, checking and verifying the objects an Account Root signs.
  Certificates admit Devices, revocations retire them, an authority snapshot fixes the revocations at a
  revision, a device list names the Devices active at a snapshot, a membership lists the Accounts of a
  conversation, and a recovery package with its witness pins all of it. Each kind of object is an
  instance of \<open>signed_codec\<close>, whose lemmas carry the properties.
\<close>

section \<open>Keys and preimages\<close>

definition device_id_verify :: "'a identity_libs_scheme \<Rightarrow> bytes \<Rightarrow> bytes \<Rightarrow> bytes \<Rightarrow> identity_error + unit" where
  "device_id_verify lib self message signature =
     (if \<not> key_from_bytes_ok (id_ed lib) self then Inl (SignatureError InvalidDevicePublicKey)
      else if \<not> signature_try_from_ok (id_ed lib) signature then Inl (SignatureError InvalidSignatureEncoding)
      else if verify_strict (id_ed lib) self message signature then Inr () else Inl (SignatureError InvalidSignature))"

definition account_id_verify :: "'a identity_libs_scheme \<Rightarrow> bytes \<Rightarrow> bytes \<Rightarrow> bytes \<Rightarrow> identity_error + unit" where
  "account_id_verify lib self message signature =
     (if \<not> key_from_bytes_ok (id_ed lib) self then Inl (SignatureError InvalidAccountPublicKey)
      else if \<not> signature_try_from_ok (id_ed lib) signature then Inl (SignatureError InvalidSignatureEncoding)
      else if verify_strict (id_ed lib) self message signature then Inr () else Inl (SignatureError InvalidSignature))"

text \<open>\<open>authority_signing_bytes\<close> on what postcard made of the content.\<close>

definition authority_signing_bytes :: "bytes \<Rightarrow> bytes option \<Rightarrow> identity_error + bytes" where
  "authority_signing_bytes domain encoded = and_then (ok_or AuthorityEncoding encoded) (\<lambda>encoded. Inr (domain @ encoded))"

definition validate_authority_version :: "u8 \<Rightarrow> identity_error + unit" where
  "validate_authority_version version = ensure (version = AUTHORITY_VERSION) (UnsupportedAccountAuthorityVersion version)"

text \<open>\<open>AccountRootIdentity\<close> is its signing key.\<close>

definition root_account_id :: "'a identity_libs_scheme \<Rightarrow> bytes \<Rightarrow> bytes" where
  "root_account_id lib root = id_verifying_key lib root"

text \<open>Signatures the Root makes over payloads of other protocols, each under its own domain.\<close>

definition verify_ordered_context_consent where
  "verify_ordered_context_consent lib self payload signature =
     account_id_verify lib self (ascii ''kg:od1:consent'' @ [0] @ payload) signature"

definition verify_ordered_context_consent2 where
  "verify_ordered_context_consent2 lib self payload signature =
     account_id_verify lib self (ascii ''kg:od2:consent'' @ [0] @ payload) signature"

definition verify_device_link_authorization where
  "verify_device_link_authorization lib self payload signature =
     account_id_verify lib self (DEVICE_LINK_AUTHORIZATION_SIGNATURE_DOMAIN @ payload) signature"

definition verify_publication_conflict_resolution where
  "verify_publication_conflict_resolution lib self payload signature =
     account_id_verify lib self (PUBLICATION_CONFLICT_RESOLUTION_SIGNATURE_DOMAIN @ payload) signature"

definition sign_ordered_context_consent :: "'a identity_libs_scheme \<Rightarrow> bytes \<Rightarrow> bytes \<Rightarrow> bytes" where
  "sign_ordered_context_consent lib root payload = id_sign lib root (ascii ''kg:od1:consent'' @ [0] @ payload)"

definition sign_ordered_context_consent2 :: "'a identity_libs_scheme \<Rightarrow> bytes \<Rightarrow> bytes \<Rightarrow> bytes" where
  "sign_ordered_context_consent2 lib root payload = id_sign lib root (ascii ''kg:od2:consent'' @ [0] @ payload)"

definition sign_device_link_authorization :: "'a identity_libs_scheme \<Rightarrow> bytes \<Rightarrow> bytes \<Rightarrow> bytes" where
  "sign_device_link_authorization lib root payload = id_sign lib root (DEVICE_LINK_AUTHORIZATION_SIGNATURE_DOMAIN @ payload)"

definition sign_publication_conflict_resolution :: "'a identity_libs_scheme \<Rightarrow> bytes \<Rightarrow> bytes \<Rightarrow> bytes" where
  "sign_publication_conflict_resolution lib root payload =
     id_sign lib root (PUBLICATION_CONFLICT_RESOLUTION_SIGNATURE_DOMAIN @ payload)"

section \<open>Certificates\<close>

fun later_duplicate :: "'a list \<Rightarrow> bool" where
  "later_duplicate [] = False"
| "later_duplicate (x # xs) = (x \<in> set xs \<or> later_duplicate xs)"

definition validate_requested_capabilities :: "DeviceCapability list \<Rightarrow> identity_error + unit" where
  "validate_requested_capabilities capabilities =
     (if capabilities = [] then Inl (CertificateError EmptyDeviceCapabilities)
      else if later_duplicate capabilities then Inl (CertificateError DuplicateDeviceCapability) else Inr ())"

definition identity_validate_certificate_content :: "DeviceCertificateContent \<Rightarrow> identity_error + unit" where
  "identity_validate_certificate_content content =
     (if dcc_version content \<noteq> DEVICE_CERTIFICATE_VERSION
      then Inl (UnsupportedAccountAuthorityVersion (dcc_version content))
      else if dcc_capabilities content = [] then Inl (CertificateError EmptyDeviceCapabilities)
      else windows2_each (ascending id (\<lambda>_. CertificateError DuplicateDeviceCapability)
        (CertificateError NonCanonicalDeviceCapabilities)) (dcc_capabilities content))"

definition certificate_signing_bytes :: "'a identity_libs_scheme \<Rightarrow> DeviceCertificateContent \<Rightarrow> identity_error + bytes" where
  "certificate_signing_bytes lib content =
     authority_signing_bytes DEVICE_CERTIFICATE_SIGNATURE_DOMAIN (pc_certificate_content lib content)"

definition certificate_issue
  :: "'a identity_libs_scheme \<Rightarrow> bytes \<Rightarrow> bytes \<Rightarrow> bytes \<Rightarrow> u64 \<Rightarrow> DeviceCapability list \<Rightarrow> identity_error + DeviceCertificate" where
  "certificate_issue lib root device_id encryption_public_key authority_sequence capabilities =
     and_then (validate_requested_capabilities capabilities) (\<lambda>_.
     let content = \<lparr> dcc_version = DEVICE_CERTIFICATE_VERSION, dcc_account_id = root_account_id lib root,
       dcc_device_id = device_id, dcc_encryption_public_key = encryption_public_key,
       dcc_authority_sequence = authority_sequence, dcc_capabilities = sort capabilities \<rparr> in
     and_then (identity_validate_certificate_content content) (\<lambda>_.
     and_then (certificate_signing_bytes lib content) (\<lambda>message.
     Inr \<lparr> dc_content = content, dc_signature = id_sign lib root message \<rparr>)))"

definition certificate_verify :: "'a identity_libs_scheme \<Rightarrow> DeviceCertificate \<Rightarrow> identity_error + unit" where
  "certificate_verify lib self =
     and_then (identity_validate_certificate_content (dc_content self)) (\<lambda>_.
     and_then (certificate_signing_bytes lib (dc_content self)) (\<lambda>message.
     account_id_verify lib (certificate_account_id self) message (dc_signature self)))"

definition certificate_encode :: "'a identity_libs_scheme \<Rightarrow> DeviceCertificate \<Rightarrow> identity_error + bytes" where
  "certificate_encode lib self = and_then (certificate_verify lib self) (\<lambda>_. ok_or AuthorityEncoding (pc_certificate lib self))"

definition certificate_decode_and_verify :: "'a identity_libs_scheme \<Rightarrow> bytes \<Rightarrow> identity_error + DeviceCertificate" where
  "certificate_decode_and_verify lib bytes = and_then (ok_or AuthorityEncoding (pc_certificate_from lib bytes)) (\<lambda>certificate.
     and_then (certificate_verify lib certificate) (\<lambda>_. Inr certificate))"

definition certificate_verify_for_account :: "'a identity_libs_scheme \<Rightarrow> DeviceCertificate \<Rightarrow> bytes \<Rightarrow> identity_error + unit" where
  "certificate_verify_for_account lib self expected = and_then (certificate_verify lib self) (\<lambda>_.
     ensure (certificate_account_id self = expected) (AccountMismatch expected (certificate_account_id self)))"

definition has_capability :: "DeviceCertificate \<Rightarrow> DeviceCapability \<Rightarrow> bool" where
  "has_capability self capability = binary_search_is_ok (dcc_capabilities (dc_content self)) capability"

section \<open>Revocations\<close>

definition revocation_signing_bytes :: "'a identity_libs_scheme \<Rightarrow> DeviceRevocationContent \<Rightarrow> identity_error + bytes" where
  "revocation_signing_bytes lib content =
     authority_signing_bytes DEVICE_REVOCATION_SIGNATURE_DOMAIN (pc_revocation_content lib content)"

definition revocation_issue :: "'a identity_libs_scheme \<Rightarrow> bytes \<Rightarrow> bytes \<Rightarrow> u64 \<Rightarrow> identity_error + DeviceRevocation" where
  "revocation_issue lib root device_id authority_sequence =
     (let content = \<lparr> rvc_version = AUTHORITY_VERSION, rvc_account_id = root_account_id lib root,
        rvc_device_id = device_id, rvc_authority_sequence = authority_sequence \<rparr> in
      and_then (revocation_signing_bytes lib content) (\<lambda>message.
      Inr \<lparr> rv_content = content, rv_signature = id_sign lib root message \<rparr>))"

definition revocation_verify :: "'a identity_libs_scheme \<Rightarrow> DeviceRevocation \<Rightarrow> identity_error + unit" where
  "revocation_verify lib self =
     and_then (validate_authority_version (rvc_version (rv_content self))) (\<lambda>_.
     and_then (revocation_signing_bytes lib (rv_content self)) (\<lambda>message.
     account_id_verify lib (rvc_account_id (rv_content self)) message (rv_signature self)))"

definition revocation_encode :: "'a identity_libs_scheme \<Rightarrow> DeviceRevocation \<Rightarrow> identity_error + bytes" where
  "revocation_encode lib self = and_then (revocation_verify lib self) (\<lambda>_. ok_or AuthorityEncoding (pc_revocation lib self))"

definition revocation_decode_and_verify :: "'a identity_libs_scheme \<Rightarrow> bytes \<Rightarrow> identity_error + DeviceRevocation" where
  "revocation_decode_and_verify lib bytes = and_then (ok_or AuthorityEncoding (pc_revocation_from lib bytes)) (\<lambda>revocation.
     and_then (revocation_verify lib revocation) (\<lambda>_. Inr revocation))"

definition revocation_verify_for_account :: "'a identity_libs_scheme \<Rightarrow> DeviceRevocation \<Rightarrow> bytes \<Rightarrow> identity_error + unit" where
  "revocation_verify_for_account lib self expected = and_then (revocation_verify lib self) (\<lambda>_.
     ensure (rvc_account_id (rv_content self) = expected) (AccountMismatch expected (rvc_account_id (rv_content self))))"

section \<open>Authority snapshots\<close>

definition check_snapshot_revocation
  :: "'a identity_libs_scheme \<Rightarrow> AccountAuthoritySnapshotContent \<Rightarrow> DeviceRevocation \<Rightarrow> identity_error + unit" where
  "check_snapshot_revocation lib content revocation =
     and_then (revocation_verify_for_account lib revocation (aasc_account_id content)) (\<lambda>_.
     ensure (revocation_sequence revocation < aasc_revision content)
       (AuthorityError (RevocationOutsideSnapshot (revocation_sequence revocation) (aasc_revision content))))"

definition validate_authority_snapshot_content
  :: "'a identity_libs_scheme \<Rightarrow> AccountAuthoritySnapshotContent \<Rightarrow> identity_error + unit" where
  "validate_authority_snapshot_content lib content =
     and_then (validate_authority_version (aasc_version content)) (\<lambda>_.
     and_then (for_each (check_snapshot_revocation lib content) (aasc_revocations content)) (\<lambda>_.
     windows2_each (ascending revocation_device_id
       (\<lambda>first. AuthorityError (DuplicateDeviceRevocation (revocation_device_id first)))
       (AuthorityError NonCanonicalAuthoritySnapshot)) (aasc_revocations content)))"

definition authority_snapshot_signing_bytes
  :: "'a identity_libs_scheme \<Rightarrow> AccountAuthoritySnapshotContent \<Rightarrow> identity_error + bytes" where
  "authority_snapshot_signing_bytes lib content =
     authority_signing_bytes AUTHORITY_SNAPSHOT_SIGNATURE_DOMAIN (pc_snapshot_content lib content)"

definition snapshot_issue
  :: "'a identity_libs_scheme \<Rightarrow> bytes \<Rightarrow> u64 \<Rightarrow> DeviceRevocation list \<Rightarrow> identity_error + AccountAuthoritySnapshot" where
  "snapshot_issue lib root revision revocations =
     (let content = \<lparr> aasc_version = AUTHORITY_VERSION, aasc_account_id = root_account_id lib root,
        aasc_revision = revision, aasc_revocations = revocations \<rparr> in
      and_then (validate_authority_snapshot_content lib content) (\<lambda>_.
      and_then (authority_snapshot_signing_bytes lib content) (\<lambda>message.
      Inr \<lparr> aas_content = content, aas_signature = id_sign lib root message \<rparr>)))"

definition snapshot_verify :: "'a identity_libs_scheme \<Rightarrow> AccountAuthoritySnapshot \<Rightarrow> identity_error + unit" where
  "snapshot_verify lib self =
     and_then (validate_authority_snapshot_content lib (aas_content self)) (\<lambda>_.
     and_then (authority_snapshot_signing_bytes lib (aas_content self)) (\<lambda>message.
     account_id_verify lib (snapshot_account_id self) message (aas_signature self)))"

definition snapshot_encode :: "'a identity_libs_scheme \<Rightarrow> AccountAuthoritySnapshot \<Rightarrow> identity_error + bytes" where
  "snapshot_encode lib self = and_then (snapshot_verify lib self) (\<lambda>_. ok_or AuthorityEncoding (pc_snapshot lib self))"

definition snapshot_decode_and_verify :: "'a identity_libs_scheme \<Rightarrow> bytes \<Rightarrow> identity_error + AccountAuthoritySnapshot" where
  "snapshot_decode_and_verify lib bytes = and_then (ok_or AuthorityEncoding (pc_snapshot_from lib bytes)) (\<lambda>snapshot.
     and_then (snapshot_verify lib snapshot) (\<lambda>_. Inr snapshot))"

definition snapshot_verify_for_account :: "'a identity_libs_scheme \<Rightarrow> AccountAuthoritySnapshot \<Rightarrow> bytes \<Rightarrow> identity_error + unit" where
  "snapshot_verify_for_account lib self expected = and_then (snapshot_verify lib self) (\<lambda>_.
     ensure (snapshot_account_id self = expected) (AccountMismatch expected (snapshot_account_id self)))"

section \<open>Device authorisation\<close>

definition check_capability :: "DeviceCertificate \<Rightarrow> DeviceCapability \<Rightarrow> identity_error + unit" where
  "check_capability certificate capability =
     ensure (has_capability certificate capability) (CertificateError (MissingDeviceCapability capability))"

definition check_not_revoked
  :: "'a identity_libs_scheme \<Rightarrow> bytes \<Rightarrow> DeviceCertificate \<Rightarrow> DeviceRevocation \<Rightarrow> identity_error + unit" where
  "check_not_revoked lib expected_account certificate revocation =
     and_then (revocation_verify_for_account lib revocation expected_account) (\<lambda>_.
     ensure (revocation_device_id revocation \<noteq> certificate_device_id certificate)
       (CertificateError (DeviceRevoked (certificate_device_id certificate))))"

definition verify_device_authorization
  :: "'a identity_libs_scheme \<Rightarrow> bytes \<Rightarrow> DeviceCertificate \<Rightarrow> DeviceRevocation list \<Rightarrow> DeviceCapability list
      \<Rightarrow> identity_error + AuthorizedDevice" where
  "verify_device_authorization lib expected_account certificate revocations required_capabilities =
     and_then (certificate_verify_for_account lib certificate expected_account) (\<lambda>_.
     and_then (for_each (check_capability certificate) required_capabilities) (\<lambda>_.
     and_then (for_each (check_not_revoked lib expected_account certificate) revocations) (\<lambda>_.
     Inr \<lparr> ad_account_id = certificate_account_id certificate, ad_device_id = certificate_device_id certificate,
       ad_certificate_authority_sequence = certificate_sequence certificate,
       ad_capabilities = dcc_capabilities (dc_content certificate) \<rparr>)))"

definition verify_device_authorization_with_snapshot
  :: "'a identity_libs_scheme \<Rightarrow> bytes \<Rightarrow> DeviceCertificate \<Rightarrow> AccountAuthoritySnapshot \<Rightarrow> DeviceCapability list
      \<Rightarrow> identity_error + AuthorizedDevice" where
  "verify_device_authorization_with_snapshot lib expected_account certificate snapshot required_capabilities =
     and_then (snapshot_verify_for_account lib snapshot expected_account) (\<lambda>_.
     if certificate_sequence certificate \<ge> snapshot_revision snapshot
     then Inl (CertificateError (CertificateOutsideSnapshot (certificate_sequence certificate) (snapshot_revision snapshot)))
     else verify_device_authorization lib expected_account certificate (snapshot_revocations snapshot) required_capabilities)"

section \<open>Device lists\<close>

definition validate_account_device_list_content
  :: "'a identity_libs_scheme \<Rightarrow> AccountDeviceListSnapshotContent \<Rightarrow> identity_error + unit" where
  "validate_account_device_list_content lib content =
     (let snapshot = adlc_authority_snapshot content; devices = adlc_devices content in
      if adlc_version content \<noteq> ACCOUNT_DEVICE_LIST_VERSION
      then Inl (DeviceListError (UnsupportedAccountDeviceListVersion (adlc_version content)))
      else and_then (snapshot_verify lib snapshot) (\<lambda>_.
        if devices = [] then Inl (DeviceListError EmptyAccountDeviceList)
        else if length devices > MAX_ACCOUNT_DEVICES then Inl (DeviceListError (TooManyAccountDevices (length devices)))
        else and_then (for_each (\<lambda>certificate. and_then (verify_device_authorization_with_snapshot lib
            (snapshot_account_id snapshot) certificate snapshot MESSAGING) (\<lambda>_. Inr ())) devices) (\<lambda>_.
          windows2_each (ascending certificate_device_id
            (\<lambda>first. DeviceListError (DuplicateAccountDevice (certificate_device_id first)))
            (DeviceListError NonCanonicalAccountDeviceList)) devices)))"

definition account_device_list_signing_bytes
  :: "'a identity_libs_scheme \<Rightarrow> AccountDeviceListSnapshotContent \<Rightarrow> identity_error + bytes" where
  "account_device_list_signing_bytes lib content =
     authority_signing_bytes ACCOUNT_DEVICE_LIST_SIGNATURE_DOMAIN (pc_device_list_content lib content)"

definition device_list_issue
  :: "'a identity_libs_scheme \<Rightarrow> bytes \<Rightarrow> AccountAuthoritySnapshot \<Rightarrow> DeviceCertificate list \<Rightarrow> identity_error + AccountDeviceListSnapshot" where
  "device_list_issue lib root authority_snapshot devices =
     (let content = \<lparr> adlc_version = ACCOUNT_DEVICE_LIST_VERSION, adlc_authority_snapshot = authority_snapshot,
        adlc_devices = sort_key certificate_device_id devices \<rparr> in
      and_then (validate_account_device_list_content lib content) (\<lambda>_.
      and_then (ensure (snapshot_account_id authority_snapshot = root_account_id lib root)
        (AccountMismatch (root_account_id lib root) (snapshot_account_id authority_snapshot))) (\<lambda>_.
      and_then (account_device_list_signing_bytes lib content) (\<lambda>message.
      Inr \<lparr> adl_content = content, adl_signature = id_sign lib root message \<rparr>))))"

definition device_list_verify :: "'a identity_libs_scheme \<Rightarrow> AccountDeviceListSnapshot \<Rightarrow> identity_error + unit" where
  "device_list_verify lib self =
     and_then (validate_account_device_list_content lib (adl_content self)) (\<lambda>_.
     and_then (account_device_list_signing_bytes lib (adl_content self)) (\<lambda>message.
     account_id_verify lib (snapshot_account_id (list_snapshot self)) message (adl_signature self)))"

definition device_list_encode :: "'a identity_libs_scheme \<Rightarrow> AccountDeviceListSnapshot \<Rightarrow> identity_error + bytes" where
  "device_list_encode lib self = and_then (device_list_verify lib self) (\<lambda>_. ok_or AuthorityEncoding (pc_device_list lib self))"

definition device_list_decode_and_verify :: "'a identity_libs_scheme \<Rightarrow> bytes \<Rightarrow> identity_error + AccountDeviceListSnapshot" where
  "device_list_decode_and_verify lib bytes = and_then (ok_or AuthorityEncoding (pc_device_list_from lib bytes)) (\<lambda>list.
     and_then (device_list_verify lib list) (\<lambda>_. Inr list))"

definition device_list_verify_for_account :: "'a identity_libs_scheme \<Rightarrow> AccountDeviceListSnapshot \<Rightarrow> bytes \<Rightarrow> identity_error + unit" where
  "device_list_verify_for_account lib self expected = and_then (device_list_verify lib self) (\<lambda>_.
     ensure (snapshot_account_id (list_snapshot self) = expected)
       (AccountMismatch expected (snapshot_account_id (list_snapshot self))))"

definition certificate_for :: "AccountDeviceListSnapshot \<Rightarrow> bytes \<Rightarrow> DeviceCertificate option" where
  "certificate_for self device_id =
     map_option (\<lambda>index. list_devices self ! index)
       (binary_search (map certificate_device_id (list_devices self)) device_id 0 (length (list_devices self)))"

section \<open>Conversation memberships\<close>

definition canonical_members :: "bytes \<Rightarrow> bytes list \<Rightarrow> bytes list" where
  "canonical_members owner members = remdups_adj (sort (members @ [owner]))"

definition validate_conversation_membership_content
  :: "ConversationMembershipSnapshotContent \<Rightarrow> identity_error + unit" where
  "validate_conversation_membership_content content =
     and_then (validate_authority_version (cmsc_version content)) (\<lambda>_.
     if cmsc_revision content = 0 then Inl (MembershipError InvalidConversationMembershipRevision)
     else and_then (windows2_each (ascending id (\<lambda>first. MembershipError (DuplicateConversationMember first))
         (MembershipError NonCanonicalConversationMembers)) (cmsc_members content)) (\<lambda>_.
       ensure (cmsc_owner_account_id content \<in> set (cmsc_members content))
         (MembershipError (AccountNotConversationMember (cmsc_owner_account_id content)))))"

definition conversation_membership_signing_bytes
  :: "'a identity_libs_scheme \<Rightarrow> ConversationMembershipSnapshotContent \<Rightarrow> identity_error + bytes" where
  "conversation_membership_signing_bytes lib content =
     authority_signing_bytes CONVERSATION_MEMBERSHIP_SIGNATURE_DOMAIN (pc_membership_content lib content)"

definition membership_issue
  :: "'a identity_libs_scheme \<Rightarrow> bytes \<Rightarrow> bytes \<Rightarrow> u64 \<Rightarrow> bytes list \<Rightarrow> identity_error + ConversationMembershipSnapshot" where
  "membership_issue lib root conversation_id revision members =
     (let content = \<lparr> cmsc_version = AUTHORITY_VERSION, cmsc_conversation_id = conversation_id, cmsc_revision = revision,
        cmsc_owner_account_id = root_account_id lib root, cmsc_members = members \<rparr> in
      and_then (validate_conversation_membership_content content) (\<lambda>_.
      and_then (conversation_membership_signing_bytes lib content) (\<lambda>message.
      Inr \<lparr> cms_content = content, cms_signature = id_sign lib root message \<rparr>)))"

definition membership_verify :: "'a identity_libs_scheme \<Rightarrow> ConversationMembershipSnapshot \<Rightarrow> identity_error + unit" where
  "membership_verify lib self =
     and_then (validate_conversation_membership_content (cms_content self)) (\<lambda>_.
     and_then (conversation_membership_signing_bytes lib (cms_content self)) (\<lambda>message.
     account_id_verify lib (membership_owner self) message (cms_signature self)))"

definition membership_encode :: "'a identity_libs_scheme \<Rightarrow> ConversationMembershipSnapshot \<Rightarrow> identity_error + bytes" where
  "membership_encode lib self = and_then (membership_verify lib self) (\<lambda>_. ok_or AuthorityEncoding (pc_membership lib self))"

definition membership_decode_and_verify
  :: "'a identity_libs_scheme \<Rightarrow> bytes \<Rightarrow> identity_error + ConversationMembershipSnapshot" where
  "membership_decode_and_verify lib bytes = and_then (ok_or AuthorityEncoding (pc_membership_from lib bytes)) (\<lambda>membership.
     and_then (membership_verify lib membership) (\<lambda>_. Inr membership))"

definition membership_verify_for_owner
  :: "'a identity_libs_scheme \<Rightarrow> ConversationMembershipSnapshot \<Rightarrow> bytes \<Rightarrow> identity_error + unit" where
  "membership_verify_for_owner lib self expected_owner = and_then (membership_verify lib self) (\<lambda>_.
     ensure (membership_owner self = expected_owner)
       (MembershipError (ConversationMembershipOwnerMismatch expected_owner (membership_owner self))))"

definition require_member :: "'a identity_libs_scheme \<Rightarrow> ConversationMembershipSnapshot \<Rightarrow> bytes \<Rightarrow> identity_error + unit" where
  "require_member lib self account_id = and_then (membership_verify lib self) (\<lambda>_.
     ensure (account_id \<in> set (membership_members self)) (MembershipError (AccountNotConversationMember account_id)))"

section \<open>Recovery packages and witnesses\<close>

definition validate_account_root_recovery_package_content
  :: "'a identity_libs_scheme \<Rightarrow> AccountRootRecoveryPackageContent \<Rightarrow> identity_error + unit" where
  "validate_account_root_recovery_package_content lib content =
     (let authority = snapshot_revision (arpc_authority_snapshot content); listed = list_revision (arpc_device_list content);
          memberships = arpc_conversation_memberships content in
      if arpc_version content \<noteq> ACCOUNT_ROOT_RECOVERY_VERSION
      then Inl (RecoveryError (UnsupportedAccountRootRecoveryVersion (arpc_version content)))
      else and_then (snapshot_verify_for_account lib (arpc_authority_snapshot content) (arpc_account_id content)) (\<lambda>_.
        and_then (device_list_verify_for_account lib (arpc_device_list content) (arpc_account_id content)) (\<lambda>_.
        if listed > authority then Inl (RecoveryError (AccountRootRecoveryDeviceListAhead listed authority))
        else if listed < authority then Inl (RecoveryError (AccountRootRecoveryDeviceListRevisionMismatch listed authority))
        else if length memberships > MAX_ACCOUNT_ROOT_RECOVERY_MEMBERSHIPS
        then Inl (RecoveryError (TooManyAccountRootRecoveryMemberships (length memberships)))
        else and_then (for_each (\<lambda>m. membership_verify_for_owner lib m (arpc_account_id content)) memberships) (\<lambda>_.
          windows2_each (ascending membership_conversation_id
            (\<lambda>first. RecoveryError (DuplicateAccountRootRecoveryMembership (membership_conversation_id first)))
            (RecoveryError NonCanonicalAccountRootRecoveryMemberships)) memberships))))"

definition account_root_recovery_package_signing_bytes
  :: "'a identity_libs_scheme \<Rightarrow> AccountRootRecoveryPackageContent \<Rightarrow> identity_error + bytes" where
  "account_root_recovery_package_signing_bytes lib content =
     authority_signing_bytes ACCOUNT_ROOT_RECOVERY_PACKAGE_SIGNATURE_DOMAIN (pc_package_content lib content)"

definition account_root_recovery_witness_signing_bytes
  :: "'a identity_libs_scheme \<Rightarrow> AccountRootRecoveryWitnessContent \<Rightarrow> identity_error + bytes" where
  "account_root_recovery_witness_signing_bytes lib content =
     authority_signing_bytes ACCOUNT_ROOT_RECOVERY_WITNESS_SIGNATURE_DOMAIN (pc_witness_content lib content)"

definition package_issue
  :: "'a identity_libs_scheme \<Rightarrow> bytes \<Rightarrow> AccountAuthoritySnapshot \<Rightarrow> AccountDeviceListSnapshot
      \<Rightarrow> ConversationMembershipSnapshot list \<Rightarrow> identity_error + AccountRootRecoveryPackage" where
  "package_issue lib root authority_snapshot device_list conversation_memberships =
     (let content = \<lparr> arpc_version = ACCOUNT_ROOT_RECOVERY_VERSION, arpc_account_id = root_account_id lib root,
        arpc_authority_snapshot = authority_snapshot, arpc_device_list = device_list,
        arpc_conversation_memberships = conversation_memberships \<rparr> in
      and_then (validate_account_root_recovery_package_content lib content) (\<lambda>_.
      and_then (account_root_recovery_package_signing_bytes lib content) (\<lambda>message.
      Inr \<lparr> arp_content = content, arp_signature = id_sign lib root message \<rparr>)))"

definition package_verify :: "'a identity_libs_scheme \<Rightarrow> AccountRootRecoveryPackage \<Rightarrow> identity_error + unit" where
  "package_verify lib self =
     and_then (validate_account_root_recovery_package_content lib (arp_content self)) (\<lambda>_.
     and_then (account_root_recovery_package_signing_bytes lib (arp_content self)) (\<lambda>message.
     account_id_verify lib (package_account_id self) message (arp_signature self)))"

definition strip_prefix :: "bytes \<Rightarrow> bytes \<Rightarrow> bytes option" where
  "strip_prefix prefix bytes = (if take (length prefix) bytes = prefix then Some (drop (length prefix) bytes) else None)"

definition package_encode :: "'a identity_libs_scheme \<Rightarrow> AccountRootRecoveryPackage \<Rightarrow> identity_error + bytes" where
  "package_encode lib self =
     and_then (package_verify lib self) (\<lambda>_.
     and_then (ok_or AuthorityEncoding (pc_package lib self)) (\<lambda>payload.
     let total_len = length ACCOUNT_ROOT_RECOVERY_PACKAGE_MAGIC + length payload in
     if total_len > MAX_ACCOUNT_ROOT_RECOVERY_PACKAGE_BYTES then Inl (RecoveryError (AccountRootRecoveryPackageTooLarge total_len))
     else Inr (ACCOUNT_ROOT_RECOVERY_PACKAGE_MAGIC @ payload)))"

definition package_decode_and_verify :: "'a identity_libs_scheme \<Rightarrow> bytes \<Rightarrow> identity_error + AccountRootRecoveryPackage" where
  "package_decode_and_verify lib bytes =
     (if length bytes > MAX_ACCOUNT_ROOT_RECOVERY_PACKAGE_BYTES
      then Inl (RecoveryError (AccountRootRecoveryPackageTooLarge (length bytes)))
      else and_then (ok_or (RecoveryError InvalidAccountRootRecoveryPackageMagic)
          (strip_prefix ACCOUNT_ROOT_RECOVERY_PACKAGE_MAGIC bytes)) (\<lambda>payload.
        and_then (ok_or AuthorityEncoding (pc_package_from lib payload)) (\<lambda>package.
        and_then (package_verify lib package) (\<lambda>_. Inr package))))"

definition package_id :: "'a identity_libs_scheme \<Rightarrow> AccountRootRecoveryPackage \<Rightarrow> identity_error + bytes" where
  "package_id lib self = and_then (package_encode lib self) (\<lambda>encoded.
     Inr (id_derive_key lib ACCOUNT_ROOT_RECOVERY_PACKAGE_ID_DOMAIN encoded))"

definition witness_issue
  :: "'a identity_libs_scheme \<Rightarrow> bytes \<Rightarrow> AccountRootRecoveryPackage \<Rightarrow> identity_error + AccountRootRecoveryWitness" where
  "witness_issue lib root package = and_then (package_id lib package) (\<lambda>identifier.
     let content = \<lparr> arwc_version = ACCOUNT_ROOT_RECOVERY_VERSION, arwc_account_id = package_account_id package,
       arwc_authority_revision = package_authority_revision package, arwc_package_id = identifier \<rparr> in
     and_then (account_root_recovery_witness_signing_bytes lib content) (\<lambda>message.
     Inr \<lparr> arw_content = content, arw_signature = id_sign lib root message \<rparr>))"

definition witness_verify :: "'a identity_libs_scheme \<Rightarrow> AccountRootRecoveryWitness \<Rightarrow> identity_error + unit" where
  "witness_verify lib self =
     and_then (ensure (arwc_version (arw_content self) = ACCOUNT_ROOT_RECOVERY_VERSION)
       (RecoveryError (UnsupportedAccountRootRecoveryVersion (arwc_version (arw_content self))))) (\<lambda>_.
     and_then (account_root_recovery_witness_signing_bytes lib (arw_content self)) (\<lambda>message.
     account_id_verify lib (arwc_account_id (arw_content self)) message (arw_signature self)))"

definition witness_verify_package
  :: "'a identity_libs_scheme \<Rightarrow> AccountRootRecoveryWitness \<Rightarrow> AccountRootRecoveryPackage \<Rightarrow> identity_error + unit" where
  "witness_verify_package lib self package =
     and_then (witness_verify lib self) (\<lambda>_.
     and_then (package_verify lib package) (\<lambda>_.
     and_then (package_id lib package) (\<lambda>identifier.
     ensure (arwc_account_id (arw_content self) = package_account_id package
         \<and> arwc_authority_revision (arw_content self) = package_authority_revision package
         \<and> arwc_package_id (arw_content self) = identifier)
       (RecoveryError AccountRootRecoveryWitnessMismatch))))"

definition witness_encode :: "'a identity_libs_scheme \<Rightarrow> AccountRootRecoveryWitness \<Rightarrow> identity_error + bytes" where
  "witness_encode lib self =
     and_then (witness_verify lib self) (\<lambda>_.
     and_then (ok_or AuthorityEncoding (pc_witness lib self)) (\<lambda>payload.
     let total_len = length ACCOUNT_ROOT_RECOVERY_WITNESS_MAGIC + length payload in
     if total_len > MAX_ACCOUNT_ROOT_RECOVERY_WITNESS_BYTES then Inl (RecoveryError (AccountRootRecoveryWitnessTooLarge total_len))
     else Inr (ACCOUNT_ROOT_RECOVERY_WITNESS_MAGIC @ payload)))"

definition witness_decode_and_verify :: "'a identity_libs_scheme \<Rightarrow> bytes \<Rightarrow> identity_error + AccountRootRecoveryWitness" where
  "witness_decode_and_verify lib bytes =
     (if length bytes > MAX_ACCOUNT_ROOT_RECOVERY_WITNESS_BYTES
      then Inl (RecoveryError (AccountRootRecoveryWitnessTooLarge (length bytes)))
      else and_then (ok_or (RecoveryError InvalidAccountRootRecoveryWitnessMagic)
          (strip_prefix ACCOUNT_ROOT_RECOVERY_WITNESS_MAGIC bytes)) (\<lambda>payload.
        and_then (ok_or AuthorityEncoding (pc_witness_from lib payload)) (\<lambda>witness.
        and_then (witness_verify lib witness) (\<lambda>_. Inr witness))))"

section \<open>Instances of the signed-object contract\<close>

lemma account_id_verify_iff: "account_id_verify lib k m s = Inr u \<longleftrightarrow> signed_by (id_ed lib) k m s"
  by (simp add: account_id_verify_def signed_by_def)

lemma device_id_verify_iff: "device_id_verify lib k m s = Inr u \<longleftrightarrow> signed_by (id_ed lib) k m s"
  by (simp add: device_id_verify_def signed_by_def)

interpretation cert: signed_codec "id_ed lib" dc_content dc_signature identity_validate_certificate_content
  "certificate_signing_bytes lib" dcc_account_id "account_id_verify lib" "certificate_verify lib"
  "pc_certificate lib" "pc_certificate_from lib" AuthorityEncoding "certificate_encode lib" "certificate_decode_and_verify lib"
  for lib :: "'a identity_libs_scheme"
  by unfold_locales (simp_all only: account_id_verify_iff certificate_verify_def certificate_encode_def certificate_decode_and_verify_def)

interpretation revo: signed_codec "id_ed lib" rv_content rv_signature "\<lambda>c. validate_authority_version (rvc_version c)"
  "revocation_signing_bytes lib" rvc_account_id "account_id_verify lib" "revocation_verify lib"
  "pc_revocation lib" "pc_revocation_from lib" AuthorityEncoding "revocation_encode lib" "revocation_decode_and_verify lib"
  for lib :: "'a identity_libs_scheme"
  by unfold_locales (simp_all only: account_id_verify_iff revocation_verify_def revocation_encode_def revocation_decode_and_verify_def)

interpretation snap: signed_codec "id_ed lib" aas_content aas_signature "validate_authority_snapshot_content lib"
  "authority_snapshot_signing_bytes lib" aasc_account_id "account_id_verify lib" "snapshot_verify lib"
  "pc_snapshot lib" "pc_snapshot_from lib" AuthorityEncoding "snapshot_encode lib" "snapshot_decode_and_verify lib"
  for lib :: "'a identity_libs_scheme"
  by unfold_locales (simp_all only: account_id_verify_iff snapshot_verify_def snapshot_encode_def snapshot_decode_and_verify_def)

interpretation dlist: signed_codec "id_ed lib" adl_content adl_signature "validate_account_device_list_content lib"
  "account_device_list_signing_bytes lib" "\<lambda>c. snapshot_account_id (adlc_authority_snapshot c)" "account_id_verify lib"
  "device_list_verify lib" "pc_device_list lib" "pc_device_list_from lib" AuthorityEncoding "device_list_encode lib"
  "device_list_decode_and_verify lib"
  for lib :: "'a identity_libs_scheme"
  by unfold_locales (simp_all only: account_id_verify_iff device_list_verify_def device_list_encode_def device_list_decode_and_verify_def)

interpretation memb: signed_codec "id_ed lib" cms_content cms_signature validate_conversation_membership_content
  "conversation_membership_signing_bytes lib" cmsc_owner_account_id "account_id_verify lib" "membership_verify lib"
  "pc_membership lib" "pc_membership_from lib" AuthorityEncoding "membership_encode lib" "membership_decode_and_verify lib"
  for lib :: "'a identity_libs_scheme"
  by unfold_locales (simp_all only: account_id_verify_iff membership_verify_def membership_encode_def membership_decode_and_verify_def)

interpretation pkg: signed_object "id_ed lib" arp_content arp_signature "validate_account_root_recovery_package_content lib"
  "account_root_recovery_package_signing_bytes lib" arpc_account_id "account_id_verify lib" "package_verify lib"
  for lib :: "'a identity_libs_scheme"
  by unfold_locales (simp_all only: account_id_verify_iff package_verify_def)

section \<open>What the checks establish\<close>

lemma root_signed:
  "root_signatures_documented lib \<Longrightarrow> signed_by (id_ed lib) (root_account_id lib root) m (id_sign lib root m)"
  by (simp add: root_signatures_documented_def root_account_id_def)

lemma certificate_content_valid: "identity_validate_certificate_content c = Inr u \<longleftrightarrow>
    dcc_version c = DEVICE_CERTIFICATE_VERSION \<and> dcc_capabilities c \<noteq> [] \<and> sorted_wrt (<) (dcc_capabilities c)"
  by (simp add: identity_validate_certificate_content_def result_simps)

lemma has_capability_iff: "certificate_verify lib c = Inr () \<Longrightarrow>
    has_capability c p \<longleftrightarrow> p \<in> set (dcc_capabilities (dc_content c))"
  by (auto simp: has_capability_def certificate_content_valid binary_search_is_ok_iff dest!: cert.verified_check)

lemma snapshot_content_valid: "validate_authority_snapshot_content lib c = Inr u \<longleftrightarrow>
    aasc_version c = AUTHORITY_VERSION
    \<and> (\<forall>r \<in> set (aasc_revocations c). revocation_verify lib r = Inr () \<and> rvc_account_id (rv_content r) = aasc_account_id c
         \<and> revocation_sequence r < aasc_revision c)
    \<and> sorted_wrt (\<lambda>x y. revocation_device_id x < revocation_device_id y) (aasc_revocations c)"
  by (auto simp: validate_authority_snapshot_content_def validate_authority_version_def check_snapshot_revocation_def
      revocation_verify_for_account_def result_simps)

lemma snapshot_verify_for_account_iff:
  "snapshot_verify_for_account lib s acct = Inr u \<longleftrightarrow> snapshot_verify lib s = Inr () \<and> snapshot_account_id s = acct"
  by (simp add: snapshot_verify_for_account_def result_simps)

lemma authorization_iff: "verify_device_authorization_with_snapshot lib acct c s caps = Inr d \<longleftrightarrow>
    snapshot_verify lib s = Inr () \<and> snapshot_account_id s = acct \<and> certificate_verify lib c = Inr ()
    \<and> certificate_account_id c = acct \<and> certificate_sequence c < snapshot_revision s
    \<and> set caps \<subseteq> set (dcc_capabilities (dc_content c))
    \<and> certificate_device_id c \<notin> revocation_device_id ` set (snapshot_revocations s)
    \<and> d = \<lparr> ad_account_id = acct, ad_device_id = certificate_device_id c,
        ad_certificate_authority_sequence = certificate_sequence c, ad_capabilities = dcc_capabilities (dc_content c) \<rparr>"
    (is "?l \<longleftrightarrow> ?r")
proof (cases "snapshot_verify lib s = Inr () \<and> snapshot_account_id s = acct \<and> certificate_verify lib c = Inr ()
    \<and> certificate_account_id c = acct \<and> certificate_sequence c < snapshot_revision s")
  case True
  then have "\<forall>r \<in> set (snapshot_revocations s). revocation_verify_for_account lib r acct = Inr ()"
    by (auto simp: snapshot_content_valid revocation_verify_for_account_def result_simps dest!: snap.verified_check)
  with True show ?thesis
    by (auto simp: verify_device_authorization_with_snapshot_def verify_device_authorization_def check_capability_def
        check_not_revoked_def certificate_verify_for_account_def snapshot_verify_for_account_iff result_simps has_capability_iff image_iff
        subset_iff)
next
  case False
  then show ?thesis
    by (auto simp: verify_device_authorization_with_snapshot_def verify_device_authorization_def
        certificate_verify_for_account_def snapshot_verify_for_account_iff result_simps split: if_splits)
qed

lemma device_list_content_valid: "validate_account_device_list_content lib c = Inr u \<longleftrightarrow>
    adlc_version c = ACCOUNT_DEVICE_LIST_VERSION \<and> snapshot_verify lib (adlc_authority_snapshot c) = Inr ()
    \<and> adlc_devices c \<noteq> [] \<and> length (adlc_devices c) \<le> MAX_ACCOUNT_DEVICES
    \<and> (\<forall>d \<in> set (adlc_devices c). is_ok (verify_device_authorization_with_snapshot lib
         (snapshot_account_id (adlc_authority_snapshot c)) d (adlc_authority_snapshot c) MESSAGING))
    \<and> sorted_wrt (\<lambda>x y. certificate_device_id x < certificate_device_id y) (adlc_devices c)"
  by (auto simp: validate_account_device_list_content_def Let_def result_simps split: if_splits)

lemma device_list_verify_for_account_iff: "device_list_verify_for_account lib l acct = Inr u \<longleftrightarrow>
    device_list_verify lib l = Inr () \<and> snapshot_account_id (list_snapshot l) = acct"
  by (simp add: device_list_verify_for_account_def result_simps)

lemma device_list_devices:
  assumes "device_list_verify lib l = Inr ()" and "d \<in> set (list_devices l)"
  shows "certificate_verify lib d = Inr ()" "certificate_account_id d = snapshot_account_id (list_snapshot l)"
    "certificate_sequence d < list_revision l" "set MESSAGING \<subseteq> set (dcc_capabilities (dc_content d))"
    "certificate_device_id d \<notin> revocation_device_id ` set (snapshot_revocations (list_snapshot l))"
  using dlist.verified_check [OF assms(1)] assms(2)
  by (auto simp: device_list_content_valid is_ok_iff authorization_iff)

lemma binary_search_nth: "binary_search xs x lo hi = Some i \<Longrightarrow> lo \<le> i \<and> i < hi \<and> xs ! i = x"
proof (induction xs x lo hi rule: binary_search.induct)
  case (1 xs x lo hi)
  then show ?case by (subst (asm) (2) binary_search.simps) (fastforce simp: Let_def split: if_splits)
qed

lemma certificate_for_iff:
  assumes "device_list_verify lib l = Inr ()"
  shows "certificate_for l dev = Some c \<longleftrightarrow> c \<in> set (list_devices l) \<and> certificate_device_id c = dev"
proof -
  let ?ids = "map certificate_device_id (list_devices l)"
  have s: "sorted_wrt (<) ?ids"
    using dlist.verified_check [OF assms] by (simp add: device_list_content_valid sorted_wrt_map)
  have i: "list_devices l ! i = c" if "i < length (list_devices l)" "?ids ! i = dev" "c \<in> set (list_devices l)"
    "certificate_device_id c = dev" for i
    using that sorted_wrt_less_distinct [of "\<lambda>x. x" ?ids] s by (auto simp: in_set_conv_nth distinct_conv_nth)
  show ?thesis
  proof
    assume "certificate_for l dev = Some c"
    then show "c \<in> set (list_devices l) \<and> certificate_device_id c = dev"
      by (auto simp: certificate_for_def dest!: binary_search_nth)
  next
    assume c: "c \<in> set (list_devices l) \<and> certificate_device_id c = dev"
    then have "\<exists>i. 0 \<le> i \<and> i < length ?ids \<and> ?ids ! i = dev" by (auto simp: in_set_conv_nth)
    then obtain i where "binary_search ?ids dev 0 (length ?ids) = Some i"
      using binary_search_spec [OF s, of "length ?ids" dev 0] by auto
    with i c show "certificate_for l dev = Some c" by (auto simp: certificate_for_def dest!: binary_search_nth)
  qed
qed

lemma certificate_for_None:
  assumes "device_list_verify lib l = Inr ()"
  shows "certificate_for l dev = None \<longleftrightarrow> dev \<notin> certificate_device_id ` set (list_devices l)"
  using certificate_for_iff [OF assms, of dev] by (auto simp: not_Some_eq [symmetric] simp del: not_Some_eq)

lemma membership_content_valid: "validate_conversation_membership_content c = Inr u \<longleftrightarrow>
    cmsc_version c = AUTHORITY_VERSION \<and> cmsc_revision c \<noteq> 0 \<and> sorted_wrt (<) (cmsc_members c)
    \<and> cmsc_owner_account_id c \<in> set (cmsc_members c)"
  by (simp add: validate_conversation_membership_content_def validate_authority_version_def result_simps)

lemma membership_verify_for_owner_iff:
  "membership_verify_for_owner lib m owner = Inr u \<longleftrightarrow> membership_verify lib m = Inr () \<and> membership_owner m = owner"
  by (simp add: membership_verify_for_owner_def result_simps)

lemma sorted_remdups_adj: "sorted xs \<Longrightarrow> sorted_wrt (<) (remdups_adj (xs :: 'b :: linorder list))"
  by (induction xs rule: remdups_adj.induct) (auto simp: order.strict_iff_order)

lemma canonical_members_sorted: "sorted_wrt (<) (canonical_members owner members)"
  by (simp add: canonical_members_def sorted_remdups_adj)

lemma set_canonical_members [simp]: "set (canonical_members owner members) = insert owner (set members)"
  by (auto simp: canonical_members_def)

lemma preimage_Inr [result_simps]: "authority_signing_bytes domain enc = Inr m \<longleftrightarrow> (\<exists>b. enc = Some b \<and> m = domain @ b)"
  by (auto simp: authority_signing_bytes_def result_simps)

text \<open>Issuing makes an object that verifies, with the content asked for.\<close>

lemma certificate_issue_verifies:
  assumes "root_signatures_documented lib" and "certificate_issue lib root dev key n caps = Inr c"
  shows "certificate_verify lib c = Inr () \<and> certificate_account_id c = root_account_id lib root
    \<and> certificate_device_id c = dev \<and> certificate_sequence c = n
    \<and> dcc_encryption_public_key (dc_content c) = key \<and> set (dcc_capabilities (dc_content c)) = set caps
    \<and> dcc_capabilities (dc_content c) = sort caps"
  using assms by (auto simp: certificate_issue_def Let_def and_then_Inr intro!: cert.verify_issued root_signed)

lemma revocation_issue_verifies:
  assumes "root_signatures_documented lib" and "revocation_issue lib root dev n = Inr r"
  shows "revocation_verify lib r = Inr () \<and> rvc_account_id (rv_content r) = root_account_id lib root
    \<and> revocation_device_id r = dev \<and> revocation_sequence r = n"
  using assms
  by (auto simp: revocation_issue_def Let_def and_then_Inr validate_authority_version_def intro!: revo.verify_issued root_signed)

lemma snapshot_issue_verifies:
  assumes "root_signatures_documented lib" and "snapshot_issue lib root n rs = Inr s"
  shows "snapshot_verify lib s = Inr () \<and> snapshot_account_id s = root_account_id lib root
    \<and> snapshot_revision s = n \<and> snapshot_revocations s = rs"
  using assms by (auto simp: snapshot_issue_def Let_def and_then_Inr intro!: snap.verify_issued root_signed)

lemma device_list_issue_verifies:
  assumes "root_signatures_documented lib" and "device_list_issue lib root s ds = Inr l"
  shows "device_list_verify lib l = Inr () \<and> snapshot_account_id (list_snapshot l) = root_account_id lib root
    \<and> list_snapshot l = s \<and> list_devices l = sort_key certificate_device_id ds"
proof -
  from assms(2) obtain c m where c: "validate_account_device_list_content lib c = Inr ()" "account_device_list_signing_bytes lib c = Inr m"
    "l = \<lparr> adl_content = c, adl_signature = id_sign lib root m \<rparr>" "snapshot_account_id s = root_account_id lib root"
    "adlc_authority_snapshot c = s" "adlc_devices c = sort_key certificate_device_id ds"
    by (auto simp: device_list_issue_def Let_def and_then_Inr ensure_Inr)
  then have "device_list_verify lib l = Inr ()"
    using root_signed [OF assms(1), of root m] by (intro dlist.verify_issued) auto
  with c show ?thesis by simp
qed

lemma membership_issue_verifies:
  assumes "root_signatures_documented lib" and "membership_issue lib root conv n ms = Inr m"
  shows "membership_verify lib m = Inr () \<and> membership_owner m = root_account_id lib root
    \<and> membership_conversation_id m = conv \<and> membership_revision m = n \<and> membership_members m = ms"
  using assms by (auto simp: membership_issue_def Let_def and_then_Inr intro!: memb.verify_issued root_signed)

end
