(* ===== verification/Account_Root.thy ===== *)
theory Account_Root
  imports Identity_Authority Ordered_Table
begin

text \<open>
  \<^verbatim>\<open>kilogram-identity/src/account.rs\<close>, \<open>AccountRootState\<close>: the directory an Account Root works on. Its
  files are the record \<open>root_dir\<close>; a directory of files named by an identifier is a table keyed by that
  identifier. An operation takes the directory and returns a result with the directory it leaves, on
  errors too, because a file written before the error stays. Sequence numbers are text files, so
  printing and parsing them is part of the model. Failures of the file system other than a missing or
  already existing file are outside it.
\<close>

section \<open>Decimal text\<close>

definition digit_char :: "nat \<Rightarrow> char" where
  "digit_char d = char_of (48 + d)"

fun decimal :: "nat \<Rightarrow> string" where
  "decimal n = (if n < 10 then [digit_char n] else decimal (n div 10) @ [digit_char (n mod 10)])"

declare decimal.simps [simp del]

definition is_whitespace :: "char \<Rightarrow> bool" where
  "is_whitespace c = (let n = of_char c :: nat in n = 32 \<or> 9 \<le> n \<and> n \<le> 13)"

definition trim :: "string \<Rightarrow> string" where
  "trim s = rev (dropWhile is_whitespace (rev (dropWhile is_whitespace s)))"

fun parse_digits :: "nat \<Rightarrow> string \<Rightarrow> nat option" where
  "parse_digits acc [] = Some acc"
| "parse_digits acc (c # cs) = (let n = of_char c :: nat; next = acc * 10 + (n - 48) in
     if 48 \<le> n \<and> n \<le> 57 \<and> next < 2 ^ 64 then parse_digits next cs else None)"

text \<open>\<open>u64::from_str\<close>: a sign is allowed before at least one digit, and the value must fit.\<close>

definition parse_u64 :: "string \<Rightarrow> u64 option" where
  "parse_u64 s = (if s = [] then None
     else let digits = (if hd s = CHR ''+'' \<and> tl s \<noteq> [] then tl s else s) in
       map_option word_of_nat (parse_digits 0 digits))"

text \<open>\<open>writeln!(file, "{value}")\<close>.\<close>

definition number_line :: "u64 \<Rightarrow> string" where
  "number_line v = decimal (unat v) @ [CHR 0x0A]"

section \<open>The directory\<close>

record root_dir =
  next_authority_sequence :: "string option"
  authority_log_version :: "string option"
  revocation_files :: "bytes table"
  membership_files :: "bytes table"
  device_list_file :: "bytes option"
  recovery_checkpoint :: "bytes option"
  locked_elsewhere :: bool

type_synonym 'r root_op = "root_dir \<Rightarrow> (identity_error + 'r) \<times> root_dir"

definition AUTHORITY_LOG_VERSION :: string where
  "AUTHORITY_LOG_VERSION = ''1''"

definition create_with_identity :: root_dir where
  "create_with_identity = \<lparr> next_authority_sequence = None, authority_log_version = Some (AUTHORITY_LOG_VERSION @ [CHR 0x0A]),
     revocation_files = [], membership_files = [], device_list_file = None, recovery_checkpoint = None,
     locked_elsewhere = False \<rparr>"

definition read_next_authority_sequence :: "u64 root_op" where
  "read_next_authority_sequence d = (case next_authority_sequence d of
     Some value \<Rightarrow> (ok_or InvalidSequence (parse_u64 (trim value)), d)
   | None \<Rightarrow> (Inr 0, d))"

definition allocate_authority_sequence :: "u64 root_op" where
  "allocate_authority_sequence =
     then_do read_next_authority_sequence (\<lambda>current.
     then_do (pure (ok_or (AuthorityError AuthoritySequenceExhausted) (u64_checked_add current 1))) (\<lambda>next d.
     (Inr current, d\<lparr> next_authority_sequence := Some (number_line next) \<rparr>)))"

definition ensure_authority_log_ready :: "unit root_op" where
  "ensure_authority_log_ready d = (case authority_log_version d of
     Some version \<Rightarrow> (if trim version = AUTHORITY_LOG_VERSION then (Inr (), d)
       else (Inl (AuthorityError (UnsupportedAuthorityLogVersion (trim version))), d))
   | None \<Rightarrow> then_do read_next_authority_sequence (\<lambda>n d.
       if n \<noteq> 0 then (Inl (AuthorityError LegacyAuthorityState), d)
       else (Inr (), d\<lparr> authority_log_version := Some (AUTHORITY_LOG_VERSION @ [CHR 0x0A]) \<rparr>)) d)"

text \<open>\<open>try_lock\<close> on the lock file; the lock is held until the operation returns.\<close>

definition acquire_authority_write_lock :: "unit root_op" where
  "acquire_authority_write_lock d = (ensure (\<not> locked_elsewhere d) (AuthorityError AccountAuthorityWriteLocked), d)"

section \<open>Certificates, revocations and snapshots\<close>

definition issue_device_certificate_unlocked
  :: "'a identity_libs_scheme \<Rightarrow> bytes \<Rightarrow> bytes \<Rightarrow> bytes \<Rightarrow> DeviceCapability list \<Rightarrow> DeviceCertificate root_op" where
  "issue_device_certificate_unlocked lib root device_id encryption_public_key capabilities =
     then_do allocate_authority_sequence (\<lambda>authority_sequence.
     pure (certificate_issue lib root device_id encryption_public_key authority_sequence capabilities))"

definition issue_device_certificate
  :: "'a identity_libs_scheme \<Rightarrow> bytes \<Rightarrow> bytes \<Rightarrow> bytes \<Rightarrow> DeviceCapability list \<Rightarrow> DeviceCertificate root_op" where
  "issue_device_certificate lib root device_id encryption_public_key capabilities =
     then_do ensure_authority_log_ready (\<lambda>_.
     then_do (pure (validate_requested_capabilities capabilities)) (\<lambda>_.
     then_do acquire_authority_write_lock (\<lambda>_.
     issue_device_certificate_unlocked lib root device_id encryption_public_key capabilities)))"

text \<open>Allocate a sequence number, sign the revocation and write its file, which must not exist.\<close>

definition write_revocation :: "'a identity_libs_scheme \<Rightarrow> bytes \<Rightarrow> bytes \<Rightarrow> DeviceRevocation root_op" where
  "write_revocation lib root device_id =
     then_do allocate_authority_sequence (\<lambda>authority_sequence.
     then_do (pure (revocation_issue lib root device_id authority_sequence)) (\<lambda>revocation.
     then_do (pure (revocation_encode lib revocation)) (\<lambda>encoded d.
     if t_get (revocation_files d) device_id \<noteq> None then (Inl AuthorityIo, d)
     else (Inr revocation, d\<lparr> revocation_files := t_insert device_id encoded (revocation_files d) \<rparr>))))"

definition revoke_device :: "'a identity_libs_scheme \<Rightarrow> bytes \<Rightarrow> bytes \<Rightarrow> DeviceRevocation root_op" where
  "revoke_device lib root device_id =
     then_do ensure_authority_log_ready (\<lambda>_.
     then_do acquire_authority_write_lock (\<lambda>_ d.
     if t_get (revocation_files d) device_id \<noteq> None
     then (Inl (AuthorityError (DeviceAlreadyRevoked device_id)), d)
     else write_revocation lib root device_id d))"

definition authority_snapshot :: "'a identity_libs_scheme \<Rightarrow> bytes \<Rightarrow> AccountAuthoritySnapshot root_op" where
  "authority_snapshot lib root =
     then_do ensure_authority_log_ready (\<lambda>_.
     then_do read_next_authority_sequence (\<lambda>revision d.
     (and_then (try_map (\<lambda>(_, bytes). revocation_decode_and_verify lib bytes) (revocation_files d)) (\<lambda>revocations.
        snapshot_issue lib root revision (sort_key revocation_device_id revocations)), d)))"

section \<open>Device lists\<close>

definition published_device_list :: "'a identity_libs_scheme \<Rightarrow> bytes \<Rightarrow> AccountDeviceListSnapshot root_op" where
  "published_device_list lib root d =
     (and_then (ok_or (DeviceListError AccountDeviceListMissing) (device_list_file d)) (\<lambda>bytes.
      and_then (device_list_decode_and_verify lib bytes) (\<lambda>list.
      and_then (device_list_verify_for_account lib list (root_account_id lib root)) (\<lambda>_. Inr list))), d)"

definition replace_device_list :: "'a identity_libs_scheme \<Rightarrow> AccountDeviceListSnapshot \<Rightarrow> AccountDeviceListSnapshot root_op" where
  "replace_device_list lib candidate =
     then_do (pure (device_list_encode lib candidate)) (\<lambda>encoded d. (Inr candidate, d\<lparr> device_list_file := Some encoded \<rparr>))"

definition publish_device_list_unlocked
  :: "'a identity_libs_scheme \<Rightarrow> bytes \<Rightarrow> DeviceCertificate list \<Rightarrow> AccountDeviceListSnapshot root_op" where
  "publish_device_list_unlocked lib root certificates =
     then_do (authority_snapshot lib root) (\<lambda>snapshot.
     then_do (pure (device_list_issue lib root snapshot certificates)) (\<lambda>candidate d.
     case device_list_file d of
       None \<Rightarrow> replace_device_list lib candidate d
     | Some bytes \<Rightarrow> then_do (pure (device_list_decode_and_verify lib bytes)) (\<lambda>existing.
         if list_revision existing > list_revision candidate
         then pure (Inl (DeviceListError (AccountDeviceListRollback (list_revision existing) (list_revision candidate))))
         else if list_revision existing = list_revision candidate
         then pure (if existing = candidate then Inr existing
           else Inl (DeviceListError (AccountDeviceListAlreadyPublished (list_revision candidate))))
         else replace_device_list lib candidate) d))"

definition publish_device_list
  :: "'a identity_libs_scheme \<Rightarrow> bytes \<Rightarrow> DeviceCertificate list \<Rightarrow> AccountDeviceListSnapshot root_op" where
  "publish_device_list lib root certificates =
     then_do ensure_authority_log_ready (\<lambda>_. then_do acquire_authority_write_lock (\<lambda>_.
     publish_device_list_unlocked lib root certificates))"

text \<open>The certificates of a list whose Devices a snapshot does not revoke.\<close>

definition active_devices :: "AccountDeviceListSnapshot \<Rightarrow> AccountAuthoritySnapshot \<Rightarrow> DeviceCertificate list" where
  "active_devices current authority = filter (\<lambda>certificate. \<not> list_ex (\<lambda>revocation.
     revocation_device_id revocation = certificate_device_id certificate) (snapshot_revocations authority)) (list_devices current)"

definition enroll_existing
  :: "'a identity_libs_scheme \<Rightarrow> bytes \<Rightarrow> AccountDeviceListSnapshot \<Rightarrow> AccountAuthoritySnapshot \<Rightarrow> DeviceCertificate
      \<Rightarrow> bytes \<Rightarrow> DeviceCapability list \<Rightarrow> (DeviceCertificate \<times> AccountDeviceListSnapshot) root_op" where
  "enroll_existing lib root current current_authority existing encryption_public_key canonical_capabilities =
     (if dcc_encryption_public_key (dc_content existing) \<noteq> encryption_public_key
         \<or> dcc_capabilities (dc_content existing) \<noteq> canonical_capabilities
      then pure (Inl (DeviceListError (DeviceEnrollmentIdentityConflict (certificate_device_id existing))))
      else then_do (pure (verify_device_authorization_with_snapshot lib (root_account_id lib root) existing
          current_authority canonical_capabilities)) (\<lambda>_.
        if list_revision current = snapshot_revision current_authority then pure (Inr (existing, current))
        else then_do (publish_device_list_unlocked lib root (active_devices current current_authority)) (\<lambda>refreshed.
          pure (Inr (existing, refreshed)))))"

definition enroll_new
  :: "'a identity_libs_scheme \<Rightarrow> bytes \<Rightarrow> AccountDeviceListSnapshot \<Rightarrow> AccountAuthoritySnapshot
      \<Rightarrow> bytes \<Rightarrow> bytes \<Rightarrow> DeviceCapability list \<Rightarrow> (DeviceCertificate \<times> AccountDeviceListSnapshot) root_op" where
  "enroll_new lib root current current_authority device_id encryption_public_key canonical_capabilities =
     (let certificates = active_devices current current_authority in
      if list_ex (\<lambda>revocation. revocation_device_id revocation = device_id) (snapshot_revocations current_authority)
      then pure (Inl (CertificateError (DeviceRevoked device_id)))
      else if length certificates \<ge> MAX_ACCOUNT_DEVICES
      then pure (Inl (DeviceListError (TooManyAccountDevices (length certificates + 1))))
      else then_do (issue_device_certificate_unlocked lib root device_id encryption_public_key canonical_capabilities) (\<lambda>certificate.
        then_do (publish_device_list_unlocked lib root (certificates @ [certificate])) (\<lambda>list.
        pure (Inr (certificate, list)))))"

definition enroll_device
  :: "'a identity_libs_scheme \<Rightarrow> bytes \<Rightarrow> bytes \<Rightarrow> bytes \<Rightarrow> DeviceCapability list
      \<Rightarrow> (DeviceCertificate \<times> AccountDeviceListSnapshot) root_op" where
  "enroll_device lib root device_id encryption_public_key capabilities =
     then_do ensure_authority_log_ready (\<lambda>_.
     then_do (pure (validate_requested_capabilities capabilities)) (\<lambda>_.
     then_do acquire_authority_write_lock (\<lambda>_.
     then_do (published_device_list lib root) (\<lambda>current.
     then_do (authority_snapshot lib root) (\<lambda>current_authority.
     case certificate_for current device_id of
       Some existing \<Rightarrow> enroll_existing lib root current current_authority existing encryption_public_key (sort capabilities)
     | None \<Rightarrow> enroll_new lib root current current_authority device_id encryption_public_key (sort capabilities))))))"

text \<open>The revocation in force, made now if there is none yet, with the snapshot that holds it.\<close>

definition ensure_revoked
  :: "'a identity_libs_scheme \<Rightarrow> bytes \<Rightarrow> bytes \<Rightarrow> AccountAuthoritySnapshot \<Rightarrow> DeviceRevocation option
      \<Rightarrow> (DeviceRevocation \<times> AccountAuthoritySnapshot) root_op" where
  "ensure_revoked lib root device_id authority existing_revocation = (case existing_revocation of
     Some revocation \<Rightarrow> pure (Inr (revocation, authority))
   | None \<Rightarrow> then_do (write_revocation lib root device_id) (\<lambda>revocation.
       then_do (authority_snapshot lib root) (\<lambda>authority. pure (Inr (revocation, authority)))))"

definition revoke_and_publish_device_list
  :: "'a identity_libs_scheme \<Rightarrow> bytes \<Rightarrow> bytes \<Rightarrow> (DeviceRevocation \<times> AccountDeviceListSnapshot) root_op" where
  "revoke_and_publish_device_list lib root device_id =
     then_do ensure_authority_log_ready (\<lambda>_.
     then_do acquire_authority_write_lock (\<lambda>_.
     then_do (published_device_list lib root) (\<lambda>current.
     then_do (authority_snapshot lib root) (\<lambda>authority.
     let existing_revocation = find (\<lambda>revocation. revocation_device_id revocation = device_id) (snapshot_revocations authority) in
     if existing_revocation = None \<and> certificate_for current device_id = None
     then pure (Inl (AuthorityError (DeviceNotActive device_id)))
     else if existing_revocation = None \<and> length (active_devices current authority) \<le> 1
     then pure (Inl (AuthorityError CannotRemoveLastActiveDevice))
     else then_do (ensure_revoked lib root device_id authority existing_revocation) (\<lambda>(revocation, authority).
       let active = active_devices current authority in
       if active = [] then pure (Inl (AuthorityError CannotRemoveLastActiveDevice))
       else if list_revision current = snapshot_revision authority \<and> certificate_for current device_id = None
       then pure (Inr (revocation, current))
       else then_do (publish_device_list_unlocked lib root active) (\<lambda>refreshed. pure (Inr (revocation, refreshed))))))))"

section \<open>Conversation memberships\<close>

definition load_root_conversation_membership
  :: "'a identity_libs_scheme \<Rightarrow> bytes \<Rightarrow> bytes \<Rightarrow> ConversationMembershipSnapshot root_op" where
  "load_root_conversation_membership lib root conversation_id d =
     (and_then (ok_or (MembershipError (ConversationMembershipMissing conversation_id)) (t_get (membership_files d) conversation_id)) (\<lambda>bytes.
      and_then (membership_decode_and_verify lib bytes) (\<lambda>membership.
      and_then (membership_verify_for_owner lib membership (root_account_id lib root)) (\<lambda>_. Inr membership))), d)"

definition create_conversation_membership
  :: "'a identity_libs_scheme \<Rightarrow> bytes \<Rightarrow> bytes \<Rightarrow> bytes list \<Rightarrow> ConversationMembershipSnapshot root_op" where
  "create_conversation_membership lib root conversation_id members =
     then_do ensure_authority_log_ready (\<lambda>_.
     then_do acquire_authority_write_lock (\<lambda>_ d.
     if t_get (membership_files d) conversation_id \<noteq> None
     then (Inl (MembershipError (ConversationMembershipAlreadyExists conversation_id)), d)
     else then_do (pure (membership_issue lib root conversation_id 1
         (canonical_members (root_account_id lib root) members))) (\<lambda>snapshot.
       then_do (pure (membership_encode lib snapshot)) (\<lambda>encoded d.
       (Inr snapshot, d\<lparr> membership_files := t_insert conversation_id encoded (membership_files d) \<rparr>))) d))"

definition add_conversation_members
  :: "'a identity_libs_scheme \<Rightarrow> bytes \<Rightarrow> bytes \<Rightarrow> bytes list \<Rightarrow> ConversationMembershipSnapshot root_op" where
  "add_conversation_members lib root conversation_id additions =
     then_do ensure_authority_log_ready (\<lambda>_.
     then_do acquire_authority_write_lock (\<lambda>_.
     then_do (load_root_conversation_membership lib root conversation_id) (\<lambda>current.
     then_do (pure (membership_verify_for_owner lib current (root_account_id lib root))) (\<lambda>_.
     let members = canonical_members (membership_owner current) (membership_members current @ additions) in
     if members = membership_members current then pure (Inr current)
     else then_do (pure (ok_or (MembershipError ConversationMembershipRevisionExhausted)
         (u64_checked_add (membership_revision current) 1))) (\<lambda>revision.
       then_do (pure (membership_issue lib root conversation_id revision members)) (\<lambda>updated.
       then_do (pure (membership_encode lib updated)) (\<lambda>encoded d.
       (Inr updated, d\<lparr> membership_files := t_insert conversation_id encoded (membership_files d) \<rparr>))))))))"

fun collect_memberships
  :: "'a identity_libs_scheme \<Rightarrow> bytes \<Rightarrow> bytes table \<Rightarrow> ConversationMembershipSnapshot list
      \<Rightarrow> identity_error + ConversationMembershipSnapshot list" where
  "collect_memberships lib root [] memberships = Inr memberships"
| "collect_memberships lib root ((_, bytes) # entries) memberships =
     and_then (membership_decode_and_verify lib bytes) (\<lambda>membership.
     and_then (membership_verify_for_owner lib membership (root_account_id lib root)) (\<lambda>_.
     let memberships = memberships @ [membership] in
     if length memberships > MAX_ACCOUNT_ROOT_RECOVERY_MEMBERSHIPS
     then Inl (RecoveryError (TooManyAccountRootRecoveryMemberships (length memberships)))
     else collect_memberships lib root entries memberships))"

definition root_conversation_memberships
  :: "'a identity_libs_scheme \<Rightarrow> bytes \<Rightarrow> ConversationMembershipSnapshot list root_op" where
  "root_conversation_memberships lib root d =
     (and_then (collect_memberships lib root (membership_files d) []) (\<lambda>memberships.
        Inr (sort_key membership_conversation_id memberships)), d)"

section \<open>Recovery\<close>

definition capture_recovery_unlocked
  :: "'a identity_libs_scheme \<Rightarrow> bytes \<Rightarrow> (AccountRootRecoveryPackage \<times> AccountRootRecoveryWitness) root_op" where
  "capture_recovery_unlocked lib root =
     then_do (authority_snapshot lib root) (\<lambda>snapshot.
     then_do (published_device_list lib root) (\<lambda>device_list.
     then_do (root_conversation_memberships lib root) (\<lambda>memberships.
     then_do (pure (package_issue lib root snapshot device_list memberships)) (\<lambda>package.
     then_do (pure (witness_issue lib root package)) (\<lambda>witness. pure (Inr (package, witness)))))))"

definition export_recovery
  :: "'a identity_libs_scheme \<Rightarrow> bytes \<Rightarrow> (AccountRootRecoveryPackage \<times> AccountRootRecoveryWitness) root_op" where
  "export_recovery lib root =
     then_do ensure_authority_log_ready (\<lambda>_. then_do acquire_authority_write_lock (\<lambda>_. capture_recovery_unlocked lib root))"

definition record_exported_recovery_checkpoint
  :: "'a identity_libs_scheme \<Rightarrow> bytes \<Rightarrow> AccountRootRecoveryPackage \<Rightarrow> AccountRootRecoveryWitness \<Rightarrow> unit root_op" where
  "record_exported_recovery_checkpoint lib root package witness =
     then_do ensure_authority_log_ready (\<lambda>_.
     then_do (pure (package_verify lib package)) (\<lambda>_.
     then_do (pure (witness_verify_package lib witness package)) (\<lambda>_.
     then_do (pure (ensure (package_account_id package = root_account_id lib root)
       (AccountMismatch (root_account_id lib root) (package_account_id package)))) (\<lambda>_.
     then_do acquire_authority_write_lock (\<lambda>_.
     then_do (capture_recovery_unlocked lib root) (\<lambda>(current_package, _).
     if current_package \<noteq> package then pure (Inl (RecoveryError AccountRootRecoveryCheckpointChanged))
     else then_do (pure (witness_encode lib witness)) (\<lambda>encoded d.
       (Inr (), d\<lparr> recovery_checkpoint := Some encoded \<rparr>))))))))"

datatype AccountRootRecoveryCheckpointState = Current | UpdateRequired

record AccountRootRecoveryCheckpointStatus =
  cps_state :: AccountRootRecoveryCheckpointState
  cps_account_id :: bytes
  cps_authority_revision :: u64
  cps_device_count :: nat
  cps_conversation_membership_count :: nat
  cps_current_package_id :: bytes
  cps_recorded_package_id :: "bytes option"
  cps_recorded_authority_revision :: "u64 option"

definition recorded_witness
  :: "'a identity_libs_scheme \<Rightarrow> root_dir \<Rightarrow> identity_error + AccountRootRecoveryWitness option" where
  "recorded_witness lib d = (case recovery_checkpoint d of
     None \<Rightarrow> Inr None
   | Some bytes \<Rightarrow> (if length bytes > MAX_ACCOUNT_ROOT_RECOVERY_WITNESS_BYTES
       then Inl (RecoveryError (AccountRootRecoveryWitnessTooLarge (length bytes)))
       else and_then (witness_decode_and_verify lib bytes) (\<lambda>witness. Inr (Some witness))))"

definition recovery_checkpoint_status
  :: "'a identity_libs_scheme \<Rightarrow> bytes \<Rightarrow> AccountRootRecoveryCheckpointStatus root_op" where
  "recovery_checkpoint_status lib root =
     then_do ensure_authority_log_ready (\<lambda>_.
     then_do acquire_authority_write_lock (\<lambda>_.
     then_do (capture_recovery_unlocked lib root) (\<lambda>(package, _) d.
     then_do (pure (recorded_witness lib d)) (\<lambda>recorded.
     then_do (pure (case recorded of None \<Rightarrow> Inr () | Some witness \<Rightarrow>
       ensure (arwc_account_id (arw_content witness) = root_account_id lib root)
         (AccountMismatch (root_account_id lib root) (arwc_account_id (arw_content witness))))) (\<lambda>_.
     then_do (pure (package_id lib package)) (\<lambda>identifier.
     pure (Inr \<lparr> cps_state = (if (case recorded of None \<Rightarrow> False | Some witness \<Rightarrow> is_ok (witness_verify_package lib witness package))
           then Current else UpdateRequired),
       cps_account_id = package_account_id package, cps_authority_revision = package_authority_revision package,
       cps_device_count = length (list_devices (arpc_device_list (arp_content package))),
       cps_conversation_membership_count = length (arpc_conversation_memberships (arp_content package)),
       cps_current_package_id = identifier,
       cps_recorded_package_id = map_option (\<lambda>w. arwc_package_id (arw_content w)) recorded,
       cps_recorded_authority_revision = map_option (\<lambda>w. arwc_authority_revision (arw_content w)) recorded \<rparr>)))) d)))"

text \<open>Rebuilding a directory from a package. \<open>secret\<close> is the signing key derived from the recovery
  phrase; the new path is empty, which the code checks on the file system.\<close>

fun write_new_files :: "('x \<Rightarrow> bytes) \<Rightarrow> ('x \<Rightarrow> identity_error + bytes) \<Rightarrow> 'x list \<Rightarrow> bytes table \<Rightarrow> identity_error + bytes table" where
  "write_new_files name encode [] t = Inr t"
| "write_new_files name encode (x # xs) t = and_then (encode x) (\<lambda>bytes.
     if t_get t (name x) \<noteq> None then Inl AuthorityIo else write_new_files name encode xs (t_insert (name x) bytes t))"

definition stage_recovery
  :: "'a identity_libs_scheme \<Rightarrow> AccountRootRecoveryPackage \<Rightarrow> AccountRootRecoveryWitness \<Rightarrow> identity_error + root_dir" where
  "stage_recovery lib package witness =
     (let content = arp_content package; snapshot = arpc_authority_snapshot content in
      and_then (write_new_files revocation_device_id (revocation_encode lib) (snapshot_revocations snapshot) []) (\<lambda>revocations.
      and_then (device_list_encode lib (arpc_device_list content)) (\<lambda>device_list.
      and_then (write_new_files membership_conversation_id (membership_encode lib) (arpc_conversation_memberships content) []) (\<lambda>memberships.
      and_then (witness_encode lib witness) (\<lambda>checkpoint.
      Inr (create_with_identity\<lparr> next_authority_sequence := Some (number_line (snapshot_revision snapshot)),
        revocation_files := revocations, device_list_file := Some device_list, membership_files := memberships,
        recovery_checkpoint := Some checkpoint \<rparr>))))))"

definition recover
  :: "'a identity_libs_scheme \<Rightarrow> bytes \<Rightarrow> AccountRootRecoveryPackage \<Rightarrow> AccountRootRecoveryWitness \<Rightarrow> identity_error + root_dir" where
  "recover lib secret package witness =
     (let content = arp_content package in
      and_then (package_verify lib package) (\<lambda>_.
      and_then (witness_verify_package lib witness package) (\<lambda>_.
      and_then (ensure (root_account_id lib secret = package_account_id package)
        (RecoveryError (AccountRecoveryPhraseAccountMismatch (package_account_id package) (root_account_id lib secret)))) (\<lambda>_.
      and_then (stage_recovery lib package witness) (\<lambda>staged.
      and_then (fst (authority_snapshot lib secret staged)) (\<lambda>snapshot.
      if snapshot \<noteq> arpc_authority_snapshot content then Inl (RecoveryError AccountRootRecoveryVerificationFailed)
      else and_then (fst (published_device_list lib secret staged)) (\<lambda>device_list.
      if device_list \<noteq> arpc_device_list content then Inl (RecoveryError AccountRootRecoveryVerificationFailed)
      else and_then (fst (root_conversation_memberships lib secret staged)) (\<lambda>memberships.
      if memberships \<noteq> arpc_conversation_memberships content then Inl (RecoveryError AccountRootRecoveryVerificationFailed)
      else and_then (fst (recovery_checkpoint_status lib secret staged)) (\<lambda>status.
      if cps_state status \<noteq> Current then Inl (RecoveryError AccountRootRecoveryVerificationFailed)
      else Inr staged)))))))))"

end
