(* ===== verification/Root_Invariant.thy ===== *)
theory Root_Invariant
  imports Account_Root
begin

text \<open>
  The invariant of an Account Root directory and that every operation keeps it, on success and on
  error: the sequence file is readable, every file decodes to an object of this Account filed under
  its own identifier, sequence numbers stay below the next one, and the published list accounts for
  every revocation older than its revision. Proofs use Hoare triples with a success and an error
  postcondition over the operations.
\<close>

section \<open>Sequence numbers as text\<close>

lemma of_digit_char: "d < 10 \<Longrightarrow> of_char (digit_char d) = (48 + d :: nat)"
  by (simp add: digit_char_def)

lemma parse_digits_append: "parse_digits acc (xs @ ys) = Option.bind (parse_digits acc xs) (\<lambda>a. parse_digits a ys)"
  by (induction xs arbitrary: acc) (auto simp: Let_def)

lemma parse_decimal: "n < 2 ^ 64 \<Longrightarrow> parse_digits 0 (decimal n) = Some n"
proof (induction n rule: decimal.induct)
  case (1 n)
  show ?case
  proof (cases "n < 10")
    case True
    then show ?thesis using "1.prems" by (simp add: decimal.simps of_digit_char)
  next
    case False
    then have "parse_digits 0 (decimal (n div 10)) = Some (n div 10)"
      using 1 by simp
    with False "1.prems" show ?thesis
      by (subst decimal.simps) (simp add: parse_digits_append of_digit_char)
  qed
qed

lemma decimal_chars: "c \<in> set (decimal n) \<Longrightarrow> \<exists>d < 10. c = digit_char d"
proof (induction n rule: decimal.induct)
  case (1 n)
  have "decimal n = (if n < 10 then [digit_char n] else decimal (n div 10) @ [digit_char (n mod 10)])"
    by (rule decimal.simps)
  with 1 show ?case by (cases "n < 10") (auto intro: exI [of _ "n mod 10"])
qed

lemma decimal_nonempty [simp]: "decimal n \<noteq> []"
  by (subst decimal.simps) simp

lemma digit_char_not: "d < 10 \<Longrightarrow> \<not> is_whitespace (digit_char d) \<and> digit_char d \<noteq> CHR ''+''"
proof -
  assume d: "d < 10"
  have "of_char (CHR ''+'') = (43 :: nat)" by simp
  with of_digit_char [OF d] show ?thesis by (auto simp: is_whitespace_def Let_def)
qed

lemma trim_line: "(\<forall>c \<in> set s. \<not> is_whitespace c) \<Longrightarrow> trim (s @ [CHR 0x0A]) = s"
proof -
  assume s: "\<forall>c \<in> set s. \<not> is_whitespace c"
  have nl: "is_whitespace (CHR 0x0A)" by (simp add: is_whitespace_def)
  have id: "dropWhile is_whitespace t = t" if "\<forall>c \<in> set t. \<not> is_whitespace c" for t
    using that by (cases t) auto
  show ?thesis
  proof (cases s)
    case Nil
    then show ?thesis using nl by (simp add: trim_def)
  next
    case (Cons c cs)
    then have "dropWhile is_whitespace (s @ [CHR 0x0A]) = s @ [CHR 0x0A]" using s by simp
    then show ?thesis using nl id [of "rev s"] s by (simp add: trim_def)
  qed
qed

lemma parse_number_line [simp]: "parse_u64 (trim (number_line v)) = Some v"
proof -
  have ws: "\<forall>c \<in> set (decimal (unat v)). \<not> is_whitespace c"
    using decimal_chars digit_char_not by blast
  have plus: "hd (decimal (unat v)) \<noteq> CHR ''+''"
    using decimal_chars [OF hd_in_set [OF decimal_nonempty]] digit_char_not by metis
  have "parse_digits 0 (decimal (unat v)) = Some (unat v)"
    by (rule parse_decimal) (use unsigned_less [of v, where ?'a = nat] in simp)
  with plus show ?thesis by (simp add: number_line_def trim_line [OF ws] parse_u64_def)
qed

lemma trim_log_version: "trim (AUTHORITY_LOG_VERSION @ [CHR 0x0A]) = AUTHORITY_LOG_VERSION"
  by (rule trim_line) (simp add: AUTHORITY_LOG_VERSION_def is_whitespace_def)

definition next_is :: "root_dir \<Rightarrow> u64 \<Rightarrow> bool" where
  "next_is d n \<longleftrightarrow> (case next_authority_sequence d of None \<Rightarrow> n = 0 | Some text \<Rightarrow> text = number_line n)"

lemma read_next: "next_is d n \<Longrightarrow> read_next_authority_sequence d = (Inr n, d)"
  by (auto simp: next_is_def read_next_authority_sequence_def split: option.splits)

lemma next_is_unique: "next_is d n \<Longrightarrow> next_is d m \<Longrightarrow> n = m"
  using read_next [of d n] read_next [of d m] by simp

section \<open>The invariant\<close>

definition log_ready :: "root_dir \<Rightarrow> bool" where
  "log_ready d \<longleftrightarrow> authority_log_version d = Some (AUTHORITY_LOG_VERSION @ [CHR 0x0A])"

definition revocation_of :: "'a identity_libs_scheme \<Rightarrow> root_dir \<Rightarrow> bytes \<Rightarrow> DeviceRevocation option" where
  "revocation_of lib d dev = Option.bind (t_get (revocation_files d) dev) (\<lambda>b.
     case revocation_decode_and_verify lib b of Inl _ \<Rightarrow> None | Inr r \<Rightarrow> Some r)"

definition revocations_ok :: "'a identity_libs_scheme \<Rightarrow> bytes \<Rightarrow> u64 \<Rightarrow> root_dir \<Rightarrow> bool" where
  "revocations_ok lib root n d \<longleftrightarrow> t_valid (revocation_files d)
     \<and> (\<forall>dev b. t_get (revocation_files d) dev = Some b \<longrightarrow> (\<exists>r. revocation_decode_and_verify lib b = Inr r
          \<and> revocation_device_id r = dev \<and> rvc_account_id (rv_content r) = root_account_id lib root
          \<and> revocation_sequence r < n))"

definition memberships_ok :: "'a identity_libs_scheme \<Rightarrow> bytes \<Rightarrow> root_dir \<Rightarrow> bool" where
  "memberships_ok lib root d \<longleftrightarrow> t_valid (membership_files d)
     \<and> (\<forall>conv b. t_get (membership_files d) conv = Some b \<longrightarrow> (\<exists>m. membership_decode_and_verify lib b = Inr m
          \<and> membership_conversation_id m = conv \<and> membership_owner m = root_account_id lib root))"

abbreviation revoked_ids :: "AccountAuthoritySnapshot \<Rightarrow> bytes set" where
  "revoked_ids s \<equiv> revocation_device_id ` set (snapshot_revocations s)"

text \<open>The published list revokes exactly the Devices whose revocation is older than its revision.\<close>

definition list_accounts_for :: "'a identity_libs_scheme \<Rightarrow> root_dir \<Rightarrow> AccountDeviceListSnapshot \<Rightarrow> bool" where
  "list_accounts_for lib d l \<longleftrightarrow> (\<forall>dev. dev \<in> revoked_ids (list_snapshot l) \<longleftrightarrow>
     (\<exists>r. revocation_of lib d dev = Some r \<and> revocation_sequence r < list_revision l))"

definition list_ok :: "'a identity_libs_scheme \<Rightarrow> bytes \<Rightarrow> u64 \<Rightarrow> root_dir \<Rightarrow> bool" where
  "list_ok lib root n d \<longleftrightarrow> (\<forall>b. device_list_file d = Some b \<longrightarrow> (\<exists>l. device_list_decode_and_verify lib b = Inr l
     \<and> snapshot_account_id (list_snapshot l) = root_account_id lib root \<and> list_revision l \<le> n \<and> list_accounts_for lib d l))"

definition root_inv_at :: "'a identity_libs_scheme \<Rightarrow> bytes \<Rightarrow> u64 \<Rightarrow> u64 \<Rightarrow> root_dir \<Rightarrow> bool" where
  "root_inv_at lib root n m d \<longleftrightarrow> log_ready d \<and> next_is d m \<and> revocations_ok lib root n d \<and> list_ok lib root n d
     \<and> memberships_ok lib root d"

definition root_inv :: "'a identity_libs_scheme \<Rightarrow> bytes \<Rightarrow> root_dir \<Rightarrow> bool" where
  "root_inv lib root d \<longleftrightarrow> (\<exists>n. root_inv_at lib root n n d)"

lemma root_inv_mono: "root_inv_at lib root n m d \<Longrightarrow> n \<le> m \<Longrightarrow> root_inv lib root d"
  unfolding root_inv_def root_inv_at_def revocations_ok_def list_ok_def
  by (intro exI [of _ m]) (meson order_less_le_trans order_trans)

lemma root_inv_create: "root_inv lib root create_with_identity"
  by (auto simp: root_inv_def root_inv_at_def create_with_identity_def log_ready_def next_is_def revocations_ok_def
      memberships_ok_def list_ok_def t_valid_def t_get_def intro!: exI [of _ 0])

lemma revocation_of_ok: "revocations_ok lib root n d \<Longrightarrow>
    (\<exists>r. revocation_of lib d dev = Some r \<and> revocation_sequence r < n) \<longleftrightarrow> t_get (revocation_files d) dev \<noteq> None"
  by (cases "t_get (revocation_files d) dev") (fastforce simp: revocations_ok_def revocation_of_def)+

section \<open>Operations\<close>

lemma ensure_ready: "root_inv lib root d \<Longrightarrow> ensure_authority_log_ready d = (Inr (), d)"
  by (auto simp: root_inv_def root_inv_at_def log_ready_def ensure_authority_log_ready_def trim_log_version)

lemma t_ensure: "triple (root_inv lib root) ensure_authority_log_ready (\<lambda>_. root_inv lib root) (root_inv lib root)"
  by (simp add: triple_def ensure_ready)

lemma t_lock: "triple P acquire_authority_write_lock (\<lambda>_. P) P"
  by (auto simp: triple_def acquire_authority_write_lock_def ensure_def)

lemma next_is_update: "next_is (d\<lparr> next_authority_sequence := Some (number_line n) \<rparr>) n"
  by (simp add: next_is_def)

lemma checked_add_less: "u64_checked_add x 1 = Some y \<Longrightarrow> y = x + 1 \<and> x < x + 1"
  by (auto simp: u64_checked_add_def word_less_nat_alt unat_add_u64 split: if_splits)

lemma t_allocate: "triple (root_inv lib root) allocate_authority_sequence
    (\<lambda>x d. root_inv_at lib root x (x + 1) d \<and> x < x + 1) (root_inv lib root)"
  unfolding triple_def
proof (intro allI impI)
  fix d assume inv: "root_inv lib root d"
  then obtain n where n: "root_inv_at lib root n n d" by (auto simp: root_inv_def)
  then have "next_is d n" by (simp add: root_inv_at_def)
  then have r: "read_next_authority_sequence d = (Inr n, d)" by (rule read_next)
  have up: "root_inv_at lib root n (n + 1) (d\<lparr> next_authority_sequence := Some (number_line (n + 1)) \<rparr>)"
    using n next_is_update by (auto simp: root_inv_at_def log_ready_def revocations_ok_def list_ok_def memberships_ok_def
        list_accounts_for_def revocation_of_def)
  show "case allocate_authority_sequence d of (Inl e, d') \<Rightarrow> root_inv lib root d'
      | (Inr x, d') \<Rightarrow> root_inv_at lib root x (x + 1) d' \<and> x < x + 1"
    using inv up checked_add_less [of n]
    by (cases "u64_checked_add n 1") (auto simp: allocate_authority_sequence_def then_do_def r pure_def)
qed

lemma inv_at_weaken: "root_inv_at lib root x (x + 1) d \<and> x < x + 1 \<Longrightarrow> root_inv lib root d"
  by (auto intro: root_inv_mono)

lemma t_issue: "triple (root_inv lib root) (issue_device_certificate_unlocked lib root dev key caps)
    (\<lambda>c d. root_inv lib root d \<and> (\<exists>x. certificate_issue lib root dev key x caps = Inr c \<and> next_is d (x + 1))) (root_inv lib root)"
  unfolding issue_device_certificate_unlocked_def
  by (rule triple_then [OF t_allocate], rule triple_pureI) (auto simp: root_inv_at_def intro: inv_at_weaken)

text \<open>A new revocation file, numbered with the sequence just allocated.\<close>

lemma inv_insert_revocation:
  assumes sig: "root_signatures_documented lib" and pc: "root_postcard_documented lib"
    and inv: "root_inv_at lib root x (x + 1) d" and x: "x < x + 1"
    and r: "revocation_issue lib root dev x = Inr r" and b: "revocation_encode lib r = Inr b"
    and new: "t_get (revocation_files d) dev = None"
  shows "root_inv_at lib root (x + 1) (x + 1) (d\<lparr> revocation_files := t_insert dev b (revocation_files d) \<rparr>)"
    and "revocation_of lib (d\<lparr> revocation_files := t_insert dev b (revocation_files d) \<rparr>) dev = Some r"
proof -
  let ?d = "d\<lparr> revocation_files := t_insert dev b (revocation_files d) \<rparr>"
  have v: "t_valid (revocation_files d)" using inv by (simp add: root_inv_at_def revocations_ok_def)
  have dec: "revocation_decode_and_verify lib b = Inr r"
    using revo.decode_encode [OF b] pc by (auto simp: root_postcard_documented_def inverts_def)
  note iss = revocation_issue_verifies [OF sig r]
  have get: "t_get (revocation_files ?d) e = (if e = dev then Some b else t_get (revocation_files d) e)" for e
    by (simp add: tbl.get_insert [OF v])
  have of': "revocation_of lib ?d e = (if e = dev then Some r else revocation_of lib d e)" for e
    unfolding revocation_of_def get using dec by simp
  then show "revocation_of lib ?d dev = Some r" by simp
  have lt: "s < x \<Longrightarrow> s < x + 1" for s using x by simp
  have "revocations_ok lib root (x + 1) ?d"
    unfolding revocations_ok_def get
  proof (intro conjI allI impI)
    show "t_valid (revocation_files ?d)" using v by (simp add: tbl.valid_insert)
    fix e c assume "(if e = dev then Some b else t_get (revocation_files d) e) = Some c"
    then show "\<exists>r. revocation_decode_and_verify lib c = Inr r \<and> revocation_device_id r = e
        \<and> rvc_account_id (rv_content r) = root_account_id lib root \<and> revocation_sequence r < x + 1"
      using inv iss dec x lt by (cases "e = dev") (auto simp: root_inv_at_def revocations_ok_def, blast)
  qed
  moreover have "list_ok lib root (x + 1) ?d"
    unfolding list_ok_def
  proof (intro allI impI)
    fix c assume "device_list_file ?d = Some c"
    then obtain l where l: "device_list_decode_and_verify lib c = Inr l" "list_revision l \<le> x" "list_accounts_for lib d l"
      "snapshot_account_id (list_snapshot l) = root_account_id lib root"
      using inv by (auto simp: root_inv_at_def list_ok_def)
    have "revocation_of lib d dev = None" using new by (simp add: revocation_of_def)
    with l iss have "list_accounts_for lib ?d l"
      by (auto simp: list_accounts_for_def of' not_less)
    with l x show "\<exists>l. device_list_decode_and_verify lib c = Inr l
        \<and> snapshot_account_id (list_snapshot l) = root_account_id lib root \<and> list_revision l \<le> x + 1 \<and> list_accounts_for lib ?d l"
      by (intro exI [of _ l]) auto
  qed
  ultimately show "root_inv_at lib root (x + 1) (x + 1) ?d"
    using inv by (simp add: root_inv_at_def log_ready_def next_is_def memberships_ok_def)
qed

lemma t_write_revocation:
  assumes sig: "root_signatures_documented lib" and pc: "root_postcard_documented lib"
  shows "triple (root_inv lib root) (write_revocation lib root dev)
    (\<lambda>r d. root_inv lib root d \<and> revocation_of lib d dev = Some r) (root_inv lib root)"
  unfolding write_revocation_def
proof (rule triple_then [OF t_allocate], rule triple_pure_then, erule inv_at_weaken, rule triple_pure_then, erule inv_at_weaken)
  fix x r b assume r: "revocation_issue lib root dev x = Inr r" and b: "revocation_encode lib r = Inr b"
  show "triple (\<lambda>d. root_inv_at lib root x (x + 1) d \<and> x < x + 1)
      (\<lambda>d. if t_get (revocation_files d) dev \<noteq> None then (Inl AuthorityIo, d)
        else (Inr r, d\<lparr> revocation_files := t_insert dev b (revocation_files d) \<rparr>))
      (\<lambda>r d. root_inv lib root d \<and> revocation_of lib d dev = Some r) (root_inv lib root)"
    unfolding triple_def
  proof (intro allI impI)
    fix d assume d: "root_inv_at lib root x (x + 1) d \<and> x < x + 1"
    then show "case if t_get (revocation_files d) dev \<noteq> None then (Inl AuthorityIo, d)
        else (Inr r, d\<lparr> revocation_files := t_insert dev b (revocation_files d) \<rparr>) of
        (Inl e, d') \<Rightarrow> root_inv lib root d' | (Inr r, d') \<Rightarrow> root_inv lib root d' \<and> revocation_of lib d' dev = Some r"
      using inv_insert_revocation [OF sig pc _ _ r b, of d] inv_at_weaken [OF d]
      by (cases "t_get (revocation_files d) dev") (auto intro: root_inv_mono)
  qed
qed

definition snapshot_of :: "'a identity_libs_scheme \<Rightarrow> bytes \<Rightarrow> AccountAuthoritySnapshot \<Rightarrow> root_dir \<Rightarrow> bool" where
  "snapshot_of lib root s d \<longleftrightarrow> snapshot_verify lib s = Inr () \<and> snapshot_account_id s = root_account_id lib root
     \<and> next_is d (snapshot_revision s) \<and> (\<forall>dev. dev \<in> revoked_ids s \<longleftrightarrow> t_get (revocation_files d) dev \<noteq> None)
     \<and> (\<forall>r \<in> set (snapshot_revocations s). revocation_of lib d (revocation_device_id r) = Some r)"

text \<open>The files of a directory in the invariant decode to the revocations in the order of the
  Devices they revoke.\<close>

lemma decoded_files:
  assumes ok: "revocations_ok lib root n d"
    and rs: "list_all2 (\<lambda>e r. revocation_decode_and_verify lib (snd e) = Inr r) (revocation_files d) rs"
  shows "map revocation_device_id rs = map fst (revocation_files d)"
    and "sort_key revocation_device_id rs = rs"
proof -
  have ids: "revocation_device_id r = fst e" if "e \<in> set (revocation_files d)" "revocation_decode_and_verify lib (snd e) = Inr r" for e r
    using that ok t_get_set [of "revocation_files d" "fst e" "snd e"] unfolding revocations_ok_def
    by (metis prod.collapse sum.inject(2))
  show m: "map revocation_device_id rs = map fst (revocation_files d)"
  proof (rule nth_equalityI)
    show "length (map revocation_device_id rs) = length (map fst (revocation_files d))"
      using rs by (simp add: list_all2_lengthD)
    fix i assume "i < length (map revocation_device_id rs)"
    then show "map revocation_device_id rs ! i = map fst (revocation_files d) ! i"
      using rs ids [OF nth_mem, of i "rs ! i"] by (simp add: list_all2_conv_all_nth)
  qed
  have "sorted (map revocation_device_id rs)"
    using ok unfolding m revocations_ok_def t_valid_def by (auto intro: sorted_wrt_mono_rel [of _ "(<)"])
  then show "sort_key revocation_device_id rs = rs" by (rule sort_key_id_if_sorted)
qed

lemma snapshot_inv:
  assumes sig: "root_signatures_documented lib" and inv: "root_inv lib root d" and r: "authority_snapshot lib root d = (r, d')"
  shows "d' = d \<and> (\<forall>s. r = Inr s \<longrightarrow> snapshot_of lib root s d)"
proof -
  from inv obtain n where n: "next_is d n" "revocations_ok lib root n d" by (auto simp: root_inv_def root_inv_at_def)
  have e: "authority_snapshot lib root d = (and_then (try_map (\<lambda>(_, bytes). revocation_decode_and_verify lib bytes) (revocation_files d)) (\<lambda>rs.
      snapshot_issue lib root n (sort_key revocation_device_id rs)), d)"
    by (simp add: authority_snapshot_def then_do_def ensure_ready [OF inv] read_next [OF n(1)])
  have "snapshot_of lib root s d" if s: "r = Inr s" for s
  proof -
    from s r e obtain rs where all: "list_all2 (\<lambda>e r. revocation_decode_and_verify lib (snd e) = Inr r) (revocation_files d) rs"
      and i: "snapshot_issue lib root n (sort_key revocation_device_id rs) = Inr s"
      by (auto simp: and_then_Inr try_map_all2 split_beta)
    then have m: "map revocation_device_id rs = map fst (revocation_files d)" and srt: "sort_key revocation_device_id rs = rs"
      using decoded_files [OF n(2)] by blast+
    from m have ids: "revocation_device_id ` set rs = fst ` set (revocation_files d)" by (metis set_map)
    have "t_get (revocation_files d) dev \<noteq> None \<longleftrightarrow> dev \<in> fst ` set (revocation_files d)" for dev
      unfolding t_get_def by (metis map_of_eq_None_iff)
    moreover have "revocation_of lib d (revocation_device_id r) = Some r" if "r \<in> set rs" for r
    proof -
      from that all obtain e where e: "e \<in> set (revocation_files d)" "revocation_decode_and_verify lib (snd e) = Inr r"
        using list_all2_conv_all_nth [THEN iffD1, OF all] by (metis in_set_conv_nth)
      moreover have t: "t_get (revocation_files d) (fst e) = Some (snd e)"
        using e(1) n(2) t_get_set [of "revocation_files d" "fst e" "snd e"] by (simp add: revocations_ok_def)
      moreover have "revocation_device_id r = fst e" using t e(2) n(2) by (fastforce simp: revocations_ok_def)
      ultimately show ?thesis by (simp add: revocation_of_def)
    qed
    ultimately show ?thesis
      using snapshot_issue_verifies [OF sig i] n(1) by (simp add: snapshot_of_def srt ids)
  qed
  with r e show ?thesis by auto
qed

lemma t_snapshot:
  assumes sig: "root_signatures_documented lib"
  shows "triple (\<lambda>d. root_inv lib root d \<and> P d) (authority_snapshot lib root)
    (\<lambda>s d. (root_inv lib root d \<and> P d) \<and> snapshot_of lib root s d) (root_inv lib root)"
  unfolding triple_def
proof (intro allI impI)
  fix d assume d: "root_inv lib root d \<and> P d"
  obtain r d' where r: "authority_snapshot lib root d = (r, d')" by fastforce
  with snapshot_inv [OF sig _ r] d show "case authority_snapshot lib root d of (Inl e, d') \<Rightarrow> root_inv lib root d'
      | (Inr s, d') \<Rightarrow> (root_inv lib root d' \<and> P d') \<and> snapshot_of lib root s d'"
    by (cases r) auto
qed

definition published :: "'a identity_libs_scheme \<Rightarrow> AccountDeviceListSnapshot \<Rightarrow> root_dir \<Rightarrow> bool" where
  "published lib l d \<longleftrightarrow> (\<exists>b. device_list_file d = Some b \<and> device_list_decode_and_verify lib b = Inr l)"

lemma t_published: "triple P (published_device_list lib root) (\<lambda>l d. P d \<and> published lib l d) P"
  by (auto simp: triple_def published_device_list_def published_def result_simps split: sum.splits)

lemma inv_replace_list:
  assumes sig: "root_signatures_documented lib" and pc: "root_postcard_documented lib"
    and inv: "root_inv lib root d" and s: "snapshot_of lib root s d"
    and l: "device_list_issue lib root s cs = Inr l" and b: "device_list_encode lib l = Inr b"
  shows "root_inv lib root (d\<lparr> device_list_file := Some b \<rparr>)" "published lib l (d\<lparr> device_list_file := Some b \<rparr>)"
proof -
  from inv obtain n where n: "root_inv_at lib root n n d" by (auto simp: root_inv_def)
  with s have rev': "snapshot_revision s = n" by (auto simp: root_inv_at_def snapshot_of_def intro: next_is_unique)
  note iss = device_list_issue_verifies [OF sig l]
  have dec: "device_list_decode_and_verify lib b = Inr l"
    using dlist.decode_encode [OF b] pc by (auto simp: root_postcard_documented_def inverts_def)
  then show "published lib l (d\<lparr> device_list_file := Some b \<rparr>)" by (simp add: published_def)
  have "list_accounts_for lib d l"
    using s iss rev' n revocation_of_ok [of lib root n d]
    by (simp add: list_accounts_for_def snapshot_of_def root_inv_at_def)
  then have "root_inv_at lib root n n (d\<lparr> device_list_file := Some b \<rparr>)"
    using n dec iss rev' by (auto simp: root_inv_at_def log_ready_def next_is_def revocations_ok_def memberships_ok_def list_ok_def
        list_accounts_for_def revocation_of_def)
  then show "root_inv lib root (d\<lparr> device_list_file := Some b \<rparr>)" by (auto simp: root_inv_def)
qed

text \<open>What publication leaves: the list on disk is the one returned, taken at the current authority.\<close>

definition published_current :: "'a identity_libs_scheme \<Rightarrow> bytes \<Rightarrow> DeviceCertificate list \<Rightarrow> AccountDeviceListSnapshot \<Rightarrow> root_dir \<Rightarrow> bool" where
  "published_current lib root cs l d \<longleftrightarrow> published lib l d \<and> snapshot_of lib root (list_snapshot l) d
     \<and> list_devices l = sort_key certificate_device_id cs"

lemma t_publish_unlocked:
  assumes sig: "root_signatures_documented lib" and pc: "root_postcard_documented lib"
  shows "triple (root_inv lib root) (publish_device_list_unlocked lib root cs)
    (\<lambda>l d. root_inv lib root d \<and> published_current lib root cs l d) (root_inv lib root)"
  unfolding publish_device_list_unlocked_def
proof (rule triple_then [OF triple_weaken [OF t_snapshot [OF sig, where P = "\<lambda>_. True"]]], simp, assumption, assumption,
    rule triple_pure_then, simp)
  fix s l assume l: "device_list_issue lib root s cs = Inr l"
  note iss = device_list_issue_verifies [OF sig l]
  have rep: "case replace_device_list lib l d of (Inl e, d') \<Rightarrow> root_inv lib root d'
      | (Inr l, d') \<Rightarrow> root_inv lib root d' \<and> published_current lib root cs l d'"
    if d: "root_inv lib root d" "snapshot_of lib root s d" for d
    using inv_replace_list [OF sig pc d l] d iss
    by (cases "device_list_encode lib l") (auto simp: replace_device_list_def then_do_def pure_def published_current_def
        snapshot_of_def next_is_def revocation_of_def)
  show "triple (\<lambda>d. (root_inv lib root d \<and> True) \<and> snapshot_of lib root s d) (\<lambda>d. case device_list_file d of
       None \<Rightarrow> replace_device_list lib l d
     | Some bytes \<Rightarrow> then_do (pure (device_list_decode_and_verify lib bytes)) (\<lambda>existing.
         if list_revision existing > list_revision l
         then pure (Inl (DeviceListError (AccountDeviceListRollback (list_revision existing) (list_revision l))))
         else if list_revision existing = list_revision l
         then pure (if existing = l then Inr existing else Inl (DeviceListError (AccountDeviceListAlreadyPublished (list_revision l))))
         else replace_device_list lib l) d)
     (\<lambda>l d. root_inv lib root d \<and> published_current lib root cs l d) (root_inv lib root)"
    unfolding triple_def
  proof (intro allI impI)
    fix d assume d: "(root_inv lib root d \<and> True) \<and> snapshot_of lib root s d"
    show "case case device_list_file d of
       None \<Rightarrow> replace_device_list lib l d
     | Some bytes \<Rightarrow> then_do (pure (device_list_decode_and_verify lib bytes)) (\<lambda>existing.
         if list_revision existing > list_revision l
         then pure (Inl (DeviceListError (AccountDeviceListRollback (list_revision existing) (list_revision l))))
         else if list_revision existing = list_revision l
         then pure (if existing = l then Inr existing else Inl (DeviceListError (AccountDeviceListAlreadyPublished (list_revision l))))
         else replace_device_list lib l) d of
       (Inl e, d') \<Rightarrow> root_inv lib root d' | (Inr l, d') \<Rightarrow> root_inv lib root d' \<and> published_current lib root cs l d'"
      using rep [of d] d iss
      by (cases "device_list_file d"; cases "device_list_decode_and_verify lib (the (device_list_file d))")
        (auto simp: then_do_def pure_def published_current_def published_def)
  qed
qed

lemmas inv_simps = root_inv_def root_inv_at_def log_ready_def next_is_def revocations_ok_def memberships_ok_def list_ok_def
  list_accounts_for_def revocation_of_def


section \<open>What every operation keeps\<close>

definition keeps :: "(root_dir \<Rightarrow> bool) \<Rightarrow> 'r root_op \<Rightarrow> bool" where
  "keeps K m \<longleftrightarrow> (\<forall>d. K d \<longrightarrow> K (snd (m d)))"

named_theorems keeps_intros "operations that keep a predicate"

lemma keeps_then [keeps_intros]: "keeps K m \<Longrightarrow> (\<And>x. keeps K (f x)) \<Longrightarrow> keeps K (then_do m f)"
  by (fastforce simp: keeps_def then_do_def split: prod.splits sum.splits)

lemma keeps_pure [keeps_intros]: "keeps K (pure r)"
  by (simp add: keeps_def pure_def)

lemma keeps_pure' [keeps_intros]: "keeps K (\<lambda>d. (r d, d))"
  by (simp add: keeps_def)

lemma keeps_lock [keeps_intros]: "keeps K acquire_authority_write_lock"
  by (simp add: keeps_def acquire_authority_write_lock_def)

lemma keeps_read_next [keeps_intros]: "keeps K read_next_authority_sequence"
  by (simp add: keeps_def read_next_authority_sequence_def split: option.split)

lemma keeps_if_state [keeps_intros]: "keeps K m \<Longrightarrow> keeps K m' \<Longrightarrow> keeps K (\<lambda>d. if P d then m d else m' d)"
  by (simp add: keeps_def)

lemma keeps_published [keeps_intros]: "keeps K (published_device_list lib root)"
  by (simp add: keeps_def published_device_list_def)

lemma keeps_memberships [keeps_intros]:
  "keeps K (root_conversation_memberships lib root)" "keeps K (load_root_conversation_membership lib root conv)"
  by (simp_all add: keeps_def root_conversation_memberships_def load_root_conversation_membership_def)

lemma triple_keeps: "triple P m Q E \<Longrightarrow> keeps K m \<Longrightarrow> triple (\<lambda>d. P d \<and> K d) m (\<lambda>x d. Q x d \<and> K d) (\<lambda>d. E d \<and> K d)"
  by (fastforce simp: triple_def keeps_def split: prod.splits sum.splits)

lemma keeps_triple: "triple K m (\<lambda>_. K) K \<Longrightarrow> keeps K m"
  by (simp add: keeps_def triple_final)

text \<open>The operations that write, as the interface of a predicate that all of \<open>AccountRootState\<close> keeps.\<close>

locale root_stable =
  fixes lib :: "'a identity_libs_scheme" and root :: bytes and K :: "root_dir \<Rightarrow> bool"
  assumes ready: "keeps K ensure_authority_log_ready"
    and allocate: "keeps K allocate_authority_sequence"
    and revocation: "keeps K (write_revocation lib root dev)"
    and publish: "keeps K (publish_device_list_unlocked lib root cs)"
    and create_membership: "keeps K (create_conversation_membership lib root conv ms)"
    and add_members: "keeps K (add_conversation_members lib root conv ms)"
    and checkpoint: "K d \<Longrightarrow> K (d\<lparr> recovery_checkpoint := c \<rparr>)"
    and lock: "K d \<Longrightarrow> K (d\<lparr> locked_elsewhere := held \<rparr>)"
begin

lemma keeps_snapshot: "keeps K (authority_snapshot lib root)"
  unfolding authority_snapshot_def by (intro keeps_intros ready)

lemma keeps_issue: "keeps K (issue_device_certificate lib root dev key caps)"
  unfolding issue_device_certificate_def issue_device_certificate_unlocked_def
  by (intro keeps_intros ready allocate)

lemma keeps_revoke: "keeps K (revoke_device lib root dev)"
  unfolding revoke_device_def by (intro keeps_intros ready revocation)

lemma keeps_publish: "keeps K (publish_device_list lib root cs)"
  unfolding publish_device_list_def by (intro keeps_intros ready publish)

lemma keeps_enroll: "keeps K (enroll_device lib root dev key caps)"
proof -
  have "keeps K (enroll_existing lib root l a c key cs)" for l a c cs
    unfolding enroll_existing_def by (auto intro!: keeps_intros publish)
  moreover have "keeps K (enroll_new lib root l a dev key cs)" for l a cs
    unfolding enroll_new_def Let_def issue_device_certificate_unlocked_def by (auto intro!: keeps_intros publish allocate)
  ultimately show ?thesis
    unfolding enroll_device_def by (auto intro!: keeps_intros ready keeps_snapshot split: option.split)
qed

lemma keeps_revoke_and_publish: "keeps K (revoke_and_publish_device_list lib root dev)"
proof -
  have "keeps K (ensure_revoked lib root dev a e)" for a e
    unfolding ensure_revoked_def by (auto intro!: keeps_intros revocation keeps_snapshot split: option.split)
  then show ?thesis
    unfolding revoke_and_publish_device_list_def Let_def
    by (auto intro!: keeps_intros ready keeps_snapshot publish)
qed

lemma keeps_capture: "keeps K (capture_recovery_unlocked lib root)"
  unfolding capture_recovery_unlocked_def by (intro keeps_intros keeps_snapshot)

lemma keeps_export: "keeps K (export_recovery lib root)"
  unfolding export_recovery_def by (intro keeps_intros ready keeps_capture)

lemma keeps_record: "keeps K (record_exported_recovery_checkpoint lib root package witness)"
proof -
  have "keeps K (\<lambda>d. (Inr (), d\<lparr> recovery_checkpoint := Some encoded \<rparr>))" for encoded
    using checkpoint by (simp add: keeps_def)
  then show ?thesis
    unfolding record_exported_recovery_checkpoint_def
    by (auto intro!: keeps_intros ready keeps_capture)
qed

lemmas keeps_operations = keeps_snapshot keeps_issue keeps_revoke keeps_publish keeps_enroll keeps_revoke_and_publish
  keeps_export keeps_record create_membership add_members

end

section \<open>Runs\<close>

text \<open>One operation of the Root, or another process taking or leaving the write lock.\<close>

inductive root_step :: "'a identity_libs_scheme \<Rightarrow> bytes \<Rightarrow> root_dir \<Rightarrow> root_dir \<Rightarrow> bool" for lib root where
  step_snapshot: "root_step lib root d (snd (authority_snapshot lib root d))"
| step_issue: "root_step lib root d (snd (issue_device_certificate lib root dev key caps d))"
| step_enroll: "root_step lib root d (snd (enroll_device lib root dev key caps d))"
| step_revoke: "root_step lib root d (snd (revoke_device lib root dev d))"
| step_revoke_publish: "root_step lib root d (snd (revoke_and_publish_device_list lib root dev d))"
| step_publish: "root_step lib root d (snd (publish_device_list lib root cs d))"
| step_create: "root_step lib root d (snd (create_conversation_membership lib root conv ms d))"
| step_add: "root_step lib root d (snd (add_conversation_members lib root conv ms d))"
| step_export: "root_step lib root d (snd (export_recovery lib root d))"
| step_record: "root_step lib root d (snd (record_exported_recovery_checkpoint lib root package witness d))"
| step_lock: "root_step lib root d (d\<lparr> locked_elsewhere := held \<rparr>)"

abbreviation root_steps :: "'a identity_libs_scheme \<Rightarrow> bytes \<Rightarrow> root_dir \<Rightarrow> root_dir \<Rightarrow> bool" where
  "root_steps lib root \<equiv> (root_step lib root)\<^sup>*\<^sup>*"

context root_stable
begin

lemma step_keeps: "root_step lib root d d' \<Longrightarrow> K d \<Longrightarrow> K d'"
  by (induction rule: root_step.induct) (use keeps_operations in \<open>auto simp: keeps_def lock\<close>)

lemma steps_keep: "root_steps lib root d d' \<Longrightarrow> K d \<Longrightarrow> K d'"
  by (induction rule: rtranclp_induct) (auto intro: step_keeps)

end

section \<open>Predicates that are kept\<close>

definition root_documented :: "'a identity_libs_scheme \<Rightarrow> bool" where
  "root_documented lib \<longleftrightarrow> root_signatures_documented lib \<and> root_postcard_documented lib"

lemma inv_insert_membership:
  assumes pc: "root_postcard_documented lib" and inv: "root_inv lib root d"
    and m: "membership_conversation_id m = conv" "membership_owner m = root_account_id lib root"
    and b: "membership_encode lib m = Inr b"
  shows "root_inv lib root (d\<lparr> membership_files := t_insert conv b (membership_files d) \<rparr>)"
    and "membership_decode_and_verify lib b = Inr m"
proof -
  show dec: "membership_decode_and_verify lib b = Inr m"
    using memb.decode_encode [OF b] pc by (auto simp: root_postcard_documented_def inverts_def)
  from inv obtain n where n: "root_inv_at lib root n n d" by (auto simp: root_inv_def)
  then have v: "t_valid (membership_files d)" by (simp add: root_inv_at_def memberships_ok_def)
  have "memberships_ok lib root (d\<lparr> membership_files := t_insert conv b (membership_files d) \<rparr>)"
    using n dec m by (auto simp: root_inv_at_def memberships_ok_def tbl.get_insert [OF v] tbl.valid_insert [OF v])
  then have "root_inv_at lib root n n (d\<lparr> membership_files := t_insert conv b (membership_files d) \<rparr>)"
    using n by (simp add: root_inv_at_def log_ready_def next_is_def revocations_ok_def list_ok_def list_accounts_for_def revocation_of_def)
  then show "root_inv lib root (d\<lparr> membership_files := t_insert conv b (membership_files d) \<rparr>)"
    by (auto simp: root_inv_def)
qed

text \<open>What writing a membership leaves in the directory.\<close>

definition membership_filed :: "'a identity_libs_scheme \<Rightarrow> root_dir \<Rightarrow> ConversationMembershipSnapshot \<Rightarrow> bool" where
  "membership_filed lib d m \<longleftrightarrow> (\<exists>b. t_get (membership_files d) (membership_conversation_id m) = Some b
     \<and> membership_decode_and_verify lib b = Inr m)"

lemma write_membership:
  assumes doc: "root_documented lib" and inv: "root_inv lib root d" and i: "membership_issue lib root conv n ms = Inr m"
    and e: "membership_encode lib m = Inr b"
  shows "root_inv lib root (d\<lparr> membership_files := t_insert conv b (membership_files d) \<rparr>)"
    and "membership_filed lib (d\<lparr> membership_files := t_insert conv b (membership_files d) \<rparr>) m"
proof -
  have pc: "root_postcard_documented lib" and m: "membership_conversation_id m = conv" "membership_owner m = root_account_id lib root"
    using doc membership_issue_verifies [OF _ i] by (auto simp: root_documented_def)
  show "root_inv lib root (d\<lparr> membership_files := t_insert conv b (membership_files d) \<rparr>)"
    by (rule inv_insert_membership [OF pc inv m e])
  have v: "t_valid (membership_files d)" using inv by (auto simp: root_inv_def root_inv_at_def memberships_ok_def)
  show "membership_filed lib (d\<lparr> membership_files := t_insert conv b (membership_files d) \<rparr>) m"
    using inv_insert_membership(2) [OF pc inv m e] m by (simp add: membership_filed_def tbl.get_insert [OF v])
qed

lemma create_membership_cases:
  assumes doc: "root_documented lib" and inv: "root_inv lib root d"
    and r: "create_conversation_membership lib root conv ms d = (r, d')"
  obtains "d' = d" and "\<And>m. r \<noteq> Inr m"
  | m b where "r = Inr m" and "t_get (membership_files d) conv = None"
      and "membership_issue lib root conv 1 (canonical_members (root_account_id lib root) ms) = Inr m"
      and "membership_encode lib m = Inr b" and "d' = d\<lparr> membership_files := t_insert conv b (membership_files d) \<rparr>"
proof -
  have e: "create_conversation_membership lib root conv ms d = (if locked_elsewhere d then (Inl (AuthorityError AccountAuthorityWriteLocked), d)
      else if t_get (membership_files d) conv \<noteq> None then (Inl (MembershipError (ConversationMembershipAlreadyExists conv)), d)
      else then_do (pure (membership_issue lib root conv 1 (canonical_members (root_account_id lib root) ms))) (\<lambda>snapshot.
       then_do (pure (membership_encode lib snapshot)) (\<lambda>encoded d.
       (Inr snapshot, d\<lparr> membership_files := t_insert conv encoded (membership_files d) \<rparr>))) d)"
    by (simp add: create_conversation_membership_def then_do_def ensure_ready [OF inv] acquire_authority_write_lock_def)
  let ?i = "membership_issue lib root conv 1 (canonical_members (root_account_id lib root) ms)"
  show ?thesis
  proof (cases "\<not> locked_elsewhere d \<and> t_get (membership_files d) conv = None \<and> (\<exists>m b. ?i = Inr m \<and> membership_encode lib m = Inr b)")
    case True
    then obtain m b where m: "?i = Inr m" "membership_encode lib m = Inr b" by blast
    with True r e have "r = Inr m" "d' = d\<lparr> membership_files := t_insert conv b (membership_files d) \<rparr>"
      by (simp_all add: then_do_def pure_def)
    with that(2) m True show ?thesis by blast
  next
    case False
    with r e have "d' = d \<and> (\<forall>m. r \<noteq> Inr m)"
      by (cases ?i; cases "membership_encode lib (projr ?i)") (auto simp: then_do_def pure_def split: if_splits)
    with that(1) show ?thesis by blast
  qed
qed

lemma add_members_cases:
  assumes doc: "root_documented lib" and inv: "root_inv lib root d"
    and r: "add_conversation_members lib root conv ms d = (r, d')"
  obtains "d' = d" and "\<And>m. r = Inr m \<Longrightarrow> load_root_conversation_membership lib root conv d = (Inr m, d)
      \<and> membership_members m = canonical_members (membership_owner m) (membership_members m @ ms)"
  | c m b where "r = Inr m" and "load_root_conversation_membership lib root conv d = (Inr c, d)"
      and "membership_issue lib root conv (membership_revision c + 1)
        (canonical_members (membership_owner c) (membership_members c @ ms)) = Inr m"
      and "membership_revision c < membership_revision c + 1"
      and "membership_encode lib m = Inr b" and "d' = d\<lparr> membership_files := t_insert conv b (membership_files d) \<rparr>"
proof -
  let ?new = "\<lambda>c. canonical_members (membership_owner c) (membership_members c @ ms)"
  let ?rest = "\<lambda>c. if ?new c = membership_members c then pure (Inr c)
     else then_do (pure (ok_or (MembershipError ConversationMembershipRevisionExhausted)
         (u64_checked_add (membership_revision c) 1))) (\<lambda>revision.
       then_do (pure (membership_issue lib root conv revision (?new c))) (\<lambda>updated.
       then_do (pure (membership_encode lib updated)) (\<lambda>encoded d.
       (Inr updated, d\<lparr> membership_files := t_insert conv encoded (membership_files d) \<rparr>))))"
  obtain l where l: "load_root_conversation_membership lib root conv d = (l, d)"
    by (simp add: load_root_conversation_membership_def)
  have ow: "membership_verify_for_owner lib c (root_account_id lib root) = Inr ()" if "l = Inr c" for c
    using l that by (auto simp: load_root_conversation_membership_def result_simps)
  have e: "add_conversation_members lib root conv ms d = (if locked_elsewhere d then (Inl (AuthorityError AccountAuthorityWriteLocked), d)
      else case l of Inl e \<Rightarrow> (Inl e, d) | Inr c \<Rightarrow> ?rest c d)"
    using l ow by (auto simp: add_conversation_members_def then_do_def ensure_ready [OF inv] acquire_authority_write_lock_def
        pure_def Let_def split: sum.split)
  show ?thesis
  proof (cases "locked_elsewhere d \<or> (\<exists>e. l = Inl e)")
    case True
    with r e have "d' = d \<and> (\<forall>m. r \<noteq> Inr m)" by (auto split: if_splits)
    with that(1) show ?thesis by blast
  next
    case False
    then obtain c where c: "l = Inr c" by (cases l) auto
    with False r e have r': "?rest c d = (r, d')" by simp
    show ?thesis
    proof (cases "?new c = membership_members c")
      case True
      with r' have "d' = d \<and> r = Inr c" by (auto simp: pure_def)
      with that(1) l c True show ?thesis by simp
    next
      case new: False
      show ?thesis
      proof (cases "\<exists>n m b. u64_checked_add (membership_revision c) 1 = Some n \<and> membership_issue lib root conv n (?new c) = Inr m
          \<and> membership_encode lib m = Inr b")
        case True
        then obtain n m b where n: "u64_checked_add (membership_revision c) 1 = Some n" "membership_issue lib root conv n (?new c) = Inr m"
          "membership_encode lib m = Inr b" by blast
        with r' new have "r = Inr m" "d' = d\<lparr> membership_files := t_insert conv b (membership_files d) \<rparr>"
          by (auto simp: then_do_def pure_def)
        with that(2) n l c checked_add_less [OF n(1)] show ?thesis by auto
      next
        case False
        with r' new have "d' = d \<and> (\<forall>m. r \<noteq> Inr m)"
          by (cases "u64_checked_add (membership_revision c) 1";
              cases "membership_issue lib root conv (the (u64_checked_add (membership_revision c) 1)) (?new c)")
            (auto simp: then_do_def pure_def split: sum.splits)
        with that(1) show ?thesis by blast
      qed
    qed
  qed
qed

text \<open>An operation keeps what the writes it makes keep.\<close>

lemma keeps_ready_by:
  "(\<And>d v. K d \<Longrightarrow> K (d\<lparr> authority_log_version := v \<rparr>)) \<Longrightarrow> keeps K ensure_authority_log_ready"
  by (auto simp: keeps_def ensure_authority_log_ready_def then_do_def read_next_authority_sequence_def split: option.split sum.split)

lemma keeps_allocate_by:
  assumes "\<And>d v. K d \<Longrightarrow> K (d\<lparr> next_authority_sequence := v \<rparr>)"
  shows "keeps K allocate_authority_sequence"
  unfolding allocate_authority_sequence_def by (intro keeps_intros) (simp add: keeps_def assms)

lemma keeps_revocation_by:
  assumes "keeps K allocate_authority_sequence"
    and "\<And>d dev b. K d \<Longrightarrow> t_get (revocation_files d) dev = None \<Longrightarrow> K (d\<lparr> revocation_files := t_insert dev b (revocation_files d) \<rparr>)"
  shows "keeps K (write_revocation lib root dev)"
  unfolding write_revocation_def by (intro keeps_then keeps_pure assms(1)) (auto simp: keeps_def assms(2))

lemma keeps_publish_by:
  assumes "keeps K ensure_authority_log_ready" and "\<And>d b. K d \<Longrightarrow> K (d\<lparr> device_list_file := Some b \<rparr>)"
  shows "keeps K (publish_device_list_unlocked lib root cs)"
proof -
  have rep: "keeps K (replace_device_list lib l)" for l
    unfolding replace_device_list_def by (intro keeps_intros) (simp add: keeps_def assms(2))
  have sn: "keeps K (authority_snapshot lib root)"
    unfolding authority_snapshot_def by (intro keeps_intros assms(1))
  have opt: "keeps K (\<lambda>d. case f d of None \<Rightarrow> m d | Some b \<Rightarrow> m' b d)" if "keeps K m" "\<And>b. keeps K (m' b)"
    for f and m :: "'r root_op" and m'
    using that by (simp add: keeps_def split: option.split)
  show ?thesis
    unfolding publish_device_list_unlocked_def by (intro keeps_intros sn opt) (auto intro!: keeps_intros rep)
qed

lemma keeps_membership_by:
  assumes "keeps K ensure_authority_log_ready"
    and "\<And>d conv b. K d \<Longrightarrow> K (d\<lparr> membership_files := t_insert conv b (membership_files d) \<rparr>)"
  shows "keeps K (create_conversation_membership lib root conv ms)" and "keeps K (add_conversation_members lib root conv ms)"
proof -
  have w: "keeps K (\<lambda>d. (r, d\<lparr> membership_files := t_insert conv b (membership_files d) \<rparr>))" for r :: "identity_error + 'r" and b
    using assms(2) by (simp add: keeps_def)
  show "keeps K (create_conversation_membership lib root conv ms)"
    unfolding create_conversation_membership_def by (intro keeps_intros assms(1) w)
  show "keeps K (add_conversation_members lib root conv ms)"
    unfolding add_conversation_members_def Let_def by (auto intro!: keeps_intros assms(1) w)
qed

lemma keeps_imp: "(P \<Longrightarrow> keeps K m) \<Longrightarrow> keeps (\<lambda>d. P \<longrightarrow> K d) m"
  by (auto simp: keeps_def)

text \<open>The invariant.\<close>

lemma keeps_inv:
  assumes doc: "root_documented lib"
  shows "keeps (root_inv lib root) ensure_authority_log_ready" "keeps (root_inv lib root) allocate_authority_sequence"
    "keeps (root_inv lib root) (write_revocation lib root dev)" "keeps (root_inv lib root) (publish_device_list_unlocked lib root cs)"
    "keeps (root_inv lib root) (create_conversation_membership lib root conv ms)"
    "keeps (root_inv lib root) (add_conversation_members lib root conv ms)"
proof -
  have sig: "root_signatures_documented lib" and pc: "root_postcard_documented lib" using doc by (auto simp: root_documented_def)
  show "keeps (root_inv lib root) ensure_authority_log_ready" by (rule keeps_triple [OF t_ensure])
  show "keeps (root_inv lib root) allocate_authority_sequence"
    by (rule keeps_triple, rule triple_weaken [OF t_allocate]) (auto intro: inv_at_weaken)
  show "keeps (root_inv lib root) (write_revocation lib root dev)"
    by (rule keeps_triple, rule triple_weaken [OF t_write_revocation [OF sig pc]]) auto
  show "keeps (root_inv lib root) (publish_device_list_unlocked lib root cs)"
    by (rule keeps_triple, rule triple_weaken [OF t_publish_unlocked [OF sig pc]]) auto
  show "keeps (root_inv lib root) (create_conversation_membership lib root conv ms)"
    unfolding keeps_def
  proof (intro allI impI)
    fix d assume inv: "root_inv lib root d"
    obtain r d' where r: "create_conversation_membership lib root conv ms d = (r, d')" by fastforce
    show "root_inv lib root (snd (create_conversation_membership lib root conv ms d))"
      using create_membership_cases [OF doc inv r] inv r write_membership(1) [OF doc inv] by (metis snd_conv)
  qed
  show "keeps (root_inv lib root) (add_conversation_members lib root conv ms)"
    unfolding keeps_def
  proof (intro allI impI)
    fix d assume inv: "root_inv lib root d"
    obtain r d' where r: "add_conversation_members lib root conv ms d = (r, d')" by fastforce
    show "root_inv lib root (snd (add_conversation_members lib root conv ms d))"
      using add_members_cases [OF doc inv r] inv r write_membership(1) [OF doc inv] by (metis snd_conv)
  qed
qed

lemma inv_other_fields:
  "root_inv lib root (d\<lparr> recovery_checkpoint := c \<rparr>) = root_inv lib root d"
  "root_inv lib root (d\<lparr> locked_elsewhere := held \<rparr>) = root_inv lib root d"
  by (simp_all add: inv_simps)

interpretation inv: root_stable lib root "\<lambda>d. root_documented lib \<longrightarrow> root_inv lib root d"
  for lib :: "'a identity_libs_scheme" and root
  by unfold_locales (auto intro!: keeps_imp keeps_inv simp: inv_other_fields)

text \<open>A revocation file stays as it was written.\<close>

definition revocation_filed :: "bytes \<Rightarrow> bytes \<Rightarrow> root_dir \<Rightarrow> bool" where
  "revocation_filed dev b d \<longleftrightarrow> t_valid (revocation_files d) \<and> t_get (revocation_files d) dev = Some b"

interpretation filed: root_stable lib root "revocation_filed dev b"
  for lib :: "'a identity_libs_scheme" and root dev b
proof -
  have r: "keeps (revocation_filed dev b) ensure_authority_log_ready" "keeps (revocation_filed dev b) allocate_authority_sequence"
    by (rule keeps_ready_by keeps_allocate_by; simp add: revocation_filed_def)+
  have "keeps (revocation_filed dev b) (write_revocation lib root e)" for e
    by (rule keeps_revocation_by [OF r(2)]) (auto simp: revocation_filed_def tbl.get_insert tbl.valid_insert)
  moreover have "keeps (revocation_filed dev b) (publish_device_list_unlocked lib root cs)" for cs
    by (rule keeps_publish_by [OF r(1)]) (simp add: revocation_filed_def)
  moreover have "keeps (revocation_filed dev b) (create_conversation_membership lib root conv ms)"
    "keeps (revocation_filed dev b) (add_conversation_members lib root conv ms)" for conv ms
    by (rule keeps_membership_by [OF r(1)]; simp add: revocation_filed_def)+
  ultimately show "root_stable lib root (revocation_filed dev b)"
    using r by unfold_locales (auto simp: revocation_filed_def)
qed

end
