(* ===== verification/Root_History.thy ===== *)
theory Root_History
  imports Root_Invariant
begin

text \<open>
  What the operations of an Account Root leave over any run: revocations stay and exclude their Device,
  the published device list and the memberships only move forward. With a serialisation that does not
  fail, the authority snapshot, certificates and lists of authorised Devices can always be issued, and
  the revocation of a Device can be repeated.
\<close>

section \<open>Publication\<close>

text \<open>Publishing leaves the directory alone or replaces the list by a newer one.\<close>

lemma publish_cases:
  assumes sig: "root_signatures_documented lib" and inv: "root_inv lib root d"
    and r: "publish_device_list_unlocked lib root cs d = (r, d')"
  obtains "d' = d"
  | l b where "r = Inr l" and "device_list_encode lib l = Inr b" and "d' = d\<lparr> device_list_file := Some b \<rparr>"
      and "\<And>l0. published lib l0 d \<Longrightarrow> list_revision l0 < list_revision l"
proof -
  obtain rs where rs: "authority_snapshot lib root d = (rs, d)"
    using snapshot_inv [OF sig inv] by (metis surj_pair)
  let ?rest = "\<lambda>s. then_do (pure (device_list_issue lib root s cs)) (\<lambda>l d. case device_list_file d of
       None \<Rightarrow> replace_device_list lib l d
     | Some bytes \<Rightarrow> then_do (pure (device_list_decode_and_verify lib bytes)) (\<lambda>existing.
         if list_revision existing > list_revision l
         then pure (Inl (DeviceListError (AccountDeviceListRollback (list_revision existing) (list_revision l))))
         else if list_revision existing = list_revision l
         then pure (if existing = l then Inr existing else Inl (DeviceListError (AccountDeviceListAlreadyPublished (list_revision l))))
         else replace_device_list lib l) d)"
  have e: "publish_device_list_unlocked lib root cs d = (case rs of Inl e \<Rightarrow> (Inl e, d) | Inr s \<Rightarrow> ?rest s d)"
    by (simp add: publish_device_list_unlocked_def then_do_def rs)
  show ?thesis
  proof (cases "d' = d")
    case True
    then show ?thesis by (rule that(1))
  next
    case False
    then obtain s l where s: "rs = Inr s" "device_list_issue lib root s cs = Inr l"
      using r e by (cases rs; cases "device_list_issue lib root (projr rs) cs") (auto simp: then_do_def pure_def)
    obtain b where b: "device_list_encode lib l = Inr b" "r = Inr l" "d' = d\<lparr> device_list_file := Some b \<rparr>"
      using r e s False
      by (cases "device_list_encode lib l"; cases "device_list_file d"; cases "device_list_decode_and_verify lib (the (device_list_file d))")
        (auto simp: then_do_def pure_def replace_device_list_def split: if_splits)
    have "list_revision l0 < list_revision l" if "published lib l0 d" for l0
      using that r e s False by (auto simp: published_def then_do_def pure_def split: if_splits)
    with that(2) b show ?thesis by blast
  qed
qed

text \<open>The list now published is \<open>l\<close> itself or has a higher revision.\<close>

definition list_since :: "'a identity_libs_scheme \<Rightarrow> bytes \<Rightarrow> AccountDeviceListSnapshot \<Rightarrow> root_dir \<Rightarrow> bool" where
  "list_since lib root l d \<longleftrightarrow> root_inv lib root d \<and> (\<exists>l'. published lib l' d \<and> (l' = l \<or> list_revision l < list_revision l'))"

text \<open>The membership now filed for the conversation is \<open>m\<close> itself or has a higher revision, and holds its members.\<close>

definition membership_since :: "'a identity_libs_scheme \<Rightarrow> bytes \<Rightarrow> ConversationMembershipSnapshot \<Rightarrow> root_dir \<Rightarrow> bool" where
  "membership_since lib root m d \<longleftrightarrow> root_inv lib root d \<and> (\<exists>m'. membership_filed lib d m'
     \<and> membership_conversation_id m' = membership_conversation_id m
     \<and> (m' = m \<or> membership_revision m < membership_revision m') \<and> set (membership_members m) \<subseteq> set (membership_members m'))"

lemma keeps_conj_inv:
  assumes "keeps (root_inv lib root) m" and "\<And>d. root_inv lib root d \<Longrightarrow> P d \<Longrightarrow> P (snd (m d))"
  shows "keeps (\<lambda>d. root_inv lib root d \<and> P d) m"
  using assms by (simp add: keeps_def)

lemma keeps_conj: "keeps P m \<Longrightarrow> keeps Q m \<Longrightarrow> keeps (\<lambda>d. P d \<and> Q d) m"
  by (simp add: keeps_def)

lemma published_unique: "published lib l d \<Longrightarrow> published lib l' d \<Longrightarrow> l = l'"
  by (auto simp: published_def)

lemma keeps_list_since:
  assumes doc: "root_documented lib"
  shows "keeps (list_since lib root l) ensure_authority_log_ready" "keeps (list_since lib root l) allocate_authority_sequence"
    "keeps (list_since lib root l) (write_revocation lib root dev)"
    "keeps (list_since lib root l) (publish_device_list_unlocked lib root cs)"
    "keeps (list_since lib root l) (create_conversation_membership lib root conv ms)"
    "keeps (list_since lib root l) (add_conversation_members lib root conv ms)"
proof -
  note inv = keeps_inv [OF doc]
  let ?P = "\<lambda>d. \<exists>l'. published lib l' d \<and> (l' = l \<or> list_revision l < list_revision l')"
  have eq: "list_since lib root l = (\<lambda>d. root_inv lib root d \<and> ?P d)" by (simp add: list_since_def fun_eq_iff)
  have r: "keeps ?P ensure_authority_log_ready" by (rule keeps_ready_by) (simp add: published_def)
  have a: "keeps ?P allocate_authority_sequence" by (rule keeps_allocate_by) (simp add: published_def)
  have w: "keeps ?P (write_revocation lib root dev)" by (rule keeps_revocation_by [OF a]) (simp add: published_def)
  have m: "keeps ?P (create_conversation_membership lib root conv ms)" "keeps ?P (add_conversation_members lib root conv ms)"
    by (rule keeps_membership_by [OF r]; simp add: published_def)+
  show "keeps (list_since lib root l) ensure_authority_log_ready" "keeps (list_since lib root l) allocate_authority_sequence"
    "keeps (list_since lib root l) (write_revocation lib root dev)"
    "keeps (list_since lib root l) (create_conversation_membership lib root conv ms)"
    "keeps (list_since lib root l) (add_conversation_members lib root conv ms)"
    unfolding eq by (rule keeps_conj inv r a w m)+
  show "keeps (list_since lib root l) (publish_device_list_unlocked lib root cs)"
    unfolding eq
  proof (rule keeps_conj_inv [OF inv(4)])
    fix d assume i: "root_inv lib root d" and p: "?P d"
    obtain x d' where x: "publish_device_list_unlocked lib root cs d = (x, d')" by fastforce
    have sig: "root_signatures_documented lib" and pc: "root_postcard_documented lib" using doc by (auto simp: root_documented_def)
    from sig i x show "?P (snd (publish_device_list_unlocked lib root cs d))"
    proof (cases rule: publish_cases)
      case 1
      with x p show ?thesis by simp
    next
      case (2 l1 b)
      have "device_list_decode_and_verify lib b = Inr l1"
        using dlist.decode_encode [OF 2(2)] pc by (auto simp: root_postcard_documented_def inverts_def)
      then have "published lib l1 d'" using 2(3) by (simp add: published_def)
      moreover have "list_revision l < list_revision l1" using p 2(4) by (auto intro: less_trans)
      ultimately show ?thesis using x by auto
    qed
  qed
qed

lemma list_since_other_fields:
  "list_since lib root l (d\<lparr> recovery_checkpoint := c \<rparr>) = list_since lib root l d"
  "list_since lib root l (d\<lparr> locked_elsewhere := held \<rparr>) = list_since lib root l d"
  by (simp_all add: list_since_def inv_other_fields published_def)

interpretation listed: root_stable lib root "\<lambda>d. root_documented lib \<longrightarrow> list_since lib root l d"
  for lib :: "'a identity_libs_scheme" and root l
  by unfold_locales (auto intro!: keeps_imp keeps_list_since simp: list_since_other_fields)

section \<open>Memberships\<close>

lemma inv_membership_valid: "root_inv lib root d \<Longrightarrow> t_valid (membership_files d)"
  by (auto simp: root_inv_def root_inv_at_def memberships_ok_def)

lemma filed_unique: "membership_filed lib d m \<Longrightarrow> membership_filed lib d m' \<Longrightarrow>
    membership_conversation_id m = membership_conversation_id m' \<Longrightarrow> m = m'"
  by (auto simp: membership_filed_def)

lemma filed_insert_other:
  assumes "root_inv lib root d" and "membership_filed lib d m" and "membership_conversation_id m \<noteq> conv"
  shows "membership_filed lib (d\<lparr> membership_files := t_insert conv b (membership_files d) \<rparr>) m"
  using assms by (simp add: membership_filed_def tbl.get_insert [OF inv_membership_valid])

lemma load_membership_iff:
  assumes inv: "root_inv lib root d"
  shows "load_root_conversation_membership lib root conv d = (Inr m, d')
    \<longleftrightarrow> d' = d \<and> membership_filed lib d m \<and> membership_conversation_id m = conv"
proof -
  have ok: "t_get (membership_files d) c = Some b \<Longrightarrow> \<exists>m. membership_decode_and_verify lib b = Inr m
      \<and> membership_conversation_id m = c \<and> membership_owner m = root_account_id lib root" for c b
    using inv by (auto simp: root_inv_def root_inv_at_def memberships_ok_def)
  have v: "membership_decode_and_verify lib b = Inr m \<Longrightarrow> membership_verify lib m = Inr ()" for b m
    by (rule memb.decode_verified)
  have l: "load_root_conversation_membership lib root conv d = (Inr m, d')
    \<longleftrightarrow> d' = d \<and> (\<exists>b. t_get (membership_files d) conv = Some b \<and> membership_decode_and_verify lib b = Inr m
      \<and> membership_verify lib m = Inr () \<and> membership_owner m = root_account_id lib root)"
    by (auto simp: load_root_conversation_membership_def result_simps membership_verify_for_owner_iff)
  show ?thesis unfolding l membership_filed_def using ok v by (metis Inr_inject)
qed

lemma membership_since_create:
  assumes doc: "root_documented lib" and s: "membership_since lib root m d"
  shows "membership_since lib root m (snd (create_conversation_membership lib root conv ms d))"
proof -
  from s obtain m' where inv: "root_inv lib root d" and m': "membership_filed lib d m'"
    "membership_conversation_id m' = membership_conversation_id m" "m' = m \<or> membership_revision m < membership_revision m'"
    "set (membership_members m) \<subseteq> set (membership_members m')" by (auto simp: membership_since_def)
  obtain r d' where r: "create_conversation_membership lib root conv ms d = (r, d')" by fastforce
  have inv': "root_inv lib root d'" using keeps_inv(5) [OF doc] inv r by (metis keeps_def snd_conv)
  from doc inv r show ?thesis
  proof (cases rule: create_membership_cases)
    case 1
    with r s show ?thesis by simp
  next
    case (2 n b)
    with m' have "membership_conversation_id m' \<noteq> conv" by (auto simp: membership_filed_def)
    with filed_insert_other [OF inv m'(1)] 2 have "membership_filed lib d' m'" by simp
    with inv' m' r show ?thesis by (auto simp: membership_since_def)
  qed
qed

lemma membership_since_add:
  assumes doc: "root_documented lib" and s: "membership_since lib root m d"
  shows "membership_since lib root m (snd (add_conversation_members lib root conv ms d))"
proof -
  from s obtain m' where inv: "root_inv lib root d" and m': "membership_filed lib d m'"
    "membership_conversation_id m' = membership_conversation_id m" "m' = m \<or> membership_revision m < membership_revision m'"
    "set (membership_members m) \<subseteq> set (membership_members m')" by (auto simp: membership_since_def)
  obtain r d' where r: "add_conversation_members lib root conv ms d = (r, d')" by fastforce
  have inv': "root_inv lib root d'" using keeps_inv(6) [OF doc] inv r by (metis keeps_def snd_conv)
  from doc inv r show ?thesis
  proof (cases rule: add_members_cases)
    case 1
    with r s show ?thesis by simp
  next
    case (2 c n b)
    have c: "membership_filed lib d c" "membership_conversation_id c = conv" using 2(2) load_membership_iff [OF inv] by auto
    have n: "membership_conversation_id n = conv" "membership_revision n = membership_revision c + 1"
      "set (membership_members c) \<subseteq> set (membership_members n)"
      using membership_issue_verifies [OF _ 2(3)] doc by (auto simp: root_documented_def)
    have f: "membership_filed lib d' n" using write_membership(2) [OF doc inv 2(3) 2(5)] 2(6) by simp
    show ?thesis
    proof (cases "membership_conversation_id m' = conv")
      case True
      then have "m' = c" using filed_unique m' c by metis
      moreover have "membership_revision m < membership_revision n"
        using m'(3) n 2(4) \<open>m' = c\<close> by (auto intro: less_trans)
      ultimately show ?thesis using inv' f n m' c r unfolding membership_since_def by (intro conjI exI [of _ n]) auto
    next
      case False
      then have "membership_filed lib d' m'" using filed_insert_other [OF inv m'(1)] 2(6) by simp
      with inv' m' r show ?thesis by (auto simp: membership_since_def)
    qed
  qed
qed

lemma keeps_membership_since:
  assumes doc: "root_documented lib"
  shows "keeps (membership_since lib root m) ensure_authority_log_ready" "keeps (membership_since lib root m) allocate_authority_sequence"
    "keeps (membership_since lib root m) (write_revocation lib root dev)"
    "keeps (membership_since lib root m) (publish_device_list_unlocked lib root cs)"
proof -
  note inv = keeps_inv [OF doc]
  let ?P = "\<lambda>d. \<exists>m'. membership_filed lib d m' \<and> membership_conversation_id m' = membership_conversation_id m
     \<and> (m' = m \<or> membership_revision m < membership_revision m') \<and> set (membership_members m) \<subseteq> set (membership_members m')"
  have eq: "membership_since lib root m = (\<lambda>d. root_inv lib root d \<and> ?P d)" by (simp add: membership_since_def fun_eq_iff)
  have r: "keeps ?P ensure_authority_log_ready" by (rule keeps_ready_by) (simp add: membership_filed_def)
  have a: "keeps ?P allocate_authority_sequence" by (rule keeps_allocate_by) (simp add: membership_filed_def)
  have w: "keeps ?P (write_revocation lib root dev)" by (rule keeps_revocation_by [OF a]) (simp add: membership_filed_def)
  have p: "keeps ?P (publish_device_list_unlocked lib root cs)" by (rule keeps_publish_by [OF r]) (simp add: membership_filed_def)
  show "keeps (membership_since lib root m) ensure_authority_log_ready" "keeps (membership_since lib root m) allocate_authority_sequence"
    "keeps (membership_since lib root m) (write_revocation lib root dev)"
    "keeps (membership_since lib root m) (publish_device_list_unlocked lib root cs)"
    unfolding eq by (rule keeps_conj inv r a w p)+
qed

lemma membership_since_other_fields:
  "membership_since lib root m (d\<lparr> recovery_checkpoint := c \<rparr>) = membership_since lib root m d"
  "membership_since lib root m (d\<lparr> locked_elsewhere := held \<rparr>) = membership_since lib root m d"
  by (simp_all add: membership_since_def inv_other_fields membership_filed_def)

interpretation member: root_stable lib root "\<lambda>d. root_documented lib \<longrightarrow> membership_since lib root m d"
  for lib :: "'a identity_libs_scheme" and root m
proof unfold_locales
  show "keeps (\<lambda>d. root_documented lib \<longrightarrow> membership_since lib root m d) (create_conversation_membership lib root conv ms)" for conv ms
    by (rule keeps_imp) (simp add: keeps_def membership_since_create)
  show "keeps (\<lambda>d. root_documented lib \<longrightarrow> membership_since lib root m d) (add_conversation_members lib root conv ms)" for conv ms
    by (rule keeps_imp) (simp add: keeps_def membership_since_add)
qed (auto intro!: keeps_imp keeps_membership_since simp: membership_since_other_fields)

section \<open>Reachable directories\<close>

abbreviation root_reachable :: "'a identity_libs_scheme \<Rightarrow> bytes \<Rightarrow> root_dir \<Rightarrow> bool" where
  "root_reachable lib root \<equiv> root_steps lib root create_with_identity"

lemma reachable_root_inv: "root_documented lib \<Longrightarrow> root_reachable lib root d \<Longrightarrow> root_inv lib root d"
  using inv.steps_keep [of lib root create_with_identity d] root_inv_create by blast

section \<open>Revocation\<close>

lemma keepsD: "keeps K m \<Longrightarrow> m d = (r, d') \<Longrightarrow> K d \<Longrightarrow> K d'"
  by (auto simp: keeps_def dest: spec [of _ d])

lemma revocation_of_Some: "revocation_of lib d dev = Some r \<longleftrightarrow>
    (\<exists>b. t_get (revocation_files d) dev = Some b \<and> revocation_decode_and_verify lib b = Inr r)"
  unfolding revocation_of_def by (cases "t_get (revocation_files d) dev") (simp_all split: sum.split)

lemma lock_Inr [result_simps]: "acquire_authority_write_lock d = (Inr u, d') \<longleftrightarrow> \<not> locked_elsewhere d \<and> d' = d"
  by (auto simp: acquire_authority_write_lock_def)

lemma published_Inr:
  "published_device_list lib root d = (Inr l, d') \<longleftrightarrow> d' = d \<and> published lib l d \<and> snapshot_account_id (list_snapshot l) = root_account_id lib root"
  by (auto simp: published_device_list_def published_def result_simps device_list_verify_for_account_iff dlist.decode_iff)

lemma published_verified: "published lib l d \<Longrightarrow> device_list_verify lib l = Inr ()"
  by (auto simp: published_def intro: dlist.decode_verified)

lemma active_not_revoked: "c \<in> set (active_devices l s) \<longleftrightarrow> c \<in> set (list_devices l) \<and> certificate_device_id c \<notin> revoked_ids s"
  by (auto simp: active_devices_def list_ex_iff image_iff)

lemma revoke_Inr:
  assumes doc: "root_documented lib" and inv: "root_inv lib root d" and r: "revoke_device lib root dev d = (Inr r, d')"
  shows "root_inv lib root d' \<and> revocation_of lib d' dev = Some r"
proof -
  from r have "write_revocation lib root dev d = (Inr r, d')"
    by (auto simp: revoke_device_def result_simps ensure_ready [OF inv] split: if_splits)
  then show ?thesis using doc inv triple_Inr [OF t_write_revocation] by (fastforce simp: root_documented_def)
qed

lemma ensure_revoked_Inr:
  assumes doc: "root_documented lib" and inv: "root_inv lib root d" and a: "snapshot_of lib root a d"
    and r: "ensure_revoked lib root dev a (find (\<lambda>r. revocation_device_id r = dev) (snapshot_revocations a)) d = (Inr (r, a'), d')"
  shows "root_inv lib root d' \<and> revocation_of lib d' dev = Some r \<and> snapshot_of lib root a' d' \<and> device_list_file d' = device_list_file d"
proof (cases "find (\<lambda>r. revocation_device_id r = dev) (snapshot_revocations a)")
  case (Some r0)
  then have r0: "r0 \<in> set (snapshot_revocations a)" "revocation_device_id r0 = dev"
    by (auto simp: find_Some_iff)
  from r have "r = r0" "a' = a" "d' = d" by (auto simp: ensure_revoked_def Some result_simps)
  moreover have "revocation_of lib d dev = Some r0" using a r0 unfolding snapshot_of_def by metis
  ultimately show ?thesis using inv a by simp
next
  case None
  with r obtain d1 where w: "write_revocation lib root dev d = (Inr r, d1)" and s: "authority_snapshot lib root d1 = (Inr a', d')"
    by (auto simp: ensure_revoked_def result_simps)
  let ?K = "\<lambda>d'. device_list_file d' = device_list_file d"
  have k: "keeps ?K (write_revocation lib root dev)"
    by (rule keeps_revocation_by [OF keeps_allocate_by]) simp_all
  then have f: "device_list_file d1 = device_list_file d" using keepsD [OF k w] by blast
  have i: "root_inv lib root d1" "revocation_of lib d1 dev = Some r"
    using triple_Inr [OF t_write_revocation inv w] doc by (simp_all add: root_documented_def)
  with snapshot_inv [OF _ i(1) s] doc f show ?thesis by (simp add: root_documented_def)
qed

lemma revoke_and_publish_Inr:
  assumes doc: "root_documented lib" and inv: "root_inv lib root d"
    and r: "revoke_and_publish_device_list lib root dev d = (Inr (r, l), d')"
  shows "root_inv lib root d' \<and> revocation_of lib d' dev = Some r \<and> published lib l d' \<and> certificate_for l dev = None"
proof -
  from doc have sig: "root_signatures_documented lib" "root_postcard_documented lib" by (simp_all add: root_documented_def)
  from r obtain c a d1 where c: "published lib c d" and s: "authority_snapshot lib root d = (Inr a, d1)"
    by (auto simp: revoke_and_publish_device_list_def result_simps ensure_ready [OF inv] published_Inr)
  have sn: "d1 = d" "snapshot_of lib root a d" using snapshot_inv [OF sig(1) inv s] by auto
  with r c s obtain r0 a' d2 where e: "ensure_revoked lib root dev a (find (\<lambda>r. revocation_device_id r = dev) (snapshot_revocations a)) d = (Inr (r0, a'), d2)"
    and fin: "(certificate_for c dev = None \<and> r = r0 \<and> l = c \<and> d' = d2)
       \<or> (r = r0 \<and> publish_device_list_unlocked lib root (active_devices c a') d2 = (Inr l, d'))"
    by (auto simp: revoke_and_publish_device_list_def result_simps ensure_ready [OF inv] published_Inr Let_def
        published_def split: if_splits)
  note d2 = ensure_revoked_Inr [OF doc inv sn(2) e]
  from fin show ?thesis
  proof
    assume "certificate_for c dev = None \<and> r = r0 \<and> l = c \<and> d' = d2"
    with d2 c show ?thesis by (simp add: published_def)
  next
    assume p: "r = r0 \<and> publish_device_list_unlocked lib root (active_devices c a') d2 = (Inr l, d')"
    with d2 triple_Inr [OF t_publish_unlocked [OF sig]] have i: "root_inv lib root d'" "published_current lib root (active_devices c a') l d'"
      by blast+
    have k: "keeps (\<lambda>d. revocation_of lib d dev = Some r0) (publish_device_list_unlocked lib root (active_devices c a'))"
      by (rule keeps_publish_by [OF keeps_ready_by]) (simp_all add: revocation_of_def)
    then have rev0: "revocation_of lib d' dev = Some r0" using keepsD [OF k] p d2 by blast
    from d2 have "t_get (revocation_files d2) dev \<noteq> None" by (auto simp: revocation_of_Some)
    with d2 have "dev \<in> revoked_ids a'" by (simp add: snapshot_of_def)
    moreover have "set (list_devices l) = set (active_devices c a')" and l: "published lib l d'"
      using i(2) by (simp_all add: published_current_def)
    ultimately have "certificate_for l dev = None"
      unfolding certificate_for_None [OF published_verified [OF l]] by (metis active_not_revoked imageE)
    with i rev0 p l show ?thesis by blast
  qed
qed

text \<open>A revocation in force: every snapshot and every later list excludes the Device.\<close>

lemma revoked_later:
  assumes doc: "root_documented lib" and inv: "root_inv lib root d" and r: "revocation_of lib d dev = Some r"
    and s: "root_steps lib root d d'"
  shows "root_inv lib root d' \<and> revocation_of lib d' dev = Some r"
proof -
  from r obtain b where b: "t_get (revocation_files d) dev = Some b" "revocation_decode_and_verify lib b = Inr r"
    using revocation_of_Some by blast
  have "t_valid (revocation_files d)" using inv by (auto simp: root_inv_def root_inv_at_def revocations_ok_def)
  with b have "revocation_filed dev b d" by (simp add: revocation_filed_def)
  then have "revocation_filed dev b d'" by (rule filed.steps_keep [OF s])
  with b have "revocation_of lib d' dev = Some r" by (simp add: revocation_filed_def revocation_of_def)
  moreover have "root_inv lib root d'" using inv.steps_keep [OF s] doc inv by blast
  ultimately show ?thesis by blast
qed

lemma revoked_in_snapshot:
  assumes doc: "root_documented lib" and inv: "root_inv lib root d" and r: "revocation_of lib d dev = Some r"
    and s: "authority_snapshot lib root d = (Inr s, d')"
  shows "d' = d \<and> dev \<in> revoked_ids s"
proof -
  have "d' = d" and "snapshot_of lib root s d" using snapshot_inv [OF _ inv s] doc by (auto simp: root_documented_def)
  moreover have "t_get (revocation_files d) dev \<noteq> None" using r by (auto simp: revocation_of_Some)
  ultimately show ?thesis unfolding snapshot_of_def by blast
qed

lemma revoked_not_enrolled:
  assumes doc: "root_documented lib" and inv: "root_inv lib root d" and r: "revocation_of lib d dev = Some r"
  shows "\<not> is_ok (fst (enroll_device lib root dev key caps d))"
proof
  assume "is_ok (fst (enroll_device lib root dev key caps d))"
  then obtain y d' where e: "enroll_device lib root dev key caps d = (Inr y, d')"
    by (metis is_ok_iff prod.collapse)
  then obtain c a d1 where c: "published lib c d" and s: "authority_snapshot lib root d = (Inr a, d1)"
    and rest: "(case certificate_for c dev of Some x \<Rightarrow> enroll_existing lib root c a x key (sort caps)
       | None \<Rightarrow> enroll_new lib root c a dev key (sort caps)) d1 = (Inr y, d')"
    by (auto simp: enroll_device_def result_simps ensure_ready [OF inv] published_Inr)
  have a: "dev \<in> revoked_ids a" using revoked_in_snapshot [OF doc inv r s] by simp
  show False
  proof (cases "certificate_for c dev")
    case None
    with a rest show False by (auto simp: enroll_new_def Let_def list_ex_iff result_simps split: if_splits)
  next
    case (Some x)
    with c have "certificate_device_id x = dev" using certificate_for_iff [OF published_verified] by blast
    with a rest Some show False by (auto simp: enroll_existing_def result_simps authorization_iff split: if_splits)
  qed
qed

lemma revoked_not_listed:
  assumes inv: "root_inv lib root d" and r: "revocation_of lib d dev = Some r" and l: "published lib l d"
    and n: "revocation_sequence r < list_revision l"
  shows "certificate_for l dev = None"
proof -
  have "list_accounts_for lib d l" using inv l by (auto simp: root_inv_def root_inv_at_def list_ok_def published_def)
  with r n have "dev \<in> revoked_ids (list_snapshot l)" unfolding list_accounts_for_def by blast
  then have "dev \<noteq> certificate_device_id c" if "c \<in> set (list_devices l)" for c
    using device_list_devices(5) [OF published_verified [OF l] that] by blast
  then show ?thesis unfolding certificate_for_None [OF published_verified [OF l]] by blast
qed

section \<open>Snapshots and republication always succeed\<close>

text \<open>postcard writes into a growing vector, so that encoding a value of these types does not fail.\<close>

definition total :: "('x \<Rightarrow> bytes option) \<Rightarrow> bool" where
  "total ser \<longleftrightarrow> (\<forall>x. ser x \<noteq> None)"

definition root_postcard_total :: "'a identity_libs_scheme \<Rightarrow> bool" where
  "root_postcard_total lib \<longleftrightarrow> total (pc_certificate_content lib) \<and> total (pc_revocation_content lib)
     \<and> total (pc_snapshot_content lib) \<and> total (pc_device_list_content lib)
     \<and> total (pc_revocation lib) \<and> total (pc_device_list lib) \<and> total (pc_membership lib)"

lemma total_Some: "total ser \<Longrightarrow> \<exists>b. ser x = Some b"
  by (auto simp: total_def)

lemma root_totals:
  assumes "root_postcard_total lib"
  shows "\<exists>m. certificate_signing_bytes lib cc = Inr m" "\<exists>m. revocation_signing_bytes lib rc = Inr m"
    "\<exists>m. authority_snapshot_signing_bytes lib sc = Inr m" "\<exists>m. account_device_list_signing_bytes lib lc = Inr m"
    "revocation_verify lib r = Inr () \<Longrightarrow> \<exists>b. revocation_encode lib r = Inr b"
    "device_list_verify lib l = Inr () \<Longrightarrow> \<exists>b. device_list_encode lib l = Inr b"
    "membership_verify lib m = Inr () \<Longrightarrow> \<exists>b. membership_encode lib m = Inr b"
  using assms
  by (simp_all add: root_postcard_total_def certificate_signing_bytes_def revocation_signing_bytes_def
      authority_snapshot_signing_bytes_def account_device_list_signing_bytes_def preimage_Inr total_Some
      revo.encode_iff dlist.encode_iff memb.encode_iff)

lemma snapshot_eq:
  assumes inv: "root_inv lib root d" and n: "next_is d n"
  shows "authority_snapshot lib root d = (and_then (try_map (\<lambda>(_, bytes). revocation_decode_and_verify lib bytes) (revocation_files d)) (\<lambda>rs.
      snapshot_issue lib root n (sort_key revocation_device_id rs)), d)"
  by (simp add: authority_snapshot_def then_do_def ensure_ready [OF inv] read_next [OF n])

lemma snapshot_total:
  assumes total: "root_postcard_total lib" and inv: "root_inv lib root d"
  shows "\<exists>s. authority_snapshot lib root d = (Inr s, d)"
proof -
  from inv obtain n where n: "next_is d n" and ok: "revocations_ok lib root n d" by (auto simp: root_inv_def root_inv_at_def)
  have entry: "\<exists>r. revocation_decode_and_verify lib b = Inr r \<and> rvc_account_id (rv_content r) = root_account_id lib root
      \<and> revocation_sequence r < n" if "(k, b) \<in> set (revocation_files d)" for k b
  proof -
    have "t_get (revocation_files d) k = Some b" using that ok by (simp add: t_get_set revocations_ok_def)
    with ok show ?thesis unfolding revocations_ok_def by blast
  qed
  then have "\<exists>rs. try_map (\<lambda>(_, bytes). revocation_decode_and_verify lib bytes) (revocation_files d) = Inr rs"
    by (intro try_map_ok) (auto simp: is_ok_iff)
  then obtain rs where rs: "try_map (\<lambda>(_, bytes). revocation_decode_and_verify lib bytes) (revocation_files d) = Inr rs" ..
  then have all: "list_all2 (\<lambda>e r. revocation_decode_and_verify lib (snd e) = Inr r) (revocation_files d) rs"
    by (simp add: try_map_all2 split_beta)
  note ids = decoded_files [OF ok all]
  have "revocation_verify lib r = Inr () \<and> rvc_account_id (rv_content r) = root_account_id lib root \<and> revocation_sequence r < n"
    if r: "r \<in> set rs" for r
  proof -
    from r all obtain e where e: "e \<in> set (revocation_files d)" "revocation_decode_and_verify lib (snd e) = Inr r"
      using list_all2_conv_all_nth [THEN iffD1, OF all] by (metis in_set_conv_nth)
    with entry [of "fst e" "snd e"] revo.decode_verified [OF e(2)] show ?thesis by auto
  qed
  moreover have "sorted_wrt (<) (map revocation_device_id rs)"
    using ok by (simp add: ids(1) revocations_ok_def t_valid_def)
  then have "sorted_wrt (\<lambda>x y. revocation_device_id x < revocation_device_id y) rs" by (simp add: sorted_wrt_map)
  ultimately have "validate_authority_snapshot_content lib \<lparr> aasc_version = AUTHORITY_VERSION, aasc_account_id = root_account_id lib root,
      aasc_revision = n, aasc_revocations = rs \<rparr> = Inr ()"
    unfolding snapshot_content_valid by simp
  then have "\<exists>s. snapshot_issue lib root n rs = Inr s"
    using root_totals(3) [OF total] by (auto simp: snapshot_issue_def Let_def and_then_Inr)
  with rs ids(2) show ?thesis by (auto simp: snapshot_eq [OF inv n])
qed

lemma sort_key_Nil_iff: "sort_key f xs = [] \<longleftrightarrow> xs = []"
  by (metis length_0_conv length_sort)

lemma publish_total:
  assumes doc: "root_documented lib" and total: "root_postcard_total lib" and inv: "root_inv lib root d"
    and s: "authority_snapshot lib root d = (Inr s, d)"
    and cs: "cs \<noteq> []" "length cs \<le> MAX_ACCOUNT_DEVICES" "distinct (map certificate_device_id cs)"
    and auth: "\<And>x. x \<in> set cs \<Longrightarrow> is_ok (verify_device_authorization_with_snapshot lib (root_account_id lib root) x s MESSAGING)"
    and old: "\<And>c. published lib c d \<Longrightarrow> list_revision c < snapshot_revision s"
  shows "\<exists>l b. publish_device_list_unlocked lib root cs d = (Inr l, d\<lparr> device_list_file := Some b \<rparr>)"
proof -
  let ?c = "\<lparr> adlc_version = ACCOUNT_DEVICE_LIST_VERSION, adlc_authority_snapshot = s, adlc_devices = sort_key certificate_device_id cs \<rparr>"
  have sn: "snapshot_of lib root s d" using snapshot_inv [OF _ inv s] doc by (simp add: root_documented_def)
  have "sorted_wrt (<) (map certificate_device_id (sort_key certificate_device_id cs))"
    using cs(3) by (simp add: strict_sorted_iff distinct_map)
  then have "validate_account_device_list_content lib ?c = Inr ()"
    unfolding device_list_content_valid using sn cs auth by (simp add: snapshot_of_def sorted_wrt_map sort_key_Nil_iff)
  then obtain l where l: "device_list_issue lib root s cs = Inr l"
    using sn root_totals(4) [OF total, of ?c] by (auto simp: device_list_issue_def Let_def snapshot_of_def ensure_def)
  have lv: "list_snapshot l = s" "device_list_verify lib l = Inr ()" using device_list_issue_verifies [OF _ l] doc by (auto simp: root_documented_def)
  obtain b where b: "device_list_encode lib l = Inr b" using root_totals(6) [OF total lv(2)] ..
  show ?thesis
  proof (cases "device_list_file d")
    case None
    with s l b show ?thesis by (auto simp: publish_device_list_unlocked_def then_do_def pure_def replace_device_list_def)
  next
    case (Some f)
    with inv obtain c where c: "device_list_decode_and_verify lib f = Inr c" by (auto simp: root_inv_def root_inv_at_def list_ok_def)
    with Some old [of c] lv have "list_revision c < list_revision l" by (simp add: published_def)
    with Some c s l b show ?thesis by (auto simp: publish_device_list_unlocked_def then_do_def pure_def replace_device_list_def)
  qed
qed

text \<open>In particular the Devices of the published list that are still active can be published again.\<close>

lemma republish:
  assumes doc: "root_documented lib" and total: "root_postcard_total lib" and inv: "root_inv lib root d"
    and c: "published lib c d" and s: "authority_snapshot lib root d = (Inr s, d)"
    and act: "active_devices c s \<noteq> []" and rev': "list_revision c < snapshot_revision s"
  shows "\<exists>l b. publish_device_list_unlocked lib root (active_devices c s) d = (Inr l, d\<lparr> device_list_file := Some b \<rparr>)"
proof (rule publish_total [OF doc total inv s act])
  have sn: "snapshot_of lib root s d" using snapshot_inv [OF _ inv s] doc by (simp add: root_documented_def)
  have acct: "snapshot_account_id (list_snapshot c) = root_account_id lib root"
    using inv c by (auto simp: root_inv_def root_inv_at_def list_ok_def published_def)
  note cv = published_verified [OF c] and cc = dlist.verified_check [OF published_verified [OF c], unfolded device_list_content_valid]
  show "is_ok (verify_device_authorization_with_snapshot lib (root_account_id lib root) x s MESSAGING)"
    if "x \<in> set (active_devices c s)" for x
  proof -
    from that have x: "x \<in> set (list_devices c)" "certificate_device_id x \<notin> revoked_ids s" by (simp_all add: active_not_revoked)
    with sn acct rev' device_list_devices [OF cv x(1)] show ?thesis
      by (auto simp: is_ok_iff authorization_iff snapshot_of_def)
  qed
  show "length (active_devices c s) \<le> MAX_ACCOUNT_DEVICES"
    using cc unfolding active_devices_def by (meson le_trans length_filter_le)
  have "sorted_wrt (<) (map certificate_device_id (list_devices c))" using cc by (simp add: sorted_wrt_map)
  then show "distinct (map certificate_device_id (active_devices c s))"
    unfolding active_devices_def by (auto simp: strict_sorted_iff intro: distinct_map_filter)
  show "list_revision c' < snapshot_revision s" if "published lib c' d" for c' using published_unique [OF that c] rev' by simp
qed

lemma issue_total:
  assumes total: "root_postcard_total lib" and inv: "root_inv lib root d" and n: "next_is d n" "u64_checked_add n 1 = Some m"
    and free: "\<not> locked_elsewhere d" and caps: "validate_requested_capabilities caps = Inr ()" "distinct caps"
  shows "\<exists>c. certificate_issue lib root dev key n caps = Inr c
    \<and> issue_device_certificate lib root dev key caps d = (Inr c, d\<lparr> next_authority_sequence := Some (number_line m) \<rparr>)"
proof -
  let ?c = "\<lparr> dcc_version = DEVICE_CERTIFICATE_VERSION, dcc_account_id = root_account_id lib root, dcc_device_id = dev,
    dcc_encryption_public_key = key, dcc_authority_sequence = n, dcc_capabilities = sort caps \<rparr>"
  have "identity_validate_certificate_content ?c = Inr ()"
    unfolding certificate_content_valid using caps by (auto simp: validate_requested_capabilities_def strict_sorted_iff sort_key_Nil_iff split: if_splits)
  with root_totals(1) [OF total, of ?c] obtain c where "certificate_issue lib root dev key n caps = Inr c"
    using caps by (auto simp: certificate_issue_def Let_def)
  then show ?thesis using caps free n
    by (simp add: issue_device_certificate_def issue_device_certificate_unlocked_def then_do_def ensure_ready [OF inv] pure_def
        acquire_authority_write_lock_def allocate_authority_sequence_def read_next)
qed

lemma revoke_total:
  assumes total: "root_postcard_total lib" and inv: "root_inv lib root d" and n: "next_is d n" "u64_checked_add n 1 = Some m"
    and free: "\<not> locked_elsewhere d" "t_get (revocation_files d) dev = None" and sig: "root_signatures_documented lib"
  shows "\<exists>r b. revoke_device lib root dev d = (Inr r, d\<lparr> next_authority_sequence := Some (number_line m),
    revocation_files := t_insert dev b (revocation_files d) \<rparr>)"
proof -
  let ?c = "\<lparr> rvc_version = AUTHORITY_VERSION, rvc_account_id = root_account_id lib root, rvc_device_id = dev, rvc_authority_sequence = n \<rparr>"
  obtain r where r: "revocation_issue lib root dev n = Inr r"
    using root_totals(2) [OF total, of ?c] by (auto simp: revocation_issue_def Let_def)
  then obtain b where "revocation_encode lib r = Inr b"
    using root_totals(5) [OF total] revocation_issue_verifies [OF sig r] by blast
  with r free n show ?thesis
    by (auto simp: revoke_device_def write_revocation_def then_do_def ensure_ready [OF inv] pure_def
        acquire_authority_write_lock_def allocate_authority_sequence_def read_next)
qed

text \<open>Repeating the revocation of a Device whose revocation is on disk returns that revocation.\<close>

lemma revoke_and_publish_repeat:
  assumes doc: "root_documented lib" and total: "root_postcard_total lib" and inv: "root_inv lib root d"
    and r: "revocation_of lib d dev = Some r" and c: "published lib c d" and free: "\<not> locked_elsewhere d"
    and x: "x \<in> set (list_devices c)" "t_get (revocation_files d) (certificate_device_id x) = None"
  shows "\<exists>l d'. revoke_and_publish_device_list lib root dev d = (Inr (r, l), d')
    \<and> next_authority_sequence d' = next_authority_sequence d"
proof -
  obtain s where s: "authority_snapshot lib root d = (Inr s, d)" using snapshot_total [OF total inv] ..
  have sn: "snapshot_of lib root s d" using snapshot_inv [OF _ inv s] doc by (simp add: root_documented_def)
  have "dev \<in> revoked_ids s" using revoked_in_snapshot [OF doc inv r s] by simp
  then obtain r' where f: "find (\<lambda>r. revocation_device_id r = dev) (snapshot_revocations s) = Some r'"
    by (cases "find (\<lambda>r. revocation_device_id r = dev) (snapshot_revocations s)") (auto simp: find_None_iff)
  then have "r' \<in> set (snapshot_revocations s)" "revocation_device_id r' = dev" by (auto simp: find_Some_iff)
  with sn r have r': "r' = r" unfolding snapshot_of_def by (metis option.inject)
  have "certificate_device_id x \<notin> revoked_ids s" using sn x(2) unfolding snapshot_of_def by metis
  with x(1) have act: "active_devices c s \<noteq> []" using active_not_revoked [of x c s] by auto
  from inv obtain n where n: "root_inv_at lib root n n d" by (auto simp: root_inv_def)
  with sn have rev': "snapshot_revision s = n" by (auto simp: root_inv_at_def snapshot_of_def intro: next_is_unique)
  with n c have cn: "list_revision c \<le> n" "snapshot_account_id (list_snapshot c) = root_account_id lib root"
    by (auto simp: root_inv_at_def list_ok_def published_def)
  have rn: "revocation_sequence r < n" using n r by (fastforce simp: root_inv_at_def revocations_ok_def revocation_of_Some)
  have p: "published_device_list lib root d = (Inr c, d)" using c cn(2) by (simp add: published_Inr)
  have e: "revoke_and_publish_device_list lib root dev d = (if list_revision c = n \<and> certificate_for c dev = None then (Inr (r, c), d)
      else then_do (publish_device_list_unlocked lib root (active_devices c s)) (\<lambda>l. pure (Inr (r, l))) d)"
    using act rev' p free
    by (simp add: revoke_and_publish_device_list_def then_do_def ensure_ready [OF inv] s f r' ensure_revoked_def pure_def Let_def
        acquire_authority_write_lock_def)
  show ?thesis
  proof (cases "list_revision c = n")
    case True
    with revoked_not_listed [OF inv r c] rn e show ?thesis by simp
  next
    case False
    with cn have "list_revision c < snapshot_revision s" using rev' by simp
    with republish [OF doc total inv c s act] e False show ?thesis by (auto simp: then_do_def pure_def)
  qed
qed

end
