(* ===== verification/Root_Recovery.thy ===== *)
theory Root_Recovery
  imports Root_History
begin

text \<open>
  The recovery of an Account Root: the directory that \<open>recover\<close> stages from an exported package holds
  the files the package was taken from, so that every check of \<open>recover\<close> passes and the operations
  answer in the new directory what they answered in the old one.
\<close>

section \<open>Writing the staged files\<close>

lemma t_insert_last: "(\<And>e. e \<in> set t \<Longrightarrow> fst e < k) \<Longrightarrow> t_insert k v t = t @ [(k, v)]"
  by (induction t) auto

lemma t_get_last: "(\<And>e. e \<in> set t \<Longrightarrow> fst e < k) \<Longrightarrow> t_get t k = None"
  unfolding t_get_def map_of_eq_None_iff by fastforce

lemma write_new_files_sorted:
  assumes "sorted_wrt (<) (map name xs)" and "\<And>x. x \<in> set xs \<Longrightarrow> \<exists>b. encode x = Inr b"
    and "\<And>x e. x \<in> set xs \<Longrightarrow> e \<in> set t \<Longrightarrow> fst e < name x"
  shows "\<exists>t'. write_new_files name encode xs t = Inr (t @ t')
    \<and> list_all2 (\<lambda>x e. fst e = name x \<and> encode x = Inr (snd e)) xs t'"
  using assms
proof (induction xs arbitrary: t)
  case (Cons x xs)
  obtain b where b: "encode x = Inr b" using Cons.prems(2) [of x] by auto
  have "fst e < name y" if "y \<in> set xs" "e \<in> set (t @ [(name x, b)])" for y e
    using that Cons.prems(1) Cons.prems(3) [of y e] by auto
  with Cons.IH [of "t @ [(name x, b)]"] Cons.prems obtain t' where
    "write_new_files name encode xs (t @ [(name x, b)]) = Inr (t @ (name x, b) # t')"
    "list_all2 (\<lambda>x e. fst e = name x \<and> encode x = Inr (snd e)) xs t'" by auto
  with b Cons.prems(3) [of x] show ?case
    by (intro exI [of _ "(name x, b) # t'"]) (simp add: t_insert_last t_get_last)
qed simp

lemma files_of_sorted:
  assumes "list_all2 (\<lambda>x e. fst e = name x \<and> encode x = Inr (snd e)) xs t" and "sorted_wrt (<) (map name xs)"
  shows "t_valid t" and "t_get t k = Some b \<longleftrightarrow> (\<exists>x \<in> set xs. name x = k \<and> encode x = Inr b)"
proof -
  have m: "map fst t = map name xs" using assms(1) by (induction rule: list_all2_induct) auto
  show v: "t_valid t" using assms(2) by (simp add: t_valid_def m)
  have "(k, b) \<in> set t \<longleftrightarrow> (\<exists>x \<in> set xs. name x = k \<and> encode x = Inr b)"
    using assms(1) by (induction rule: list_all2_induct) (auto simp: prod_eq_iff)
  then show "t_get t k = Some b \<longleftrightarrow> (\<exists>x \<in> set xs. name x = k \<and> encode x = Inr b)"
    using t_get_set [OF v] by simp
qed

section \<open>What an export holds\<close>

lemma package_content_valid: "validate_account_root_recovery_package_content lib c = Inr u \<longleftrightarrow>
    arpc_version c = ACCOUNT_ROOT_RECOVERY_VERSION
    \<and> snapshot_verify lib (arpc_authority_snapshot c) = Inr () \<and> snapshot_account_id (arpc_authority_snapshot c) = arpc_account_id c
    \<and> device_list_verify lib (arpc_device_list c) = Inr () \<and> snapshot_account_id (list_snapshot (arpc_device_list c)) = arpc_account_id c
    \<and> list_revision (arpc_device_list c) = snapshot_revision (arpc_authority_snapshot c)
    \<and> length (arpc_conversation_memberships c) \<le> MAX_ACCOUNT_ROOT_RECOVERY_MEMBERSHIPS
    \<and> (\<forall>m \<in> set (arpc_conversation_memberships c). membership_verify lib m = Inr () \<and> membership_owner m = arpc_account_id c)
    \<and> sorted_wrt (\<lambda>x y. membership_conversation_id x < membership_conversation_id y) (arpc_conversation_memberships c)"
  by (auto simp: validate_account_root_recovery_package_content_def Let_def result_simps snapshot_verify_for_account_iff
      device_list_verify_for_account_iff membership_verify_for_owner_iff)

lemma package_issue_verifies:
  assumes "root_signatures_documented lib" and "package_issue lib root s l ms = Inr p"
  shows "package_verify lib p = Inr () \<and> arp_content p = \<lparr> arpc_version = ACCOUNT_ROOT_RECOVERY_VERSION,
    arpc_account_id = root_account_id lib root, arpc_authority_snapshot = s, arpc_device_list = l, arpc_conversation_memberships = ms \<rparr>"
  using assms by (auto simp: package_issue_def Let_def and_then_Inr intro!: pkg.verify_issued root_signed)

lemma witness_issue_verifies:
  assumes sig: "root_signatures_documented lib" and p: "package_verify lib p = Inr ()" "package_account_id p = root_account_id lib root"
    and w: "witness_issue lib root p = Inr w"
  shows "witness_verify lib w = Inr () \<and> witness_verify_package lib w p = Inr () \<and> arwc_account_id (arw_content w) = root_account_id lib root
    \<and> is_ok (package_id lib p)"
  using assms root_signed [OF sig]
  by (auto simp: witness_issue_def Let_def and_then_Inr witness_verify_def witness_verify_package_def account_id_verify_iff
      result_simps)

lemma export_Inr:
  assumes doc: "root_documented lib" and inv: "root_inv lib root d" and x: "export_recovery lib root d = (Inr (p, w), d')"
  obtains s l ms where "d' = d" and "authority_snapshot lib root d = (Inr s, d)" and "published_device_list lib root d = (Inr l, d)"
    and "root_conversation_memberships lib root d = (Inr ms, d)" and "package_issue lib root s l ms = Inr p"
    and "witness_issue lib root p = Inr w"
proof -
  from x obtain s d1 l d2 ms d3 where s: "authority_snapshot lib root d = (Inr s, d1)" "published_device_list lib root d1 = (Inr l, d2)"
    "root_conversation_memberships lib root d2 = (Inr ms, d3)" "package_issue lib root s l ms = Inr p"
    "witness_issue lib root p = Inr w" "d' = d3"
    by (auto simp: export_recovery_def capture_recovery_unlocked_def result_simps ensure_ready [OF inv])
  moreover have "d1 = d" using snapshot_inv [OF _ inv s(1)] doc by (simp add: root_documented_def)
  moreover have "d2 = d1" "d3 = d2" using s(2,3) by (auto simp: published_device_list_def root_conversation_memberships_def)
  ultimately show ?thesis by (intro that) simp_all
qed

lemma snapshot_reissue:
  assumes doc: "root_documented lib" and inv: "root_inv lib root d" and s: "authority_snapshot lib root d = (Inr s, d)"
  shows "snapshot_issue lib root (snapshot_revision s) (snapshot_revocations s) = Inr s"
proof -
  from inv obtain n where "next_is d n" by (auto simp: root_inv_def root_inv_at_def)
  from s snapshot_eq [OF inv this] obtain rs where i: "snapshot_issue lib root n rs = Inr s" by (auto simp: and_then_Inr)
  with snapshot_issue_verifies [OF _ i] doc show ?thesis by (simp add: root_documented_def)
qed

lemma collect_memberships_all:
  assumes "list_all2 (\<lambda>m e. membership_decode_and_verify lib (snd e) = Inr m) ms t"
    and "\<And>m. m \<in> set ms \<Longrightarrow> membership_verify_for_owner lib m (root_account_id lib root) = Inr ()"
    and "length acc + length ms \<le> MAX_ACCOUNT_ROOT_RECOVERY_MEMBERSHIPS"
  shows "collect_memberships lib root t acc = Inr (acc @ ms)"
  using assms
proof (induction arbitrary: acc rule: list_all2_induct)
  case (Cons m ms e t)
  then show ?case by (cases e) (simp add: Let_def)
qed simp

lemma witness_recorded:
  assumes pc: "root_postcard_documented lib" and e: "witness_encode lib w = Inr b"
  shows "length b \<le> MAX_ACCOUNT_ROOT_RECOVERY_WITNESS_BYTES \<and> witness_decode_and_verify lib b = Inr w"
  using assms
  by (auto simp: witness_encode_def witness_decode_and_verify_def result_simps Let_def strip_prefix_def
      root_postcard_documented_def inverts_def split: if_splits)

section \<open>The staged directory\<close>

definition staged_files :: "'a identity_libs_scheme \<Rightarrow> AccountRootRecoveryPackage \<Rightarrow> bytes table \<Rightarrow> bytes \<Rightarrow> bytes table \<Rightarrow> bool" where
  "staged_files lib p R lb M \<longleftrightarrow>
     list_all2 (\<lambda>r e. fst e = revocation_device_id r \<and> revocation_encode lib r = Inr (snd e))
       (snapshot_revocations (arpc_authority_snapshot (arp_content p))) R
   \<and> device_list_encode lib (arpc_device_list (arp_content p)) = Inr lb
   \<and> list_all2 (\<lambda>m e. fst e = membership_conversation_id m \<and> membership_encode lib m = Inr (snd e))
       (arpc_conversation_memberships (arp_content p)) M"

abbreviation staged_dir :: "AccountRootRecoveryPackage \<Rightarrow> bytes table \<Rightarrow> bytes \<Rightarrow> bytes table \<Rightarrow> bytes \<Rightarrow> root_dir" where
  "staged_dir p R lb M wb \<equiv> create_with_identity\<lparr> next_authority_sequence := Some (number_line (package_authority_revision p)),
     revocation_files := R, device_list_file := Some lb, membership_files := M, recovery_checkpoint := Some wb \<rparr>"

lemma package_orders:
  assumes v: "package_verify lib p = Inr ()"
  shows "sorted_wrt (<) (map revocation_device_id (snapshot_revocations (arpc_authority_snapshot (arp_content p))))"
    and "sorted_wrt (<) (map membership_conversation_id (arpc_conversation_memberships (arp_content p)))"
proof -
  note c = pkg.verified_check [OF v, unfolded package_content_valid]
  then show "sorted_wrt (<) (map membership_conversation_id (arpc_conversation_memberships (arp_content p)))"
    by (simp add: sorted_wrt_map)
  from c have "snapshot_verify lib (arpc_authority_snapshot (arp_content p)) = Inr ()" by simp
  from snap.verified_check [OF this]
  show "sorted_wrt (<) (map revocation_device_id (snapshot_revocations (arpc_authority_snapshot (arp_content p))))"
    by (simp add: snapshot_content_valid sorted_wrt_map)
qed

lemma staging_succeeds:
  assumes total: "root_postcard_total lib" and v: "package_verify lib p = Inr ()" and w: "witness_encode lib w = Inr wb"
  shows "\<exists>R lb M. stage_recovery lib p w = Inr (staged_dir p R lb M wb) \<and> staged_files lib p R lb M"
proof -
  let ?c = "arp_content p"
  note c = pkg.verified_check [OF v, unfolded package_content_valid]
  then have "snapshot_verify lib (arpc_authority_snapshot ?c) = Inr ()" by simp
  note rv = snap.verified_check [OF this, unfolded snapshot_content_valid]
  have "\<exists>b. revocation_encode lib r = Inr b" if "r \<in> set (snapshot_revocations (arpc_authority_snapshot ?c))" for r
    using root_totals(5) [OF total] rv that by simp
  from write_new_files_sorted [where encode = "revocation_encode lib" and t = "[]", OF package_orders(1) [OF v] this] obtain R where
    R: "write_new_files revocation_device_id (revocation_encode lib) (snapshot_revocations (arpc_authority_snapshot ?c)) [] = Inr R"
    "list_all2 (\<lambda>r e. fst e = revocation_device_id r \<and> revocation_encode lib r = Inr (snd e))
       (snapshot_revocations (arpc_authority_snapshot ?c)) R" by auto
  have "\<exists>b. membership_encode lib m = Inr b" if "m \<in> set (arpc_conversation_memberships ?c)" for m
    using root_totals(7) [OF total] c that by simp
  from write_new_files_sorted [where encode = "membership_encode lib" and t = "[]", OF package_orders(2) [OF v] this] obtain M where
    M: "write_new_files membership_conversation_id (membership_encode lib) (arpc_conversation_memberships ?c) [] = Inr M"
    "list_all2 (\<lambda>m e. fst e = membership_conversation_id m \<and> membership_encode lib m = Inr (snd e)) (arpc_conversation_memberships ?c) M"
    by auto
  obtain lb where "device_list_encode lib (arpc_device_list ?c) = Inr lb" using root_totals(6) [OF total] c by blast
  with R M w show ?thesis
    by (intro exI [of _ R] exI [of _ lb] exI [of _ M]) (simp add: stage_recovery_def Let_def staged_files_def)
qed

lemma staged_decodes:
  assumes pc: "root_postcard_documented lib" and f: "staged_files lib p R lb M"
  shows "list_all2 (\<lambda>r e. revocation_decode_and_verify lib (snd e) = Inr r) (snapshot_revocations (arpc_authority_snapshot (arp_content p))) R"
    and "device_list_decode_and_verify lib lb = Inr (arpc_device_list (arp_content p))"
    and "list_all2 (\<lambda>m e. membership_decode_and_verify lib (snd e) = Inr m) (arpc_conversation_memberships (arp_content p)) M"
proof -
  have inverse: "inverts (pc_revocation lib) (pc_revocation_from lib)" "inverts (pc_device_list lib) (pc_device_list_from lib)"
    "inverts (pc_membership lib) (pc_membership_from lib)"
    using pc by (simp_all add: root_postcard_documented_def)
  show "list_all2 (\<lambda>r e. revocation_decode_and_verify lib (snd e) = Inr r) (snapshot_revocations (arpc_authority_snapshot (arp_content p))) R"
    using f inverse(1) unfolding staged_files_def
    by (auto elim!: list_all2_mono intro: revo.decode_encode simp: inverts_def)
  show "device_list_decode_and_verify lib lb = Inr (arpc_device_list (arp_content p))"
    using f inverse(2) unfolding staged_files_def by (auto intro: dlist.decode_encode simp: inverts_def)
  show "list_all2 (\<lambda>m e. membership_decode_and_verify lib (snd e) = Inr m) (arpc_conversation_memberships (arp_content p)) M"
    using f inverse(3) unfolding staged_files_def
    by (auto elim!: list_all2_mono intro: memb.decode_encode simp: inverts_def)
qed

lemma staged_revocations:
  assumes pc: "root_postcard_documented lib" and v: "package_verify lib p = Inr ()" and f: "staged_files lib p R lb M"
    and b: "t_get R dev = Some b"
  shows "\<exists>r \<in> set (snapshot_revocations (arpc_authority_snapshot (arp_content p))). revocation_device_id r = dev
    \<and> revocation_decode_and_verify lib b = Inr r"
proof -
  have files: "list_all2 (\<lambda>r e. fst e = revocation_device_id r \<and> revocation_encode lib r = Inr (snd e))
      (snapshot_revocations (arpc_authority_snapshot (arp_content p))) R"
    using f by (simp add: staged_files_def)
  from b obtain r where r: "r \<in> set (snapshot_revocations (arpc_authority_snapshot (arp_content p)))" "revocation_device_id r = dev"
    "revocation_encode lib r = Inr b"
    using files_of_sorted(2) [OF files package_orders(1) [OF v]] by blast
  with revo.decode_encode [OF r(3)] pc show ?thesis by (auto simp: root_postcard_documented_def inverts_def)
qed

lemma staged_memberships:
  assumes pc: "root_postcard_documented lib" and v: "package_verify lib p = Inr ()" and f: "staged_files lib p R lb M"
    and b: "t_get M conv = Some b"
  shows "\<exists>m \<in> set (arpc_conversation_memberships (arp_content p)). membership_conversation_id m = conv
    \<and> membership_decode_and_verify lib b = Inr m"
proof -
  have files: "list_all2 (\<lambda>m e. fst e = membership_conversation_id m \<and> membership_encode lib m = Inr (snd e))
      (arpc_conversation_memberships (arp_content p)) M"
    using f by (simp add: staged_files_def)
  from b obtain m where m: "m \<in> set (arpc_conversation_memberships (arp_content p))" "membership_conversation_id m = conv"
    "membership_encode lib m = Inr b"
    using files_of_sorted(2) [OF files package_orders(2) [OF v]] by blast
  with memb.decode_encode [OF m(3)] pc show ?thesis by (auto simp: root_postcard_documented_def inverts_def)
qed

text \<open>The package was taken from a directory in the invariant, so the staged directory is in it too.\<close>

lemma staged_inv:
  assumes doc: "root_documented lib" and inv: "root_inv lib root d" and s: "authority_snapshot lib root d = (Inr s, d)"
    and l: "published_device_list lib root d = (Inr l, d)" and p: "package_issue lib root s l ms = Inr p"
    and f: "staged_files lib p R lb M"
  shows "root_inv lib root (staged_dir p R lb M wb)"
proof -
  from doc have sig: "root_signatures_documented lib" and pc: "root_postcard_documented lib" by (simp_all add: root_documented_def)
  have v: "package_verify lib p = Inr ()" and c: "arp_content p = \<lparr> arpc_version = ACCOUNT_ROOT_RECOVERY_VERSION,
      arpc_account_id = root_account_id lib root, arpc_authority_snapshot = s, arpc_device_list = l, arpc_conversation_memberships = ms \<rparr>"
    using package_issue_verifies [OF sig p] by simp_all
  note ck = pkg.verified_check [OF v, unfolded package_content_valid]
  have sn: "snapshot_of lib root s d" using snapshot_inv [OF sig inv s] by simp
  then have rv: "\<forall>r \<in> set (snapshot_revocations s). rvc_account_id (rv_content r) = root_account_id lib root
      \<and> revocation_sequence r < snapshot_revision s"
    using snap.verified_check [of lib s] by (auto simp: snapshot_of_def snapshot_content_valid)
  have rok: "revocations_ok lib root (snapshot_revision s) (staged_dir p R lb M wb)"
    unfolding revocations_ok_def
    using staged_revocations [OF pc v f] rv files_of_sorted(1) [OF _ package_orders(1) [OF v]] f c by (fastforce simp: staged_files_def)
  have mok: "memberships_ok lib root (staged_dir p R lb M wb)"
    unfolding memberships_ok_def
    using staged_memberships [OF pc v f] ck files_of_sorted(1) [OF _ package_orders(2) [OF v]] f c by (fastforce simp: staged_files_def)
  have keys: "t_get R dev \<noteq> None \<longleftrightarrow> dev \<in> revoked_ids s" for dev
  proof -
    have "map fst R = map revocation_device_id (snapshot_revocations s)"
      using f c unfolding staged_files_def by (auto simp: list_all2_conv_all_nth intro: nth_equalityI)
    then have "fst ` set R = revoked_ids s" by (metis set_map)
    then show ?thesis unfolding t_get_def by (metis map_of_eq_None_iff)
  qed
  from inv obtain n where n: "root_inv_at lib root n n d" by (auto simp: root_inv_def)
  with sn have ns: "snapshot_revision s = n" by (auto simp: root_inv_at_def snapshot_of_def intro: next_is_unique)
  have "list_accounts_for lib d l"
    using n l by (auto simp: published_Inr published_def root_inv_at_def list_ok_def)
  then have acc: "list_accounts_for lib (staged_dir p R lb M wb) l"
    using revocation_of_ok [OF rok] revocation_of_ok [of lib root n d] n ck c ns sn keys
    unfolding list_accounts_for_def root_inv_at_def snapshot_of_def by simp
  have "root_inv_at lib root n n (staged_dir p R lb M wb)"
    using rok mok acc ns c ck staged_decodes(2) [OF pc f]
    by (simp add: root_inv_at_def list_ok_def log_ready_def next_is_def create_with_identity_def)
  then show ?thesis by (auto simp: root_inv_def)
qed

section \<open>The round trip\<close>

text \<open>The reads in the staged directory give what the package holds.\<close>

lemma staged_reads:
  assumes doc: "root_documented lib" and inv: "root_inv lib root d" and s: "authority_snapshot lib root d = (Inr s, d)"
    and l: "published_device_list lib root d = (Inr l, d)" and p: "package_issue lib root s l ms = Inr p"
    and f: "staged_files lib p R lb M"
  shows "authority_snapshot lib root (staged_dir p R lb M wb) = (Inr s, staged_dir p R lb M wb)"
    and "published_device_list lib root (staged_dir p R lb M wb) = (Inr l, staged_dir p R lb M wb)"
    and "root_conversation_memberships lib root (staged_dir p R lb M wb) = (Inr ms, staged_dir p R lb M wb)"
    and "read_next_authority_sequence (staged_dir p R lb M wb) = (Inr (snapshot_revision s), staged_dir p R lb M wb)"
proof -
  let ?D = "staged_dir p R lb M wb"
  from doc have sig: "root_signatures_documented lib" and pc: "root_postcard_documented lib" by (simp_all add: root_documented_def)
  have v: "package_verify lib p = Inr ()" and c: "arp_content p = \<lparr> arpc_version = ACCOUNT_ROOT_RECOVERY_VERSION,
      arpc_account_id = root_account_id lib root, arpc_authority_snapshot = s, arpc_device_list = l, arpc_conversation_memberships = ms \<rparr>"
    using package_issue_verifies [OF sig p] by simp_all
  note ck = pkg.verified_check [OF v, unfolded package_content_valid] and ord = package_orders [OF v] and dec = staged_decodes [OF pc f]
  have invD: "root_inv lib root ?D" by (rule staged_inv [OF doc inv s l p f])
  have nx: "next_is ?D (snapshot_revision s)" by (simp add: next_is_def c)
  show "read_next_authority_sequence ?D = (Inr (snapshot_revision s), ?D)" by (rule read_next [OF nx])
  have "try_map (\<lambda>(_, bytes). revocation_decode_and_verify lib bytes) R = Inr (snapshot_revocations s)"
    using dec(1) c by (simp add: try_map_all2 split_beta list_all2_conv_all_nth)
  moreover have "sort_key revocation_device_id (snapshot_revocations s) = snapshot_revocations s"
    using ord(1) c by (intro sort_key_id_if_sorted) (simp add: strict_sorted_iff)
  ultimately show "authority_snapshot lib root ?D = (Inr s, ?D)"
    using snapshot_reissue [OF doc inv s] by (simp add: snapshot_eq [OF invD nx])
  show "published_device_list lib root ?D = (Inr l, ?D)"
    using dec(2) ck c by (simp add: published_Inr published_def)
  have "collect_memberships lib root M [] = Inr ms"
    using collect_memberships_all [OF dec(3), of root "[]"] ck c by (simp add: membership_verify_for_owner_iff)
  moreover have "sort_key membership_conversation_id ms = ms"
    using ord(2) c by (intro sort_key_id_if_sorted) (simp add: strict_sorted_iff)
  ultimately show "root_conversation_memberships lib root ?D = (Inr ms, ?D)" by (simp add: root_conversation_memberships_def)
qed

lemma checkpoint_current:
  assumes inv: "root_inv lib root d" and free: "\<not> locked_elsewhere d"
    and c: "capture_recovery_unlocked lib root d = (Inr (p, w), d)" and r: "recorded_witness lib d = Inr (Some w)"
    and w: "witness_verify_package lib w p = Inr ()" "arwc_account_id (arw_content w) = root_account_id lib root" "is_ok (package_id lib p)"
  shows "\<exists>st. fst (recovery_checkpoint_status lib root d) = Inr st \<and> cps_state st = Current"
proof -
  from w(3) obtain i where "package_id lib p = Inr i" by (auto simp: is_ok_iff)
  then show ?thesis using free c r w(1,2)
    by (simp add: recovery_checkpoint_status_def then_do_def pure_def ensure_ready [OF inv] acquire_authority_write_lock_def ensure_def)
qed

lemma recover_exported:
  assumes doc: "root_documented lib" and total: "root_postcard_total lib" and inv: "root_inv lib root d"
    and x: "export_recovery lib root d = (Inr (p, w), d')" and wb: "witness_encode lib w = Inr wb"
  shows "\<exists>d2. recover lib root p w = Inr d2 \<and> root_inv lib root d2
    \<and> fst (authority_snapshot lib root d2) = fst (authority_snapshot lib root d)
    \<and> fst (published_device_list lib root d2) = fst (published_device_list lib root d)
    \<and> fst (root_conversation_memberships lib root d2) = fst (root_conversation_memberships lib root d)
    \<and> fst (read_next_authority_sequence d2) = fst (read_next_authority_sequence d)"
proof -
  from doc have sig: "root_signatures_documented lib" and pc: "root_postcard_documented lib" by (simp_all add: root_documented_def)
  obtain s l ms where e: "authority_snapshot lib root d = (Inr s, d)" "published_device_list lib root d = (Inr l, d)"
    "root_conversation_memberships lib root d = (Inr ms, d)" "package_issue lib root s l ms = Inr p" "witness_issue lib root p = Inr w"
    by (rule export_Inr [OF doc inv x])
  have v: "package_verify lib p = Inr ()" and c: "arp_content p = \<lparr> arpc_version = ACCOUNT_ROOT_RECOVERY_VERSION,
      arpc_account_id = root_account_id lib root, arpc_authority_snapshot = s, arpc_device_list = l, arpc_conversation_memberships = ms \<rparr>"
    using package_issue_verifies [OF sig e(4)] by simp_all
  have w: "witness_verify_package lib w p = Inr ()" "arwc_account_id (arw_content w) = root_account_id lib root" "is_ok (package_id lib p)"
    using witness_issue_verifies [OF sig v _ e(5)] c by simp_all
  obtain R lb M where st: "stage_recovery lib p w = Inr (staged_dir p R lb M wb)" and f: "staged_files lib p R lb M"
    using staging_succeeds [OF total v wb] by blast
  let ?D = "staged_dir p R lb M wb"
  note reads = staged_reads [OF doc inv e(1,2,4) f, of wb]
  have invD: "root_inv lib root ?D" by (rule staged_inv [OF doc inv e(1,2,4) f])
  have "recorded_witness lib ?D = Inr (Some w)" using witness_recorded [OF pc wb] by (simp add: recorded_witness_def)
  moreover have "capture_recovery_unlocked lib root ?D = (Inr (p, w), ?D)"
    using reads e(4,5) by (simp add: capture_recovery_unlocked_def then_do_def pure_def)
  ultimately have "\<exists>st. fst (recovery_checkpoint_status lib root ?D) = Inr st \<and> cps_state st = Current"
    using w by (intro checkpoint_current [OF invD]) (simp_all add: create_with_identity_def)
  then have "recover lib root p w = Inr ?D"
    using v w(1) c st reads by (auto simp: recover_def Let_def ensure_def)
  moreover have "snapshot_of lib root s d" using snapshot_inv [OF sig inv e(1)] by simp
  then have "read_next_authority_sequence d = (Inr (snapshot_revision s), d)" by (intro read_next) (simp add: snapshot_of_def)
  ultimately show ?thesis using invD reads e by (intro exI [of _ ?D]) simp
qed

end
