(* ===== verification/Root_Sample.thy ===== *)
theory Root_Sample
  imports Root_Invariant Framing
begin

text \<open>
  An instance of the libraries of the identity crate, with which the properties of the Account Root are
  exercised: postcard is the total serialisation of \<open>Framing\<close>, signatures name the key and the length
  of the message, and a public key is its padded secret.
\<close>

definition cap_field :: "DeviceCapability \<Rightarrow> bytes" where
  "cap_field c = (case c of CapSignEvents \<Rightarrow> [0] | CapSyncHistory \<Rightarrow> [1])"

definition cap_of :: "bytes \<Rightarrow> DeviceCapability option" where
  "cap_of b = (if b = [0] then Some CapSignEvents else if b = [1] then Some CapSyncHistory else None)"

lemma cap_of [simp]: "cap_of (cap_field c) = Some c"
  by (cases c) (simp_all add: cap_of_def cap_field_def)

definition certificate_content_bytes :: "DeviceCertificateContent \<Rightarrow> bytes" where
  "certificate_content_bytes c = pack [field_of_word (dcc_version c), dcc_account_id c, dcc_device_id c, dcc_encryption_public_key c,
     field_of_word (dcc_authority_sequence c), pack_list cap_field (dcc_capabilities c)]"

fun certificate_content_of :: "bytes list \<Rightarrow> DeviceCertificateContent option" where
  "certificate_content_of [v, a, d, k, n, cs] = map_option (\<lambda>cs. \<lparr> dcc_version = word_of_field v, dcc_account_id = a, dcc_device_id = d,
     dcc_encryption_public_key = k, dcc_authority_sequence = word_of_field n, dcc_capabilities = cs \<rparr>) (unpack_list cap_of cs)"
| "certificate_content_of _ = None"

text \<open>A signed object is the pair of its content and its signature.\<close>

definition signed_bytes :: "('c \<Rightarrow> bytes) \<Rightarrow> 'c \<Rightarrow> bytes \<Rightarrow> bytes" where
  "signed_bytes enc c s = pack [enc c, s]"

definition signed_of :: "(bytes \<Rightarrow> 'c option) \<Rightarrow> ('c \<Rightarrow> bytes \<Rightarrow> 'o) \<Rightarrow> bytes \<Rightarrow> 'o option" where
  "signed_of dec mk b = Option.bind (unpack [] b) (\<lambda>fs. case fs of [c, s] \<Rightarrow> map_option (\<lambda>c. mk c s) (dec c) | _ \<Rightarrow> None)"

lemma signed_of [simp]: "dec (enc c) = Some c \<Longrightarrow> signed_of dec mk (signed_bytes enc c s) = Some (mk c s)"
  by (simp add: signed_of_def signed_bytes_def)

definition certificate_bytes :: "DeviceCertificate \<Rightarrow> bytes" where
  "certificate_bytes x = signed_bytes certificate_content_bytes (dc_content x) (dc_signature x)"

definition certificate_of :: "bytes \<Rightarrow> DeviceCertificate option" where
  "certificate_of = signed_of (unpack_struct certificate_content_of) (\<lambda>c s. \<lparr> dc_content = c, dc_signature = s \<rparr>)"

definition revocation_content_bytes :: "DeviceRevocationContent \<Rightarrow> bytes" where
  "revocation_content_bytes c = pack [field_of_word (rvc_version c), rvc_account_id c, rvc_device_id c, field_of_word (rvc_authority_sequence c)]"

fun revocation_content_of :: "bytes list \<Rightarrow> DeviceRevocationContent option" where
  "revocation_content_of [v, a, d, n] = Some \<lparr> rvc_version = word_of_field v, rvc_account_id = a, rvc_device_id = d,
     rvc_authority_sequence = word_of_field n \<rparr>"
| "revocation_content_of _ = None"

definition revocation_bytes :: "DeviceRevocation \<Rightarrow> bytes" where
  "revocation_bytes x = signed_bytes revocation_content_bytes (rv_content x) (rv_signature x)"

definition revocation_from :: "bytes \<Rightarrow> DeviceRevocation option" where
  "revocation_from = signed_of (unpack_struct revocation_content_of) (\<lambda>c s. \<lparr> rv_content = c, rv_signature = s \<rparr>)"

definition snapshot_content_bytes :: "AccountAuthoritySnapshotContent \<Rightarrow> bytes" where
  "snapshot_content_bytes c = pack [field_of_word (aasc_version c), aasc_account_id c, field_of_word (aasc_revision c),
     pack_list revocation_bytes (aasc_revocations c)]"

fun snapshot_content_of :: "bytes list \<Rightarrow> AccountAuthoritySnapshotContent option" where
  "snapshot_content_of [v, a, n, rs] = map_option (\<lambda>rs. \<lparr> aasc_version = word_of_field v, aasc_account_id = a,
     aasc_revision = word_of_field n, aasc_revocations = rs \<rparr>) (unpack_list revocation_from rs)"
| "snapshot_content_of _ = None"

definition snapshot_bytes :: "AccountAuthoritySnapshot \<Rightarrow> bytes" where
  "snapshot_bytes x = signed_bytes snapshot_content_bytes (aas_content x) (aas_signature x)"

definition snapshot_from :: "bytes \<Rightarrow> AccountAuthoritySnapshot option" where
  "snapshot_from = signed_of (unpack_struct snapshot_content_of) (\<lambda>c s. \<lparr> aas_content = c, aas_signature = s \<rparr>)"

definition device_list_content_bytes :: "AccountDeviceListSnapshotContent \<Rightarrow> bytes" where
  "device_list_content_bytes c = pack [field_of_word (adlc_version c), snapshot_bytes (adlc_authority_snapshot c),
     pack_list certificate_bytes (adlc_devices c)]"

fun device_list_content_of :: "bytes list \<Rightarrow> AccountDeviceListSnapshotContent option" where
  "device_list_content_of [v, s, ds] = Option.bind (snapshot_from s) (\<lambda>s. map_option (\<lambda>ds. \<lparr> adlc_version = word_of_field v,
     adlc_authority_snapshot = s, adlc_devices = ds \<rparr>) (unpack_list certificate_of ds))"
| "device_list_content_of _ = None"

definition device_list_bytes :: "AccountDeviceListSnapshot \<Rightarrow> bytes" where
  "device_list_bytes x = signed_bytes device_list_content_bytes (adl_content x) (adl_signature x)"

definition device_list_from :: "bytes \<Rightarrow> AccountDeviceListSnapshot option" where
  "device_list_from = signed_of (unpack_struct device_list_content_of) (\<lambda>c s. \<lparr> adl_content = c, adl_signature = s \<rparr>)"

definition membership_content_bytes :: "ConversationMembershipSnapshotContent \<Rightarrow> bytes" where
  "membership_content_bytes c = pack [field_of_word (cmsc_version c), cmsc_conversation_id c, field_of_word (cmsc_revision c),
     cmsc_owner_account_id c, pack (cmsc_members c)]"

fun membership_content_of :: "bytes list \<Rightarrow> ConversationMembershipSnapshotContent option" where
  "membership_content_of [v, c, n, w, ms] = map_option (\<lambda>ms. \<lparr> cmsc_version = word_of_field v, cmsc_conversation_id = c,
     cmsc_revision = word_of_field n, cmsc_owner_account_id = w, cmsc_members = ms \<rparr>) (unpack [] ms)"
| "membership_content_of _ = None"

definition membership_bytes :: "ConversationMembershipSnapshot \<Rightarrow> bytes" where
  "membership_bytes x = signed_bytes membership_content_bytes (cms_content x) (cms_signature x)"

definition membership_from :: "bytes \<Rightarrow> ConversationMembershipSnapshot option" where
  "membership_from = signed_of (unpack_struct membership_content_of) (\<lambda>c s. \<lparr> cms_content = c, cms_signature = s \<rparr>)"

definition package_content_bytes :: "AccountRootRecoveryPackageContent \<Rightarrow> bytes" where
  "package_content_bytes c = pack [field_of_word (arpc_version c), arpc_account_id c, snapshot_bytes (arpc_authority_snapshot c),
     device_list_bytes (arpc_device_list c), pack_list membership_bytes (arpc_conversation_memberships c)]"

fun package_content_of :: "bytes list \<Rightarrow> AccountRootRecoveryPackageContent option" where
  "package_content_of [v, a, s, l, ms] = Option.bind (snapshot_from s) (\<lambda>s. Option.bind (device_list_from l) (\<lambda>l.
     map_option (\<lambda>ms. \<lparr> arpc_version = word_of_field v, arpc_account_id = a, arpc_authority_snapshot = s, arpc_device_list = l,
       arpc_conversation_memberships = ms \<rparr>) (unpack_list membership_from ms)))"
| "package_content_of _ = None"

definition package_bytes :: "AccountRootRecoveryPackage \<Rightarrow> bytes" where
  "package_bytes x = signed_bytes package_content_bytes (arp_content x) (arp_signature x)"

definition package_from :: "bytes \<Rightarrow> AccountRootRecoveryPackage option" where
  "package_from = signed_of (unpack_struct package_content_of) (\<lambda>c s. \<lparr> arp_content = c, arp_signature = s \<rparr>)"

definition witness_content_bytes :: "AccountRootRecoveryWitnessContent \<Rightarrow> bytes" where
  "witness_content_bytes c = pack [field_of_word (arwc_version c), arwc_account_id c, field_of_word (arwc_authority_revision c), arwc_package_id c]"

fun witness_content_of :: "bytes list \<Rightarrow> AccountRootRecoveryWitnessContent option" where
  "witness_content_of [v, a, n, p] = Some \<lparr> arwc_version = word_of_field v, arwc_account_id = a,
     arwc_authority_revision = word_of_field n, arwc_package_id = p \<rparr>"
| "witness_content_of _ = None"

definition witness_bytes :: "AccountRootRecoveryWitness \<Rightarrow> bytes" where
  "witness_bytes x = signed_bytes witness_content_bytes (arw_content x) (arw_signature x)"

definition witness_from :: "bytes \<Rightarrow> AccountRootRecoveryWitness option" where
  "witness_from = signed_of (unpack_struct witness_content_of) (\<lambda>c s. \<lparr> arw_content = c, arw_signature = s \<rparr>)"

lemma sample_decodes [simp]:
  "certificate_of (certificate_bytes c) = Some c" "revocation_from (revocation_bytes r) = Some r"
  "snapshot_from (snapshot_bytes s) = Some s" "device_list_from (device_list_bytes l) = Some l"
  "membership_from (membership_bytes m) = Some m" "package_from (package_bytes p) = Some p"
  "witness_from (witness_bytes w) = Some w"
proof -
  show cert: "certificate_of (certificate_bytes c) = Some c" for c
    by (simp add: certificate_of_def certificate_bytes_def certificate_content_bytes_def unpack_list)
  show revo: "revocation_from (revocation_bytes r) = Some r" for r
    by (simp add: revocation_from_def revocation_bytes_def revocation_content_bytes_def)
  show snap: "snapshot_from (snapshot_bytes s) = Some s" for s
    by (simp add: snapshot_from_def snapshot_bytes_def snapshot_content_bytes_def unpack_list revo)
  show dl: "device_list_from (device_list_bytes l) = Some l" for l
    by (simp add: device_list_from_def device_list_bytes_def device_list_content_bytes_def unpack_list snap cert)
  show memb: "membership_from (membership_bytes m) = Some m" for m
    by (simp add: membership_from_def membership_bytes_def membership_content_bytes_def)
  show "package_from (package_bytes p) = Some p"
    by (simp add: package_from_def package_bytes_def package_content_bytes_def unpack_list snap dl memb)
  show "witness_from (witness_bytes w) = Some w"
    by (simp add: witness_from_def witness_bytes_def witness_content_bytes_def)
qed

definition sample_key :: "bytes \<Rightarrow> bytes" where
  "sample_key secret = take 32 (secret @ replicate 32 0)"

definition sample_identity_libs_with :: "'a \<Rightarrow> 'a identity_libs_scheme" where
  "sample_identity_libs_with extra = \<lparr> id_ed = toy_ed25519, id_verifying_key = sample_key, id_sign = (\<lambda>secret. toy_sign (sample_key secret)),
     id_derive_key = (\<lambda>context m. take 32 (rev m @ replicate 32 0)),
     pc_certificate_content = Some \<circ> certificate_content_bytes, pc_certificate = Some \<circ> certificate_bytes, pc_certificate_from = certificate_of,
     pc_revocation_content = Some \<circ> revocation_content_bytes, pc_revocation = Some \<circ> revocation_bytes, pc_revocation_from = revocation_from,
     pc_snapshot_content = Some \<circ> snapshot_content_bytes, pc_snapshot = Some \<circ> snapshot_bytes, pc_snapshot_from = snapshot_from,
     pc_device_list_content = Some \<circ> device_list_content_bytes, pc_device_list = Some \<circ> device_list_bytes, pc_device_list_from = device_list_from,
     pc_membership_content = Some \<circ> membership_content_bytes, pc_membership = Some \<circ> membership_bytes, pc_membership_from = membership_from,
     pc_package_content = Some \<circ> package_content_bytes, pc_package = Some \<circ> package_bytes, pc_package_from = package_from,
     pc_witness_content = Some \<circ> witness_content_bytes, pc_witness = Some \<circ> witness_bytes, pc_witness_from = witness_from, \<dots> = extra \<rparr>"

lemma length_sample_key [simp]: "length (sample_key secret) = 32"
  by (simp add: sample_key_def)

lemma sample_root_documented: "root_documented (sample_identity_libs_with x)"
  by (simp add: root_documented_def root_signatures_documented_def root_postcard_documented_def inverts_def sample_identity_libs_with_def)

end
