(* ===== verification/Root_Run.thy ===== *)
theory Root_Run
  imports Root_Recovery Root_Sample
begin

text \<open>
  A run of the Account Root on the sample libraries: two Devices are certified and published, then one
  is revoked without publishing the list again. Its states are the examples of the properties.
\<close>

abbreviation sample_ids :: identity_libs where
  "sample_ids \<equiv> sample_identity_libs_with ()"

definition sample_first :: "(identity_error + DeviceCertificate) \<times> root_dir" where
  "sample_first = issue_device_certificate sample_ids [7] [1] [9] MESSAGING create_with_identity"

definition sample_second :: "(identity_error + DeviceCertificate) \<times> root_dir" where
  "sample_second = issue_device_certificate sample_ids [7] [2] [9] MESSAGING (snd sample_first)"

definition sample_published :: root_dir where
  "sample_published = snd (publish_device_list sample_ids [7] [projr (fst sample_first), projr (fst sample_second)] (snd sample_second))"

definition sample_revoked :: root_dir where
  "sample_revoked = snd (revoke_device sample_ids [7] [1] sample_published)"

lemma sample_total: "root_postcard_total sample_ids"
  by (simp add: root_postcard_total_def total_def sample_identity_libs_with_def)

lemma sample_sig: "root_signatures_documented sample_ids" "root_postcard_documented sample_ids"
  using sample_root_documented [of "()"] by (simp_all add: root_documented_def)

lemma create_fields [simp]:
  "revocation_files create_with_identity = []" "membership_files create_with_identity = []" "device_list_file create_with_identity = None"
  "\<not> locked_elsewhere create_with_identity" "next_authority_sequence create_with_identity = None"
  by (simp_all add: create_with_identity_def)

lemma messaging_valid: "validate_requested_capabilities MESSAGING = Inr () \<and> distinct MESSAGING"
  by code_simp

lemma sample_steps:
  "root_reachable sample_ids [7] (snd sample_first)" "root_reachable sample_ids [7] (snd sample_second)"
  "root_reachable sample_ids [7] sample_published" "root_reachable sample_ids [7] sample_revoked"
proof -
  show 1: "root_reachable sample_ids [7] (snd sample_first)"
    unfolding sample_first_def by (rule r_into_rtranclp) (rule step_issue)
  show 2: "root_reachable sample_ids [7] (snd sample_second)"
    unfolding sample_second_def using 1 by (rule rtranclp.rtrancl_into_rtrancl) (rule step_issue)
  show 3: "root_reachable sample_ids [7] sample_published"
    unfolding sample_published_def using 2 by (rule rtranclp.rtrancl_into_rtrancl) (rule step_publish)
  show "root_reachable sample_ids [7] sample_revoked"
    unfolding sample_revoked_def using 3 by (rule rtranclp.rtrancl_into_rtrancl) (rule step_revoke)
qed

lemmas sample_inv = reachable_root_inv [OF sample_root_documented, of "()" "[7]"]

lemma sample_certificates:
  obtains c1 c2 where "certificate_issue sample_ids [7] [1] [9] 0 MESSAGING = Inr c1" "certificate_issue sample_ids [7] [2] [9] 1 MESSAGING = Inr c2"
    "sample_first = (Inr c1, create_with_identity\<lparr> next_authority_sequence := Some (number_line 1) \<rparr>)"
    "sample_second = (Inr c2, create_with_identity\<lparr> next_authority_sequence := Some (number_line 2) \<rparr>)"
proof -
  have n: "next_is create_with_identity 0" by (simp add: next_is_def)
  obtain c1 where c1: "certificate_issue sample_ids [7] [1] [9] 0 MESSAGING = Inr c1"
    "sample_first = (Inr c1, create_with_identity\<lparr> next_authority_sequence := Some (number_line 1) \<rparr>)"
    using issue_total [OF sample_total root_inv_create [of sample_ids "[7]"] n, of 1 MESSAGING "[1]" "[9]"] messaging_valid
    by (auto simp: sample_first_def u64_checked_add_def)
  have n2: "next_is (snd sample_first) 1" by (simp add: c1(2) next_is_def)
  obtain c2 where c2: "certificate_issue sample_ids [7] [2] [9] 1 MESSAGING = Inr c2"
    "sample_second = (Inr c2, create_with_identity\<lparr> next_authority_sequence := Some (number_line 2) \<rparr>)"
    using issue_total [OF sample_total sample_inv [OF sample_steps(1)] n2, of 2 MESSAGING "[2]" "[9]"] messaging_valid
    by (auto simp: sample_second_def c1(2) u64_checked_add_def)
  show ?thesis by (rule that [OF c1(1) c2(1) c1(2) c2(2)])
qed

lemma sample_list:
  obtains c1 c2 l s where "certificate_issue sample_ids [7] [1] [9] 0 MESSAGING = Inr c1" "certificate_issue sample_ids [7] [2] [9] 1 MESSAGING = Inr c2"
    and "snapshot_issue sample_ids [7] 2 [] = Inr s" and "published sample_ids l sample_published" and "list_snapshot l = s"
    and "list_devices l = [c1, c2]" and "snapshot_account_id s = root_account_id sample_ids [7]"
    and "sample_published = create_with_identity\<lparr> next_authority_sequence := Some (number_line 2), device_list_file := device_list_file sample_published \<rparr>"
    and "device_list_issue sample_ids [7] s [c1, c2] = Inr l"
proof -
  obtain c1 c2 where c: "certificate_issue sample_ids [7] [1] [9] 0 MESSAGING = Inr c1" "certificate_issue sample_ids [7] [2] [9] 1 MESSAGING = Inr c2"
    "sample_first = (Inr c1, create_with_identity\<lparr> next_authority_sequence := Some (number_line 1) \<rparr>)"
    "sample_second = (Inr c2, create_with_identity\<lparr> next_authority_sequence := Some (number_line 2) \<rparr>)" by (rule sample_certificates)
  let ?d = "create_with_identity\<lparr> next_authority_sequence := Some (number_line 2) \<rparr>"
  have inv: "root_inv sample_ids [7] ?d" using sample_inv [OF sample_steps(2)] unfolding c(4) snd_conv .
  have n: "next_is ?d 2" by (simp add: next_is_def)
  obtain s where s: "authority_snapshot sample_ids [7] ?d = (Inr s, ?d)" using snapshot_total [OF sample_total inv] ..
  then have si: "snapshot_issue sample_ids [7] 2 [] = Inr s" by (simp add: snapshot_eq [OF inv n])
  note sv = snapshot_issue_verifies [OF sample_sig(1) si] and c1v = certificate_issue_verifies [OF sample_sig(1) c(1)]
    and c2v = certificate_issue_verifies [OF sample_sig(1) c(2)]
  have "\<exists>l b. publish_device_list_unlocked sample_ids [7] [c1, c2] ?d = (Inr l, ?d\<lparr> device_list_file := Some b \<rparr>)"
  proof (rule publish_total [OF sample_root_documented sample_total inv s])
    show "is_ok (verify_device_authorization_with_snapshot sample_ids (root_account_id sample_ids [7]) x s MESSAGING)"
      if "x \<in> set [c1, c2]" for x
      using that sv c1v c2v by (auto simp: is_ok_iff authorization_iff)
  qed (use c1v c2v in \<open>auto simp: MAX_ACCOUNT_DEVICES_def published_def\<close>)
  then obtain l b where p: "publish_device_list_unlocked sample_ids [7] [c1, c2] ?d = (Inr l, ?d\<lparr> device_list_file := Some b \<rparr>)" by blast
  have pub: "sample_published = ?d\<lparr> device_list_file := Some b \<rparr>"
    using p by (simp add: sample_published_def c publish_device_list_def then_do_def ensure_ready [OF inv] acquire_authority_write_lock_def)
  from p s obtain li where li: "device_list_issue sample_ids [7] s [c1, c2] = Inr li" "li = l"
    by (auto simp: publish_device_list_unlocked_def result_simps replace_device_list_def split: option.splits)
  from triple_Inr [OF t_publish_unlocked [OF sample_sig] inv p] have "published_current sample_ids [7] [c1, c2] l sample_published"
    by (simp add: pub)
  then have "published sample_ids l sample_published" by (simp add: published_current_def)
  moreover have "list_snapshot l = s" "list_devices l = [c1, c2]"
    using device_list_issue_verifies [OF sample_sig(1) li(1)] li(2) c1v c2v by simp_all
  moreover have "sample_published = ?d\<lparr> device_list_file := device_list_file sample_published \<rparr>" unfolding pub by simp
  ultimately show ?thesis using sv li by (intro that [OF c(1,2) si]) simp_all
qed

lemma sample_revocation:
  obtains r l x where "revoke_device sample_ids [7] [1] sample_published = (Inr r, sample_revoked)"
    and "revocation_of sample_ids sample_revoked [1] = Some r" and "published sample_ids l sample_revoked"
    and "x \<in> set (list_devices l)" and "t_get (revocation_files sample_revoked) (certificate_device_id x) = None"
    and "\<not> locked_elsewhere sample_revoked"
proof -
  obtain c1 c2 l s where c2: "certificate_issue sample_ids [7] [2] [9] 1 MESSAGING = Inr c2" and l: "published sample_ids l sample_published"
    "list_devices l = [c1, c2]" and d: "sample_published = create_with_identity\<lparr> next_authority_sequence := Some (number_line 2),
      device_list_file := device_list_file sample_published \<rparr>"
    by (rule sample_list) blast
  have n: "next_is sample_published 2" by (subst d) (simp add: next_is_def)
  have f: "revocation_files sample_published = []" "\<not> locked_elsewhere sample_published" by (subst d; simp)+
  obtain r b where r: "revoke_device sample_ids [7] [1] sample_published = (Inr r, sample_revoked)"
    "sample_revoked = sample_published\<lparr> next_authority_sequence := Some (number_line 3), revocation_files := [([1], b)] \<rparr>"
    using revoke_total [OF sample_total sample_inv [OF sample_steps(3)] n _ f(2), of 3 "[1]"] f(1)
    by (auto simp: sample_revoked_def u64_checked_add_def t_get_def sample_sig)
  have "certificate_device_id c2 = [2]" using certificate_issue_verifies [OF sample_sig(1) c2] by simp
  moreover have "published sample_ids l sample_revoked" using l by (simp add: r(2) published_def)
  moreover have "revocation_of sample_ids sample_revoked [1] = Some r"
    using revoke_Inr [OF sample_root_documented sample_inv [OF sample_steps(3)] r(1)] by simp
  ultimately show ?thesis using l f by (intro that [OF r(1), of l c2]) (simp_all add: r(2) t_get_def)
qed

text \<open>The sizes of the sample encodings, which recovery bounds.\<close>

lemma length_pack: "length (pack fs) = (\<Sum>f \<leftarrow> fs. 2 * length f + 1)"
  by (induction fs) (simp_all add: pack_def length_concat comp_def sum_list_triv)

lemma length_fields [simp]: "length (field_of_word w) = 8" "length (cap_field c) = 1"
  by (simp_all add: field_of_word_def cap_field_def split: DeviceCapability.split)

lemma sample_account_length: "length (root_account_id sample_ids secret) = 32"
  by (simp add: root_account_id_def sample_identity_libs_with_def)

lemma sample_signature_length: "signed_by (id_ed sample_ids) k m s \<Longrightarrow> length s = 64"
  by (simp add: sample_identity_libs_with_def)

lemma sample_certificate_length:
  assumes "certificate_issue sample_ids [7] [n] [9] k MESSAGING = Inr c"
  shows "length (certificate_bytes c) = 366"
proof -
  note v = certificate_issue_verifies [OF sample_sig(1) assms]
  then have "length (dc_signature c) = 64" by (auto simp: cert.verify_iff intro: sample_signature_length)
  moreover have "sort MESSAGING = MESSAGING" "length MESSAGING = 2" by code_simp+
  ultimately show ?thesis
    using v by (simp add: certificate_bytes_def signed_bytes_def certificate_content_bytes_def length_pack pack_list_def sample_account_length
        sum_list_triv comp_def)
qed

lemma sample_export:
  "\<exists>p w wb. export_recovery sample_ids [7] sample_published = (Inr (p, w), sample_published) \<and> witness_encode sample_ids w = Inr wb"
proof -
  obtain c1 c2 l s where c: "certificate_issue sample_ids [7] [1] [9] 0 MESSAGING = Inr c1" "certificate_issue sample_ids [7] [2] [9] 1 MESSAGING = Inr c2"
    and si: "snapshot_issue sample_ids [7] 2 [] = Inr s" and l: "published sample_ids l sample_published" "list_snapshot l = s"
    "list_devices l = [c1, c2]" "snapshot_account_id s = root_account_id sample_ids [7]"
    and d: "sample_published = create_with_identity\<lparr> next_authority_sequence := Some (number_line 2),
      device_list_file := device_list_file sample_published \<rparr>"
    by (rule sample_list) blast
  have inv: "root_inv sample_ids [7] sample_published" by (rule sample_inv [OF sample_steps(3)])
  have n: "next_is sample_published 2" by (subst d) (simp add: next_is_def)
  have f: "revocation_files sample_published = []" "membership_files sample_published = []" "\<not> locked_elsewhere sample_published"
    by (subst d; simp)+
  note sv = snapshot_issue_verifies [OF sample_sig(1) si] and lv = published_verified [OF l(1)]
  have s: "authority_snapshot sample_ids [7] sample_published = (Inr s, sample_published)"
    using si by (simp add: snapshot_eq [OF inv n] f)
  let ?pc = "\<lparr> arpc_version = ACCOUNT_ROOT_RECOVERY_VERSION, arpc_account_id = root_account_id sample_ids [7], arpc_authority_snapshot = s,
    arpc_device_list = l, arpc_conversation_memberships = [] \<rparr>"
  have "validate_account_root_recovery_package_content sample_ids ?pc = Inr ()"
    unfolding package_content_valid using sv lv l by simp
  then obtain p where p: "package_issue sample_ids [7] s l [] = Inr p"
    by (auto simp: package_issue_def Let_def account_root_recovery_package_signing_bytes_def authority_signing_bytes_def sample_identity_libs_with_def)
  have pv: "package_verify sample_ids p = Inr ()" "arp_content p = ?pc" using package_issue_verifies [OF sample_sig(1) p] by simp_all
  have "length (arp_signature p) = 64" "length (aas_signature s) = 64" "length (adl_signature l) = 64"
    using pv(1) sv lv by (auto simp: pkg.verify_iff snap.verify_iff dlist.verify_iff intro: sample_signature_length)
  then have "length (package_bytes p) \<le> 100000"
    using sv l sample_certificate_length [OF c(1)] sample_certificate_length [OF c(2)]
    by (simp add: package_bytes_def signed_bytes_def package_content_bytes_def pv(2) length_pack pack_list_def sample_account_length
        snapshot_bytes_def snapshot_content_bytes_def device_list_bytes_def device_list_content_bytes_def)
  then obtain i where i: "package_id sample_ids p = Inr i" "length i = 32"
    using pv(1) by (auto simp: package_id_def package_encode_def Let_def sample_identity_libs_with_def MAX_ACCOUNT_ROOT_RECOVERY_PACKAGE_BYTES_def
        ACCOUNT_ROOT_RECOVERY_PACKAGE_MAGIC_def ascii_def)
  then obtain w where w: "witness_issue sample_ids [7] p = Inr w" and wc: "arw_content w = \<lparr> arwc_version = ACCOUNT_ROOT_RECOVERY_VERSION,
      arwc_account_id = package_account_id p, arwc_authority_revision = package_authority_revision p, arwc_package_id = i \<rparr>"
    by (auto simp: witness_issue_def Let_def account_root_recovery_witness_signing_bytes_def authority_signing_bytes_def sample_identity_libs_with_def)
  have wv: "witness_verify sample_ids w = Inr ()" using witness_issue_verifies [OF sample_sig(1) pv(1) _ w] pv(2) by simp
  then have "length (arw_signature w) = 64" by (auto simp: witness_verify_def result_simps account_id_verify_iff intro: sample_signature_length)
  then have "length (witness_bytes w) \<le> 1000"
    by (simp add: witness_bytes_def signed_bytes_def witness_content_bytes_def length_pack wc pv(2) sample_account_length i(2))
  with wv have "\<exists>wb. witness_encode sample_ids w = Inr wb"
    by (simp add: witness_encode_def Let_def sample_identity_libs_with_def MAX_ACCOUNT_ROOT_RECOVERY_WITNESS_BYTES_def
        ACCOUNT_ROOT_RECOVERY_WITNESS_MAGIC_def ascii_def)
  moreover have "published_device_list sample_ids [7] sample_published = (Inr l, sample_published)" using l by (simp add: published_Inr)
  ultimately show ?thesis using s p w f
    by (simp add: export_recovery_def capture_recovery_unlocked_def then_do_def ensure_ready [OF inv] acquire_authority_write_lock_def
        root_conversation_memberships_def pure_def)
qed

end
