(* ===== verification/Root_Properties.thy ===== *)
theory Root_Properties
  imports Root_Run
begin

text \<open>
  The properties of the Account Root: what its signatures and authorisation checks mean, and what its
  operations guarantee over any run, whatever other process takes the write lock in between.
\<close>

section \<open>Signed objects\<close>








text \<open>C19. A Device is authorised against a snapshot exactly when the snapshot and the certificate
  verify and belong to the account, the certificate is older than the snapshot, every required
  capability is certified and the snapshot does not revoke the Device; the authorisation then names
  the account, the Device, its sequence number and all its capabilities.\<close>

theorem device_authorization_iff:
  "verify_device_authorization_with_snapshot lib account certificate snapshot required = Inr device \<longleftrightarrow>
     snapshot_verify lib snapshot = Inr () \<and> snapshot_account_id snapshot = account
   \<and> certificate_verify lib certificate = Inr () \<and> certificate_account_id certificate = account
   \<and> certificate_sequence certificate < snapshot_revision snapshot
   \<and> set required \<subseteq> set (dcc_capabilities (dc_content certificate))
   \<and> certificate_device_id certificate \<notin> revocation_device_id ` set (snapshot_revocations snapshot)
   \<and> device = \<lparr> ad_account_id = account, ad_device_id = certificate_device_id certificate,
       ad_certificate_authority_sequence = certificate_sequence certificate,
       ad_capabilities = dcc_capabilities (dc_content certificate) \<rparr>"
  by (rule authorization_iff)

section \<open>Runs\<close>

text \<open>C5. Revocation is final. Once a Device was revoked in a directory of the Root, then after any
  further operations every authority snapshot makes every certificate of the Device fail authorisation,
  enrolling the Device again fails, and a published list newer than the revocation does not hold it.\<close>

theorem revocation_is_final:
  assumes doc: "root_documented lib" and reach: "root_reachable lib root d"
    and r: "revoke_device lib root dev d = (Inr r, d1) \<or> revoke_and_publish_device_list lib root dev d = (Inr (r, l1), d1)"
    and later: "root_steps lib root d1 d2"
  shows "(\<forall>s d3 c caps. authority_snapshot lib root d2 = (Inr s, d3) \<longrightarrow> certificate_device_id c = dev \<longrightarrow>
        \<not> is_ok (verify_device_authorization_with_snapshot lib (root_account_id lib root) c s caps))
    \<and> \<not> is_ok (fst (enroll_device lib root dev key caps d2))
    \<and> (\<forall>l d3. published_device_list lib root d2 = (Inr l, d3) \<longrightarrow> revocation_sequence r < list_revision l \<longrightarrow> certificate_for l dev = None)"
proof -
  note inv = reachable_root_inv [OF doc reach]
  from r have "root_inv lib root d1 \<and> revocation_of lib d1 dev = Some r"
    using revoke_Inr [OF doc inv] revoke_and_publish_Inr [OF doc inv] by blast
  then have i: "root_inv lib root d2" and f: "revocation_of lib d2 dev = Some r"
    using revoked_later [OF doc _ _ later] by blast+
  have "\<not> is_ok (verify_device_authorization_with_snapshot lib (root_account_id lib root) c s caps)"
    if "authority_snapshot lib root d2 = (Inr s, d3)" "certificate_device_id c = dev" for s d3 c caps
    using revoked_in_snapshot [OF doc i f that(1)] that(2) by (auto simp: is_ok_iff authorization_iff)
  moreover have "certificate_for l dev = None"
    if "published_device_list lib root d2 = (Inr l, d3)" "revocation_sequence r < list_revision l" for l d3
    using revoked_not_listed [OF i f _ that(2)] that(1) by (simp add: published_Inr)
  ultimately show ?thesis using revoked_not_enrolled [OF doc i f] by blast
qed

theorem revocation_is_final_witness:
  "\<exists>r. revoke_device sample_ids [7] [1] sample_published = (Inr r, sample_revoked)
    \<and> \<not> is_ok (fst (enroll_device sample_ids [7] [1] [9] MESSAGING sample_revoked))"
proof -
  obtain r where r: "revoke_device sample_ids [7] [1] sample_published = (Inr r, sample_revoked)" by (rule sample_revocation)
  from revocation_is_final [OF sample_root_documented sample_steps(3) disjI1 [OF r] rtranclp.rtrancl_refl] r show ?thesis by blast
qed

text \<open>C18. The authority snapshot is always available: in every directory the Root can reach, taking it
  succeeds and leaves the directory as it is. It verifies for the account, its revision is the next
  authority sequence, and it lists exactly the Devices with a revocation on disk.\<close>

theorem authority_snapshot_available:
  assumes doc: "root_documented lib" and total: "root_postcard_total lib" and reach: "root_reachable lib root d"
  shows "\<exists>s. authority_snapshot lib root d = (Inr s, d) \<and> snapshot_verify_for_account lib s (root_account_id lib root) = Inr ()
    \<and> read_next_authority_sequence d = (Inr (snapshot_revision s), d)
    \<and> (\<forall>dev. dev \<in> revocation_device_id ` set (snapshot_revocations s) \<longleftrightarrow> t_get (revocation_files d) dev \<noteq> None)"
proof -
  note inv = reachable_root_inv [OF doc reach]
  obtain s where s: "authority_snapshot lib root d = (Inr s, d)" using snapshot_total [OF total inv] ..
  then have "snapshot_of lib root s d" using snapshot_inv [OF _ inv s] doc by (simp add: root_documented_def)
  then show ?thesis using s by (auto simp: snapshot_of_def snapshot_verify_for_account_iff intro: read_next)
qed

theorem authority_snapshot_available_witness:
  "\<exists>s. authority_snapshot sample_ids [7] sample_revoked = (Inr s, sample_revoked)"
  using authority_snapshot_available [OF sample_root_documented sample_total sample_steps(4)] by blast

text \<open>C16. The published device list never goes back: once a list was published, after any further
  operations a list is published for the account, and it is the same one or has a higher revision.\<close>

theorem device_list_never_rolls_back:
  assumes doc: "root_documented lib" and reach: "root_reachable lib root d"
    and l: "published_device_list lib root d = (Inr l, d)" and later: "root_steps lib root d d'"
  shows "\<exists>l'. published_device_list lib root d' = (Inr l', d') \<and> (l' = l \<or> list_revision l < list_revision l')"
proof -
  have "list_since lib root l d" using reachable_root_inv [OF doc reach] l by (auto simp: list_since_def published_Inr)
  then have "list_since lib root l d'" using listed.steps_keep [OF later] doc by blast
  then obtain l' where l': "root_inv lib root d'" "published lib l' d'" "l' = l \<or> list_revision l < list_revision l'"
    by (auto simp: list_since_def)
  then have "snapshot_account_id (list_snapshot l') = root_account_id lib root"
    by (auto simp: root_inv_def root_inv_at_def list_ok_def published_def)
  with l' show ?thesis by (auto simp: published_Inr)
qed

theorem device_list_never_rolls_back_witness:
  "\<exists>l l'. published_device_list sample_ids [7] sample_published = (Inr l, sample_published)
    \<and> published_device_list sample_ids [7] sample_revoked = (Inr l', sample_revoked) \<and> list_revision l \<le> list_revision l'"
proof -
  obtain l s where "published sample_ids l sample_published" "list_snapshot l = s" "snapshot_account_id s = root_account_id sample_ids [7]"
    by (rule sample_list) blast
  then have l: "published_device_list sample_ids [7] sample_published = (Inr l, sample_published)" by (simp add: published_Inr)
  have "root_steps sample_ids [7] sample_published sample_revoked"
    unfolding sample_revoked_def by (rule r_into_rtranclp) (rule step_revoke)
  from device_list_never_rolls_back [OF sample_root_documented sample_steps(3) l this] l show ?thesis by force
qed

text \<open>C17. A conversation only grows: once the Root filed a membership, after any further operations the
  conversation still has a membership that verifies for the owner, its revision is higher unless it is
  the same one, and it keeps every member.\<close>

theorem conversation_membership_grows:
  assumes doc: "root_documented lib" and reach: "root_reachable lib root d"
    and m: "load_root_conversation_membership lib root conv d = (Inr m, d)" and later: "root_steps lib root d d'"
  shows "\<exists>m'. load_root_conversation_membership lib root conv d' = (Inr m', d')
    \<and> (m' = m \<or> membership_revision m < membership_revision m') \<and> set (membership_members m) \<subseteq> set (membership_members m')"
proof -
  note inv = reachable_root_inv [OF doc reach]
  have f: "membership_filed lib d m" "membership_conversation_id m = conv" using m load_membership_iff [OF inv] by blast+
  then have "membership_since lib root m d" using inv by (auto simp: membership_since_def)
  then have since: "membership_since lib root m d'" using member.steps_keep [OF later] doc by blast
  then have inv': "root_inv lib root d'" by (simp add: membership_since_def)
  from since f show ?thesis unfolding membership_since_def load_membership_iff [OF inv'] by blast
qed

theorem conversation_membership_grows_witness:
  "let d = snd (create_conversation_membership sample_ids [7] [4] [[5]] create_with_identity) in
   \<exists>m m'. load_root_conversation_membership sample_ids [7] [4] d = (Inr m, d)
     \<and> load_root_conversation_membership sample_ids [7] [4] (snd (add_conversation_members sample_ids [7] [4] [[6]] d))
         = (Inr m', snd (add_conversation_members sample_ids [7] [4] [[6]] d))
     \<and> [5] \<in> set (membership_members m) \<and> [5] \<in> set (membership_members m')"
proof -
  let ?d = "snd (create_conversation_membership sample_ids [7] [4] [[5]] create_with_identity)"
  have reach: "root_reachable sample_ids [7] ?d" by (rule r_into_rtranclp) (rule step_create)
  have later: "root_steps sample_ids [7] ?d (snd (add_conversation_members sample_ids [7] [4] [[6]] ?d))"
    by (rule r_into_rtranclp) (rule step_add)
  have "is_ok (fst (create_conversation_membership sample_ids [7] [4] [[5]] create_with_identity))" by code_simp
  then obtain m where m: "create_conversation_membership sample_ids [7] [4] [[5]] create_with_identity = (Inr m, ?d)"
    by (metis is_ok_iff prod.collapse)
  obtain b where i: "membership_issue sample_ids [7] [4] 1 (canonical_members (root_account_id sample_ids [7]) [[5]]) = Inr m"
    and e: "membership_encode sample_ids m = Inr b" and d: "?d = create_with_identity\<lparr> membership_files := t_insert [4] b (membership_files create_with_identity) \<rparr>"
    by (rule create_membership_cases [OF sample_root_documented root_inv_create m]) auto
  note v = membership_issue_verifies [OF sample_sig(1) i]
  have "membership_filed sample_ids ?d m" unfolding d by (rule write_membership(2) [OF sample_root_documented root_inv_create i e])
  then have l: "load_root_conversation_membership sample_ids [7] [4] ?d = (Inr m, ?d)"
    using load_membership_iff [OF sample_inv [OF reach]] v by blast
  have "[5] \<in> set (membership_members m)" using v by simp
  with conversation_membership_grows [OF sample_root_documented reach l later] l show ?thesis unfolding Let_def by blast
qed

text \<open>C7. An interrupted removal is repaired by repeating it. If a revocation is on disk and the list was
  not published again, then as long as some listed Device is not revoked, removing the Device again
  returns that same revocation, uses up no authority sequence and leaves a published list without it.\<close>

theorem interrupted_removal_repaired:
  assumes doc: "root_documented lib" and total: "root_postcard_total lib" and reach: "root_reachable lib root d"
    and r: "revoke_device lib root dev d = (Inr r, d1)" and later: "root_steps lib root d1 d2"
    and c: "published_device_list lib root d2 = (Inr c, d2)" and free: "\<not> locked_elsewhere d2"
    and other: "x \<in> set (list_devices c)" "t_get (revocation_files d2) (certificate_device_id x) = None"
  shows "\<exists>l d3. revoke_and_publish_device_list lib root dev d2 = (Inr (r, l), d3)
    \<and> next_authority_sequence d3 = next_authority_sequence d2
    \<and> certificate_for l dev = None \<and> published_device_list lib root d3 = (Inr l, d3)"
proof -
  note inv = reachable_root_inv [OF doc reach]
  from revoke_Inr [OF doc inv r] have i: "root_inv lib root d2" and f: "revocation_of lib d2 dev = Some r"
    using revoked_later [OF doc _ _ later] by blast+
  from c have "published lib c d2" by (simp add: published_Inr)
  from revoke_and_publish_repeat [OF doc total i f this free other] obtain l d3 where
    l: "revoke_and_publish_device_list lib root dev d2 = (Inr (r, l), d3)" "next_authority_sequence d3 = next_authority_sequence d2" by blast
  note p = revoke_and_publish_Inr [OF doc i l(1)]
  then have "snapshot_account_id (list_snapshot l) = root_account_id lib root"
    by (auto simp: root_inv_def root_inv_at_def list_ok_def published_def)
  with p l show ?thesis by (auto simp: published_Inr)
qed

theorem interrupted_removal_repaired_witness:
  "\<exists>r l d3. revoke_device sample_ids [7] [1] sample_published = (Inr r, sample_revoked)
    \<and> revoke_and_publish_device_list sample_ids [7] [1] sample_revoked = (Inr (r, l), d3) \<and> certificate_for l [1] = None"
proof -
  obtain r l x where r: "revoke_device sample_ids [7] [1] sample_published = (Inr r, sample_revoked)"
    and l: "published sample_ids l sample_revoked" "x \<in> set (list_devices l)"
    "t_get (revocation_files sample_revoked) (certificate_device_id x) = None" "\<not> locked_elsewhere sample_revoked"
    by (rule sample_revocation)
  have "snapshot_account_id (list_snapshot l) = root_account_id sample_ids [7]"
    using sample_inv [OF sample_steps(4)] l(1) by (auto simp: root_inv_def root_inv_at_def list_ok_def published_def)
  then have p: "published_device_list sample_ids [7] sample_revoked = (Inr l, sample_revoked)" using l by (simp add: published_Inr)
  from interrupted_removal_repaired [OF sample_root_documented sample_total sample_steps(3) r rtranclp.rtrancl_refl p l(4,2,3)] r
  show ?thesis by blast
qed

text \<open>C6. Recovery restores the Root: from an exported package and witness, with the key derived from the
  recovery phrase, \<open>recover\<close> succeeds, and the new directory gives the same authority snapshot, device
  list and memberships and continues at the same authority sequence.\<close>

theorem recovery_restores_root:
  assumes "root_documented lib" and "root_postcard_total lib" and "root_reachable lib root d"
    and "export_recovery lib root d = (Inr (p, w), d')" and "witness_encode lib w = Inr wb"
  shows "\<exists>d2. recover lib root p w = Inr d2
    \<and> fst (authority_snapshot lib root d2) = fst (authority_snapshot lib root d)
    \<and> fst (published_device_list lib root d2) = fst (published_device_list lib root d)
    \<and> fst (root_conversation_memberships lib root d2) = fst (root_conversation_memberships lib root d)
    \<and> fst (read_next_authority_sequence d2) = fst (read_next_authority_sequence d)"
  using recover_exported [OF assms(1,2) reachable_root_inv [OF assms(1,3)] assms(4,5)] by blast

theorem recovery_restores_root_witness:
  "\<exists>p w d2. export_recovery sample_ids [7] sample_published = (Inr (p, w), sample_published)
    \<and> recover sample_ids [7] p w = Inr d2"
proof -
  obtain p w wb where x: "export_recovery sample_ids [7] sample_published = (Inr (p, w), sample_published)" "witness_encode sample_ids w = Inr wb"
    using sample_export by blast
  from recovery_restores_root [OF sample_root_documented sample_total sample_steps(3) x] x show ?thesis by blast
qed

end
