(* ===== verification/Device_Trust.thy ===== *)
theory Device_Trust
  imports Account_Root
begin

text \<open>
  What a Device keeps of the authority of accounts (\<open>DeviceState\<close> in \<open>account.rs\<close> and \<open>lib.rs\<close> of the
  identity crate): its own certificate, the snapshot of its own account, the pinned snapshots of peers,
  the memberships of its conversations and its event sequence. Each operation writes one file at most,
  and only when it succeeds; the state is the record of the files.
\<close>

section \<open>State\<close>

text \<open>The public keys of the Device's own identity and encryption identity.\<close>

record device_self =
  self_device_id :: bytes
  self_encryption_key :: bytes

record device_dir =
  device_certificate_file :: "bytes option"
  own_snapshot_file :: "bytes option"
  peer_snapshot_files :: "bytes table"
  device_membership_files :: "bytes table"
  next_sequence :: "string option"

datatype AuthoritySnapshotStoreOutcome = SnapshotInstalled | SnapshotUpdated | SnapshotUnchanged

datatype ConversationMembershipStoreOutcome = MembershipInstalled | MembershipUpdated | MembershipUnchanged

definition empty_device_dir :: device_dir where
  "empty_device_dir = \<lparr> device_certificate_file = None, own_snapshot_file = None, peer_snapshot_files = [],
     device_membership_files = [], next_sequence = None \<rparr>"

section \<open>Operations\<close>

definition check_own_certificate :: "device_self \<Rightarrow> DeviceCertificate \<Rightarrow> identity_error + unit" where
  "check_own_certificate self certificate =
     (if certificate_device_id certificate \<noteq> self_device_id self
      then Inl (CertificateError (DeviceCertificateDeviceMismatch (self_device_id self) (certificate_device_id certificate)))
      else ensure (dcc_encryption_public_key (dc_content certificate) = self_encryption_key self)
        (CertificateError DeviceCertificateEncryptionKeyMismatch))"

definition install_certificate
  :: "'a identity_libs_scheme \<Rightarrow> device_self \<Rightarrow> DeviceCertificate \<Rightarrow> device_dir \<Rightarrow> identity_error + device_dir" where
  "install_certificate lib self certificate d =
     and_then (certificate_verify lib certificate) (\<lambda>_.
     and_then (check_own_certificate self certificate) (\<lambda>_.
     and_then (certificate_encode lib certificate) (\<lambda>encoded.
     case device_certificate_file d of
       Some existing \<Rightarrow> (if existing = encoded then Inr d else Inl (CertificateError DeviceCertificateAlreadyInstalled))
     | None \<Rightarrow> Inr (d\<lparr> device_certificate_file := Some encoded \<rparr>))))"

definition load_certificate :: "'a identity_libs_scheme \<Rightarrow> device_self \<Rightarrow> device_dir \<Rightarrow> identity_error + DeviceCertificate" where
  "load_certificate lib self d =
     and_then (ok_or (CertificateError DeviceCertificateMissing) (device_certificate_file d)) (\<lambda>bytes.
     and_then (certificate_decode_and_verify lib bytes) (\<lambda>certificate.
     and_then (check_own_certificate self certificate) (\<lambda>_. Inr certificate)))"

text \<open>The new contents of a snapshot file, given its contents so far.\<close>

definition store_authority_snapshot
  :: "'a identity_libs_scheme \<Rightarrow> bytes option \<Rightarrow> AccountAuthoritySnapshot
      \<Rightarrow> identity_error + AuthoritySnapshotStoreOutcome \<times> bytes" where
  "store_authority_snapshot lib file snapshot =
     and_then (snapshot_encode lib snapshot) (\<lambda>encoded.
     case file of
       None \<Rightarrow> Inr (SnapshotInstalled, encoded)
     | Some existing \<Rightarrow> and_then (snapshot_decode_and_verify lib existing) (\<lambda>stored.
         if snapshot_account_id stored \<noteq> snapshot_account_id snapshot
         then Inl (AccountMismatch (snapshot_account_id stored) (snapshot_account_id snapshot))
         else if snapshot_revision snapshot < snapshot_revision stored
         then Inl (AuthorityError (AuthoritySnapshotRollback (snapshot_account_id snapshot) (snapshot_revision stored) (snapshot_revision snapshot)))
         else if snapshot_revision snapshot = snapshot_revision stored
         then (if existing = encoded then Inr (SnapshotUnchanged, existing)
           else Inl (AuthorityError (AuthoritySnapshotEquivocation (snapshot_account_id snapshot) (snapshot_revision snapshot))))
         else Inr (SnapshotUpdated, encoded)))"

definition install_own_authority_snapshot
  :: "'a identity_libs_scheme \<Rightarrow> device_self \<Rightarrow> AccountAuthoritySnapshot \<Rightarrow> device_dir
      \<Rightarrow> identity_error + AuthoritySnapshotStoreOutcome \<times> device_dir" where
  "install_own_authority_snapshot lib self snapshot d =
     and_then (load_certificate lib self d) (\<lambda>certificate.
     and_then (snapshot_verify_for_account lib snapshot (certificate_account_id certificate)) (\<lambda>_.
     if certificate_sequence certificate \<ge> snapshot_revision snapshot
     then Inl (CertificateError (CertificateOutsideSnapshot (certificate_sequence certificate) (snapshot_revision snapshot)))
     else and_then (store_authority_snapshot lib (own_snapshot_file d) snapshot) (\<lambda>(outcome, bytes).
       Inr (outcome, d\<lparr> own_snapshot_file := Some bytes \<rparr>))))"

definition load_own_authority_snapshot
  :: "'a identity_libs_scheme \<Rightarrow> device_self \<Rightarrow> device_dir \<Rightarrow> identity_error + AccountAuthoritySnapshot" where
  "load_own_authority_snapshot lib self d =
     and_then (ok_or (AuthorityError AccountAuthoritySnapshotMissing) (own_snapshot_file d)) (\<lambda>bytes.
     and_then (snapshot_decode_and_verify lib bytes) (\<lambda>snapshot.
     and_then (load_certificate lib self d) (\<lambda>certificate.
     and_then (snapshot_verify_for_account lib snapshot (certificate_account_id certificate)) (\<lambda>_. Inr snapshot))))"

definition pin_peer_authority_snapshot
  :: "'a identity_libs_scheme \<Rightarrow> AccountAuthoritySnapshot \<Rightarrow> device_dir \<Rightarrow> identity_error + AuthoritySnapshotStoreOutcome \<times> device_dir" where
  "pin_peer_authority_snapshot lib snapshot d =
     and_then (snapshot_verify lib snapshot) (\<lambda>_.
     and_then (store_authority_snapshot lib (t_get (peer_snapshot_files d) (snapshot_account_id snapshot)) snapshot) (\<lambda>(outcome, bytes).
     Inr (outcome, d\<lparr> peer_snapshot_files := t_insert (snapshot_account_id snapshot) bytes (peer_snapshot_files d) \<rparr>)))"

definition load_peer_authority_snapshot
  :: "'a identity_libs_scheme \<Rightarrow> bytes \<Rightarrow> device_dir \<Rightarrow> identity_error + AccountAuthoritySnapshot" where
  "load_peer_authority_snapshot lib account_id d =
     and_then (ok_or AuthorityIo (t_get (peer_snapshot_files d) account_id)) (\<lambda>bytes.
     and_then (snapshot_decode_and_verify lib bytes) (\<lambda>snapshot.
     and_then (snapshot_verify_for_account lib snapshot account_id) (\<lambda>_. Inr snapshot)))"

definition store_conversation_membership
  :: "'a identity_libs_scheme \<Rightarrow> bytes option \<Rightarrow> ConversationMembershipSnapshot
      \<Rightarrow> identity_error + ConversationMembershipStoreOutcome \<times> bytes" where
  "store_conversation_membership lib file membership =
     and_then (membership_encode lib membership) (\<lambda>encoded.
     case file of
       None \<Rightarrow> Inr (MembershipInstalled, encoded)
     | Some existing \<Rightarrow> and_then (membership_decode_and_verify lib existing) (\<lambda>stored.
         and_then (membership_verify_for_owner lib stored (membership_owner membership)) (\<lambda>_.
         if membership_revision membership < membership_revision stored
         then Inl (MembershipError (ConversationMembershipRollback (membership_conversation_id membership)
           (membership_revision stored) (membership_revision membership)))
         else if membership_revision membership = membership_revision stored
         then (if existing = encoded then Inr (MembershipUnchanged, existing)
           else Inl (MembershipError (ConversationMembershipEquivocation (membership_conversation_id membership) (membership_revision membership))))
         else if list_ex (\<lambda>account_id. account_id \<notin> set (membership_members membership)) (membership_members stored)
         then Inl (MembershipError (ConversationMembershipNotAddOnly (membership_conversation_id membership)))
         else Inr (MembershipUpdated, encoded))))"

definition install_conversation_membership
  :: "'a identity_libs_scheme \<Rightarrow> ConversationMembershipSnapshot \<Rightarrow> device_dir
      \<Rightarrow> identity_error + ConversationMembershipStoreOutcome \<times> device_dir" where
  "install_conversation_membership lib membership d =
     and_then (membership_verify lib membership) (\<lambda>_.
     and_then (store_conversation_membership lib (t_get (device_membership_files d) (membership_conversation_id membership)) membership)
       (\<lambda>(outcome, bytes).
     Inr (outcome, d\<lparr> device_membership_files := t_insert (membership_conversation_id membership) bytes (device_membership_files d) \<rparr>)))"

definition load_conversation_membership
  :: "'a identity_libs_scheme \<Rightarrow> bytes \<Rightarrow> device_dir \<Rightarrow> identity_error + ConversationMembershipSnapshot" where
  "load_conversation_membership lib conversation_id d =
     and_then (ok_or (MembershipError (ConversationMembershipMissing conversation_id)) (t_get (device_membership_files d) conversation_id)) (\<lambda>bytes.
     and_then (membership_decode_and_verify lib bytes) (\<lambda>membership.
     if membership_conversation_id membership \<noteq> conversation_id
     then Inl (MembershipError (ConversationMembershipMissing conversation_id)) else Inr membership))"

definition allocate_sequence_from :: "u64 \<Rightarrow> device_dir \<Rightarrow> identity_error + u64 \<times> device_dir" where
  "allocate_sequence_from current d =
     and_then (ok_or SequenceExhausted (u64_checked_add current 1)) (\<lambda>n.
     Inr (current, d\<lparr> next_sequence := Some (number_line n) \<rparr>))"

definition allocate_sequence :: "device_dir \<Rightarrow> identity_error + u64 \<times> device_dir" where
  "allocate_sequence d =
     and_then (case next_sequence d of Some value \<Rightarrow> ok_or InvalidSequence (parse_u64 (trim value)) | None \<Rightarrow> Inr 0) (\<lambda>current.
     allocate_sequence_from current d)"

end
