(* ===== verification/Device_Trust_Properties.thy ===== *)
theory Device_Trust_Properties
  imports Device_Trust Root_Run
begin

text \<open>
  The trust a Device keeps only moves forward. Snapshots and memberships share one contract, that of a
  file which is replaced by a newer version or not at all.
\<close>

section \<open>Versioned files\<close>

text \<open>The file holds \<open>x\<close> itself or a newer version of it.\<close>

definition file_since :: "(bytes \<Rightarrow> 'e + 'x) \<Rightarrow> ('x \<Rightarrow> u64) \<Rightarrow> ('x \<Rightarrow> 'x \<Rightarrow> bool) \<Rightarrow> 'x \<Rightarrow> bytes option \<Rightarrow> bool" where
  "file_since decode version upd x f \<longleftrightarrow> (\<exists>b y. f = Some b \<and> decode b = Inr y \<and> (y = x \<or> version x < version y) \<and> upd x y)"

text \<open>\<open>upd\<close> is what the store requires of a new version, besides its higher revision.\<close>

locale versioned_file =
  fixes decode :: "bytes \<Rightarrow> 'e + 'x"
    and version :: "'x \<Rightarrow> u64"
    and upd :: "'x \<Rightarrow> 'x \<Rightarrow> bool"
    and store :: "bytes option \<Rightarrow> 'x \<Rightarrow> 'e + 'o \<times> bytes"
  assumes store_new: "store None x = Inr (out, b) \<Longrightarrow> decode b = Inr x"
    and store_old: "store (Some f) x = Inr (out, b) \<Longrightarrow>
          b = f \<and> decode f = Inr x \<or> (\<exists>y. decode f = Inr y \<and> decode b = Inr x \<and> version y < version x \<and> upd y x)"
    and upd_refl: "upd x x"
    and upd_trans: "upd x y \<Longrightarrow> upd y z \<Longrightarrow> upd x z"
begin

lemma since_decode: "decode b = Inr x \<Longrightarrow> file_since decode version upd x (Some b)"
  by (auto simp: file_since_def upd_refl)

lemma since_store:
  assumes "file_since decode version upd x file" and "store file z = Inr (out, b)"
  shows "file_since decode version upd x (Some b)"
proof -
  from assms(1) obtain f y where f: "file = Some f" "decode f = Inr y" "y = x \<or> version x < version y" "upd x y"
    by (auto simp: file_since_def)
  with store_old [of f z out b] assms(2) have "decode b = Inr y \<or> (decode b = Inr z \<and> version y < version z \<and> upd y z)" by auto
  then show ?thesis
  proof
    assume "decode b = Inr y"
    with f show ?thesis by (auto simp: file_since_def)
  next
    assume "decode b = Inr z \<and> version y < version z \<and> upd y z"
    with f upd_trans [of x y z] less_trans [of "version x" "version y" "version z"] show ?thesis by (auto simp: file_since_def)
  qed
qed

lemma store_decodes: "store old x = Inr (out, b) \<Longrightarrow> decode b = Inr x"
  by (cases old) (auto dest: store_new store_old)

end

text \<open>The laws hold for libraries that behave as documented; \<open>documented\<close> guards the decoders so that
  the instances need no further hypothesis.\<close>

definition snapshot_store
  :: "'a identity_libs_scheme \<Rightarrow> bytes option \<Rightarrow> AccountAuthoritySnapshot \<Rightarrow> identity_error + AuthoritySnapshotStoreOutcome \<times> bytes" where
  "snapshot_store lib file s = (if root_documented lib then store_authority_snapshot lib file s else Inl AuthorityIo)"

definition membership_store
  :: "'a identity_libs_scheme \<Rightarrow> bytes option \<Rightarrow> ConversationMembershipSnapshot \<Rightarrow> identity_error + ConversationMembershipStoreOutcome \<times> bytes" where
  "membership_store lib file m = (if root_documented lib then store_conversation_membership lib file m else Inl AuthorityIo)"

lemma snapshot_encoded: "root_documented lib \<Longrightarrow> snapshot_encode lib s = Inr b \<Longrightarrow> snapshot_decode_and_verify lib b = Inr s"
  by (rule snap.decode_encode) (auto simp: root_documented_def root_postcard_documented_def inverts_def)

lemma membership_encoded: "root_documented lib \<Longrightarrow> membership_encode lib m = Inr b \<Longrightarrow> membership_decode_and_verify lib b = Inr m"
  by (rule memb.decode_encode) (auto simp: root_documented_def root_postcard_documented_def inverts_def)

lemma snapshot_store_None: "snapshot_store lib None x = Inr (out, b) \<Longrightarrow> snapshot_decode_and_verify lib b = Inr x"
  by (auto simp: snapshot_store_def store_authority_snapshot_def and_then_Inr snapshot_encoded split: if_splits)

lemma snapshot_store_Some:
  assumes "snapshot_store lib (Some f) x = Inr (out, b)"
  shows "b = f \<and> snapshot_decode_and_verify lib f = Inr x \<or> (\<exists>y. snapshot_decode_and_verify lib f = Inr y
    \<and> snapshot_decode_and_verify lib b = Inr x \<and> snapshot_revision y < snapshot_revision x \<and> snapshot_account_id y = snapshot_account_id x)"
proof -
  from assms have doc: "root_documented lib" by (simp add: snapshot_store_def split: if_splits)
  with assms obtain e y where "snapshot_encode lib x = Inr e" "snapshot_decode_and_verify lib f = Inr y"
    "b = f \<and> f = e \<or> b = e \<and> snapshot_revision y < snapshot_revision x \<and> snapshot_account_id y = snapshot_account_id x"
    by (auto simp: snapshot_store_def store_authority_snapshot_def and_then_Inr not_less_iff_gr_or_eq split: if_splits)
  with snapshot_encoded [OF doc] show ?thesis by blast
qed

interpretation snaps: versioned_file "snapshot_decode_and_verify lib" snapshot_revision
  "\<lambda>x y. snapshot_account_id x = snapshot_account_id y" "snapshot_store lib" for lib :: "'a identity_libs_scheme"
proof unfold_locales
  fix f x out b assume "snapshot_store lib (Some f) x = Inr (out, b)"
  then show "b = f \<and> snapshot_decode_and_verify lib f = Inr x \<or> (\<exists>y. snapshot_decode_and_verify lib f = Inr y
      \<and> snapshot_decode_and_verify lib b = Inr x \<and> snapshot_revision y < snapshot_revision x \<and> snapshot_account_id y = snapshot_account_id x)"
    by (rule snapshot_store_Some)
qed (auto intro: snapshot_store_None)

lemma membership_store_None: "membership_store lib None x = Inr (out, b) \<Longrightarrow> membership_decode_and_verify lib b = Inr x"
  by (auto simp: membership_store_def store_conversation_membership_def and_then_Inr membership_encoded split: if_splits)

lemma membership_store_Some:
  assumes "membership_store lib (Some f) x = Inr (out, b)"
  shows "b = f \<and> membership_decode_and_verify lib f = Inr x \<or> (\<exists>y. membership_decode_and_verify lib f = Inr y
    \<and> membership_decode_and_verify lib b = Inr x \<and> membership_revision y < membership_revision x
    \<and> membership_owner y = membership_owner x \<and> set (membership_members y) \<subseteq> set (membership_members x))"
proof -
  from assms have doc: "root_documented lib" by (simp add: membership_store_def split: if_splits)
  with assms obtain e y where "membership_encode lib x = Inr e" "membership_decode_and_verify lib f = Inr y"
    "b = f \<and> f = e \<or> b = e \<and> membership_revision y < membership_revision x \<and> membership_owner y = membership_owner x
      \<and> (\<forall>a \<in> set (membership_members y). a \<in> set (membership_members x))"
    by (auto simp: membership_store_def store_conversation_membership_def and_then_Inr membership_verify_for_owner_iff list_ex_iff
        not_less_iff_gr_or_eq split: if_splits)
  with membership_encoded [OF doc] show ?thesis by blast
qed

interpretation members: versioned_file "membership_decode_and_verify lib" membership_revision
  "\<lambda>x y. membership_owner x = membership_owner y \<and> set (membership_members x) \<subseteq> set (membership_members y)"
  "membership_store lib" for lib :: "'a identity_libs_scheme"
proof unfold_locales
  fix f x out b assume "membership_store lib (Some f) x = Inr (out, b)"
  then show "b = f \<and> membership_decode_and_verify lib f = Inr x \<or> (\<exists>y. membership_decode_and_verify lib f = Inr y
      \<and> membership_decode_and_verify lib b = Inr x \<and> membership_revision y < membership_revision x
      \<and> membership_owner y = membership_owner x \<and> set (membership_members y) \<subseteq> set (membership_members x))"
    by (rule membership_store_Some)
qed (auto intro: membership_store_None)

abbreviation snapshot_since :: "'a identity_libs_scheme \<Rightarrow> AccountAuthoritySnapshot \<Rightarrow> bytes option \<Rightarrow> bool" where
  "snapshot_since lib \<equiv> file_since (snapshot_decode_and_verify lib) snapshot_revision (\<lambda>x y. snapshot_account_id x = snapshot_account_id y)"

abbreviation membership_file_since :: "'a identity_libs_scheme \<Rightarrow> ConversationMembershipSnapshot \<Rightarrow> bytes option \<Rightarrow> bool" where
  "membership_file_since lib \<equiv> file_since (membership_decode_and_verify lib) membership_revision
     (\<lambda>x y. membership_owner x = membership_owner y \<and> set (membership_members x) \<subseteq> set (membership_members y))"

section \<open>Runs\<close>

definition next_value :: "device_dir \<Rightarrow> identity_error + u64" where
  "next_value d = (case next_sequence d of Some value \<Rightarrow> ok_or InvalidSequence (parse_u64 (trim value)) | None \<Rightarrow> Inr 0)"

text \<open>A successful operation of the Device. \<open>allocate_sequence_from\<close> is called with a value the caller
  authenticated, which is not below the recorded one.\<close>

inductive device_step :: "'a identity_libs_scheme \<Rightarrow> device_self \<Rightarrow> device_dir \<Rightarrow> device_dir \<Rightarrow> bool" for lib self where
  step_certificate: "install_certificate lib self c d = Inr d' \<Longrightarrow> device_step lib self d d'"
| step_own: "install_own_authority_snapshot lib self s d = Inr (out, d') \<Longrightarrow> device_step lib self d d'"
| step_peer: "pin_peer_authority_snapshot lib s d = Inr (out, d') \<Longrightarrow> device_step lib self d d'"
| step_membership: "install_conversation_membership lib m d = Inr (o_m, d') \<Longrightarrow> device_step lib self d d'"
| step_allocate: "allocate_sequence d = Inr (n, d') \<Longrightarrow> device_step lib self d d'"
| step_allocate_from: "next_value d = Inr n \<Longrightarrow> n \<le> k \<Longrightarrow> allocate_sequence_from k d = Inr (k', d') \<Longrightarrow> device_step lib self d d'"

abbreviation device_steps :: "'a identity_libs_scheme \<Rightarrow> device_self \<Rightarrow> device_dir \<Rightarrow> device_dir \<Rightarrow> bool" where
  "device_steps lib self \<equiv> (device_step lib self)\<^sup>*\<^sup>*"

text \<open>What each step leaves of the files.\<close>

lemma step_files:
  assumes doc: "root_documented lib" and s: "device_step lib self d d'"
  obtains "device_certificate_file d' = device_certificate_file d \<or> device_certificate_file d = None"
    and "own_snapshot_file d' = own_snapshot_file d \<or> (\<exists>s out b c. snapshot_store lib (own_snapshot_file d) s = Inr (out, b)
        \<and> own_snapshot_file d' = Some b \<and> load_certificate lib self d = Inr c \<and> snapshot_account_id s = certificate_account_id c)"
    and "peer_snapshot_files d' = peer_snapshot_files d \<or> (\<exists>s out b. snapshot_store lib (t_get (peer_snapshot_files d) (snapshot_account_id s)) s
        = Inr (out, b) \<and> peer_snapshot_files d' = t_insert (snapshot_account_id s) b (peer_snapshot_files d))"
    and "device_membership_files d' = device_membership_files d \<or> (\<exists>m out b. membership_store lib
        (t_get (device_membership_files d) (membership_conversation_id m)) m = Inr (out, b)
        \<and> device_membership_files d' = t_insert (membership_conversation_id m) b (device_membership_files d))"
  using s
proof cases
  case (step_certificate c)
  then show ?thesis
    by (intro that) (auto simp: install_certificate_def result_simps split: option.splits if_splits)
next
  case (step_own s out)
  then obtain c b where "load_certificate lib self d = Inr c" "snapshot_account_id s = certificate_account_id c"
    "store_authority_snapshot lib (own_snapshot_file d) s = Inr (out, b)" "d' = d\<lparr> own_snapshot_file := Some b \<rparr>"
    by (auto simp: install_own_authority_snapshot_def result_simps snapshot_verify_for_account_iff split: if_splits)
  moreover from this doc have "snapshot_store lib (own_snapshot_file d) s = Inr (out, b)" by (simp add: snapshot_store_def)
  ultimately show ?thesis by (intro that) auto
next
  case (step_peer s out)
  then obtain b where "store_authority_snapshot lib (t_get (peer_snapshot_files d) (snapshot_account_id s)) s = Inr (out, b)"
    "d' = d\<lparr> peer_snapshot_files := t_insert (snapshot_account_id s) b (peer_snapshot_files d) \<rparr>"
    by (auto simp: pin_peer_authority_snapshot_def result_simps)
  moreover from this doc have "snapshot_store lib (t_get (peer_snapshot_files d) (snapshot_account_id s)) s = Inr (out, b)"
    by (simp add: snapshot_store_def)
  ultimately show ?thesis by (intro that) auto
next
  case (step_membership m out)
  then obtain b where
    "store_conversation_membership lib (t_get (device_membership_files d) (membership_conversation_id m)) m = Inr (out, b)"
    "d' = d\<lparr> device_membership_files := t_insert (membership_conversation_id m) b (device_membership_files d) \<rparr>"
    by (auto simp: install_conversation_membership_def result_simps)
  moreover from this doc have
    "membership_store lib (t_get (device_membership_files d) (membership_conversation_id m)) m = Inr (out, b)"
    by (simp add: membership_store_def)
  ultimately show ?thesis by (intro that) auto
next
  case (step_allocate n)
  then show ?thesis
    by (intro that) (auto simp: allocate_sequence_def allocate_sequence_from_def result_simps split: option.splits)
next
  case (step_allocate_from n k k')
  then show ?thesis by (intro that) (auto simp: allocate_sequence_from_def result_simps)
qed

text \<open>What is known of each file once it held a value.\<close>

definition own_since :: "'a identity_libs_scheme \<Rightarrow> device_self \<Rightarrow> AccountAuthoritySnapshot \<Rightarrow> device_dir \<Rightarrow> bool" where
  "own_since lib self s d \<longleftrightarrow> (\<exists>c. load_certificate lib self d = Inr c \<and> snapshot_account_id s = certificate_account_id c)
     \<and> snapshot_since lib s (own_snapshot_file d)"

definition peer_since :: "'a identity_libs_scheme \<Rightarrow> AccountAuthoritySnapshot \<Rightarrow> device_dir \<Rightarrow> bool" where
  "peer_since lib s d \<longleftrightarrow> t_valid (peer_snapshot_files d) \<and> snapshot_since lib s (t_get (peer_snapshot_files d) (snapshot_account_id s))"

definition member_since :: "'a identity_libs_scheme \<Rightarrow> ConversationMembershipSnapshot \<Rightarrow> device_dir \<Rightarrow> bool" where
  "member_since lib m d \<longleftrightarrow> t_valid (device_membership_files d)
     \<and> membership_file_since lib m (t_get (device_membership_files d) (membership_conversation_id m))
     \<and> (\<forall>b x. t_get (device_membership_files d) (membership_conversation_id m) = Some b \<longrightarrow> membership_decode_and_verify lib b = Inr x
          \<longrightarrow> membership_conversation_id x = membership_conversation_id m)"

lemma certificate_kept:
  assumes "root_documented lib" and "device_step lib self d d'" and "load_certificate lib self d = Inr c"
  shows "load_certificate lib self d' = Inr c"
proof -
  have "device_certificate_file d \<noteq> None" using assms(3) by (auto simp: load_certificate_def result_simps)
  with step_files [OF assms(1,2)] have "device_certificate_file d' = device_certificate_file d" by metis
  with assms(3) show ?thesis by (simp add: load_certificate_def)
qed

lemma own_kept:
  assumes doc: "root_documented lib" and s: "device_step lib self d d'" and o: "own_since lib self s d"
  shows "own_since lib self s d'"
proof -
  from o obtain c where c: "load_certificate lib self d = Inr c" "snapshot_account_id s = certificate_account_id c"
    and f: "snapshot_since lib s (own_snapshot_file d)" by (auto simp: own_since_def)
  have "snapshot_since lib s (own_snapshot_file d')"
    using step_files [OF doc s] f snaps.since_store [OF f] by metis
  with certificate_kept [OF doc s c(1)] c(2) show ?thesis by (auto simp: own_since_def)
qed

lemma peer_kept:
  assumes doc: "root_documented lib" and s: "device_step lib self d d'" and o: "peer_since lib s d"
  shows "peer_since lib s d'"
proof -
  from o have v: "t_valid (peer_snapshot_files d)" and f: "snapshot_since lib s (t_get (peer_snapshot_files d) (snapshot_account_id s))"
    by (simp_all add: peer_since_def)
  consider "peer_snapshot_files d' = peer_snapshot_files d" | x out b where
      "snapshot_store lib (t_get (peer_snapshot_files d) (snapshot_account_id x)) x = Inr (out, b)"
      "peer_snapshot_files d' = t_insert (snapshot_account_id x) b (peer_snapshot_files d)"
    using step_files [OF doc s] by metis
  then show ?thesis
  proof cases
    case 1
    with o show ?thesis by (simp add: peer_since_def)
  next
    case (2 x out b)
    with v f snaps.since_store [OF f] show ?thesis
      by (cases "snapshot_account_id x = snapshot_account_id s") (auto simp: peer_since_def tbl.get_insert tbl.valid_insert)
  qed
qed

lemma member_kept:
  assumes doc: "root_documented lib" and s: "device_step lib self d d'" and o: "member_since lib m d"
  shows "member_since lib m d'"
proof -
  from o have v: "t_valid (device_membership_files d)"
    and f: "membership_file_since lib m (t_get (device_membership_files d) (membership_conversation_id m))"
    by (simp_all add: member_since_def)
  consider "device_membership_files d' = device_membership_files d" | x out b where
      "membership_store lib (t_get (device_membership_files d) (membership_conversation_id x)) x = Inr (out, b)"
      "device_membership_files d' = t_insert (membership_conversation_id x) b (device_membership_files d)"
    using step_files [OF doc s] by metis
  then show ?thesis
  proof cases
    case 1
    with o show ?thesis by (simp add: member_since_def)
  next
    case (2 x out b)
    show ?thesis
    proof (cases "membership_conversation_id x = membership_conversation_id m")
      case True
      with 2 v members.since_store [OF f] members.store_decodes [OF 2(1)] show ?thesis
        by (auto simp: member_since_def tbl.get_insert tbl.valid_insert)
    next
      case False
      with 2 o v show ?thesis by (auto simp: member_since_def tbl.get_insert tbl.valid_insert)
    qed
  qed
qed

lemma steps_kept:
  assumes "device_steps lib self d d'" and "\<And>d d'. device_step lib self d d' \<Longrightarrow> K d \<Longrightarrow> K d'" and "K d"
  shows "K d'"
  using assms by (induction rule: rtranclp_induct) blast+

lemma device_tables_valid:
  assumes "root_documented lib" and "device_steps lib self empty_device_dir d"
  shows "t_valid (peer_snapshot_files d) \<and> t_valid (device_membership_files d)"
  using assms(2)
proof (rule steps_kept)
  fix d d' assume s: "device_step lib self d d'" and v: "t_valid (peer_snapshot_files d) \<and> t_valid (device_membership_files d)"
  show "t_valid (peer_snapshot_files d') \<and> t_valid (device_membership_files d')"
    by (rule step_files [OF assms(1) s]) (use v in \<open>auto simp: tbl.valid_insert\<close>)
qed (simp add: empty_device_dir_def t_valid_def)

section \<open>Properties\<close>

lemma load_own_iff: "load_own_authority_snapshot lib self d = Inr s \<longleftrightarrow>
    (\<exists>b c. own_snapshot_file d = Some b \<and> snapshot_decode_and_verify lib b = Inr s \<and> load_certificate lib self d = Inr c
       \<and> snapshot_account_id s = certificate_account_id c)"
  by (auto simp: load_own_authority_snapshot_def result_simps snapshot_verify_for_account_iff dest: snap.decode_verified)

lemma load_peer_iff: "load_peer_authority_snapshot lib account d = Inr s \<longleftrightarrow>
    (\<exists>b. t_get (peer_snapshot_files d) account = Some b \<and> snapshot_decode_and_verify lib b = Inr s \<and> snapshot_account_id s = account)"
  by (auto simp: load_peer_authority_snapshot_def result_simps snapshot_verify_for_account_iff dest: snap.decode_verified)

lemma load_conversation_iff: "load_conversation_membership lib conv d = Inr m \<longleftrightarrow>
    (\<exists>b. t_get (device_membership_files d) conv = Some b \<and> membership_decode_and_verify lib b = Inr m \<and> membership_conversation_id m = conv)"
  by (auto simp: load_conversation_membership_def result_simps split: if_splits)

text \<open>C15. The trust of a Device never goes back: through any operations its certificate stays, its own
  account's snapshot and the pinned snapshot of each peer stay readable and are replaced only by ones
  of a higher revision of the same account, and the membership of a conversation only by one of a
  higher revision and the same owner that keeps every member.\<close>

theorem device_trust_never_rolls_back:
  assumes doc: "root_documented lib" and reach: "device_steps lib self empty_device_dir d" and later: "device_steps lib self d d'"
  shows "(load_certificate lib self d = Inr c \<longrightarrow> load_certificate lib self d' = Inr c)
    \<and> (load_own_authority_snapshot lib self d = Inr own \<longrightarrow> (\<exists>own'. load_own_authority_snapshot lib self d' = Inr own'
        \<and> (own' = own \<or> snapshot_revision own < snapshot_revision own')))
    \<and> (load_peer_authority_snapshot lib account d = Inr peer \<longrightarrow> (\<exists>peer'. load_peer_authority_snapshot lib account d' = Inr peer'
        \<and> (peer' = peer \<or> snapshot_revision peer < snapshot_revision peer')))
    \<and> (load_conversation_membership lib conv d = Inr m \<longrightarrow> (\<exists>m'. load_conversation_membership lib conv d' = Inr m'
        \<and> (m' = m \<or> membership_revision m < membership_revision m') \<and> membership_owner m' = membership_owner m
        \<and> set (membership_members m) \<subseteq> set (membership_members m')))"
proof (intro conjI impI)
  note valid = device_tables_valid [OF doc reach]
  show "load_certificate lib self d' = Inr c" if "load_certificate lib self d = Inr c"
    by (rule steps_kept [where K = "\<lambda>d. load_certificate lib self d = Inr c", OF later _ that]) (rule certificate_kept [OF doc])
  show "\<exists>own'. load_own_authority_snapshot lib self d' = Inr own' \<and> (own' = own \<or> snapshot_revision own < snapshot_revision own')"
    if "load_own_authority_snapshot lib self d = Inr own"
  proof -
    have "own_since lib self own d" using that snaps.since_decode by (fastforce simp: own_since_def load_own_iff)
    then have "own_since lib self own d'" by (rule steps_kept [where K = "own_since lib self own", OF later, rotated]) (rule own_kept [OF doc])
    then show ?thesis by (force simp: own_since_def file_since_def load_own_iff)
  qed
  show "\<exists>peer'. load_peer_authority_snapshot lib account d' = Inr peer' \<and> (peer' = peer \<or> snapshot_revision peer < snapshot_revision peer')"
    if "load_peer_authority_snapshot lib account d = Inr peer"
  proof -
    have "peer_since lib peer d" using that valid snaps.since_decode by (fastforce simp: peer_since_def load_peer_iff)
    then have "peer_since lib peer d'" by (rule steps_kept [where K = "peer_since lib peer", OF later, rotated]) (rule peer_kept [OF doc])
    with that show ?thesis by (force simp: peer_since_def file_since_def load_peer_iff)
  qed
  show "\<exists>m'. load_conversation_membership lib conv d' = Inr m' \<and> (m' = m \<or> membership_revision m < membership_revision m')
      \<and> membership_owner m' = membership_owner m \<and> set (membership_members m) \<subseteq> set (membership_members m')"
    if "load_conversation_membership lib conv d = Inr m"
  proof -
    have "member_since lib m d" using that valid members.since_decode by (fastforce simp: member_since_def load_conversation_iff)
    then have "member_since lib m d'" by (rule steps_kept [where K = "member_since lib m", OF later, rotated]) (rule member_kept [OF doc])
    then obtain b y where "t_get (device_membership_files d') (membership_conversation_id m) = Some b" "membership_decode_and_verify lib b = Inr y"
      "y = m \<or> membership_revision m < membership_revision y" "membership_owner m = membership_owner y"
      "set (membership_members m) \<subseteq> set (membership_members y)" "membership_conversation_id y = membership_conversation_id m"
      unfolding member_since_def file_since_def by blast
    moreover have "membership_conversation_id m = conv" using that by (auto simp: load_conversation_iff)
    ultimately show ?thesis by (intro exI [of _ y]) (auto simp: load_conversation_iff)
  qed
qed

theorem device_trust_never_rolls_back_witness:
  "\<exists>s s' d d'. pin_peer_authority_snapshot sample_ids s empty_device_dir = Inr (SnapshotInstalled, d)
    \<and> allocate_sequence d = Inr (0, d') \<and> load_peer_authority_snapshot sample_ids (snapshot_account_id s) d' = Inr s'
    \<and> snapshot_revision s \<le> snapshot_revision s'"
proof -
  obtain s where i: "snapshot_issue sample_ids [7] 2 [] = Inr s" by (rule sample_list)
  have v: "snapshot_verify sample_ids s = Inr ()" using snapshot_issue_verifies [OF sample_sig(1) i] by simp
  let ?d = "empty_device_dir\<lparr> peer_snapshot_files := [(snapshot_account_id s, snapshot_bytes s)] \<rparr>"
  have e: "snapshot_encode sample_ids s = Inr (snapshot_bytes s)"
    using v by (simp add: snap.encode_iff sample_identity_libs_with_def)
  then have p: "pin_peer_authority_snapshot sample_ids s empty_device_dir = Inr (SnapshotInstalled, ?d)"
    using v by (simp add: pin_peer_authority_snapshot_def store_authority_snapshot_def empty_device_dir_def t_get_def)
  define self where "self = \<lparr> self_device_id = [1], self_encryption_key = [9] \<rparr>"
  have reach: "device_steps sample_ids self empty_device_dir ?d" using p by (blast intro: step_peer)
  have l: "load_peer_authority_snapshot sample_ids (snapshot_account_id s) ?d = Inr s"
    using snapshot_encoded [OF sample_root_documented e] by (simp add: load_peer_iff t_get_def)
  have a: "allocate_sequence ?d = Inr (0, ?d\<lparr> next_sequence := Some (number_line 1) \<rparr>)"
    by (simp add: allocate_sequence_def allocate_sequence_from_def empty_device_dir_def u64_checked_add_def)
  then have "device_steps sample_ids self ?d (?d\<lparr> next_sequence := Some (number_line 1) \<rparr>)" by (blast intro: step_allocate)
  from device_trust_never_rolls_back [OF sample_root_documented reach this, where account = "snapshot_account_id s" and peer = s] l
  obtain s' where "load_peer_authority_snapshot sample_ids (snapshot_account_id s) (?d\<lparr> next_sequence := Some (number_line 1) \<rparr>) = Inr s'"
    "s' = s \<or> snapshot_revision s < snapshot_revision s'" by blast
  moreover from this(2) have "snapshot_revision s \<le> snapshot_revision s'" by auto
  ultimately show ?thesis using p a by blast
qed




end
