(* ===== verification/Events.thy ===== *)
theory Events
  imports Mailbox Identity_Authority Canonical_Wire
begin

text \<open>
  Events of a conversation (\<open>kilogram-protocol/src/lib.rs\<close>) with the parts of the ratchet crate their
  validation reads: the content of an event and its checks, the signature of its author Device, its id,
  and the event together with the certificate and the snapshot that authorise the author.
\<close>

section \<open>Constants and libraries\<close>

definition EVENT_VERSION :: u8 where "EVENT_VERSION = 5"
definition EVENT_SIGNATURE_DOMAIN :: bytes where
  "EVENT_SIGNATURE_DOMAIN = ascii ''kilogram:event-signature:v5'' @ [0]"
definition EVENT_ID_DOMAIN :: bytes where
  "EVENT_ID_DOMAIN = ascii ''kilogram:event-id:v5'' @ [0]"
definition RATCHET_IDENTITY_VERSION :: u8 where "RATCHET_IDENTITY_VERSION = 1"
definition CIPHERTEXT_VERSION :: u8 where "CIPHERTEXT_VERSION = 1"
definition RATCHET_IDENTITY_SIGNATURE_DOMAIN :: bytes where
  "RATCHET_IDENTITY_SIGNATURE_DOMAIN = ascii ''kilogram:ratchet-identity-signature:v1'' @ [0]"
definition MAX_RATCHET_CIPHERTEXT_BYTES :: nat where "MAX_RATCHET_CIPHERTEXT_BYTES = 128 * 1024"

section \<open>Data\<close>

record RatchetIdentityContent =
  ric_version :: u8
  ric_device_id :: bytes
  ric_curve25519_key :: bytes
  ric_ed25519_key :: bytes

record SignedRatchetIdentity =
  ri_content :: RatchetIdentityContent
  ri_signature :: bytes

record RatchetCiphertext =
  rc_version :: u8
  rc_message_type :: u8
  rc_ciphertext :: bytes

record RatchetRecipient =
  rr_device_id :: bytes
  rr_ciphertext :: RatchetCiphertext

datatype EventPayload =
    RatchetText AccountDeviceListSnapshot SignedRatchetIdentity "RatchetRecipient list"
  | Acknowledgement bytes

record EventContent =
  ec_version :: u8
  ec_conversation_id :: bytes
  ec_author_device_id :: bytes
  ec_author_sequence :: u64
  ec_parents :: "bytes list"
  ec_payload :: EventPayload

record SignedEvent =
  se_content :: EventContent
  se_signature :: bytes

record AuthorizedEvent =
  ae_event :: SignedEvent
  ae_certificate :: DeviceCertificate
  ae_snapshot :: AccountAuthoritySnapshot

abbreviation event_conversation_id :: "SignedEvent \<Rightarrow> bytes" where
  "event_conversation_id e \<equiv> ec_conversation_id (se_content e)"
abbreviation event_author_device_id :: "SignedEvent \<Rightarrow> bytes" where
  "event_author_device_id e \<equiv> ec_author_device_id (se_content e)"
abbreviation event_author_sequence :: "SignedEvent \<Rightarrow> u64" where
  "event_author_sequence e \<equiv> ec_author_sequence (se_content e)"

datatype ratchet_error =
    UnsupportedRatchetIdentityVersion u8 | RatchetIdentityError identity_error | RatchetEncoding
  | UnsupportedCiphertextVersion u8 | InvalidCiphertextLength nat | OlmDecodeError

datatype event_error =
    UnsupportedEventVersion u8 | TooManyParents nat | DuplicateParent | EncryptedRecipientIsAuthor bytes
  | EmptyRatchetRecipients | TooManyRatchetRecipients nat | DuplicateRatchetRecipient bytes
  | NonCanonicalRatchetRecipients | RatchetRecipientDeviceListMismatch | EventIsNotEncryptedText
  | MissingEncryptedRecipient bytes | RatchetIdentityAuthorMismatch | EventAuthorCertificateMismatch
  | EventConversationMembershipMismatch

datatype sync_error =
    UnsupportedSyncVersion u8 | SyncSessionMismatch | SyncResponderMismatch | TooManySyncEvents nat
  | TooManyInventoryEventIds nat | TooManySyncEventIds nat | DuplicateSyncEventId bytes
  | SyncConversationMismatch bytes | UnsupportedDeviceAuthorizationVersion u8
  | DeviceAuthorizationSessionMismatch | DeviceAuthorizationSignerMismatch
  | DeviceAuthorizationAccountMismatch bytes bytes | DeviceAuthorizationDeviceMismatch bytes bytes

datatype protocol_error =
    ProtocolEncoding
  | ProtocolIdentity identity_error
  | ProtocolRatchet ratchet_error
  | EventError event_error
  | SyncError sync_error

text \<open>BLAKE3, the parser of Olm messages, postcard at the types of events, and the order in which a hash
  map is iterated.\<close>

record event_libs = identity_libs +
  ev_blake3 :: "bytes \<Rightarrow> bytes"
  olm_from_parts_ok :: "nat \<Rightarrow> bytes \<Rightarrow> bool"
  pc_ratchet_identity_content :: "RatchetIdentityContent \<Rightarrow> bytes option"
  pc_event_content :: "EventContent \<Rightarrow> bytes option"
  pc_event :: "SignedEvent \<Rightarrow> bytes option"
  pc_event_from :: "bytes \<Rightarrow> SignedEvent option"
  pc_authorized :: "AuthorizedEvent \<Rightarrow> bytes option"
  pc_authorized_from :: "bytes \<Rightarrow> AuthorizedEvent option"
  hash_map_order :: "bytes list \<Rightarrow> bytes list"

section \<open>Ratchet objects\<close>

definition ratchet_identity_signing_bytes :: "'a event_libs_scheme \<Rightarrow> RatchetIdentityContent \<Rightarrow> ratchet_error + bytes" where
  "ratchet_identity_signing_bytes lib content =
     and_then (ok_or RatchetEncoding (pc_ratchet_identity_content lib content)) (\<lambda>encoded.
     Inr (RATCHET_IDENTITY_SIGNATURE_DOMAIN @ encoded))"

definition ratchet_identity_verify :: "'a event_libs_scheme \<Rightarrow> SignedRatchetIdentity \<Rightarrow> ratchet_error + unit" where
  "ratchet_identity_verify lib self =
     and_then (ensure (ric_version (ri_content self) = RATCHET_IDENTITY_VERSION)
       (UnsupportedRatchetIdentityVersion (ric_version (ri_content self)))) (\<lambda>_.
     and_then (ratchet_identity_signing_bytes lib (ri_content self)) (\<lambda>message.
     map_err RatchetIdentityError (device_id_verify lib (ric_device_id (ri_content self)) message (ri_signature self))))"

definition ratchet_ciphertext_validate :: "'a event_libs_scheme \<Rightarrow> RatchetCiphertext \<Rightarrow> ratchet_error + unit" where
  "ratchet_ciphertext_validate lib self =
     (if rc_version self \<noteq> CIPHERTEXT_VERSION then Inl (UnsupportedCiphertextVersion (rc_version self))
      else if rc_ciphertext self = [] \<or> length (rc_ciphertext self) > MAX_RATCHET_CIPHERTEXT_BYTES
      then Inl (InvalidCiphertextLength (length (rc_ciphertext self)))
      else ensure (olm_from_parts_ok lib (unat (rc_message_type self)) (rc_ciphertext self)) OlmDecodeError)"

section \<open>Events\<close>

definition check_recipient :: "'a event_libs_scheme \<Rightarrow> bytes \<Rightarrow> RatchetRecipient \<Rightarrow> protocol_error + unit" where
  "check_recipient lib author recipient =
     (if rr_device_id recipient = author then Inl (EventError (EncryptedRecipientIsAuthor (rr_device_id recipient)))
      else map_err ProtocolRatchet (ratchet_ciphertext_validate lib (rr_ciphertext recipient)))"

definition validate_ratchet_text
  :: "'a event_libs_scheme \<Rightarrow> bytes \<Rightarrow> AccountDeviceListSnapshot \<Rightarrow> SignedRatchetIdentity \<Rightarrow> RatchetRecipient list
      \<Rightarrow> protocol_error + unit" where
  "validate_ratchet_text lib author recipient_device_list sender_ratchet_identity recipients =
     and_then (map_err ProtocolRatchet (ratchet_identity_verify lib sender_ratchet_identity)) (\<lambda>_.
     if ric_device_id (ri_content sender_ratchet_identity) \<noteq> author then Inl (EventError RatchetIdentityAuthorMismatch)
     else and_then (map_err ProtocolIdentity (device_list_verify lib recipient_device_list)) (\<lambda>_.
     if recipients = [] then Inl (EventError EmptyRatchetRecipients)
     else if length recipients > MAX_ACCOUNT_DEVICES then Inl (EventError (TooManyRatchetRecipients (length recipients)))
     else and_then (for_each (check_recipient lib author) recipients) (\<lambda>_.
     and_then (windows2_each (ascending rr_device_id (\<lambda>first. EventError (DuplicateRatchetRecipient (rr_device_id first)))
       (EventError NonCanonicalRatchetRecipients)) recipients) (\<lambda>_.
     if length (list_devices recipient_device_list) \<noteq> length recipients
        \<or> list_ex (\<lambda>(certificate, recipient). certificate_device_id certificate \<noteq> rr_device_id recipient)
            (zip (list_devices recipient_device_list) recipients)
     then Inl (EventError RatchetRecipientDeviceListMismatch) else Inr ()))))"

definition validate_event_content :: "'a event_libs_scheme \<Rightarrow> EventContent \<Rightarrow> protocol_error + unit" where
  "validate_event_content lib content =
     (if ec_version content \<noteq> EVENT_VERSION then Inl (EventError (UnsupportedEventVersion (ec_version content)))
      else if length (ec_parents content) > MAX_PARENTS then Inl (EventError (TooManyParents (length (ec_parents content))))
      else if card (set (ec_parents content)) \<noteq> length (ec_parents content) then Inl (EventError DuplicateParent)
      else case ec_payload content of
        RatchetText recipient_device_list sender_ratchet_identity recipients \<Rightarrow>
          validate_ratchet_text lib (ec_author_device_id content) recipient_device_list sender_ratchet_identity recipients
      | Acknowledgement _ \<Rightarrow> Inr ())"

definition event_signing_bytes :: "'a event_libs_scheme \<Rightarrow> EventContent \<Rightarrow> protocol_error + bytes" where
  "event_signing_bytes lib content =
     and_then (ok_or ProtocolEncoding (pc_event_content lib content)) (\<lambda>encoded. Inr (EVENT_SIGNATURE_DOMAIN @ encoded))"

text \<open>\<open>identity\<close> is the signing key of a Device; its public key is the Device's id.\<close>

definition device_id_of :: "'a identity_libs_scheme \<Rightarrow> bytes \<Rightarrow> bytes" where
  "device_id_of lib identity = id_verifying_key lib identity"

definition event_sign :: "'a event_libs_scheme \<Rightarrow> bytes \<Rightarrow> EventContent \<Rightarrow> protocol_error + SignedEvent" where
  "event_sign lib identity content =
     and_then (validate_event_content lib content) (\<lambda>_.
     and_then (event_signing_bytes lib content) (\<lambda>message.
     Inr \<lparr> se_content = content, se_signature = id_sign lib identity message \<rparr>))"

definition sign_ratchet_text
  :: "'a event_libs_scheme \<Rightarrow> bytes \<Rightarrow> bytes \<Rightarrow> u64 \<Rightarrow> bytes list \<Rightarrow> AccountDeviceListSnapshot \<Rightarrow> SignedRatchetIdentity
      \<Rightarrow> RatchetRecipient list \<Rightarrow> protocol_error + SignedEvent" where
  "sign_ratchet_text lib identity conversation_id author_sequence parents recipient_device_list sender_ratchet_identity recipients =
     event_sign lib identity \<lparr> ec_version = EVENT_VERSION, ec_conversation_id = conversation_id,
       ec_author_device_id = device_id_of lib identity, ec_author_sequence = author_sequence, ec_parents = parents,
       ec_payload = RatchetText recipient_device_list sender_ratchet_identity (sort_key rr_device_id recipients) \<rparr>"

definition sign_acknowledgement
  :: "'a event_libs_scheme \<Rightarrow> bytes \<Rightarrow> bytes \<Rightarrow> u64 \<Rightarrow> bytes list \<Rightarrow> bytes \<Rightarrow> protocol_error + SignedEvent" where
  "sign_acknowledgement lib identity conversation_id author_sequence parents acknowledged_event_id =
     event_sign lib identity \<lparr> ec_version = EVENT_VERSION, ec_conversation_id = conversation_id,
       ec_author_device_id = device_id_of lib identity, ec_author_sequence = author_sequence, ec_parents = parents,
       ec_payload = Acknowledgement acknowledged_event_id \<rparr>"

definition event_verify :: "'a event_libs_scheme \<Rightarrow> SignedEvent \<Rightarrow> protocol_error + unit" where
  "event_verify lib self =
     and_then (validate_event_content lib (se_content self)) (\<lambda>_.
     and_then (event_signing_bytes lib (se_content self)) (\<lambda>message.
     map_err ProtocolIdentity (device_id_verify lib (event_author_device_id self) message (se_signature self))))"

definition event_encode :: "'a event_libs_scheme \<Rightarrow> SignedEvent \<Rightarrow> protocol_error + bytes" where
  "event_encode lib self = ok_or ProtocolEncoding (pc_event lib self)"

definition event_decode_and_verify :: "'a event_libs_scheme \<Rightarrow> bytes \<Rightarrow> protocol_error + SignedEvent" where
  "event_decode_and_verify lib bytes =
     and_then (ok_or ProtocolEncoding (pc_event_from lib bytes)) (\<lambda>event.
     and_then (event_verify lib event) (\<lambda>_. Inr event))"

definition event_id :: "'a event_libs_scheme \<Rightarrow> SignedEvent \<Rightarrow> protocol_error + bytes" where
  "event_id lib self = and_then (event_encode lib self) (\<lambda>encoded. Inr (ev_blake3 lib (EVENT_ID_DOMAIN @ encoded)))"

definition recipient_new :: "'a event_libs_scheme \<Rightarrow> bytes \<Rightarrow> RatchetCiphertext \<Rightarrow> protocol_error + RatchetRecipient" where
  "recipient_new lib device_id message =
     and_then (map_err ProtocolRatchet (ratchet_ciphertext_validate lib message)) (\<lambda>_.
     Inr \<lparr> rr_device_id = device_id, rr_ciphertext = message \<rparr>)"

definition ratchet_recipients :: "SignedEvent \<Rightarrow> protocol_error + RatchetRecipient list" where
  "ratchet_recipients self = (case ec_payload (se_content self) of
     RatchetText _ _ recipients \<Rightarrow> Inr recipients
   | Acknowledgement _ \<Rightarrow> Inl (EventError EventIsNotEncryptedText))"

definition event_recipient_device_list :: "SignedEvent \<Rightarrow> protocol_error + AccountDeviceListSnapshot" where
  "event_recipient_device_list self = (case ec_payload (se_content self) of
     RatchetText recipient_device_list _ _ \<Rightarrow> Inr recipient_device_list
   | Acknowledgement _ \<Rightarrow> Inl (EventError EventIsNotEncryptedText))"

text \<open>The message of one recipient Device.\<close>

definition ratchet_message_for :: "SignedEvent \<Rightarrow> bytes \<Rightarrow> protocol_error + SignedRatchetIdentity \<times> RatchetCiphertext" where
  "ratchet_message_for self recipient_device_id = (case ec_payload (se_content self) of
     RatchetText _ sender_ratchet_identity recipients \<Rightarrow>
       (case binary_search (map rr_device_id recipients) recipient_device_id 0 (length recipients) of
          None \<Rightarrow> Inl (EventError (MissingEncryptedRecipient recipient_device_id))
        | Some index \<Rightarrow> Inr (sender_ratchet_identity, rr_ciphertext (recipients ! index)))
   | Acknowledgement _ \<Rightarrow> Inl (EventError EventIsNotEncryptedText))"

section \<open>Authorised events\<close>

definition verify_author :: "'a event_libs_scheme \<Rightarrow> AuthorizedEvent \<Rightarrow> protocol_error + unit" where
  "verify_author lib self =
     and_then (event_verify lib (ae_event self)) (\<lambda>_.
     if certificate_device_id (ae_certificate self) \<noteq> event_author_device_id (ae_event self)
     then Inl (EventError EventAuthorCertificateMismatch)
     else and_then (map_err ProtocolIdentity (verify_device_authorization_with_snapshot lib
         (certificate_account_id (ae_certificate self)) (ae_certificate self) (ae_snapshot self) [CapSignEvents])) (\<lambda>_. Inr ()))"

definition authorized_new
  :: "'a event_libs_scheme \<Rightarrow> SignedEvent \<Rightarrow> DeviceCertificate \<Rightarrow> AccountAuthoritySnapshot \<Rightarrow> protocol_error + AuthorizedEvent" where
  "authorized_new lib event author_certificate author_authority_snapshot =
     (let authorized = \<lparr> ae_event = event, ae_certificate = author_certificate, ae_snapshot = author_authority_snapshot \<rparr> in
      and_then (verify_author lib authorized) (\<lambda>_. Inr authorized))"

definition authorized_encode :: "'a event_libs_scheme \<Rightarrow> AuthorizedEvent \<Rightarrow> protocol_error + bytes" where
  "authorized_encode lib self = and_then (verify_author lib self) (\<lambda>_. ok_or ProtocolEncoding (pc_authorized lib self))"

definition decode_and_verify_author :: "'a event_libs_scheme \<Rightarrow> bytes \<Rightarrow> protocol_error + AuthorizedEvent" where
  "decode_and_verify_author lib bytes =
     and_then (ok_or ProtocolEncoding (pc_authorized_from lib bytes)) (\<lambda>event.
     and_then (verify_author lib event) (\<lambda>_. Inr event))"

text \<open>A conversation id and its scope id are the same 32 bytes.\<close>

definition verify_for_membership
  :: "'a event_libs_scheme \<Rightarrow> ConversationMembershipSnapshot \<Rightarrow> AuthorizedEvent \<Rightarrow> protocol_error + unit" where
  "verify_for_membership lib membership self =
     and_then (verify_author lib self) (\<lambda>_.
     if membership_conversation_id membership \<noteq> event_conversation_id (ae_event self)
     then Inl (EventError EventConversationMembershipMismatch)
     else map_err ProtocolIdentity (require_member lib membership (certificate_account_id (ae_certificate self))))"

section \<open>Facts\<close>

interpretation evt: signed_object "id_ed lib" se_content se_signature "validate_event_content lib" "event_signing_bytes lib"
  ec_author_device_id "\<lambda>k m s. map_err ProtocolIdentity (device_id_verify lib k m s)" "event_verify lib"
  for lib :: "'a event_libs_scheme"
  by unfold_locales (simp_all add: map_err_Inr device_id_verify_iff event_verify_def)

end
