(* ===== verification/Sync_Wire.thy ===== *)
theory Sync_Wire
  imports Events
begin

text \<open>
  The messages of a synchronisation session (\<open>kilogram-protocol/src/wire.rs\<close>): the authorisation of a
  Device for a session, the signed inventory of the requester, the signed difference of the responder,
  the batch of events and the completion, with the checks each of them carries.
\<close>

section \<open>Constants and data\<close>

definition MAX_SYNC_EVENTS_PER_BATCH :: nat where "MAX_SYNC_EVENTS_PER_BATCH = 64"
definition SYNC_VERSION :: u8 where "SYNC_VERSION = 6"
definition SYNC_DIFF_SIGNATURE_DOMAIN :: bytes where
  "SYNC_DIFF_SIGNATURE_DOMAIN = ascii ''kilogram:sync-diff-signature:v6'' @ [0]"
definition SYNC_INVENTORY_SIGNATURE_DOMAIN :: bytes where
  "SYNC_INVENTORY_SIGNATURE_DOMAIN = ascii ''kilogram:sync-inventory-signature:v6'' @ [0]"
definition SYNC_SESSION_DOMAIN :: bytes where
  "SYNC_SESSION_DOMAIN = ascii ''kilogram:sync-session:v1'' @ [0]"
definition DEVICE_AUTHORIZATION_VERSION :: u8 where "DEVICE_AUTHORIZATION_VERSION = 6"
definition DEVICE_AUTHORIZATION_SIGNATURE_DOMAIN :: bytes where
  "DEVICE_AUTHORIZATION_SIGNATURE_DOMAIN = ascii ''kilogram:device-session-authorization-signature:v6'' @ [0]"

record DeviceSessionAuthorizationContent =
  dsa_version :: u8
  dsa_session_binding :: bytes
  dsa_certificate :: DeviceCertificate
  dsa_authority_snapshot :: AccountAuthoritySnapshot

record SignedDeviceSessionAuthorization =
  da_content :: DeviceSessionAuthorizationContent
  da_signature :: bytes

record DeviceAuthorizationAccepted =
  daa_version :: u8
  daa_session_binding :: bytes
  daa_account_id :: bytes
  daa_device_id :: bytes

record SyncInventoryContent =
  sic_version :: u8
  sic_conversation_id :: bytes
  sic_requester_device_id :: bytes
  sic_session_binding :: bytes
  sic_event_ids :: "bytes list"

record SignedSyncInventory =
  si_content :: SyncInventoryContent
  si_signature :: bytes

record SyncEventBatch =
  sb_version :: u8
  sb_conversation_id :: bytes
  sb_events :: "AuthorizedEvent list"

record SyncDiffContent =
  sdc_version :: u8
  sdc_conversation_id :: bytes
  sdc_responder_device_id :: bytes
  sdc_session_binding :: bytes
  sdc_requested_event_ids :: "bytes list"
  sdc_events :: "AuthorizedEvent list"
  sdc_more_available :: bool

record SyncDiff =
  sd_content :: SyncDiffContent
  sd_signature :: bytes

record SyncComplete =
  sc_version :: u8
  sc_conversation_id :: bytes
  sc_stored_event_ids :: "bytes list"
  sc_more_available :: bool

datatype SyncRejectionReason = RequesterNotAllowed

record SyncRejected =
  sr_version :: u8
  sr_conversation_id :: bytes
  sr_reason :: SyncRejectionReason

record DeviceAuthorizationRejected =
  dar_version :: u8

record SyncPause =
  spa_version :: u8
  spa_conversation_id :: bytes

record SyncPaused =
  spd_version :: u8
  spd_conversation_id :: bytes

record sync_libs = event_libs +
  pc_session_authorization :: "DeviceSessionAuthorizationContent \<Rightarrow> bytes option"
  pc_inventory_content :: "SyncInventoryContent \<Rightarrow> bytes option"
  pc_diff_content :: "SyncDiffContent \<Rightarrow> bytes option"

section \<open>Checks\<close>

definition validate_version :: "u8 \<Rightarrow> protocol_error + unit" where
  "validate_version version = ensure (version = SYNC_VERSION) (SyncError (UnsupportedSyncVersion version))"

text \<open>\<open>HashSet::insert\<close> in a loop: the first repeated id is the error.\<close>

fun insert_all :: "bytes set \<Rightarrow> bytes list \<Rightarrow> protocol_error + unit" where
  "insert_all seen [] = Inr ()"
| "insert_all seen (i # rest) =
     (if i \<in> seen then Inl (SyncError (DuplicateSyncEventId i)) else insert_all (insert i seen) rest)"

definition validate_event_ids :: "bytes list \<Rightarrow> nat \<Rightarrow> protocol_error + unit" where
  "validate_event_ids event_ids maximum =
     (if length event_ids > maximum
      then Inl (SyncError (if maximum = MAX_INVENTORY_EVENT_IDS then TooManyInventoryEventIds (length event_ids)
             else TooManySyncEventIds (length event_ids)))
      else insert_all {} event_ids)"

fun validate_each_event :: "'a event_libs_scheme \<Rightarrow> bytes \<Rightarrow> bytes set \<Rightarrow> AuthorizedEvent list \<Rightarrow> protocol_error + unit" where
  "validate_each_event lib conversation_id seen [] = Inr ()"
| "validate_each_event lib conversation_id seen (event # rest) =
     and_then (verify_author lib event) (\<lambda>_.
     and_then (event_id lib (ae_event event)) (\<lambda>id.
     if event_conversation_id (ae_event event) \<noteq> conversation_id then Inl (SyncError (SyncConversationMismatch id))
     else if id \<in> seen then Inl (SyncError (DuplicateSyncEventId id))
     else validate_each_event lib conversation_id (insert id seen) rest))"

definition validate_events :: "'a event_libs_scheme \<Rightarrow> bytes \<Rightarrow> AuthorizedEvent list \<Rightarrow> protocol_error + unit" where
  "validate_events lib conversation_id events =
     (if length events > MAX_SYNC_EVENTS_PER_BATCH then Inl (SyncError (TooManySyncEvents (length events)))
      else validate_each_event lib conversation_id {} events)"

section \<open>Session authorisation\<close>

definition from_transport_label :: "'a event_libs_scheme \<Rightarrow> bytes \<Rightarrow> bytes" where
  "from_transport_label lib label = ev_blake3 lib (SYNC_SESSION_DOMAIN @ label)"

definition validate_device_authorization_version :: "u8 \<Rightarrow> protocol_error + unit" where
  "validate_device_authorization_version version =
     ensure (version = DEVICE_AUTHORIZATION_VERSION) (SyncError (UnsupportedDeviceAuthorizationVersion version))"

definition device_authorization_signing_bytes :: "'a sync_libs_scheme \<Rightarrow> DeviceSessionAuthorizationContent \<Rightarrow> protocol_error + bytes" where
  "device_authorization_signing_bytes lib content =
     and_then (ok_or ProtocolEncoding (pc_session_authorization lib content)) (\<lambda>encoded.
     Inr (DEVICE_AUTHORIZATION_SIGNATURE_DOMAIN @ encoded))"

definition session_authorization_sign
  :: "'a sync_libs_scheme \<Rightarrow> bytes \<Rightarrow> DeviceCertificate \<Rightarrow> AccountAuthoritySnapshot \<Rightarrow> bytes
      \<Rightarrow> protocol_error + SignedDeviceSessionAuthorization" where
  "session_authorization_sign lib identity certificate authority_snapshot session_binding =
     and_then (map_err ProtocolIdentity (certificate_verify lib certificate)) (\<lambda>_.
     and_then (map_err ProtocolIdentity
       (snapshot_verify_for_account lib authority_snapshot (certificate_account_id certificate))) (\<lambda>_.
     if certificate_device_id certificate \<noteq> device_id_of lib identity then Inl (SyncError DeviceAuthorizationSignerMismatch)
     else let content = \<lparr> dsa_version = DEVICE_AUTHORIZATION_VERSION, dsa_session_binding = session_binding,
            dsa_certificate = certificate, dsa_authority_snapshot = authority_snapshot \<rparr> in
       and_then (device_authorization_signing_bytes lib content) (\<lambda>message.
       Inr \<lparr> da_content = content, da_signature = id_sign lib identity message \<rparr>)))"

definition session_authorization_check :: "'a sync_libs_scheme \<Rightarrow> DeviceSessionAuthorizationContent \<Rightarrow> protocol_error + unit" where
  "session_authorization_check lib content =
     and_then (validate_device_authorization_version (dsa_version content)) (\<lambda>_.
     and_then (map_err ProtocolIdentity (certificate_verify lib (dsa_certificate content))) (\<lambda>_.
     map_err ProtocolIdentity (snapshot_verify_for_account lib (dsa_authority_snapshot content)
       (certificate_account_id (dsa_certificate content)))))"

definition session_authorization_verify_signature
  :: "'a sync_libs_scheme \<Rightarrow> SignedDeviceSessionAuthorization \<Rightarrow> protocol_error + unit" where
  "session_authorization_verify_signature lib self =
     and_then (session_authorization_check lib (da_content self)) (\<lambda>_.
     and_then (device_authorization_signing_bytes lib (da_content self)) (\<lambda>message.
     map_err ProtocolIdentity (device_id_verify lib (certificate_device_id (dsa_certificate (da_content self)))
       message (da_signature self))))"

definition session_authorization_verify_for_session
  :: "'a sync_libs_scheme \<Rightarrow> SignedDeviceSessionAuthorization \<Rightarrow> bytes \<Rightarrow> protocol_error + unit" where
  "session_authorization_verify_for_session lib self expected_session =
     and_then (session_authorization_verify_signature lib self) (\<lambda>_.
     ensure (dsa_session_binding (da_content self) = expected_session) (SyncError DeviceAuthorizationSessionMismatch))"

definition accepted_new :: "bytes \<Rightarrow> bytes \<Rightarrow> bytes \<Rightarrow> DeviceAuthorizationAccepted" where
  "accepted_new session_binding account_id device_id = \<lparr> daa_version = DEVICE_AUTHORIZATION_VERSION,
     daa_session_binding = session_binding, daa_account_id = account_id, daa_device_id = device_id \<rparr>"

definition accepted_verify :: "DeviceAuthorizationAccepted \<Rightarrow> bytes \<Rightarrow> bytes \<Rightarrow> bytes \<Rightarrow> protocol_error + unit" where
  "accepted_verify self expected_session expected_account expected_device =
     and_then (validate_device_authorization_version (daa_version self)) (\<lambda>_.
     if daa_session_binding self \<noteq> expected_session then Inl (SyncError DeviceAuthorizationSessionMismatch)
     else if daa_account_id self \<noteq> expected_account
     then Inl (SyncError (DeviceAuthorizationAccountMismatch expected_account (daa_account_id self)))
     else if daa_device_id self \<noteq> expected_device
     then Inl (SyncError (DeviceAuthorizationDeviceMismatch expected_device (daa_device_id self)))
     else Inr ())"

definition device_authorization_rejected_new :: DeviceAuthorizationRejected where
  "device_authorization_rejected_new = \<lparr> dar_version = DEVICE_AUTHORIZATION_VERSION \<rparr>"

definition device_authorization_rejected_validate :: "DeviceAuthorizationRejected \<Rightarrow> protocol_error + unit" where
  "device_authorization_rejected_validate self = validate_device_authorization_version (dar_version self)"

section \<open>Inventories\<close>

definition inventory_signing_bytes :: "'a sync_libs_scheme \<Rightarrow> SyncInventoryContent \<Rightarrow> protocol_error + bytes" where
  "inventory_signing_bytes lib content =
     and_then (ok_or ProtocolEncoding (pc_inventory_content lib content)) (\<lambda>encoded. Inr (SYNC_INVENTORY_SIGNATURE_DOMAIN @ encoded))"

definition validate_inventory_content :: "SyncInventoryContent \<Rightarrow> protocol_error + unit" where
  "validate_inventory_content content =
     and_then (validate_version (sic_version content)) (\<lambda>_. validate_event_ids (sic_event_ids content) MAX_INVENTORY_EVENT_IDS)"

definition inventory_sign :: "'a sync_libs_scheme \<Rightarrow> bytes \<Rightarrow> bytes \<Rightarrow> bytes \<Rightarrow> bytes list \<Rightarrow> protocol_error + SignedSyncInventory" where
  "inventory_sign lib identity conversation_id session_binding event_ids =
     (let content = \<lparr> sic_version = SYNC_VERSION, sic_conversation_id = conversation_id,
        sic_requester_device_id = device_id_of lib identity, sic_session_binding = session_binding,
        sic_event_ids = sort_key write_hex event_ids \<rparr> in
      and_then (validate_inventory_content content) (\<lambda>_.
      and_then (inventory_signing_bytes lib content) (\<lambda>message.
      Inr \<lparr> si_content = content, si_signature = id_sign lib identity message \<rparr>)))"

definition inventory_verify_signature :: "'a sync_libs_scheme \<Rightarrow> SignedSyncInventory \<Rightarrow> protocol_error + unit" where
  "inventory_verify_signature lib self =
     and_then (validate_inventory_content (si_content self)) (\<lambda>_.
     and_then (inventory_signing_bytes lib (si_content self)) (\<lambda>message.
     map_err ProtocolIdentity (device_id_verify lib (sic_requester_device_id (si_content self)) message (si_signature self))))"

definition inventory_verify_for_session :: "'a sync_libs_scheme \<Rightarrow> SignedSyncInventory \<Rightarrow> bytes \<Rightarrow> protocol_error + unit" where
  "inventory_verify_for_session lib self expected_session =
     and_then (inventory_verify_signature lib self) (\<lambda>_.
     ensure (sic_session_binding (si_content self) = expected_session) (SyncError SyncSessionMismatch))"

section \<open>Batches, differences and completions\<close>

definition batch_validate :: "'a event_libs_scheme \<Rightarrow> SyncEventBatch \<Rightarrow> protocol_error + unit" where
  "batch_validate lib self =
     and_then (validate_version (sb_version self)) (\<lambda>_. validate_events lib (sb_conversation_id self) (sb_events self))"

definition batch_new :: "'a event_libs_scheme \<Rightarrow> bytes \<Rightarrow> AuthorizedEvent list \<Rightarrow> protocol_error + SyncEventBatch" where
  "batch_new lib conversation_id events =
     (let batch = \<lparr> sb_version = SYNC_VERSION, sb_conversation_id = conversation_id, sb_events = events \<rparr> in
      and_then (batch_validate lib batch) (\<lambda>_. Inr batch))"

definition sync_diff_signing_bytes :: "'a sync_libs_scheme \<Rightarrow> SyncDiffContent \<Rightarrow> protocol_error + bytes" where
  "sync_diff_signing_bytes lib content =
     and_then (ok_or ProtocolEncoding (pc_diff_content lib content)) (\<lambda>encoded. Inr (SYNC_DIFF_SIGNATURE_DOMAIN @ encoded))"

definition validate_sync_diff_content :: "'a event_libs_scheme \<Rightarrow> SyncDiffContent \<Rightarrow> protocol_error + unit" where
  "validate_sync_diff_content lib content =
     and_then (validate_version (sdc_version content)) (\<lambda>_.
     and_then (validate_event_ids (sdc_requested_event_ids content) MAX_SYNC_EVENTS_PER_BATCH) (\<lambda>_.
     validate_events lib (sdc_conversation_id content) (sdc_events content)))"

definition diff_sign
  :: "'a sync_libs_scheme \<Rightarrow> bytes \<Rightarrow> bytes \<Rightarrow> bytes \<Rightarrow> bytes list \<Rightarrow> AuthorizedEvent list \<Rightarrow> bool \<Rightarrow> protocol_error + SyncDiff" where
  "diff_sign lib identity conversation_id session_binding requested_event_ids events more_available =
     (let content = \<lparr> sdc_version = SYNC_VERSION, sdc_conversation_id = conversation_id,
        sdc_responder_device_id = device_id_of lib identity, sdc_session_binding = session_binding,
        sdc_requested_event_ids = requested_event_ids, sdc_events = events, sdc_more_available = more_available \<rparr> in
      and_then (validate_sync_diff_content lib content) (\<lambda>_.
      and_then (sync_diff_signing_bytes lib content) (\<lambda>message.
      Inr \<lparr> sd_content = content, sd_signature = id_sign lib identity message \<rparr>)))"

definition diff_verify_signature :: "'a sync_libs_scheme \<Rightarrow> SyncDiff \<Rightarrow> protocol_error + unit" where
  "diff_verify_signature lib self =
     and_then (validate_sync_diff_content lib (sd_content self)) (\<lambda>_.
     and_then (sync_diff_signing_bytes lib (sd_content self)) (\<lambda>message.
     map_err ProtocolIdentity (device_id_verify lib (sdc_responder_device_id (sd_content self)) message (sd_signature self))))"

definition diff_verify_for_session :: "'a sync_libs_scheme \<Rightarrow> SyncDiff \<Rightarrow> bytes \<Rightarrow> bytes \<Rightarrow> protocol_error + unit" where
  "diff_verify_for_session lib self expected_session expected_responder =
     and_then (diff_verify_signature lib self) (\<lambda>_.
     if sdc_session_binding (sd_content self) \<noteq> expected_session then Inl (SyncError SyncSessionMismatch)
     else ensure (sdc_responder_device_id (sd_content self) = expected_responder) (SyncError SyncResponderMismatch))"

definition complete_validate :: "SyncComplete \<Rightarrow> protocol_error + unit" where
  "complete_validate self =
     and_then (validate_version (sc_version self)) (\<lambda>_. validate_event_ids (sc_stored_event_ids self) MAX_SYNC_EVENTS_PER_BATCH)"

definition complete_new :: "bytes \<Rightarrow> bytes list \<Rightarrow> bool \<Rightarrow> protocol_error + SyncComplete" where
  "complete_new conversation_id stored_event_ids more_available =
     (let complete = \<lparr> sc_version = SYNC_VERSION, sc_conversation_id = conversation_id,
        sc_stored_event_ids = stored_event_ids, sc_more_available = more_available \<rparr> in
      and_then (complete_validate complete) (\<lambda>_. Inr complete))"

definition sync_rejected_new :: "bytes \<Rightarrow> SyncRejectionReason \<Rightarrow> SyncRejected" where
  "sync_rejected_new conversation_id reason = \<lparr> sr_version = SYNC_VERSION, sr_conversation_id = conversation_id, sr_reason = reason \<rparr>"

definition sync_rejected_validate :: "SyncRejected \<Rightarrow> protocol_error + unit" where
  "sync_rejected_validate self = validate_version (sr_version self)"

definition sync_pause_new :: "bytes \<Rightarrow> SyncPause" where
  "sync_pause_new conversation_id = \<lparr> spa_version = SYNC_VERSION, spa_conversation_id = conversation_id \<rparr>"

definition sync_pause_validate :: "SyncPause \<Rightarrow> protocol_error + unit" where
  "sync_pause_validate self = validate_version (spa_version self)"

definition sync_paused_new :: "bytes \<Rightarrow> SyncPaused" where
  "sync_paused_new conversation_id = \<lparr> spd_version = SYNC_VERSION, spd_conversation_id = conversation_id \<rparr>"

definition sync_paused_validate :: "SyncPaused \<Rightarrow> protocol_error + unit" where
  "sync_paused_validate self = validate_version (spd_version self)"

section \<open>Facts\<close>

lemma insert_all_Inr [result_simps]: "insert_all seen ids = Inr u \<longleftrightarrow> distinct ids \<and> set ids \<inter> seen = {}"
  by (induction seen ids rule: insert_all.induct) auto

lemma validate_event_ids_Inr [result_simps]:
  "validate_event_ids ids n = Inr u \<longleftrightarrow> length ids \<le> n \<and> distinct ids"
  by (auto simp: validate_event_ids_def result_simps)

lemma validate_each_event_Inr:
  "validate_each_event lib cid seen es = Inr u \<longleftrightarrow>
     (\<exists>ids. list_all2 (\<lambda>e i. event_id lib (ae_event e) = Inr i) es ids \<and> distinct ids \<and> set ids \<inter> seen = {})
     \<and> (\<forall>e \<in> set es. verify_author lib e = Inr () \<and> event_conversation_id (ae_event e) = cid)"
proof (induction es arbitrary: seen)
  case (Cons e es)
  show ?case
  proof (cases "event_id lib (ae_event e)")
    case (Inl x)
    then show ?thesis by (auto simp: result_simps list_all2_Cons1)
  next
    case (Inr i)
    have ids: "(\<exists>ids. list_all2 (\<lambda>e i. event_id lib (ae_event e) = Inr i) (e # es) ids \<and> distinct ids \<and> set ids \<inter> seen = {})
        \<longleftrightarrow> i \<notin> seen \<and> (\<exists>ids. list_all2 (\<lambda>e i. event_id lib (ae_event e) = Inr i) es ids \<and> distinct ids \<and> set ids \<inter> insert i seen = {})"
      apply (auto simp: Inr list_all2_Cons1)
      subgoal for ids by (rule exI [of _ "i # ids"]) simp
      done
    show ?thesis unfolding ids validate_each_event.simps Inr and_then_simps
      using Cons.IH [of "insert i seen"] by (cases "verify_author lib e") simp_all
  qed
qed simp

lemma validate_events_Inr [result_simps]:
  "validate_events lib cid es = Inr u \<longleftrightarrow> length es \<le> MAX_SYNC_EVENTS_PER_BATCH
     \<and> (\<exists>ids. try_map (\<lambda>e. event_id lib (ae_event e)) es = Inr ids \<and> distinct ids)
     \<and> (\<forall>e \<in> set es. verify_author lib e = Inr () \<and> event_conversation_id (ae_event e) = cid)"
  by (auto simp: validate_events_def validate_each_event_Inr try_map_all2)

interpretation invt: signed_object "id_ed lib" si_content si_signature validate_inventory_content "inventory_signing_bytes lib"
  sic_requester_device_id "\<lambda>k m s. map_err ProtocolIdentity (device_id_verify lib k m s)" "inventory_verify_signature lib"
  for lib :: "'a sync_libs_scheme"
  by unfold_locales (simp_all add: map_err_Inr device_id_verify_iff inventory_verify_signature_def)

interpretation sdif: signed_object "id_ed lib" sd_content sd_signature "validate_sync_diff_content lib" "sync_diff_signing_bytes lib"
  sdc_responder_device_id "\<lambda>k m s. map_err ProtocolIdentity (device_id_verify lib k m s)" "diff_verify_signature lib"
  for lib :: "'a sync_libs_scheme"
  by unfold_locales (simp_all add: map_err_Inr device_id_verify_iff diff_verify_signature_def)

interpretation dsau: signed_object "id_ed lib" da_content da_signature "session_authorization_check lib"
  "device_authorization_signing_bytes lib" "\<lambda>c. certificate_device_id (dsa_certificate c)"
  "\<lambda>k m s. map_err ProtocolIdentity (device_id_verify lib k m s)" "session_authorization_verify_signature lib"
  for lib :: "'a sync_libs_scheme"
  by unfold_locales (simp_all add: map_err_Inr device_id_verify_iff session_authorization_verify_signature_def)

end
