(* ===== verification/Event_Store.thy ===== *)
theory Event_Store
  imports Sync_Wire Ordered_Table
begin

text \<open>
  The append-only store of the events of conversations (\<open>EventStore\<close> of \<open>kilogram-store/src/lib.rs\<close>): a
  directory per conversation with one \<open>.event\<close> file per event and one \<open>.authorization\<close> file per authorised
  event, named by the hexadecimal id. A directory is a table from file stems to contents; the operations
  read and update the table of directories, and a failed operation keeps the files it has written. Errors
  of the file system other than a missing directory are not modelled.
\<close>

section \<open>Data\<close>

record StoredEvent =
  st_id :: bytes
  st_event :: SignedEvent

record StoredAuthorizedEvent =
  sa_id :: bytes
  sa_event :: AuthorizedEvent

datatype StoreOutcome = EventInserted | EventAlreadyPresent

datatype event_store_error =
    StoreIo
  | StoreProtocol protocol_error
  | WriterSequenceConflict bytes u64 bytes bytes
  | ImmutableEventConflict bytes
  | ImmutableEventAuthorizationConflict bytes
  | InvalidStoredEvent bytes protocol_error
  | EventFileNameMismatch bytes bytes
  | ConversationDirectoryMismatch bytes bytes bytes
  | DuplicateWriterSequence bytes bytes u64
  | ConversationMembershipMismatch bytes bytes
  | EventAuthorizationMissing bytes
  | InvalidStoredAuthorization bytes protocol_error
  | EventAuthorizationMismatch bytes
  | RequestedEventMissing bytes bytes

record ConversationDirectory =
  event_files :: "bytes table"
  authorization_files :: "bytes table"

type_synonym event_store = "ConversationDirectory table"
type_synonym 'r event_store_op = "(event_store, event_store_error, 'r) op"

definition event_store_open :: event_store where
  "event_store_open = []"

definition conversation_directory :: "bytes \<Rightarrow> bytes" where
  "conversation_directory conversation_id = write_hex conversation_id"

definition event_path :: "bytes \<Rightarrow> bytes \<Rightarrow> bytes" where
  "event_path conversation_id eid = conversation_directory conversation_id @ ascii ''/'' @ write_hex eid @ ascii ''.event''"

definition authorization_path :: "bytes \<Rightarrow> bytes \<Rightarrow> bytes" where
  "authorization_path conversation_id eid = conversation_directory conversation_id @ ascii ''/'' @ write_hex eid @ ascii ''.authorization''"

definition event_at :: "bytes \<Rightarrow> bytes \<Rightarrow> event_store \<Rightarrow> bytes option" where
  "event_at conversation_id eid store =
     Option.bind (t_get store (conversation_directory conversation_id)) (\<lambda>d. t_get (event_files d) (write_hex eid))"

definition authorization_at :: "bytes \<Rightarrow> bytes \<Rightarrow> event_store \<Rightarrow> bytes option" where
  "authorization_at conversation_id eid store =
     Option.bind (t_get store (conversation_directory conversation_id)) (\<lambda>d. t_get (authorization_files d) (write_hex eid))"

definition create_directory :: "bytes \<Rightarrow> unit event_store_op" where
  "create_directory conversation_id store = (Inr (), case t_get store (conversation_directory conversation_id) of
     Some _ \<Rightarrow> store
   | None \<Rightarrow> t_insert (conversation_directory conversation_id) \<lparr> event_files = [], authorization_files = [] \<rparr> store)"

section \<open>Files\<close>

definition validate_existing_event :: "bytes \<Rightarrow> bytes \<Rightarrow> bytes \<Rightarrow> event_store_error + StoreOutcome" where
  "validate_existing_event actual expected eid =
     (if actual = expected then Inr EventAlreadyPresent else Inl (ImmutableEventConflict eid))"

definition persist_event :: "bytes \<Rightarrow> bytes \<Rightarrow> bytes \<Rightarrow> StoreOutcome event_store_op" where
  "persist_event conversation_id encoded eid store = (case t_get store (conversation_directory conversation_id) of
     None \<Rightarrow> (Inl StoreIo, store)
   | Some d \<Rightarrow> (case t_get (event_files d) (write_hex eid) of
        Some actual \<Rightarrow> (validate_existing_event actual encoded eid, store)
      | None \<Rightarrow> (Inr EventInserted, t_insert (conversation_directory conversation_id)
          (d\<lparr> event_files := t_insert (write_hex eid) encoded (event_files d) \<rparr>) store)))"

definition validate_existing_authorization :: "bytes \<Rightarrow> bytes \<Rightarrow> bytes \<Rightarrow> event_store_error + unit" where
  "validate_existing_authorization actual expected eid =
     (if actual = expected then Inr () else Inl (ImmutableEventAuthorizationConflict eid))"

definition persist_authorization :: "bytes \<Rightarrow> bytes \<Rightarrow> bytes \<Rightarrow> unit event_store_op" where
  "persist_authorization conversation_id encoded eid store = (case t_get store (conversation_directory conversation_id) of
     None \<Rightarrow> (Inl StoreIo, store)
   | Some d \<Rightarrow> (case t_get (authorization_files d) (write_hex eid) of
        Some actual \<Rightarrow> (validate_existing_authorization actual encoded eid, store)
      | None \<Rightarrow> (Inr (), t_insert (conversation_directory conversation_id)
          (d\<lparr> authorization_files := t_insert (write_hex eid) encoded (authorization_files d) \<rparr>) store)))"

section \<open>Reading\<close>

definition load_event :: "'a event_libs_scheme \<Rightarrow> bytes \<Rightarrow> bytes \<times> bytes \<Rightarrow> event_store_error + StoredEvent" where
  "load_event lib conversation_id = (\<lambda>(stem, encoded).
     and_then (map_err (InvalidStoredEvent stem) (event_decode_and_verify lib encoded)) (\<lambda>event.
     and_then (map_err StoreProtocol (event_id lib event)) (\<lambda>eid.
     if stem \<noteq> write_hex eid then Inl (EventFileNameMismatch stem eid)
     else if event_conversation_id event \<noteq> conversation_id
     then Inl (ConversationDirectoryMismatch stem conversation_id (event_conversation_id event))
     else Inr \<lparr> st_id = eid, st_event = event \<rparr>)))"

definition writer_position :: "SignedEvent \<Rightarrow> bytes \<times> u64" where
  "writer_position event = (event_author_device_id event, event_author_sequence event)"

fun check_writer_positions :: "bytes \<Rightarrow> (bytes \<times> u64) set \<Rightarrow> StoredEvent list \<Rightarrow> event_store_error + unit" where
  "check_writer_positions conversation_id seen [] = Inr ()"
| "check_writer_positions conversation_id seen (stored # rest) =
     (let position = writer_position (st_event stored) in
      if position \<in> seen then Inl (DuplicateWriterSequence conversation_id (fst position) (snd position))
      else check_writer_positions conversation_id (insert position seen) rest)"

definition load_conversation :: "'a event_libs_scheme \<Rightarrow> bytes \<Rightarrow> event_store \<Rightarrow> event_store_error + StoredEvent list" where
  "load_conversation lib conversation_id store = (case t_get store (conversation_directory conversation_id) of
     None \<Rightarrow> Inr []
   | Some d \<Rightarrow> and_then (try_map (load_event lib conversation_id) (event_files d)) (\<lambda>loaded.
       let events = sort_key (\<lambda>stored. write_hex (st_id stored)) loaded in
       and_then (check_writer_positions conversation_id {} events) (\<lambda>_. Inr events)))"

definition load_authorization
  :: "'a event_libs_scheme \<Rightarrow> ConversationMembershipSnapshot \<Rightarrow> bytes \<Rightarrow> event_store \<Rightarrow> StoredEvent
      \<Rightarrow> event_store_error + StoredAuthorizedEvent" where
  "load_authorization lib membership conversation_id store stored =
     and_then (ok_or (EventAuthorizationMissing (st_id stored)) (authorization_at conversation_id (st_id stored) store)) (\<lambda>encoded.
     and_then (map_err (InvalidStoredAuthorization (st_id stored)) (decode_and_verify_author lib encoded)) (\<lambda>authorized.
     and_then (map_err StoreProtocol (verify_for_membership lib membership authorized)) (\<lambda>_.
     if ae_event authorized \<noteq> st_event stored then Inl (EventAuthorizationMismatch (st_id stored))
     else and_then (map_err StoreProtocol (event_id lib (ae_event authorized))) (\<lambda>eid.
       if eid \<noteq> st_id stored then Inl (EventAuthorizationMismatch (st_id stored))
       else Inr \<lparr> sa_id = st_id stored, sa_event = authorized \<rparr>))))"

definition load_authorized_conversation
  :: "'a event_libs_scheme \<Rightarrow> bytes \<Rightarrow> ConversationMembershipSnapshot \<Rightarrow> event_store
      \<Rightarrow> event_store_error + StoredAuthorizedEvent list" where
  "load_authorized_conversation lib conversation_id membership store =
     and_then (map_err (\<lambda>e. StoreProtocol (ProtocolIdentity e)) (membership_verify lib membership)) (\<lambda>_.
     if membership_conversation_id membership \<noteq> conversation_id
     then Inl (ConversationMembershipMismatch conversation_id (membership_conversation_id membership))
     else and_then (load_conversation lib conversation_id store) (\<lambda>stored_events.
       try_map (load_authorization lib membership conversation_id store) stored_events))"

text \<open>The ids that no event of the conversation names as a parent.\<close>

definition frontier :: "'a event_libs_scheme \<Rightarrow> bytes \<Rightarrow> event_store \<Rightarrow> event_store_error + bytes list" where
  "frontier lib conversation_id store =
     and_then (load_conversation lib conversation_id store) (\<lambda>events.
     let referenced = \<Union> (set (map (\<lambda>stored. set (ec_parents (se_content (st_event stored)))) events)) in
     Inr (sort_key write_hex (filter (\<lambda>eid. eid \<notin> referenced) (map st_id events))))"

definition event_inventory :: "'a event_libs_scheme \<Rightarrow> bytes \<Rightarrow> event_store \<Rightarrow> event_store_error + bytes list" where
  "event_inventory lib conversation_id store =
     and_then (load_conversation lib conversation_id store) (\<lambda>events. Inr (map st_id events))"

definition authorized_inventory
  :: "'a event_libs_scheme \<Rightarrow> bytes \<Rightarrow> ConversationMembershipSnapshot \<Rightarrow> event_store \<Rightarrow> event_store_error + bytes list" where
  "authorized_inventory lib conversation_id membership store =
     and_then (load_authorized_conversation lib conversation_id membership store) (\<lambda>events. Inr (map sa_id events))"

definition contains_author :: "'a event_libs_scheme \<Rightarrow> bytes \<Rightarrow> bytes \<Rightarrow> event_store \<Rightarrow> event_store_error + bool" where
  "contains_author lib conversation_id device_id store =
     and_then (load_conversation lib conversation_id store) (\<lambda>events.
     Inr (list_ex (\<lambda>stored. event_author_device_id (st_event stored) = device_id) events))"

definition events_by_id :: "'a event_libs_scheme \<Rightarrow> bytes \<Rightarrow> bytes list \<Rightarrow> event_store \<Rightarrow> event_store_error + SignedEvent list" where
  "events_by_id lib conversation_id requested_event_ids store =
     and_then (load_conversation lib conversation_id store) (\<lambda>events.
     let available = map_of (rev (map (\<lambda>stored. (st_id stored, st_event stored)) events)) in
     try_map (\<lambda>eid. ok_or (RequestedEventMissing conversation_id eid) (available eid)) requested_event_ids)"

definition authorized_events_by_id
  :: "'a event_libs_scheme \<Rightarrow> bytes \<Rightarrow> bytes list \<Rightarrow> ConversationMembershipSnapshot \<Rightarrow> event_store
      \<Rightarrow> event_store_error + AuthorizedEvent list" where
  "authorized_events_by_id lib conversation_id requested_event_ids membership store =
     and_then (load_authorized_conversation lib conversation_id membership store) (\<lambda>events.
     let available = map_of (rev (map (\<lambda>stored. (sa_id stored, sa_event stored)) events)) in
     try_map (\<lambda>eid. ok_or (RequestedEventMissing conversation_id eid) (available eid)) requested_event_ids)"

section \<open>Writing\<close>

definition event_put :: "'a event_libs_scheme \<Rightarrow> SignedEvent \<Rightarrow> StoreOutcome event_store_op" where
  "event_put lib event =
     then_do (pure (map_err StoreProtocol (event_verify lib event))) (\<lambda>_.
     then_do (pure (map_err StoreProtocol (event_id lib event))) (\<lambda>eid.
     then_do (pure (map_err StoreProtocol (event_encode lib event))) (\<lambda>encoded.
     then_do (create_directory (event_conversation_id event)) (\<lambda>_ store.
     case event_at (event_conversation_id event) eid store of
       Some actual \<Rightarrow> (validate_existing_event actual encoded eid, store)
     | None \<Rightarrow> then_do (pure (load_conversation lib (event_conversation_id event) store)) (\<lambda>events.
         case find (\<lambda>stored. writer_position (st_event stored) = writer_position event) events of
           Some stored \<Rightarrow> pure (Inl (WriterSequenceConflict (event_author_device_id event) (event_author_sequence event)
             (st_id stored) eid))
         | None \<Rightarrow> persist_event (event_conversation_id event) encoded eid) store))))"

definition put_authorized_with_receipt
  :: "'a event_libs_scheme \<Rightarrow> ConversationMembershipSnapshot \<Rightarrow> AuthorizedEvent \<Rightarrow> (StoreOutcome \<times> bytes list) event_store_op" where
  "put_authorized_with_receipt lib membership event =
     then_do (pure (map_err StoreProtocol (verify_for_membership lib membership event))) (\<lambda>_.
     then_do (pure (map_err StoreProtocol (event_id lib (ae_event event)))) (\<lambda>eid.
     then_do (event_put lib (ae_event event)) (\<lambda>outcome.
     then_do (pure (map_err StoreProtocol (authorized_encode lib event))) (\<lambda>encoded.
     then_do (\<lambda>store. (case authorization_at (event_conversation_id (ae_event event)) eid store of
         Some actual \<Rightarrow> (validate_existing_authorization actual encoded eid, store)
       | None \<Rightarrow> persist_authorization (event_conversation_id (ae_event event)) encoded eid store)) (\<lambda>_.
     pure (Inr (outcome, [event_path (event_conversation_id (ae_event event)) eid,
       authorization_path (event_conversation_id (ae_event event)) eid])))))))"

definition put_authorized :: "'a event_libs_scheme \<Rightarrow> ConversationMembershipSnapshot \<Rightarrow> AuthorizedEvent \<Rightarrow> StoreOutcome event_store_op" where
  "put_authorized lib membership event =
     then_do (put_authorized_with_receipt lib membership event) (\<lambda>(outcome, _). pure (Inr outcome))"

fun insert_events :: "'a event_libs_scheme \<Rightarrow> bytes \<Rightarrow> (bytes \<times> u64 \<rightharpoonup> bytes) \<Rightarrow> SignedEvent list \<Rightarrow> unit event_store_op" where
  "insert_events lib conversation_id writer_positions [] = pure (Inr ())"
| "insert_events lib conversation_id writer_positions (event # rest) =
     then_do (pure (map_err StoreProtocol (event_id lib event))) (\<lambda>eid.
     then_do (pure (map_err StoreProtocol (event_encode lib event))) (\<lambda>encoded store.
     case event_at conversation_id eid store of
       Some actual \<Rightarrow> then_do (pure (validate_existing_event actual encoded eid)) (\<lambda>_.
         insert_events lib conversation_id writer_positions rest) store
     | None \<Rightarrow> (case writer_positions (writer_position event) of
         Some existing_event_id \<Rightarrow> (Inl (WriterSequenceConflict (event_author_device_id event) (event_author_sequence event)
           existing_event_id eid), store)
       | None \<Rightarrow> then_do (persist_event conversation_id encoded eid) (\<lambda>_.
           insert_events lib conversation_id (writer_positions(writer_position event \<mapsto> eid)) rest) store)))"

definition put_conversation :: "'a event_libs_scheme \<Rightarrow> SignedEvent list \<Rightarrow> bytes \<Rightarrow> unit event_store_op" where
  "put_conversation lib events conversation_id =
     then_do (\<lambda>store. pure (load_conversation lib conversation_id store) store) (\<lambda>existing_events.
     then_do (create_directory conversation_id) (\<lambda>_.
     insert_events lib conversation_id
       (map_of (rev (map (\<lambda>stored. (writer_position (st_event stored), st_id stored)) existing_events)))
       (filter (\<lambda>event. event_conversation_id event = conversation_id) events)))"

primrec for_each_do :: "('x \<Rightarrow> ('s, 'e, unit) op) \<Rightarrow> 'x list \<Rightarrow> ('s, 'e, unit) op" where
  "for_each_do step [] = pure (Inr ())"
| "for_each_do step (x # xs) = then_do (step x) (\<lambda>_. for_each_do step xs)"

definition put_batch :: "'a event_libs_scheme \<Rightarrow> SignedEvent list \<Rightarrow> unit event_store_op" where
  "put_batch lib events =
     then_do (pure (map_err StoreProtocol (for_each (event_verify lib) events))) (\<lambda>_.
     for_each_do (put_conversation lib events) (hash_map_order lib (remdups (map event_conversation_id events))))"

fun put_each_authorized
  :: "'a event_libs_scheme \<Rightarrow> ConversationMembershipSnapshot \<Rightarrow> AuthorizedEvent list \<Rightarrow> bytes list event_store_op" where
  "put_each_authorized lib membership [] = pure (Inr [])"
| "put_each_authorized lib membership (event # rest) =
     then_do (put_authorized_with_receipt lib membership event) (\<lambda>(_, paths).
     then_do (put_each_authorized lib membership rest) (\<lambda>others. pure (Inr (paths @ others))))"

definition put_authorized_batch_with_receipt
  :: "'a event_libs_scheme \<Rightarrow> ConversationMembershipSnapshot \<Rightarrow> AuthorizedEvent list \<Rightarrow> bytes list event_store_op" where
  "put_authorized_batch_with_receipt lib membership events =
     then_do (pure (map_err StoreProtocol (for_each (verify_for_membership lib membership) events))) (\<lambda>_.
     then_do (put_batch lib (map ae_event events)) (\<lambda>_.
     put_each_authorized lib membership events))"

definition put_authorized_batch
  :: "'a event_libs_scheme \<Rightarrow> ConversationMembershipSnapshot \<Rightarrow> AuthorizedEvent list \<Rightarrow> unit event_store_op" where
  "put_authorized_batch lib membership events =
     then_do (put_authorized_batch_with_receipt lib membership events) (\<lambda>_. pure (Inr ()))"

section \<open>Planning\<close>

record SyncPlan =
  sp_requested_from_remote :: "bytes list"
  sp_events_for_remote :: "SignedEvent list"
  sp_more_available :: bool

text \<open>The difference of two hash sets, sorted by the text of the ids.\<close>

definition sorted_difference :: "bytes list \<Rightarrow> bytes list \<Rightarrow> bytes list" where
  "sorted_difference xs ys = sort_key write_hex (remdups (filter (\<lambda>eid. eid \<notin> set ys) xs))"

definition event_plan_sync :: "'a event_libs_scheme \<Rightarrow> bytes \<Rightarrow> bytes list \<Rightarrow> nat \<Rightarrow> event_store \<Rightarrow> event_store_error + SyncPlan" where
  "event_plan_sync lib conversation_id remote_inventory maximum_events_per_direction store =
     and_then (load_conversation lib conversation_id store) (\<lambda>local_events.
     let requested_from_remote = sorted_difference remote_inventory (map st_id local_events);
         events_for_remote = sort_key (\<lambda>stored. write_hex (st_id stored))
           (filter (\<lambda>stored. st_id stored \<notin> set remote_inventory) local_events) in
     Inr \<lparr> sp_requested_from_remote = take maximum_events_per_direction requested_from_remote,
           sp_events_for_remote = map st_event (take maximum_events_per_direction events_for_remote),
           sp_more_available = (length requested_from_remote > maximum_events_per_direction
             \<or> length events_for_remote > maximum_events_per_direction) \<rparr>)"

end
