(* ===== verification/Sync_Session.thy ===== *)
theory Sync_Session
  imports Event_Store
begin

text \<open>
  The synchronisation session (\<open>kilogram-session/src/lib.rs\<close>): authorisation of the peer's Device, the
  requester (\<open>SyncClient\<close>) and the responder (\<open>SyncServer\<close>) over any store with the operations of
  \<open>SessionStore\<close>, and the loop of rounds the command line runs between them
  (\<open>apps/kilogram-cli/src/main.rs\<close>) when it holds no ordered lease. The messages pass between the two sides as
  values: their transport encoding is not part of the model.
\<close>

section \<open>Data\<close>

definition MAX_SYNC_ROUNDS :: nat where "MAX_SYNC_ROUNDS = 64"

datatype session_error =
    SessionProtocol protocol_error
  | SessionAuthorization identity_error
  | SessionStoreError event_store_error
  | ConversationMismatch
  | UnadvertisedEventRequested bytes
  | BatchEventIdsMismatch
  | CompletionEventIdsMismatch
  | ContinuationMismatch

text \<open>The trait \<open>SessionStore\<close> and its instance for the event store.\<close>

record 's session_store =
  ss_inventory :: "bytes \<Rightarrow> ConversationMembershipSnapshot \<Rightarrow> 's \<Rightarrow> event_store_error + bytes list"
  ss_events_by_id :: "bytes \<Rightarrow> bytes list \<Rightarrow> ConversationMembershipSnapshot \<Rightarrow> 's \<Rightarrow> event_store_error + AuthorizedEvent list"
  ss_put_events :: "AuthorizedEvent list \<Rightarrow> ConversationMembershipSnapshot \<Rightarrow> ('s, event_store_error, unit) op"

definition event_session_store :: "'a event_libs_scheme \<Rightarrow> event_store session_store" where
  "event_session_store lib = \<lparr> ss_inventory = authorized_inventory lib, ss_events_by_id = authorized_events_by_id lib,
     ss_put_events = (\<lambda>events membership. put_authorized_batch lib membership events) \<rparr>"

record SyncClient =
  cl_identity :: bytes
  cl_conversation_id :: bytes
  cl_membership :: ConversationMembershipSnapshot
  cl_session_binding :: bytes
  cl_expected_responder :: bytes

record ClientInventoryRound =
  cir_inventory :: SignedSyncInventory
  cir_advertised_event_ids :: "bytes set"

record ClientBatchRound =
  cbr_batch :: SyncEventBatch
  cbr_sent_event_ids :: "bytes list"
  cbr_received_event_ids :: "bytes list"
  cbr_more_available :: bool

record SyncServer =
  sv_identity :: bytes
  sv_session_binding :: bytes
  sv_allowed_requester :: bytes
  sv_membership :: ConversationMembershipSnapshot

record ServerInventoryRound =
  sir_conversation_id :: bytes
  sir_requested_event_ids :: "bytes list"
  sir_sent_events :: nat
  sir_more_available :: bool
  sir_diff :: SyncDiff

datatype ServerInventoryOutcome = RoundAccepted ServerInventoryRound | RoundRejected SyncRejected

record SyncRoundStats =
  sent_events :: nat
  received_events :: nat
  stats_more_available :: bool

record ServerCompletion =
  sco_response :: SyncComplete
  sco_stats :: SyncRoundStats

record SessionPlan =
  pl_requested_from_remote :: "bytes list"
  pl_events_for_remote :: "AuthorizedEvent list"
  pl_more_available :: bool

section \<open>Helpers\<close>

definition authorize_device_session
  :: "'a sync_libs_scheme \<Rightarrow> bytes \<Rightarrow> SignedDeviceSessionAuthorization \<Rightarrow> DeviceCapability list \<Rightarrow> bytes
      \<Rightarrow> session_error + AuthorizedDevice" where
  "authorize_device_session lib expected_account authorization required_capabilities expected_session =
     and_then (map_err SessionProtocol (session_authorization_verify_for_session lib authorization expected_session)) (\<lambda>_.
     map_err SessionAuthorization (verify_device_authorization_with_snapshot lib expected_account
       (dsa_certificate (da_content authorization)) (dsa_authority_snapshot (da_content authorization)) required_capabilities))"

definition session_event_ids :: "'a event_libs_scheme \<Rightarrow> AuthorizedEvent list \<Rightarrow> protocol_error + bytes list" where
  "session_event_ids lib events = try_map (\<lambda>event. event_id lib (ae_event event)) events"

definition same_event_ids :: "bytes list \<Rightarrow> bytes list \<Rightarrow> bool" where
  "same_event_ids left right \<longleftrightarrow> length left = length right \<and> set left = set right"

definition session_plan_sync
  :: "'s session_store \<Rightarrow> bytes \<Rightarrow> bytes list \<Rightarrow> nat \<Rightarrow> ConversationMembershipSnapshot \<Rightarrow> 's \<Rightarrow> event_store_error + SessionPlan" where
  "session_plan_sync ss conversation_id remote_inventory maximum_events_per_direction membership store =
     and_then (ss_inventory ss conversation_id membership store) (\<lambda>local_inventory.
     let requested_from_remote = sorted_difference remote_inventory local_inventory;
         events_for_remote_ids = sorted_difference local_inventory remote_inventory in
     and_then (ss_events_by_id ss conversation_id (take maximum_events_per_direction events_for_remote_ids) membership store)
       (\<lambda>events_for_remote.
     Inr \<lparr> pl_requested_from_remote = take maximum_events_per_direction requested_from_remote,
           pl_events_for_remote = events_for_remote,
           pl_more_available = (length requested_from_remote > maximum_events_per_direction
             \<or> length events_for_remote_ids > maximum_events_per_direction) \<rparr>))"

section \<open>The requester\<close>

definition begin_round
  :: "'a sync_libs_scheme \<Rightarrow> 's session_store \<Rightarrow> SyncClient \<Rightarrow> 's \<Rightarrow> session_error + ClientInventoryRound" where
  "begin_round lib ss self store =
     and_then (map_err SessionAuthorization (membership_verify lib (cl_membership self))) (\<lambda>_.
     if membership_conversation_id (cl_membership self) \<noteq> cl_conversation_id self then Inl ConversationMismatch
     else and_then (map_err SessionStoreError (ss_inventory ss (cl_conversation_id self) (cl_membership self) store)) (\<lambda>event_ids.
     and_then (map_err SessionProtocol (inventory_sign lib (cl_identity self) (cl_conversation_id self)
       (cl_session_binding self) event_ids)) (\<lambda>inventory.
     Inr \<lparr> cir_inventory = inventory, cir_advertised_event_ids = set event_ids \<rparr>)))"

definition accept_diff
  :: "'a sync_libs_scheme \<Rightarrow> 's session_store \<Rightarrow> SyncClient \<Rightarrow> ClientInventoryRound \<Rightarrow> SyncDiff
      \<Rightarrow> ('s, session_error, ClientBatchRound) op" where
  "accept_diff lib ss self round diff =
     (let content = sd_content diff in
     then_do (pure (map_err SessionProtocol (diff_verify_for_session lib diff (cl_session_binding self) (cl_expected_responder self)))) (\<lambda>_.
     if sdc_conversation_id content \<noteq> cl_conversation_id self then pure (Inl ConversationMismatch)
     else case find (\<lambda>eid. eid \<notin> cir_advertised_event_ids round) (sdc_requested_event_ids content) of
       Some eid \<Rightarrow> pure (Inl (UnadvertisedEventRequested eid))
     | None \<Rightarrow>
     then_do (pure (map_err SessionProtocol (session_event_ids lib (sdc_events content)))) (\<lambda>received_event_ids.
     then_do (pure (map_err SessionProtocol (for_each (verify_for_membership lib (cl_membership self)) (sdc_events content)))) (\<lambda>_.
     then_do (\<lambda>store. case ss_put_events ss (sdc_events content) (cl_membership self) store of
         (r, store) \<Rightarrow> (map_err SessionStoreError r, store)) (\<lambda>_.
     then_do (\<lambda>store. pure (map_err SessionStoreError (ss_events_by_id ss (cl_conversation_id self) (sdc_requested_event_ids content)
         (cl_membership self) store)) store) (\<lambda>events_for_responder.
     then_do (pure (map_err SessionProtocol (session_event_ids lib events_for_responder))) (\<lambda>sent_event_ids.
     then_do (pure (map_err SessionProtocol (batch_new lib (cl_conversation_id self) events_for_responder))) (\<lambda>batch.
     pure (Inr \<lparr> cbr_batch = batch, cbr_sent_event_ids = sent_event_ids, cbr_received_event_ids = received_event_ids,
       cbr_more_available = sdc_more_available content \<rparr>)))))))))"

definition accept_complete :: "SyncClient \<Rightarrow> ClientBatchRound \<Rightarrow> SyncComplete \<Rightarrow> session_error + SyncRoundStats" where
  "accept_complete self round complete =
     (if sc_conversation_id complete \<noteq> cl_conversation_id self then Inl ConversationMismatch
      else if \<not> same_event_ids (sc_stored_event_ids complete) (cbr_sent_event_ids round) then Inl CompletionEventIdsMismatch
      else if sc_more_available complete \<noteq> cbr_more_available round then Inl ContinuationMismatch
      else Inr \<lparr> sent_events = length (cbr_sent_event_ids round), received_events = length (cbr_received_event_ids round),
             stats_more_available = cbr_more_available round \<rparr>)"

section \<open>The responder\<close>

definition accept_inventory
  :: "'a sync_libs_scheme \<Rightarrow> 's session_store \<Rightarrow> SyncServer \<Rightarrow> SignedSyncInventory \<Rightarrow> 's
      \<Rightarrow> session_error + ServerInventoryOutcome" where
  "accept_inventory lib ss self inventory store =
     (let conversation_id = sic_conversation_id (si_content inventory) in
     and_then (map_err SessionProtocol (inventory_verify_for_session lib inventory (sv_session_binding self))) (\<lambda>_.
     and_then (map_err SessionAuthorization (membership_verify lib (sv_membership self))) (\<lambda>_.
     if membership_conversation_id (sv_membership self) \<noteq> conversation_id then Inl ConversationMismatch
     else if sic_requester_device_id (si_content inventory) \<noteq> sv_allowed_requester self
     then Inr (RoundRejected (sync_rejected_new conversation_id RequesterNotAllowed))
     else and_then (map_err SessionStoreError (session_plan_sync ss conversation_id (sic_event_ids (si_content inventory))
         MAX_SYNC_EVENTS_PER_BATCH (sv_membership self) store)) (\<lambda>plan.
     and_then (map_err SessionProtocol (diff_sign lib (sv_identity self) conversation_id (sv_session_binding self)
         (pl_requested_from_remote plan) (pl_events_for_remote plan) (pl_more_available plan))) (\<lambda>diff.
     Inr (RoundAccepted \<lparr> sir_conversation_id = conversation_id, sir_requested_event_ids = pl_requested_from_remote plan,
       sir_sent_events = length (pl_events_for_remote plan), sir_more_available = pl_more_available plan, sir_diff = diff \<rparr>))))))"

definition complete_round
  :: "'a sync_libs_scheme \<Rightarrow> 's session_store \<Rightarrow> SyncServer \<Rightarrow> ServerInventoryRound \<Rightarrow> SyncEventBatch
      \<Rightarrow> ('s, session_error, ServerCompletion) op" where
  "complete_round lib ss self round batch =
     (if sb_conversation_id batch \<noteq> sir_conversation_id round then pure (Inl ConversationMismatch)
      else then_do (pure (map_err SessionProtocol (session_event_ids lib (sb_events batch)))) (\<lambda>supplied_event_ids.
      if \<not> same_event_ids supplied_event_ids (sir_requested_event_ids round) then pure (Inl BatchEventIdsMismatch)
      else then_do (pure (map_err SessionProtocol (for_each (verify_for_membership lib (sv_membership self)) (sb_events batch)))) (\<lambda>_.
      then_do (\<lambda>store. case ss_put_events ss (sb_events batch) (sv_membership self) store of
         (r, store) \<Rightarrow> (map_err SessionStoreError r, store)) (\<lambda>_.
      then_do (pure (map_err SessionProtocol (complete_new (sir_conversation_id round) supplied_event_ids (sir_more_available round)))) (\<lambda>response.
      pure (Inr \<lparr> sco_response = response, sco_stats = \<lparr> sent_events = sir_sent_events round,
        received_events = length supplied_event_ids, stats_more_available = sir_more_available round \<rparr> \<rparr>))))))"

section \<open>Rounds\<close>

text \<open>What ends a session before it is synchronised or paused: a failure of one of the two sides, the
  rejection of the requester, or the limit of rounds.\<close>

datatype session_failure =
    RequesterFailed session_error
  | ResponderFailed session_error
  | SessionRejected SyncRejectionReason
  | RejectionConversationMismatch
  | RoundLimitExceeded
  | InvalidRoundCount nat
  | PauseConversationMismatch
  | PausedConversationMismatch

datatype session_end =
    Synchronized nat nat nat
  | Paused nat nat nat

definition sync_round
  :: "'a sync_libs_scheme \<Rightarrow> 's session_store \<Rightarrow> 't session_store \<Rightarrow> SyncClient \<Rightarrow> SyncServer
      \<Rightarrow> ('s \<times> 't, session_failure, SyncRoundStats) op" where
  "sync_round lib cs ss client server stores =
     (let (mine, theirs) = stores in
     case begin_round lib cs client mine of
       Inl e \<Rightarrow> (Inl (RequesterFailed e), (mine, theirs))
     | Inr inventory_round \<Rightarrow> (case accept_inventory lib ss server (cir_inventory inventory_round) theirs of
         Inl e \<Rightarrow> (Inl (ResponderFailed e), (mine, theirs))
       | Inr (RoundRejected rejected) \<Rightarrow>
           (Inl (if sr_conversation_id rejected = cl_conversation_id client then SessionRejected (sr_reason rejected)
                 else RejectionConversationMismatch), (mine, theirs))
       | Inr (RoundAccepted server_round) \<Rightarrow> (case accept_diff lib cs client inventory_round (sir_diff server_round) mine of
           (Inl e, mine) \<Rightarrow> (Inl (RequesterFailed e), (mine, theirs))
         | (Inr batch_round, mine) \<Rightarrow> (case complete_round lib ss server server_round (cbr_batch batch_round) theirs of
             (Inl e, theirs) \<Rightarrow> (Inl (ResponderFailed e), (mine, theirs))
           | (Inr completion, theirs) \<Rightarrow>
               (map_err RequesterFailed (accept_complete client batch_round (sco_response completion)), (mine, theirs))))))"

text \<open>The exchange that pauses a session: the responder compares the pause with the conversation of the last
  inventory, which is the requester's, and the requester compares the answer.\<close>

definition pause_session :: "SyncClient \<Rightarrow> session_failure + unit" where
  "pause_session client =
     (let pause = sync_pause_new (cl_conversation_id client) in
      and_then (ensure (spa_conversation_id pause = cl_conversation_id client) PauseConversationMismatch) (\<lambda>_.
      let paused = sync_paused_new (spa_conversation_id pause) in
      ensure (spd_conversation_id paused = cl_conversation_id client) PausedConversationMismatch))"

text \<open>\<open>for round_number in 1..=MAX_SYNC_ROUNDS\<close>: \<open>rounds\<close> are the numbers that remain.\<close>

fun sync_rounds
  :: "'a sync_libs_scheme \<Rightarrow> 's session_store \<Rightarrow> 't session_store \<Rightarrow> SyncClient \<Rightarrow> SyncServer \<Rightarrow> nat \<Rightarrow> nat list \<Rightarrow> nat \<Rightarrow> nat
      \<Rightarrow> ('s \<times> 't, session_failure, session_end) op" where
  "sync_rounds lib cs ss client server max_rounds [] total_sent total_received = pure (Inl RoundLimitExceeded)"
| "sync_rounds lib cs ss client server max_rounds (round_number # rounds) total_sent total_received =
     then_do (sync_round lib cs ss client server) (\<lambda>stats.
     if \<not> stats_more_available stats
     then pure (Inr (Synchronized round_number (total_sent + sent_events stats) (total_received + received_events stats)))
     else if round_number = max_rounds
     then then_do (pure (pause_session client)) (\<lambda>_.
       pure (Inr (Paused round_number (total_sent + sent_events stats) (total_received + received_events stats))))
     else sync_rounds lib cs ss client server max_rounds rounds (total_sent + sent_events stats) (total_received + received_events stats))"

definition sync_session
  :: "'a sync_libs_scheme \<Rightarrow> 's session_store \<Rightarrow> 't session_store \<Rightarrow> SyncClient \<Rightarrow> SyncServer \<Rightarrow> nat
      \<Rightarrow> ('s \<times> 't, session_failure, session_end) op" where
  "sync_session lib cs ss client server max_rounds =
     then_do (pure (ensure (1 \<le> max_rounds \<and> max_rounds \<le> MAX_SYNC_ROUNDS) (InvalidRoundCount max_rounds))) (\<lambda>_.
     sync_rounds lib cs ss client server max_rounds [1..<MAX_SYNC_ROUNDS + 1] 0 0)"

lemma pause_session_ok [simp]: "pause_session client = Inr ()"
  by (simp add: pause_session_def sync_pause_new_def sync_paused_new_def Let_def)

end
