(* ===== verification/Event_Store_Invariant.thy ===== *)
theory Event_Store_Invariant
  imports Event_Store
begin

text \<open>
  What a store holds of a conversation: \<open>holds_at\<close> relates the files of a directory to a map from ids to
  events and a map from ids to authorised events. The lemmas show that the operations of the store act on
  these maps: loading lists them in the order of the ids, and writing adds to them or leaves them alone.
\<close>

section \<open>Hexadecimal names\<close>

lemma inj_write_hex: "inj write_hex"
  by (rule injI) (metis decode_hex_pairs_iff dvd_triv_left length_write_hex sum.inject(2))

lemma write_hex_eq [simp]: "write_hex a = write_hex b \<longleftrightarrow> a = b"
  using inj_write_hex by (auto simp: inj_eq)

lemma conversation_directory_eq [simp]: "conversation_directory a = conversation_directory b \<longleftrightarrow> a = b"
  by (simp add: conversation_directory_def)

text \<open>The ids of a set in the order of their text.\<close>

definition in_text_order :: "bytes set \<Rightarrow> bytes list" where
  "in_text_order S = sort_key write_hex (sorted_list_of_set S)"

lemma in_text_order_simps [simp]:
  "finite S \<Longrightarrow> set (in_text_order S) = S" "distinct (in_text_order S)" "length (in_text_order S) = card S"
  "in_text_order {} = []"
  by (simp_all add: in_text_order_def)

lemma text_sorted_strict: "sorted (map write_hex xs) \<Longrightarrow> distinct xs \<Longrightarrow> sorted_wrt (<) (map write_hex xs)"
  by (simp add: strict_sorted_iff distinct_map inj_on_def)

lemma text_sorted_unique:
  assumes "sorted (map write_hex xs)" "distinct xs" "sorted (map write_hex ys)" "distinct ys" "set xs = set ys"
  shows "xs = ys"
proof -
  have "map write_hex xs = map write_hex ys"
    using assms by (intro sorted_distinct_set_unique) (auto simp: distinct_map inj_on_def)
  then show ?thesis using inj_write_hex by (simp add: inj_map_eq_map)
qed

lemma in_text_order_sorted: "sorted (map write_hex (in_text_order S))"
  by (simp add: in_text_order_def)

lemma in_text_order_eq: "finite S \<Longrightarrow> sorted (map write_hex xs) \<Longrightarrow> distinct xs \<Longrightarrow> set xs = S \<Longrightarrow> xs = in_text_order S"
  by (rule text_sorted_unique) (auto simp: in_text_order_sorted)

lemma sort_text_order: "distinct xs \<Longrightarrow> sort_key write_hex xs = in_text_order (set xs)"
  by (rule in_text_order_eq) auto

lemma sorted_difference_order: "sorted_difference xs ys = in_text_order (set xs - set ys)"
proof -
  have "set (remdups (filter (\<lambda>i. i \<notin> set ys) xs)) = set xs - set ys" by auto
  then show ?thesis unfolding sorted_difference_def using sort_text_order [of "remdups (filter (\<lambda>i. i \<notin> set ys) xs)"] by simp
qed

section \<open>Files\<close>

definition files_hold :: "('x \<Rightarrow> bytes option) \<Rightarrow> (bytes \<rightharpoonup> 'x) \<Rightarrow> bytes table \<Rightarrow> bool" where
  "files_hold enc M t \<longleftrightarrow> t_valid t \<and> (\<forall>i x. M i = Some x \<longrightarrow> enc x \<noteq> None)
     \<and> (\<forall>k b. t_get t k = Some b \<longleftrightarrow> (\<exists>i x. M i = Some x \<and> k = write_hex i \<and> enc x = Some b))"

lemma files_hold_get: "files_hold enc M t \<Longrightarrow> t_get t (write_hex i) = Option.bind (M i) enc"
proof -
  assume H: "files_hold enc M t"
  have "t_get t (write_hex i) = Some b \<longleftrightarrow> Option.bind (M i) enc = Some b" for b
    using H by (auto simp: files_hold_def bind_eq_Some_conv)
  then show ?thesis by (metis not_Some_eq)
qed

lemma files_hold_entry: "files_hold enc M t \<Longrightarrow> (k, b) \<in> set t \<longleftrightarrow> (\<exists>i x. M i = Some x \<and> k = write_hex i \<and> enc x = Some b)"
  by (simp add: files_hold_def flip: t_get_set)

lemma files_hold_keys:
  assumes H: "files_hold enc M t"
  shows "finite (dom M)" and "map fst t = map write_hex (in_text_order (dom M))"
proof -
  have keys: "fst ` set t = write_hex ` dom M"
  proof (intro equalityI subsetI)
    fix k assume "k \<in> write_hex ` dom M"
    then obtain i x where x: "k = write_hex i" "M i = Some x" by auto
    moreover obtain b where "enc x = Some b" using H x(2) unfolding files_hold_def by blast
    ultimately have "(k, b) \<in> set t" using files_hold_entry [OF H] by blast
    then show "k \<in> fst ` set t" by force
  qed (use files_hold_entry [OF H] in force)
  then have "finite (write_hex ` dom M)" by (metis finite_imageI finite_set)
  then show fin: "finite (dom M)" by (rule finite_imageD) (simp add: inj_on_def)
  have "t_valid t" using H by (simp add: files_hold_def)
  then have srt: "sorted (map fst t)" "distinct (map fst t)" by (simp_all add: t_valid_def strict_sorted_iff)
  show "map fst t = map write_hex (in_text_order (dom M))"
    by (rule sorted_distinct_set_unique) (use srt keys fin in_text_order_sorted in \<open>auto simp: distinct_map inj_on_def\<close>)
qed

lemma files_hold_insert:
  assumes H: "files_hold enc M t" and i: "M i = None" and x: "enc x = Some b"
  shows "files_hold enc (M(i \<mapsto> x)) (t_insert (write_hex i) b t)"
proof -
  have v: "t_valid t" using H by (simp add: files_hold_def)
  show ?thesis unfolding files_hold_def
  proof (intro conjI allI)
    show "t_valid (t_insert (write_hex i) b t)" using v by (rule tbl.valid_insert)
    show "(M(i \<mapsto> x)) j = Some y \<longrightarrow> enc y \<noteq> None" for j y using H x by (auto simp: files_hold_def)
    show "t_get (t_insert (write_hex i) b t) k = Some c \<longleftrightarrow>
        (\<exists>j y. (M(i \<mapsto> x)) j = Some y \<and> k = write_hex j \<and> enc y = Some c)" for k c
      using H i x by (auto simp: tbl.get_insert [OF v] files_hold_def)
  qed
qed

lemma files_hold_empty: "files_hold enc Map.empty []"
  by (simp add: files_hold_def t_valid_def t_get_def)

section \<open>Conversations\<close>

definition event_ok :: "'a event_libs_scheme \<Rightarrow> bytes \<Rightarrow> bytes \<Rightarrow> SignedEvent \<Rightarrow> bool" where
  "event_ok lib cid i e \<longleftrightarrow> event_verify lib e = Inr () \<and> event_id lib e = Inr i \<and> event_conversation_id e = cid"

definition positions_distinct :: "(bytes \<rightharpoonup> SignedEvent) \<Rightarrow> bool" where
  "positions_distinct E \<longleftrightarrow> (\<forall>i j e f. E i = Some e \<longrightarrow> E j = Some f \<longrightarrow> writer_position e = writer_position f \<longrightarrow> i = j)"

definition directory_holds
  :: "'a event_libs_scheme \<Rightarrow> (bytes \<rightharpoonup> SignedEvent) \<Rightarrow> (bytes \<rightharpoonup> AuthorizedEvent) \<Rightarrow> ConversationDirectory option \<Rightarrow> bool" where
  "directory_holds lib E A dir = (case dir of
     None \<Rightarrow> E = Map.empty \<and> A = Map.empty
   | Some d \<Rightarrow> files_hold (pc_event lib) E (event_files d) \<and> files_hold (pc_authorized lib) A (authorization_files d))"

definition conversation_ok
  :: "'a event_libs_scheme \<Rightarrow> bytes \<Rightarrow> (bytes \<rightharpoonup> SignedEvent) \<Rightarrow> (bytes \<rightharpoonup> AuthorizedEvent) \<Rightarrow> bool" where
  "conversation_ok lib cid E A \<longleftrightarrow> (\<forall>i e. E i = Some e \<longrightarrow> event_ok lib cid i e) \<and> positions_distinct E
     \<and> (\<forall>i a. A i = Some a \<longrightarrow> E i = Some (ae_event a) \<and> verify_author lib a = Inr ())"

text \<open>\<open>F\<close> is what the other directories of the store hold.\<close>

definition holds_at
  :: "'a event_libs_scheme \<Rightarrow> bytes \<Rightarrow> (bytes \<rightharpoonup> ConversationDirectory) \<Rightarrow> (bytes \<rightharpoonup> SignedEvent) \<Rightarrow> (bytes \<rightharpoonup> AuthorizedEvent)
      \<Rightarrow> event_store \<Rightarrow> bool" where
  "holds_at lib cid F E A st \<longleftrightarrow> t_valid st \<and> conversation_ok lib cid E A
     \<and> directory_holds lib E A (t_get st (conversation_directory cid))
     \<and> (\<forall>k. k \<noteq> conversation_directory cid \<longrightarrow> t_get st k = F k)"

definition directory_exists :: "bytes \<Rightarrow> event_store \<Rightarrow> bool" where
  "directory_exists cid st \<longleftrightarrow> t_get st (conversation_directory cid) \<noteq> None"

definition events_documented :: "'a event_libs_scheme \<Rightarrow> bool" where
  "events_documented lib \<longleftrightarrow> inverts (pc_event lib) (pc_event_from lib) \<and> inverts (pc_authorized lib) (pc_authorized_from lib)
     \<and> (\<forall>keys. distinct keys \<longrightarrow> distinct (hash_map_order lib keys) \<and> set (hash_map_order lib keys) = set keys)"

lemma holds_event_at: "holds_at lib cid F E A st \<Longrightarrow> event_at cid i st = Option.bind (E i) (pc_event lib)"
  by (auto simp: holds_at_def directory_holds_def event_at_def files_hold_get split: option.splits)

lemma holds_authorization_at: "holds_at lib cid F E A st \<Longrightarrow> authorization_at cid i st = Option.bind (A i) (pc_authorized lib)"
  by (auto simp: holds_at_def directory_holds_def authorization_at_def files_hold_get split: option.splits)

lemma holds_finite: "holds_at lib cid F E A st \<Longrightarrow> finite (dom E)"
  by (auto simp: holds_at_def directory_holds_def files_hold_keys split: option.splits)

lemma holds_event_ok: "holds_at lib cid F E A st \<Longrightarrow> E i = Some e \<Longrightarrow> event_ok lib cid i e"
  by (simp add: holds_at_def conversation_ok_def)

lemma event_ok_encoded: "event_ok lib cid i e \<Longrightarrow> \<exists>b. pc_event lib e = Some b"
  by (auto simp: event_ok_def event_id_def event_encode_def result_simps)

subsection \<open>Loading\<close>

lemma check_writer_positions_Inr: "check_writer_positions cid seen xs = Inr u \<longleftrightarrow>
    distinct (map (\<lambda>s. writer_position (st_event s)) xs) \<and> (\<forall>s \<in> set xs. writer_position (st_event s) \<notin> seen)"
  by (induction cid seen xs rule: check_writer_positions.induct) (simp_all add: Let_def image_iff, metis)

definition stored :: "(bytes \<rightharpoonup> SignedEvent) \<Rightarrow> bytes \<Rightarrow> StoredEvent" where
  "stored E i = \<lparr> st_id = i, st_event = the (E i) \<rparr>"

lemma stored_simps [simp]: "st_id (stored E i) = i" "st_event (stored E i) = the (E i)"
  by (simp_all add: stored_def)

lemma load_event_holds:
  assumes doc: "events_documented lib" and ok: "event_ok lib cid i e" and b: "pc_event lib e = Some b"
  shows "load_event lib cid (write_hex i, b) = Inr \<lparr> st_id = i, st_event = e \<rparr>"
proof -
  have "pc_event_from lib b = Some e" using doc b by (auto simp: events_documented_def inverts_def)
  then show ?thesis using ok by (simp add: load_event_def event_decode_and_verify_def event_ok_def)
qed

lemma load_files:
  assumes doc: "events_documented lib" and H: "files_hold (pc_event lib) E t" and ok: "\<And>i e. E i = Some e \<Longrightarrow> event_ok lib cid i e"
  shows "try_map (load_event lib cid) t = Inr (map (stored E) (in_text_order (dom E)))"
proof -
  have each: "load_event lib cid (k, b) = Inr r \<longleftrightarrow> r = stored E (inv write_hex k)" if kb: "(k, b) \<in> set t" for k b r
  proof -
    from files_hold_entry [OF H] kb obtain i e where i: "E i = Some e" "k = write_hex i" "pc_event lib e = Some b" by blast
    then show ?thesis using load_event_holds [OF doc ok [OF i(1)] i(3)] inv_f_f [OF inj_write_hex] by (auto simp: stored_def)
  qed
  have "try_map (load_event lib cid) t = Inr ys \<longleftrightarrow> (\<forall>x \<in> set t. True) \<and> ys = map (\<lambda>x. stored E (inv write_hex (fst x))) t" for ys
    by (rule try_map_Inr) (use each in auto)
  moreover have "map (\<lambda>x. stored E (inv write_hex (fst x))) t = map (stored E \<circ> inv write_hex) (map fst t)" by simp
  ultimately show ?thesis unfolding files_hold_keys(2) [OF H] using inv_f_f [OF inj_write_hex] by simp
qed

lemma load_conversation_holds:
  assumes doc: "events_documented lib" and H: "holds_at lib cid F E A st"
  shows "load_conversation lib cid st = Inr (map (stored E) (in_text_order (dom E)))"
proof (cases "t_get st (conversation_directory cid)")
  case None
  then have "E = Map.empty" using H by (simp add: holds_at_def directory_holds_def)
  with None show ?thesis by (simp add: load_conversation_def)
next
  case (Some d)
  let ?xs = "map (stored E) (in_text_order (dom E))"
  have f: "files_hold (pc_event lib) E (event_files d)" using H Some by (simp add: holds_at_def directory_holds_def)
  have fin: "finite (dom E)" using H by (rule holds_finite)
  have "sorted (map (\<lambda>s. write_hex (st_id s)) ?xs)" using in_text_order_sorted [of "dom E"] by (simp add: o_def)
  then have srt: "sort_key (\<lambda>s. write_hex (st_id s)) ?xs = ?xs" by (rule sort_key_id_if_sorted)
  have "positions_distinct E" using H by (simp add: holds_at_def conversation_ok_def)
  then have "inj_on (\<lambda>i. writer_position (the (E i))) (dom E)" by (auto simp: positions_distinct_def inj_on_def)
  then have "check_writer_positions cid {} ?xs = Inr ()"
    unfolding check_writer_positions_Inr using fin by (simp add: o_def distinct_map)
  then show ?thesis
    using load_files [OF doc f holds_event_ok [OF H]] srt Some by (simp add: load_conversation_def Let_def)
qed

subsection \<open>Loading with authorisations\<close>

definition authorized_stored :: "(bytes \<rightharpoonup> AuthorizedEvent) \<Rightarrow> bytes \<Rightarrow> StoredAuthorizedEvent" where
  "authorized_stored A i = \<lparr> sa_id = i, sa_event = the (A i) \<rparr>"

lemma authorized_stored_simps [simp]: "sa_id (authorized_stored A i) = i" "sa_event (authorized_stored A i) = the (A i)"
  by (simp_all add: authorized_stored_def)

text \<open>The membership applies to the conversation and every authorised event of the map to a member.\<close>

definition member_events :: "'a event_libs_scheme \<Rightarrow> ConversationMembershipSnapshot \<Rightarrow> bytes \<Rightarrow> (bytes \<rightharpoonup> AuthorizedEvent) \<Rightarrow> bool" where
  "member_events lib m cid A \<longleftrightarrow> membership_verify lib m = Inr () \<and> membership_conversation_id m = cid
     \<and> (\<forall>i a. A i = Some a \<longrightarrow> verify_for_membership lib m a = Inr ())"

lemma holds_authorized: "holds_at lib cid F E A st \<Longrightarrow> A i = Some a \<Longrightarrow> E i = Some (ae_event a) \<and> verify_author lib a = Inr ()"
  by (simp add: holds_at_def conversation_ok_def)

lemma holds_authorized_encoded: "holds_at lib cid F E A st \<Longrightarrow> A i = Some a \<Longrightarrow> \<exists>b. pc_authorized lib a = Some b"
  by (auto simp: holds_at_def directory_holds_def files_hold_def split: option.splits)

lemma load_authorization_holds:
  assumes doc: "events_documented lib" and H: "holds_at lib cid F E A st" and a: "A i = Some a"
    and m: "verify_for_membership lib m a = Inr ()"
  shows "load_authorization lib m cid st (stored E i) = Inr (authorized_stored A i)"
proof -
  from holds_authorized_encoded [OF H a] obtain b where b: "pc_authorized lib a = Some b" ..
  then have "pc_authorized_from lib b = Some a" using doc by (auto simp: events_documented_def inverts_def)
  then have "decode_and_verify_author lib b = Inr a" using holds_authorized [OF H a] by (simp add: decode_and_verify_author_def)
  moreover have "event_id lib (ae_event a) = Inr i"
    using holds_event_ok [OF H] holds_authorized [OF H a] by (simp add: event_ok_def)
  ultimately show ?thesis
    using m a b holds_authorized [OF H a] by (simp add: load_authorization_def holds_authorization_at [OF H] authorized_stored_def)
qed

lemma load_authorized_holds:
  assumes doc: "events_documented lib" and H: "holds_at lib cid F E A st" and all: "dom A = dom E" and m: "member_events lib m cid A"
  shows "load_authorized_conversation lib cid m st = Inr (map (authorized_stored A) (in_text_order (dom A)))"
proof -
  have fin: "finite (dom E)" using H by (rule holds_finite)
  have "try_map (load_authorization lib m cid st) (map (stored E) (in_text_order (dom E))) = Inr (map (authorized_stored A) (in_text_order (dom E)))"
    unfolding try_map_all2 list_all2_map1 list_all2_map2
  proof (rule list.rel_refl_strong)
    fix i assume "i \<in> set (in_text_order (dom E))"
    then obtain a where "A i = Some a" using fin all by auto
    moreover from this have "verify_for_membership lib m a = Inr ()" using m unfolding member_events_def by blast
    ultimately show "load_authorization lib m cid st (stored E i) = Inr (authorized_stored A i)"
      by (rule load_authorization_holds [OF doc H])
  qed
  then show ?thesis
    using m all by (simp add: load_authorized_conversation_def member_events_def load_conversation_holds [OF doc H])
qed

lemma load_authorized_missing:
  assumes doc: "events_documented lib" and H: "holds_at lib cid F E A st" and i: "i \<in> dom E" "i \<notin> dom A"
  shows "\<not> is_ok (load_authorized_conversation lib cid m st)"
proof
  assume "is_ok (load_authorized_conversation lib cid m st)"
  then obtain ys where ys: "try_map (load_authorization lib m cid st) (map (stored E) (in_text_order (dom E))) = Inr ys"
    by (auto simp: load_authorized_conversation_def result_simps load_conversation_holds [OF doc H] split: if_splits)
  have "stored E i \<in> set (map (stored E) (in_text_order (dom E)))" using i(1) holds_finite [OF H] by simp
  from try_map_mem [OF ys this] obtain y where "load_authorization lib m cid st (stored E i) = Inr y" ..
  moreover have "authorization_at cid i st = None" using i(2) by (simp add: holds_authorization_at [OF H] domIff)
  ultimately show False by (simp add: load_authorization_def)
qed

subsection \<open>Writing one file\<close>

lemma create_directory_holds:
  assumes H: "holds_at lib cid F E A st"
  shows "\<exists>st'. create_directory cid st = (Inr (), st') \<and> holds_at lib cid F E A st' \<and> directory_exists cid st'"
proof (cases "t_get st (conversation_directory cid)")
  case None
  have v: "t_valid st" using H by (simp add: holds_at_def)
  from None show ?thesis
    using H by (auto simp: files_hold_empty create_directory_def holds_at_def directory_holds_def directory_exists_def
        tbl.get_insert [OF v] tbl.valid_insert)
next
  case (Some d)
  then show ?thesis using H by (simp add: create_directory_def directory_exists_def)
qed

lemma persist_event_holds:
  assumes H: "holds_at lib cid F E A st" and d: "directory_exists cid st" and ok: "event_ok lib cid i e"
    and b: "pc_event lib e = Some b" and new: "E i = None"
    and pos: "\<forall>j f. E j = Some f \<longrightarrow> writer_position f \<noteq> writer_position e"
  shows "\<exists>st'. persist_event cid b i st = (Inr EventInserted, st') \<and> holds_at lib cid F (E(i \<mapsto> e)) A st' \<and> directory_exists cid st'"
proof -
  from d obtain dir where dir: "t_get st (conversation_directory cid) = Some dir" by (auto simp: directory_exists_def)
  have v: "t_valid st" using H by (simp add: holds_at_def)
  have f: "files_hold (pc_event lib) E (event_files dir)" using H dir by (simp add: holds_at_def directory_holds_def)
  have "conversation_ok lib cid (E(i \<mapsto> e)) A"
    using H ok new pos unfolding holds_at_def conversation_ok_def positions_distinct_def
    by (auto split: if_splits) metis+
  then show ?thesis
    using H dir f files_hold_get [OF f, of i] files_hold_insert [OF f new b] new
    by (simp add: persist_event_def holds_at_def directory_holds_def directory_exists_def tbl.get_insert [OF v] tbl.valid_insert)
qed

lemma persist_authorization_holds:
  assumes H: "holds_at lib cid F E A st" and d: "directory_exists cid st" and e: "E i = Some (ae_event a)"
    and a: "verify_author lib a = Inr ()" and b: "pc_authorized lib a = Some b" and new: "A i = None"
  shows "\<exists>st'. persist_authorization cid b i st = (Inr (), st') \<and> holds_at lib cid F E (A(i \<mapsto> a)) st' \<and> directory_exists cid st'"
proof -
  from d obtain dir where dir: "t_get st (conversation_directory cid) = Some dir" by (auto simp: directory_exists_def)
  have v: "t_valid st" using H by (simp add: holds_at_def)
  have f: "files_hold (pc_authorized lib) A (authorization_files dir)" using H dir by (simp add: holds_at_def directory_holds_def)
  have "conversation_ok lib cid E (A(i \<mapsto> a))"
    using H e a unfolding holds_at_def conversation_ok_def by auto
  then show ?thesis
    using H dir f files_hold_get [OF f, of i] files_hold_insert [OF f new b] new
    by (simp add: persist_authorization_def holds_at_def directory_holds_def directory_exists_def tbl.get_insert [OF v] tbl.valid_insert)
qed

subsection \<open>Writing events\<close>

text \<open>\<open>extended es E E'\<close>: the map grew, by events of \<open>es\<close> only. \<open>consistent lib E es G\<close>: \<open>G\<close> is a conversation with
  distinct writer positions that contains \<open>E\<close> and, under their ids, the events \<open>es\<close>.\<close>

definition extended :: "'x set \<Rightarrow> (bytes \<rightharpoonup> 'x) \<Rightarrow> (bytes \<rightharpoonup> 'x) \<Rightarrow> bool" where
  "extended es E E' \<longleftrightarrow> E \<subseteq>\<^sub>m E' \<and> (\<forall>i e. E' i = Some e \<longrightarrow> E i = Some e \<or> e \<in> es)"

definition consistent :: "'a event_libs_scheme \<Rightarrow> (bytes \<rightharpoonup> SignedEvent) \<Rightarrow> SignedEvent set \<Rightarrow> (bytes \<rightharpoonup> SignedEvent) \<Rightarrow> bool" where
  "consistent lib E es G \<longleftrightarrow> E \<subseteq>\<^sub>m G \<and> positions_distinct G \<and> (\<forall>e \<in> es. \<exists>i. event_id lib e = Inr i \<and> G i = Some e)"

lemma extended_refl [simp]: "extended es E E"
  by (simp add: extended_def)

lemma extended_trans: "extended es E E' \<Longrightarrow> extended es' E' E'' \<Longrightarrow> extended (es \<union> es') E E''"
  unfolding extended_def by (blast intro: map_le_trans)

lemma extended_mono: "extended es E E' \<Longrightarrow> es \<subseteq> es' \<Longrightarrow> extended es' E E'"
  unfolding extended_def by blast

lemma extended_insert: "E i = None \<or> E i = Some e \<Longrightarrow> e \<in> es \<Longrightarrow> extended es E (E(i \<mapsto> e))"
  by (auto simp: extended_def map_le_def)

lemma consistent_Cons: "consistent lib E (set (e # es)) G \<Longrightarrow> E' \<subseteq>\<^sub>m G \<Longrightarrow> consistent lib E' (set es) G"
  by (simp add: consistent_def)

lemma map_le_some: "E \<subseteq>\<^sub>m G \<Longrightarrow> E i = Some e \<Longrightarrow> G i = Some e"
  by (force simp: map_le_def dom_def)

definition events_stored :: "'a event_libs_scheme \<Rightarrow> SignedEvent set \<Rightarrow> (bytes \<rightharpoonup> SignedEvent) \<Rightarrow> bool" where
  "events_stored lib es E \<longleftrightarrow> (\<forall>e \<in> es. \<exists>i. event_id lib e = Inr i \<and> E i = Some e)"

lemma events_stored_le: "events_stored lib es E \<Longrightarrow> E \<subseteq>\<^sub>m E' \<Longrightarrow> events_stored lib es E'"
  unfolding events_stored_def by (blast dest: map_le_some)

text \<open>The table of writer positions \<open>put_batch\<close> keeps beside the map.\<close>

definition tracks :: "(bytes \<times> u64 \<rightharpoonup> bytes) \<Rightarrow> (bytes \<rightharpoonup> SignedEvent) \<Rightarrow> bool" where
  "tracks wp E \<longleftrightarrow> (\<forall>p i. wp p = Some i \<longleftrightarrow> (\<exists>e. E i = Some e \<and> writer_position e = p))"

lemma tracks_insert:
  assumes "tracks wp E" and "E i = None" and "wp (writer_position e) = None"
  shows "tracks (wp(writer_position e \<mapsto> i)) (E(i \<mapsto> e))"
  unfolding tracks_def
proof (intro allI)
  fix p j
  have t: "wp q = Some k \<longleftrightarrow> (\<exists>e. E k = Some e \<and> writer_position e = q)" for q k using assms(1) unfolding tracks_def by blast
  have "p = writer_position e \<Longrightarrow> E j = Some f \<Longrightarrow> writer_position f \<noteq> p" for f
    using assms(1,3) unfolding tracks_def by (metis option.distinct(1))
  then show "((wp(writer_position e \<mapsto> i)) p = Some j) = (\<exists>f. (E(i \<mapsto> e)) j = Some f \<and> writer_position f = p)"
    using assms(1,2) by (cases "p = writer_position e"; cases "j = i") (auto simp: t)
qed

lemma tracks_new: "tracks wp E \<Longrightarrow> wp (writer_position e) = None \<Longrightarrow> E j = Some f \<Longrightarrow> writer_position f \<noteq> writer_position e"
  unfolding tracks_def by (metis not_Some_eq)

definition wrote_events
  :: "'a event_libs_scheme \<Rightarrow> bytes \<Rightarrow> (bytes \<rightharpoonup> ConversationDirectory) \<Rightarrow> (bytes \<rightharpoonup> SignedEvent) \<Rightarrow> (bytes \<rightharpoonup> AuthorizedEvent)
      \<Rightarrow> SignedEvent set \<Rightarrow> (event_store_error + 'r) \<times> event_store \<Rightarrow> bool" where
  "wrote_events lib cid F E A es = (\<lambda>(r, st'). \<exists>E'. holds_at lib cid F E' A st' \<and> extended es E E'
     \<and> (is_ok r \<longrightarrow> events_stored lib es E') \<and> (\<forall>G. consistent lib E es G \<longrightarrow> is_ok r \<and> E' \<subseteq>\<^sub>m G))"

lemma existing_valid:
  assumes "event_ok lib cid i x" "event_encode lib e = Inr b" "events_documented lib"
  shows "validate_existing_event (the (pc_event lib x)) b i = (if x = e then Inr EventAlreadyPresent else Inl (ImmutableEventConflict i))"
proof -
  from event_ok_encoded [OF assms(1)] obtain c where c: "pc_event lib x = Some c" ..
  have b: "pc_event lib e = Some b" using assms(2) by (simp add: event_encode_def result_simps)
  have "c = b \<longleftrightarrow> x = e" using b c assms(3) unfolding events_documented_def inverts_def by (metis option.inject)
  then show ?thesis using c by (simp add: validate_existing_event_def)
qed

lemma wrote_Cons:
  assumes W: "wrote_events lib cid F (E(i \<mapsto> e)) A (set es) res" and i: "event_id lib e = Inr i" and new: "E i = None \<or> E i = Some e"
  shows "wrote_events lib cid F E A (set (e # es)) res"
proof -
  obtain r st' where res: "res = (r, st')" by fastforce
  from W res obtain E' where E': "holds_at lib cid F E' A st'" "extended (set es) (E(i \<mapsto> e)) E'"
      "is_ok r \<longrightarrow> events_stored lib (set es) E'" "\<And>G. consistent lib (E(i \<mapsto> e)) (set es) G \<Longrightarrow> is_ok r \<and> E' \<subseteq>\<^sub>m G"
    by (auto simp: wrote_events_def)
  have le: "E(i \<mapsto> e) \<subseteq>\<^sub>m E'" using E'(2) by (simp add: extended_def)
  have ext: "extended (set (e # es)) E E'"
    using extended_trans [OF extended_insert [of E i e "{e}"] E'(2)] new by simp
  have st: "events_stored lib (set (e # es)) E'" if "is_ok r"
    using E'(3) that i map_le_some [OF le, of i e] by (simp add: events_stored_def)
  have "is_ok r \<and> E' \<subseteq>\<^sub>m G" if G: "consistent lib E (set (e # es)) G" for G
  proof (rule E'(4))
    have "E(i \<mapsto> e) \<subseteq>\<^sub>m G" using G i by (auto simp: consistent_def map_le_def)
    then show "consistent lib (E(i \<mapsto> e)) (set es) G" by (rule consistent_Cons [OF G])
  qed
  with E'(1) ext st show ?thesis unfolding wrote_events_def res by blast
qed

lemma insert_events_wrote:
  assumes doc: "events_documented lib"
  shows "holds_at lib cid F E A st \<Longrightarrow> directory_exists cid st \<Longrightarrow> tracks wp E \<Longrightarrow>
    (\<forall>e \<in> set es. event_verify lib e = Inr () \<and> event_conversation_id e = cid) \<Longrightarrow>
    wrote_events lib cid F E A (set es) (insert_events lib cid wp es st)"
proof (induction es arbitrary: E wp st)
  case Nil
  then show ?case by (auto simp: wrote_events_def pure_def events_stored_def consistent_def intro: exI [of _ E])
next
  case (Cons e es)
  note H = Cons.prems(1) and d = Cons.prems(2) and wp = Cons.prems(3)
  have stop: "wrote_events lib cid F E A (set (e # es)) (Inl x, st)" if "\<And>G. \<not> consistent lib E (set (e # es)) G" for x :: event_store_error
    using H d that unfolding wrote_events_def by auto
  show ?case
  proof (cases "event_id lib e")
    case (Inl x)
    then show ?thesis using stop by (simp add: then_do_def pure_def consistent_def)
  next
    case (Inr i)
    then obtain b where b: "event_encode lib e = Inr b" "pc_event lib e = Some b"
      by (auto simp: event_id_def event_encode_def result_simps)
    have ok: "event_ok lib cid i e" using Cons.prems(4) Inr by (simp add: event_ok_def)
    have in_G: "E \<subseteq>\<^sub>m G" "G i = Some e" "positions_distinct G" if "consistent lib E (set (e # es)) G" for G
      using that Inr by (auto simp: consistent_def)
    show ?thesis
    proof (cases "E i")
      case (Some x)
      have at: "event_at cid i st = Some (the (pc_event lib x))"
        using Some event_ok_encoded [OF holds_event_ok [OF H Some]] by (auto simp: holds_event_at [OF H])
      note val = existing_valid [OF holds_event_ok [OF H Some] b(1) doc]
      show ?thesis
      proof (cases "x = e")
        case True
        have "wrote_events lib cid F E A (set es) (insert_events lib cid wp es st)" using Cons by simp
        then have "wrote_events lib cid F E A (set (e # es)) (insert_events lib cid wp es st)"
          using wrote_Cons [of lib cid F E i e A es] Some True Inr by (simp add: fun_upd_idem)
        then show ?thesis using at val True Inr b by (simp add: then_do_def pure_def)
      next
        case False
        then have "\<not> consistent lib E (set (e # es)) G" for G using in_G [of G] map_le_some [of E G i x] Some by auto
        then show ?thesis using stop at val False Inr b by (simp add: then_do_def pure_def)
      qed
    next
      case None
      then have at: "event_at cid i st = None" by (simp add: holds_event_at [OF H])
      show ?thesis
      proof (cases "wp (writer_position e)")
        case (Some j)
        then obtain f where f: "E j = Some f" "writer_position f = writer_position e" using wp unfolding tracks_def by blast
        then have "\<not> consistent lib E (set (e # es)) G" for G
          using in_G [of G] None unfolding positions_distinct_def by (metis map_le_some option.distinct(1))
        then show ?thesis using stop Some at Inr b by (simp add: then_do_def pure_def)
      next
        case new: None
        have pos: "\<forall>j f. E j = Some f \<longrightarrow> writer_position f \<noteq> writer_position e" using tracks_new [OF wp new] by blast
        from persist_event_holds [OF H d ok b(2) None pos] obtain st' where
          st': "persist_event cid b i st = (Inr EventInserted, st')" "holds_at lib cid F (E(i \<mapsto> e)) A st'" "directory_exists cid st'" by blast
        have "wrote_events lib cid F (E(i \<mapsto> e)) A (set es) (insert_events lib cid (wp(writer_position e \<mapsto> i)) es st')"
          by (rule Cons.IH [OF st'(2,3) tracks_insert [OF wp None new]]) (use Cons.prems(4) in simp)
        then have "wrote_events lib cid F E A (set (e # es)) (insert_events lib cid (wp(writer_position e \<mapsto> i)) es st')"
          using wrote_Cons [OF _ Inr] None by blast
        then show ?thesis using at new st' Inr b by (simp add: then_do_def pure_def)
      qed
    qed
  qed
qed

lemma holds_nonempty: "holds_at lib cid F E A st \<Longrightarrow> E i = Some e \<Longrightarrow> directory_exists cid st"
  by (auto simp: holds_at_def directory_holds_def directory_exists_def split: option.splits)

lemma wrote_failed:
  "holds_at lib cid F E A st \<Longrightarrow> \<forall>G. \<not> consistent lib E es G \<Longrightarrow> wrote_events lib cid F E A es (Inl x, st)"
  unfolding wrote_events_def by auto

lemma tracks_stored:
  assumes H: "holds_at lib cid F E A st"
  shows "tracks (map_of (rev (map (\<lambda>s. (writer_position (st_event s), st_id s)) (map (stored E) (in_text_order (dom E)))))) E"
proof -
  let ?xs = "map (\<lambda>i. (writer_position (the (E i)), i)) (in_text_order (dom E))"
  have fin: "finite (dom E)" using H by (rule holds_finite)
  have "inj_on (\<lambda>i. writer_position (the (E i))) (dom E)"
    using H by (auto simp: holds_at_def conversation_ok_def positions_distinct_def inj_on_def)
  then have d: "distinct (map fst (rev ?xs))" using fin by (simp add: o_def distinct_map rev_map flip: rev_map)
  have "map_of (rev ?xs) p = Some i \<longleftrightarrow> (\<exists>e. E i = Some e \<and> writer_position e = p)" for p i
    unfolding map_of_eq_Some_iff [OF d] using fin by (auto simp: image_iff)
  then show ?thesis unfolding tracks_def by (simp add: o_def)
qed

lemma put_conversation_wrote:
  assumes doc: "events_documented lib" and H: "holds_at lib cid F E A st" and v: "\<forall>e \<in> set es. event_verify lib e = Inr ()"
  shows "wrote_events lib cid F E A {e \<in> set es. event_conversation_id e = cid} (put_conversation lib es cid st)"
proof -
  from create_directory_holds [OF H] obtain st1 where
    st1: "create_directory cid st = (Inr (), st1)" "holds_at lib cid F E A st1" "directory_exists cid st1" by blast
  have "wrote_events lib cid F E A (set (filter (\<lambda>e. event_conversation_id e = cid) es))
      (insert_events lib cid (map_of (rev (map (\<lambda>s. (writer_position (st_event s), st_id s)) (map (stored E) (in_text_order (dom E))))))
        (filter (\<lambda>e. event_conversation_id e = cid) es) st1)"
    by (rule insert_events_wrote [OF doc st1(2,3) tracks_stored [OF H]]) (use v in auto)
  then show ?thesis
    using st1 by (simp add: put_conversation_def then_do_def pure_def load_conversation_holds [OF doc H])
qed

lemma loaded_set: "finite (dom E) \<Longrightarrow> s \<in> set (map (stored E) (in_text_order (dom E))) \<longleftrightarrow> E (st_id s) = Some (st_event s)"
  by (cases s) (force simp: stored_def)

text \<open>The specification of a put on the events \<open>E\<close> of the conversation: the event that already has the id, else
  the event of the same author and sequence, else the new event.\<close>

definition event_put_spec :: "(bytes \<rightharpoonup> SignedEvent) \<Rightarrow> bytes \<Rightarrow> SignedEvent \<Rightarrow> (event_store_error + StoreOutcome) \<Rightarrow> (bytes \<rightharpoonup> SignedEvent) \<Rightarrow> bool" where
  "event_put_spec E i e r E' \<longleftrightarrow> (case E i of
     Some x \<Rightarrow> E' = E \<and> r = (if x = e then Inr EventAlreadyPresent else Inl (ImmutableEventConflict i))
   | None \<Rightarrow> (if \<exists>j f. E j = Some f \<and> writer_position f = writer_position e
        then E' = E \<and> (\<exists>j f. E j = Some f \<and> writer_position f = writer_position e
          \<and> r = Inl (WriterSequenceConflict (event_author_device_id e) (event_author_sequence e) j i))
        else E' = E(i \<mapsto> e) \<and> r = Inr EventInserted))"

lemma find_stored:
  assumes "finite (dom E)"
  shows "(case find (\<lambda>s. writer_position (st_event s) = p) (map (stored E) (in_text_order (dom E))) of
      None \<Rightarrow> \<not> (\<exists>j f. E j = Some f \<and> writer_position f = p)
    | Some s \<Rightarrow> E (st_id s) = Some (st_event s) \<and> writer_position (st_event s) = p)"
proof (cases "find (\<lambda>s. writer_position (st_event s) = p) (map (stored E) (in_text_order (dom E)))")
  case None
  then have "\<forall>i \<in> dom E. writer_position (the (E i)) \<noteq> p" using assms by (simp add: find_None_iff)
  then show ?thesis unfolding None by force
next
  case (Some s)
  then have "s \<in> set (map (stored E) (in_text_order (dom E)))" "writer_position (st_event s) = p"
    by (auto simp: find_Some_iff)
  then show ?thesis using Some loaded_set [OF assms] by simp
qed

lemma put_new_acts:
  assumes doc: "events_documented lib" and H: "holds_at lib cid F E A st" and d: "directory_exists cid st"
    and ok: "event_ok lib cid i e" and b: "pc_event lib e = Some b" and None: "E i = None"
    and r: "(r, st') = (case find (\<lambda>s. writer_position (st_event s) = writer_position e) (map (stored E) (in_text_order (dom E))) of
        Some s \<Rightarrow> (Inl (WriterSequenceConflict (event_author_device_id e) (event_author_sequence e) (st_id s) i), st)
      | None \<Rightarrow> persist_event cid b i st)"
  shows "\<exists>E'. event_put_spec E i e r E' \<and> holds_at lib cid F E' A st'"
proof (cases "find (\<lambda>s. writer_position (st_event s) = writer_position e) (map (stored E) (in_text_order (dom E)))")
  case (Some s)
  then have "E (st_id s) = Some (st_event s)" "writer_position (st_event s) = writer_position e"
    using find_stored [OF holds_finite [OF H], of "writer_position e"] by simp_all
  then show ?thesis using r Some None H by (intro exI [of _ E]) (auto simp: event_put_spec_def)
next
  case new: None
  then have pos: "\<forall>j f. E j = Some f \<longrightarrow> writer_position f \<noteq> writer_position e"
    using find_stored [OF holds_finite [OF H], of "writer_position e"] by auto
  from persist_event_holds [OF H d ok b None pos] show ?thesis
    using r new None pos by (auto simp: event_put_spec_def intro!: exI [of _ "E(i \<mapsto> e)"])
qed

lemma event_put_acts:
  assumes doc: "events_documented lib" and H: "holds_at lib (event_conversation_id e) F E A st" and v: "event_verify lib e = Inr ()"
    and i: "event_id lib e = Inr i" and p: "event_put lib e st = (r, st')"
  shows "\<exists>E'. event_put_spec E i e r E' \<and> holds_at lib (event_conversation_id e) F E' A st'"
proof -
  let ?cid = "event_conversation_id e"
  obtain b where b: "event_encode lib e = Inr b" "pc_event lib e = Some b"
    using i by (auto simp: event_id_def event_encode_def result_simps)
  from create_directory_holds [OF H] obtain st1 where
    st1: "create_directory ?cid st = (Inr (), st1)" and H1: "holds_at lib ?cid F E A st1" and d1: "directory_exists ?cid st1" by blast
  have ok: "event_ok lib ?cid i e" using v i by (simp add: event_ok_def)
  show ?thesis
  proof (cases "E i")
    case (Some x)
    have "event_at ?cid i st1 = Some (the (pc_event lib x))"
      using Some event_ok_encoded [OF holds_event_ok [OF H1 Some]] by (auto simp: holds_event_at [OF H1])
    then have "(r, st') = (validate_existing_event (the (pc_event lib x)) b i, st1)"
      using p v i b st1 by (simp add: event_put_def then_do_def pure_def)
    then show ?thesis using H1 Some existing_valid [OF holds_event_ok [OF H1 Some] b(1) doc]
      by (intro exI [of _ E]) (simp add: event_put_spec_def)
  next
    case None
    then have "event_at ?cid i st1 = None" by (simp add: holds_event_at [OF H1])
    then show ?thesis using p v i b st1
      by (intro put_new_acts [OF doc H1 d1 ok b(2) None])
        (simp add: event_put_def then_do_def pure_def load_conversation_holds [OF doc H1] split: option.splits)
  qed
qed

lemma event_put_spec_wrote:
  assumes S: "event_put_spec E i e r E'" and i: "event_id lib e = Inr i" and H: "holds_at lib cid F E' A st'"
  shows "wrote_events lib cid F E A {e} (r, st')"
proof (cases "E' i = Some e")
  case True
  then have E': "E' = E(i \<mapsto> e)" "E i = None \<or> E i = Some e" "is_ok r"
    using S by (auto simp: event_put_spec_def fun_upd_idem split: option.splits if_splits)
  then have "wrote_events lib cid F (E(i \<mapsto> e)) A (set []) (r, st')"
    using H by (auto simp: wrote_events_def events_stored_def consistent_def intro: exI [of _ "E(i \<mapsto> e)"])
  then show ?thesis using wrote_Cons [of lib cid F E i e A "[]" "(r, st')"] i E'(2) by simp
next
  case False
  then have r: "E' = E" "\<exists>x. r = Inl x"
    and clash: "(\<exists>x. E i = Some x \<and> x \<noteq> e) \<or> E i = None \<and> (\<exists>j f. E j = Some f \<and> writer_position f = writer_position e)"
    using S by (auto simp: event_put_spec_def split: option.splits if_splits)
  have "\<not> consistent lib E {e} G" for G
    using clash i unfolding consistent_def positions_distinct_def
    by (metis map_le_some insertI1 option.distinct(1) option.inject sum.inject(2))
  then show ?thesis using r wrote_failed [of lib cid F E A st' "{e}"] H by auto
qed

lemma event_put_wrote:
  assumes doc: "events_documented lib" and H: "holds_at lib (event_conversation_id e) F E A st" and v: "event_verify lib e = Inr ()"
  shows "wrote_events lib (event_conversation_id e) F E A {e} (event_put lib e st)"
proof (cases "event_id lib e")
  case (Inl x)
  then have "\<forall>G. \<not> consistent lib E {e} G" by (simp add: consistent_def)
  then show ?thesis using v Inl wrote_failed [OF H, of "{e}"] by (simp add: event_put_def then_do_def pure_def)
next
  case (Inr i)
  obtain r st' where p: "event_put lib e st = (r, st')" by fastforce
  then show ?thesis using event_put_acts [OF doc H v Inr p] event_put_spec_wrote [OF _ Inr] by auto
qed

end
