(* ===== verification/Event_Store_Batches.thy ===== *)
theory Event_Store_Batches
  imports Event_Store_Invariant
begin

text \<open>
  Authorised writes and batches on the maps of \<open>Event_Store_Invariant\<close>, and growth of the whole store: every
  write keeps what every conversation holds, whether it succeeds or fails.
\<close>

section \<open>Authorised writes\<close>

definition events_of :: "(bytes \<rightharpoonup> AuthorizedEvent) \<Rightarrow> (bytes \<rightharpoonup> SignedEvent)" where
  "events_of A = map_option ae_event \<circ> A"

lemma events_of_simps [simp]: "events_of A i = map_option ae_event (A i)" "dom (events_of A) = dom A"
  by (auto simp: events_of_def dom_def)

definition authorized_in :: "'a event_libs_scheme \<Rightarrow> AuthorizedEvent set \<Rightarrow> (bytes \<rightharpoonup> AuthorizedEvent) \<Rightarrow> bool" where
  "authorized_in lib as A \<longleftrightarrow> (\<forall>a \<in> as. \<exists>i. event_id lib (ae_event a) = Inr i \<and> A i = Some a)"

text \<open>\<open>G\<close> is a conversation of authorised events of members with distinct writer positions that contains the
  conversation held and the events to write.\<close>

definition agreeing
  :: "'a event_libs_scheme \<Rightarrow> ConversationMembershipSnapshot \<Rightarrow> (bytes \<rightharpoonup> SignedEvent) \<Rightarrow> (bytes \<rightharpoonup> AuthorizedEvent)
      \<Rightarrow> AuthorizedEvent set \<Rightarrow> (bytes \<rightharpoonup> AuthorizedEvent) \<Rightarrow> bool" where
  "agreeing lib m E A as G \<longleftrightarrow> A \<subseteq>\<^sub>m G \<and> E \<subseteq>\<^sub>m events_of G \<and> positions_distinct (events_of G) \<and> authorized_in lib as G
     \<and> (\<forall>a \<in> as. verify_for_membership lib m a = Inr () \<and> pc_authorized lib a \<noteq> None)"

definition wrote_authorized
  :: "'a event_libs_scheme \<Rightarrow> ConversationMembershipSnapshot \<Rightarrow> bytes \<Rightarrow> (bytes \<rightharpoonup> ConversationDirectory) \<Rightarrow> (bytes \<rightharpoonup> SignedEvent)
      \<Rightarrow> (bytes \<rightharpoonup> AuthorizedEvent) \<Rightarrow> AuthorizedEvent set \<Rightarrow> (event_store_error + 'r) \<times> event_store \<Rightarrow> bool" where
  "wrote_authorized lib m cid F E A as = (\<lambda>(r, st'). \<exists>E' A'. holds_at lib cid F E' A' st'
     \<and> extended (ae_event ` as) E E' \<and> extended as A A' \<and> (is_ok r \<longrightarrow> authorized_in lib as A')
     \<and> (\<forall>G. agreeing lib m E A as G \<longrightarrow> is_ok r \<and> E' \<subseteq>\<^sub>m events_of G \<and> A' \<subseteq>\<^sub>m G))"

lemma wrote_authorizedI:
  assumes "holds_at lib cid F E' A' st'" "extended (ae_event ` as) E E'" "extended as A A'" "is_ok r \<Longrightarrow> authorized_in lib as A'"
    and "\<And>G. agreeing lib m E A as G \<Longrightarrow> is_ok r \<and> E' \<subseteq>\<^sub>m events_of G \<and> A' \<subseteq>\<^sub>m G"
  shows "wrote_authorized lib m cid F E A as (r, st')"
  using assms unfolding wrote_authorized_def by blast

lemma wrote_authorizedE:
  assumes "wrote_authorized lib m cid F E A as (r, st')"
  obtains E' A' where "holds_at lib cid F E' A' st'" "extended (ae_event ` as) E E'" "extended as A A'"
    "is_ok r \<Longrightarrow> authorized_in lib as A'" "\<And>G. agreeing lib m E A as G \<Longrightarrow> is_ok r \<and> E' \<subseteq>\<^sub>m events_of G \<and> A' \<subseteq>\<^sub>m G"
  using assms unfolding wrote_authorized_def by auto

lemma wrote_eventsE:
  assumes "wrote_events lib cid F E A es (r, st')"
  obtains E' where "holds_at lib cid F E' A st'" "extended es E E'" "is_ok r \<Longrightarrow> events_stored lib es E'"
    "\<And>G. consistent lib E es G \<Longrightarrow> is_ok r \<and> E' \<subseteq>\<^sub>m G"
  using assms unfolding wrote_events_def by auto

lemma agreeing_consistent: "agreeing lib m E A as G \<Longrightarrow> consistent lib E (ae_event ` as) (events_of G)"
  by (force simp: agreeing_def consistent_def authorized_in_def)

lemma authorized_in_le: "authorized_in lib as A \<Longrightarrow> A \<subseteq>\<^sub>m B \<Longrightarrow> authorized_in lib as B"
  unfolding authorized_in_def by (blast dest: map_le_some)

lemma membership_author: "verify_for_membership lib m a = Inr () \<Longrightarrow> verify_author lib a = Inr ()"
  by (auto simp: verify_for_membership_def result_simps)

lemma membership_event: "verify_for_membership lib m a = Inr () \<Longrightarrow>
    event_verify lib (ae_event a) = Inr () \<and> event_conversation_id (ae_event a) = membership_conversation_id m"
  by (auto simp: verify_for_membership_def verify_author_def result_simps split: if_splits)

text \<open>The authorisation file of an event that is stored.\<close>

definition put_authorization :: "bytes \<Rightarrow> bytes \<Rightarrow> bytes \<Rightarrow> unit event_store_op" where
  "put_authorization cid i b st = (case authorization_at cid i st of
     Some actual \<Rightarrow> (validate_existing_authorization actual b i, st)
   | None \<Rightarrow> persist_authorization cid b i st)"

lemma put_authorization_wrote:
  assumes doc: "events_documented lib" and H: "holds_at lib cid F E A st" and e: "E i = Some (ae_event a)"
    and a: "verify_author lib a = Inr ()" and b: "pc_authorized lib a = Some b"
  shows "\<exists>r st' A'. put_authorization cid i b st = (r, st') \<and> holds_at lib cid F E A' st' \<and> extended {a} A A'
    \<and> (is_ok r \<longrightarrow> A' i = Some a) \<and> (is_ok r \<longleftrightarrow> A i = None \<or> A i = Some a)"
proof (cases "A i")
  case None
  have "directory_exists cid st" using holds_nonempty [OF H e] .
  from persist_authorization_holds [OF H this e a b None] obtain st' where
    "persist_authorization cid b i st = (Inr (), st')" "holds_at lib cid F E (A(i \<mapsto> a)) st'" by blast
  then show ?thesis using None
    by (intro exI [of _ "Inr ()"] exI [of _ st'] exI [of _ "A(i \<mapsto> a)"])
       (simp add: put_authorization_def holds_authorization_at [OF H] extended_insert)
next
  case (Some x)
  from holds_authorized_encoded [OF H Some] obtain c where c: "pc_authorized lib x = Some c" ..
  have eq: "c = b \<longleftrightarrow> x = a" using b c doc unfolding events_documented_def inverts_def by (metis option.inject)
  let ?r = "validate_existing_authorization c b i"
  have "put_authorization cid i b st = (?r, st)"
    using Some c by (simp add: put_authorization_def holds_authorization_at [OF H])
  moreover have "is_ok ?r \<longleftrightarrow> x = a" using eq by (simp add: validate_existing_authorization_def)
  ultimately show ?thesis using H Some by (intro exI [of _ ?r] exI [of _ st] exI [of _ A]) simp
qed

lemma extended_agrees:
  assumes H: "holds_at lib cid F E A' st" and x: "extended as A A'" and G: "A \<subseteq>\<^sub>m G" "authorized_in lib as G"
  shows "A' \<subseteq>\<^sub>m G"
  unfolding map_le_def
proof
  fix j assume "j \<in> dom A'"
  then obtain a where a: "A' j = Some a" by auto
  then have j: "event_id lib (ae_event a) = Inr j"
    using holds_event_ok [OF H] holds_authorized [OF H a] by (simp add: event_ok_def)
  from x a consider "A j = Some a" | "a \<in> as" unfolding extended_def by blast
  then show "A' j = G j"
  proof cases
    case 1
    then show ?thesis using a map_le_some [OF G(1), of j a] by simp
  next
    case 2
    then show ?thesis using G(2) a j by (auto simp: authorized_in_def)
  qed
qed

lemma put_authorized_shape:
  assumes "verify_for_membership lib m a = Inr ()" and i: "event_id lib (ae_event a) = Inr i"
  shows "put_authorized_with_receipt lib m a st = (case event_put lib (ae_event a) st of
     (Inl x, st1) \<Rightarrow> (Inl x, st1)
   | (Inr outcome, st1) \<Rightarrow> (case pc_authorized lib a of
       None \<Rightarrow> (Inl (StoreProtocol ProtocolEncoding), st1)
     | Some b \<Rightarrow> (case put_authorization (event_conversation_id (ae_event a)) i b st1 of
         (Inl x, st2) \<Rightarrow> (Inl x, st2)
       | (Inr _, st2) \<Rightarrow> (Inr (outcome, [event_path (event_conversation_id (ae_event a)) i,
           authorization_path (event_conversation_id (ae_event a)) i]), st2))))"
  using assms membership_author [OF assms(1)]
  by (auto simp: put_authorized_with_receipt_def then_do_def pure_def authorized_encode_def put_authorization_def
      split: prod.splits sum.splits option.splits)

lemma put_authorized_wrote:
  assumes doc: "events_documented lib" and H: "holds_at lib (event_conversation_id (ae_event a)) F E A st"
  shows "wrote_authorized lib m (event_conversation_id (ae_event a)) F E A {a} (put_authorized_with_receipt lib m a st)"
proof -
  let ?cid = "event_conversation_id (ae_event a)"
  have none: "wrote_authorized lib m ?cid F E A {a} (Inl x, st)" if "\<And>G. \<not> agreeing lib m E A {a} G" for x :: event_store_error
    by (rule wrote_authorizedI [OF H]) (use that in auto)
  show ?thesis
  proof (cases "\<exists>i. verify_for_membership lib m a = Inr () \<and> event_id lib (ae_event a) = Inr i")
    case False
    then have no: "\<not> agreeing lib m E A {a} G" for G by (auto simp: agreeing_def authorized_in_def)
    from False obtain x where "put_authorized_with_receipt lib m a st = (Inl x, st)"
      by (cases "verify_for_membership lib m a"; cases "event_id lib (ae_event a)")
         (auto simp: put_authorized_with_receipt_def then_do_def pure_def)
    then show ?thesis using none [OF no] by simp
  next
    case True
    then obtain i where v: "verify_for_membership lib m a = Inr ()" and i: "event_id lib (ae_event a) = Inr i" by blast
    obtain r1 st1 where p: "event_put lib (ae_event a) st = (r1, st1)" by fastforce
    have "wrote_events lib ?cid F E A {ae_event a} (r1, st1)"
      unfolding p [symmetric] by (rule event_put_wrote [OF doc H]) (use membership_event [OF v] in simp)
    then obtain E' where E': "holds_at lib ?cid F E' A st1" "extended {ae_event a} E E'" "is_ok r1 \<Longrightarrow> events_stored lib {ae_event a} E'"
      "\<And>G. consistent lib E {ae_event a} G \<Longrightarrow> is_ok r1 \<and> E' \<subseteq>\<^sub>m G" by (rule wrote_eventsE) blast
    have prog: "is_ok r1 \<and> E' \<subseteq>\<^sub>m events_of G" if "agreeing lib m E A {a} G" for G
      using agreeing_consistent [OF that] E'(4) by simp
    have keep: "wrote_authorized lib m ?cid F E A {a} (Inl x, st1)" if "\<And>G. \<not> agreeing lib m E A {a} G" for x :: event_store_error
      by (rule wrote_authorizedI [OF E'(1)]) (use that E'(2) in auto)
    show ?thesis
    proof (cases r1)
      case (Inl x)
      then have "\<not> agreeing lib m E A {a} G" for G using prog [of G] by auto
      then show ?thesis using keep Inl p by (simp add: put_authorized_shape [OF v i])
    next
      case r1: (Inr outcome)
      then have Ei: "E' i = Some (ae_event a)" using E'(3) i by (simp add: events_stored_def)
      show ?thesis
      proof (cases "pc_authorized lib a")
        case None
        then have "\<not> agreeing lib m E A {a} G" for G by (simp add: agreeing_def)
        then show ?thesis using keep None r1 p by (simp add: put_authorized_shape [OF v i])
      next
        case (Some b)
        from put_authorization_wrote [OF doc E'(1) Ei membership_author [OF v] Some] obtain r2 st2 A' where
          w: "put_authorization ?cid i b st1 = (r2, st2)" "holds_at lib ?cid F E' A' st2" "extended {a} A A'"
            "is_ok r2 \<longrightarrow> A' i = Some a" "is_ok r2 \<longleftrightarrow> A i = None \<or> A i = Some a" by blast
        have "is_ok r2 \<and> E' \<subseteq>\<^sub>m events_of G \<and> A' \<subseteq>\<^sub>m G" if G: "agreeing lib m E A {a} G" for G
        proof -
          have Gi: "G i = Some a" "A \<subseteq>\<^sub>m G" using G i by (auto simp: agreeing_def authorized_in_def)
          then have "A i = None \<or> A i = Some a" using map_le_some [of A G i] by (cases "A i") auto
          moreover have "A' \<subseteq>\<^sub>m G" using G by (intro extended_agrees [OF w(2,3)]) (simp_all add: agreeing_def)
          ultimately show ?thesis using w(5) prog [OF G] by simp
        qed
        then have "wrote_authorized lib m ?cid F E A {a} (r2, st2)"
          using w(4) i E'(2) by (intro wrote_authorizedI [OF w(2) _ w(3)]) (auto simp: authorized_in_def)
        then show ?thesis using w(1) Some r1 p
          by (cases r2) (auto simp: put_authorized_shape [OF v i] wrote_authorized_def)
      qed
    qed
  qed
qed

section \<open>Batches\<close>

lemma agreeing_Un: "agreeing lib m E A (as \<union> bs) G \<longleftrightarrow> agreeing lib m E A as G \<and> agreeing lib m E A bs G"
  by (auto simp: agreeing_def authorized_in_def)

lemma wrote_authorized_fail:
  "wrote_authorized lib m cid F E A as (Inl x, st') \<Longrightarrow> wrote_authorized lib m cid F E A (as \<union> bs) (Inl y, st')"
  by (erule wrote_authorizedE, rule wrote_authorizedI)
     (auto simp: agreeing_Un image_Un intro: extended_mono)

lemma wrote_authorized_trans:
  assumes 1: "wrote_authorized lib m cid F E A as (Inr x, st1)"
    and 2: "\<And>E1 A1. holds_at lib cid F E1 A1 st1 \<Longrightarrow> wrote_authorized lib m cid F E1 A1 bs (r, st2)"
  shows "wrote_authorized lib m cid F E A (as \<union> bs) (r, st2)"
proof -
  from 1 obtain E1 A1 where w1: "holds_at lib cid F E1 A1 st1" "extended (ae_event ` as) E E1" "extended as A A1"
    "authorized_in lib as A1" "\<And>G. agreeing lib m E A as G \<Longrightarrow> E1 \<subseteq>\<^sub>m events_of G \<and> A1 \<subseteq>\<^sub>m G"
    by (rule wrote_authorizedE) simp
  from 2 [OF w1(1)] obtain E2 A2 where w2: "holds_at lib cid F E2 A2 st2" "extended (ae_event ` bs) E1 E2" "extended bs A1 A2"
    "is_ok r \<Longrightarrow> authorized_in lib bs A2" "\<And>G. agreeing lib m E1 A1 bs G \<Longrightarrow> is_ok r \<and> E2 \<subseteq>\<^sub>m events_of G \<and> A2 \<subseteq>\<^sub>m G"
    by (rule wrote_authorizedE) blast
  show ?thesis
  proof (rule wrote_authorizedI [OF w2(1)])
    show "extended (ae_event ` (as \<union> bs)) E E2" using extended_trans [OF w1(2) w2(2)] by (simp add: image_Un)
    show "extended (as \<union> bs) A A2" by (rule extended_trans [OF w1(3) w2(3)])
    have "A1 \<subseteq>\<^sub>m A2" using w2(3) by (simp add: extended_def)
    then show "authorized_in lib (as \<union> bs) A2" if "is_ok r"
      using w2(4) [OF that] authorized_in_le [OF w1(4)] unfolding authorized_in_def by blast
    fix G assume G: "agreeing lib m E A (as \<union> bs) G"
    then have "agreeing lib m E1 A1 bs G" using w1(5) [of G] unfolding agreeing_Un by (simp add: agreeing_def)
    then show "is_ok r \<and> E2 \<subseteq>\<^sub>m events_of G \<and> A2 \<subseteq>\<^sub>m G" by (rule w2(5))
  qed
qed

lemma wrote_authorized_result:
  "wrote_authorized lib m cid F E A as (r, st') \<Longrightarrow> is_ok r = is_ok r' \<Longrightarrow> wrote_authorized lib m cid F E A as (r', st')"
  unfolding wrote_authorized_def by simp

lemma put_each_wrote:
  assumes doc: "events_documented lib"
  shows "holds_at lib cid F E A st \<Longrightarrow> (\<forall>a \<in> set as. event_conversation_id (ae_event a) = cid) \<Longrightarrow>
    wrote_authorized lib m cid F E A (set as) (put_each_authorized lib m as st)"
proof (induction as arbitrary: E A st)
  case Nil
  show ?case unfolding put_each_authorized.simps pure_def
    by (rule wrote_authorizedI [OF Nil(1)]) (auto simp: authorized_in_def agreeing_def)
next
  case (Cons a as)
  obtain r st1 where p: "put_authorized_with_receipt lib m a st = (r, st1)" by fastforce
  have w: "wrote_authorized lib m cid F E A {a} (r, st1)"
    using put_authorized_wrote [OF doc, of a F E A st m] Cons.prems p by simp
  have un: "set (a # as) = {a} \<union> set as" by simp
  show ?case
  proof (cases r)
    case (Inl x)
    then show ?thesis unfolding un using wrote_authorized_fail [of lib m cid F E A "{a}" x st1 "set as" x] w p
      by (simp add: then_do_def)
  next
    case (Inr x)
    obtain r2 st2 where q: "put_each_authorized lib m as st1 = (r2, st2)" by fastforce
    have "wrote_authorized lib m cid F E A ({a} \<union> set as) (r2, st2)"
      using w Inr Cons.IH [of _ _ st1] Cons.prems(2) q by (intro wrote_authorized_trans [where x = x and ?st1.0 = st1]) simp_all
    then show ?thesis unfolding un using p q Inr
      by (cases r2) (auto simp: then_do_def pure_def split: prod.splits intro: wrote_authorized_result)
  qed
qed

lemma hash_map_order_single:
  assumes "events_documented lib" and "set keys \<subseteq> {cid}" and "keys \<noteq> []"
  shows "hash_map_order lib (remdups keys) = [cid]"
proof -
  have "set (remdups keys) = {cid}" using assms(2,3) by (cases keys) auto
  then have "distinct (hash_map_order lib (remdups keys)) \<and> set (hash_map_order lib (remdups keys)) = {cid}"
    using assms(1) by (simp add: events_documented_def)
  moreover have "xs = [cid]" if "distinct xs \<and> set xs = {cid}" for xs :: "bytes list"
    using that by (cases xs; cases "tl xs") auto
  ultimately show ?thesis by blast
qed

lemma put_batch_wrote:
  assumes doc: "events_documented lib" and H: "holds_at lib cid F E A st"
    and es: "\<forall>e \<in> set es. event_verify lib e = Inr () \<and> event_conversation_id e = cid"
  shows "wrote_events lib cid F E A (set es) (put_batch lib es st)"
proof (cases "es = []")
  case True
  have "set (hash_map_order lib []) = set []" using doc unfolding events_documented_def by (metis distinct.simps(1))
  then have "hash_map_order lib [] = []" by simp
  then show ?thesis using True H
    by (auto simp: put_batch_def then_do_def pure_def wrote_events_def events_stored_def consistent_def)
next
  case False
  have "for_each (event_verify lib) es = Inr ()" using es by (simp add: for_each_Inr)
  moreover have "hash_map_order lib (remdups (map event_conversation_id es)) = [cid]"
    using es False by (intro hash_map_order_single [OF doc]) auto
  ultimately have "put_batch lib es st = (case put_conversation lib es cid st of (Inl x, st') \<Rightarrow> (Inl x, st') | (Inr _, st') \<Rightarrow> (Inr (), st'))"
    by (auto simp: put_batch_def then_do_def pure_def split: prod.splits sum.splits)
  moreover have "{e \<in> set es. event_conversation_id e = cid} = set es" using es by auto
  moreover have "wrote_events lib cid F E A {e \<in> set es. event_conversation_id e = cid} (put_conversation lib es cid st)"
    using es by (intro put_conversation_wrote [OF doc H]) simp
  ultimately show ?thesis
    by (cases "put_conversation lib es cid st"; cases "fst (put_conversation lib es cid st)") (auto simp: wrote_events_def)
qed

lemma put_authorized_batch_wrote:
  assumes doc: "events_documented lib" and H: "holds_at lib cid F E A st" and m: "membership_conversation_id m = cid"
  shows "wrote_authorized lib m cid F E A (set as) (put_authorized_batch lib m as st)"
proof (cases "for_each (verify_for_membership lib m) as")
  case (Inl x)
  then have "\<exists>a \<in> set as. verify_for_membership lib m a \<noteq> Inr ()" using for_each_Inr [of "verify_for_membership lib m" as] by auto
  then have "wrote_authorized lib m cid F E A (set as) (Inl (StoreProtocol x), st)"
    by (intro wrote_authorizedI [OF H]) (auto simp: agreeing_def)
  then show ?thesis using Inl by (simp add: put_authorized_batch_def put_authorized_batch_with_receipt_def then_do_def pure_def)
next
  case (Inr u)
  then have v: "\<forall>a \<in> set as. verify_for_membership lib m a = Inr ()" by (simp add: for_each_Inr)
  then have es: "\<forall>e \<in> set (map ae_event as). event_verify lib e = Inr () \<and> event_conversation_id e = cid"
    using membership_event m by auto
  obtain r st1 where p: "put_batch lib (map ae_event as) st = (r, st1)" by fastforce
  from put_batch_wrote [OF doc H es] p obtain E' where E': "holds_at lib cid F E' A st1" "extended (ae_event ` set as) E E'"
    "\<And>G. consistent lib E (ae_event ` set as) G \<Longrightarrow> is_ok r \<and> E' \<subseteq>\<^sub>m G" by (auto elim: wrote_eventsE)
  have prog: "is_ok r \<and> E' \<subseteq>\<^sub>m events_of G" if "agreeing lib m E A (set as) G" for G using E'(3) [OF agreeing_consistent [OF that]] .
  show ?thesis
  proof (cases r)
    case (Inl x)
    have "wrote_authorized lib m cid F E A (set as) (Inl x, st1)"
      by (rule wrote_authorizedI [OF E'(1,2)]) (use prog Inl in auto)
    then show ?thesis using p Inl Inr by (simp add: put_authorized_batch_def put_authorized_batch_with_receipt_def then_do_def pure_def)
  next
    case ok: (Inr x)
    obtain r2 st2 where q: "put_each_authorized lib m as st1 = (r2, st2)" by fastforce
    have "wrote_authorized lib m cid F E' A (set as) (r2, st2)"
      using put_each_wrote [OF doc E'(1), of as m] es q by simp
    then obtain E2 A2 where w: "holds_at lib cid F E2 A2 st2" "extended (ae_event ` set as) E' E2" "extended (set as) A A2"
      "is_ok r2 \<Longrightarrow> authorized_in lib (set as) A2" "\<And>G. agreeing lib m E' A (set as) G \<Longrightarrow> is_ok r2 \<and> E2 \<subseteq>\<^sub>m events_of G \<and> A2 \<subseteq>\<^sub>m G"
      by (rule wrote_authorizedE) blast
    have "wrote_authorized lib m cid F E A (set as) (r2, st2)"
    proof (rule wrote_authorizedI [OF w(1) _ w(3,4)])
      show "extended (ae_event ` set as) E E2" using extended_trans [OF E'(2) w(2)] by simp
      show "is_ok r2 \<and> E2 \<subseteq>\<^sub>m events_of G \<and> A2 \<subseteq>\<^sub>m G" if "agreeing lib m E A (set as) G" for G
        using that prog [OF that] by (intro w(5)) (simp add: agreeing_def)
    qed
    then show ?thesis using p q ok Inr
      by (cases r2) (auto simp: put_authorized_batch_def put_authorized_batch_with_receipt_def then_do_def pure_def
          intro: wrote_authorized_result)
  qed
qed

section \<open>The whole store\<close>

text \<open>\<open>store_ok\<close>: every conversation directory holds a well-formed conversation. \<open>grew\<close>: every conversation
  keeps its events and its authorisations.\<close>

abbreviation conversation_holds
  :: "'a event_libs_scheme \<Rightarrow> bytes \<Rightarrow> (bytes \<rightharpoonup> SignedEvent) \<Rightarrow> (bytes \<rightharpoonup> AuthorizedEvent) \<Rightarrow> event_store \<Rightarrow> bool" where
  "conversation_holds lib cid E A st \<equiv> holds_at lib cid (t_get st) E A st"

definition store_ok :: "'a event_libs_scheme \<Rightarrow> event_store \<Rightarrow> bool" where
  "store_ok lib st \<longleftrightarrow> (\<forall>cid. \<exists>E A. conversation_holds lib cid E A st)"

definition grew :: "'a event_libs_scheme \<Rightarrow> event_store \<Rightarrow> event_store \<Rightarrow> bool" where
  "grew lib st st' \<longleftrightarrow> (\<forall>cid E A. conversation_holds lib cid E A st \<longrightarrow>
     (\<exists>E' A'. conversation_holds lib cid E' A' st' \<and> E \<subseteq>\<^sub>m E' \<and> A \<subseteq>\<^sub>m A'))"

lemma grew_refl [simp]: "grew lib st st"
  unfolding grew_def by (meson map_le_refl)

lemma grew_trans: "grew lib st st1 \<Longrightarrow> grew lib st1 st2 \<Longrightarrow> grew lib st st2"
  unfolding grew_def by (meson map_le_trans)

lemma grew_ok: "grew lib st st' \<Longrightarrow> store_ok lib st \<Longrightarrow> store_ok lib st'"
  unfolding grew_def store_ok_def by blast

lemma holds_frame: "holds_at lib cid F E A st \<Longrightarrow> conversation_holds lib cid E A st"
  by (simp add: holds_at_def)

lemma files_hold_unique:
  assumes "files_hold enc M t" "files_hold enc N t" "inverts enc dec"
  shows "M = N"
proof
  fix i
  have "Option.bind (M i) enc = Option.bind (N i) enc" using files_hold_get [OF assms(1), of i] files_hold_get [OF assms(2), of i] by simp
  moreover have "M i = Some x \<Longrightarrow> \<exists>b. enc x = Some b" "N i = Some x \<Longrightarrow> \<exists>b. enc x = Some b" for x
    using assms(1,2) unfolding files_hold_def by blast+
  ultimately show "M i = N i" using assms(3) unfolding inverts_def
    by (cases "M i"; cases "N i") (fastforce, fastforce, fastforce, metis bind.bind_lunit option.inject)
qed

lemma holds_unique:
  assumes "events_documented lib" "holds_at lib cid F E A st" "holds_at lib cid F' E' A' st"
  shows "E' = E \<and> A' = A"
  using assms unfolding events_documented_def holds_at_def directory_holds_def
  by (auto split: option.splits dest: files_hold_unique)

lemma grew_at:
  assumes doc: "events_documented lib" and H: "conversation_holds lib c E A st" and H': "holds_at lib c (t_get st) E' A' st'"
    and le: "E \<subseteq>\<^sub>m E'" "A \<subseteq>\<^sub>m A'"
  shows "grew lib st st'"
  unfolding grew_def
proof (intro allI impI)
  fix cid E1 A1 assume H1: "conversation_holds lib cid E1 A1 st"
  show "\<exists>E' A'. conversation_holds lib cid E' A' st' \<and> E1 \<subseteq>\<^sub>m E' \<and> A1 \<subseteq>\<^sub>m A'"
  proof (cases "cid = c")
    case True
    then show ?thesis using holds_unique [OF doc H, of "t_get st" E1 A1] H1 holds_frame [OF H'] le by blast
  next
    case False
    then have "t_get st' (conversation_directory cid) = t_get st (conversation_directory cid)" using H' by (simp add: holds_at_def)
    then have "conversation_holds lib cid E1 A1 st'" using H1 H' by (simp add: holds_at_def)
    then show ?thesis by (meson map_le_refl)
  qed
qed

lemma wrote_events_grew:
  assumes "events_documented lib" and "conversation_holds lib c E A st" and "wrote_events lib c (t_get st) E A es (r, st')"
  shows "grew lib st st'"
  using assms(3) by (rule wrote_eventsE) (auto simp: extended_def intro: grew_at [OF assms(1,2)])

lemma wrote_authorized_grew:
  assumes "events_documented lib" and "conversation_holds lib c E A st" and "wrote_authorized lib m c (t_get st) E A as (r, st')"
  shows "grew lib st st'"
  using assms(3) by (rule wrote_authorizedE) (auto simp: extended_def intro: grew_at [OF assms(1,2)])

definition grows :: "'a event_libs_scheme \<Rightarrow> 'r event_store_op \<Rightarrow> bool" where
  "grows lib m \<longleftrightarrow> (\<forall>st. store_ok lib st \<longrightarrow> grew lib st (snd (m st)))"

lemma growsD: "grows lib m \<Longrightarrow> store_ok lib st \<Longrightarrow> m st = (r, st') \<Longrightarrow> grew lib st st'"
  unfolding grows_def by (metis snd_conv)

lemma grows_pure [simp]: "grows lib (pure r)"
  by (simp add: grows_def pure_def)

lemma grows_then:
  assumes "grows lib m" and "\<And>x. grows lib (f x)"
  shows "grows lib (then_do m f)"
  unfolding grows_def
proof (intro allI impI)
  fix st assume ok: "store_ok lib st"
  obtain r st1 where m: "m st = (r, st1)" by fastforce
  have g: "grew lib st st1" by (rule growsD [OF assms(1) ok m])
  show "grew lib st (snd (then_do m f st))"
  proof (cases r)
    case (Inl x)
    then show ?thesis using g m by (simp add: then_do_def)
  next
    case (Inr x)
    have "grew lib st1 (snd (f x st1))" using assms(2) grew_ok [OF g ok] by (simp add: grows_def)
    then show ?thesis using g m Inr by (auto simp: then_do_def intro: grew_trans)
  qed
qed

lemma grows_for_each: "(\<And>x. x \<in> set xs \<Longrightarrow> grows lib (step x)) \<Longrightarrow> grows lib (for_each_do step xs)"
  by (induction xs) (auto intro: grows_then)

lemma put_grows:
  assumes doc: "events_documented lib"
  shows event_put_grows: "grows lib (event_put lib e)"
    and put_receipt_grows: "grows lib (put_authorized_with_receipt lib m a)"
    and put_batch_grows: "grows lib (put_batch lib es)"
    and put_each_grows: "grows lib (put_each_authorized lib m as)"
proof -
  have conv: "grows lib (put_conversation lib es cid)" if "for_each (event_verify lib) es = Inr ()" for cid
    unfolding grows_def
  proof (intro allI impI)
    fix st assume "store_ok lib st"
    then obtain E A where H: "conversation_holds lib cid E A st" unfolding store_ok_def by blast
    from put_conversation_wrote [OF doc this, of es] that show "grew lib st (snd (put_conversation lib es cid st))"
      using wrote_events_grew [OF doc H] by (cases "put_conversation lib es cid st") (fastforce simp: for_each_Inr)
  qed
  show "grows lib (event_put lib e)" unfolding grows_def
  proof (intro allI impI)
    fix st assume "store_ok lib st"
    then obtain E A where H: "conversation_holds lib (event_conversation_id e) E A st" unfolding store_ok_def by blast
    show "grew lib st (snd (event_put lib e st))"
    proof (cases "event_verify lib e")
      case (Inl x)
      then show ?thesis by (simp add: event_put_def then_do_def pure_def)
    next
      case (Inr u)
      then show ?thesis using event_put_wrote [OF doc H]
        by (cases "event_put lib e st") (auto intro: wrote_events_grew [OF doc H])
    qed
  qed
  show a: "grows lib (put_authorized_with_receipt lib m a)" for a unfolding grows_def
  proof (intro allI impI)
    fix st assume "store_ok lib st"
    then obtain E A where H: "conversation_holds lib (event_conversation_id (ae_event a)) E A st" unfolding store_ok_def by blast
    from put_authorized_wrote [OF doc H, of m] show "grew lib st (snd (put_authorized_with_receipt lib m a st))"
      by (cases "put_authorized_with_receipt lib m a st") (auto intro: wrote_authorized_grew [OF doc H])
  qed
  show "grows lib (put_batch lib es)"
  proof (cases "for_each (event_verify lib) es")
    case (Inl x)
    then show ?thesis by (simp add: put_batch_def grows_def then_do_def pure_def)
  next
    case (Inr u)
    then show ?thesis unfolding put_batch_def by (intro grows_then grows_for_each conv) simp_all
  qed
  show "grows lib (put_each_authorized lib m as)"
    by (induction as) (auto intro!: grows_then a split: prod.splits)
qed

lemma put_authorized_grows: "events_documented lib \<Longrightarrow> grows lib (put_authorized lib m a)"
  unfolding put_authorized_def by (intro grows_then put_receipt_grows) (auto split: prod.splits)

lemma put_authorized_batch_grows: "events_documented lib \<Longrightarrow> grows lib (put_authorized_batch lib m as)"
  unfolding put_authorized_batch_def put_authorized_batch_with_receipt_def
  by (intro grows_then grows_pure put_batch_grows put_each_grows)

lemma store_ok_open: "store_ok lib event_store_open"
proof -
  have "conversation_holds lib cid Map.empty Map.empty event_store_open" for cid
    by (simp add: holds_at_def event_store_open_def t_valid_def t_get_def directory_holds_def conversation_ok_def positions_distinct_def)
  then show ?thesis unfolding store_ok_def by blast
qed

end
