(* ===== verification/Sync_Rounds.thy ===== *)
theory Sync_Rounds
  imports Sync_Session Event_Store_Batches
begin

text \<open>
  The contract the session relies on of a store (\<open>session_replica\<close>) and what follows from it for two stores
  that synchronise (\<open>session_pair\<close>): the outcome of one round, and of the rounds of a session.
\<close>

section \<open>Conversations and libraries\<close>

definition conversation
  :: "'a event_libs_scheme \<Rightarrow> ConversationMembershipSnapshot \<Rightarrow> bytes \<Rightarrow> (bytes \<rightharpoonup> AuthorizedEvent) \<Rightarrow> bool" where
  "conversation lib m cid G \<longleftrightarrow> membership_verify lib m = Inr () \<and> membership_conversation_id m = cid
     \<and> (\<forall>i a. G i = Some a \<longrightarrow> event_id lib (ae_event a) = Inr i \<and> verify_for_membership lib m a = Inr ())
     \<and> positions_distinct (events_of G)"

text \<open>Signatures verify under the key of the signer, and the messages of a session can be serialised.\<close>

definition session_documented :: "'a sync_libs_scheme \<Rightarrow> bool" where
  "session_documented lib \<longleftrightarrow> root_signatures_documented lib
     \<and> (\<forall>c. pc_inventory_content lib c \<noteq> None) \<and> (\<forall>c. pc_diff_content lib c \<noteq> None)"

definition paired :: "'a sync_libs_scheme \<Rightarrow> bytes \<Rightarrow> SyncClient \<Rightarrow> SyncServer \<Rightarrow> bool" where
  "paired lib cid client server \<longleftrightarrow> cl_conversation_id client = cid \<and> cl_session_binding client = sv_session_binding server
     \<and> cl_expected_responder client = device_id_of lib (sv_identity server)
     \<and> sv_allowed_requester server = device_id_of lib (cl_identity client)"

text \<open>The ids \<open>A\<close> receives from \<open>B\<close> in one round.\<close>

definition offered :: "(bytes \<rightharpoonup> 'x) \<Rightarrow> (bytes \<rightharpoonup> 'y) \<Rightarrow> bytes list" where
  "offered A B = take MAX_SYNC_EVENTS_PER_BATCH (in_text_order (dom B - dom A))"

lemma offered_facts:
  assumes "finite (dom B)"
  shows "set (offered A B) \<subseteq> dom B - dom A" "set (offered A B) \<subseteq> dom B" "distinct (offered A B)"
    "length (offered A B) \<le> MAX_SYNC_EVENTS_PER_BATCH" "length (offered A B) = min MAX_SYNC_EVENTS_PER_BATCH (card (dom B - dom A))"
proof -
  show "set (offered A B) \<subseteq> dom B - dom A"
    using assms set_take_subset [of MAX_SYNC_EVENTS_PER_BATCH "in_text_order (dom B - dom A)"] by (simp add: offered_def)
  then show "set (offered A B) \<subseteq> dom B" by blast
qed (simp_all add: offered_def min.commute)

lemma map_offered: "set ids \<subseteq> dom B - dom A \<Longrightarrow> map (the \<circ> B) ids = map (the \<circ> (B ++ A)) ids"
  by (rule map_cong [OF refl]) (metis Diff_iff map_add_dom_app_simps(3) o_apply subset_iff)

lemma restrict_offered: "set ids \<subseteq> dom B - dom A \<Longrightarrow> A ++ ((B ++ A) |` set ids) = A ++ (B |` set ids)"
proof
  fix i assume "set ids \<subseteq> dom B - dom A"
  then show "(A ++ ((B ++ A) |` set ids)) i = (A ++ (B |` set ids)) i"
    by (cases "i \<in> set ids") (auto simp: map_add_def restrict_map_def split: option.splits)
qed

lemma device_signed: "session_documented lib \<Longrightarrow> signed_by (id_ed lib) (device_id_of lib k) msg (id_sign lib k msg)"
  by (simp add: session_documented_def root_signatures_documented_def device_id_of_def)

lemma conversationD:
  assumes "conversation lib m cid G" and "G i = Some a"
  shows "event_id lib (ae_event a) = Inr i" "verify_for_membership lib m a = Inr ()" "verify_author lib a = Inr ()"
    "event_conversation_id (ae_event a) = cid"
  using assms membership_author [of lib m a] membership_event [of lib m a] by (auto simp: conversation_def)

lemma conversation_the:
  "conversation lib m cid G \<Longrightarrow> i \<in> dom G \<Longrightarrow> event_id lib (ae_event (the (G i))) = Inr i
    \<and> verify_for_membership lib m (the (G i)) = Inr () \<and> verify_author lib (the (G i)) = Inr ()
    \<and> event_conversation_id (ae_event (the (G i))) = cid"
  using conversationD [of lib m cid G i "the (G i)"] by force

lemma conversation_ids:
  "conversation lib m cid G \<Longrightarrow> set ids \<subseteq> dom G \<Longrightarrow> session_event_ids lib (map (the \<circ> G) ids) = Inr ids"
  unfolding session_event_ids_def try_map_all2 list_all2_map1
  by (rule list.rel_refl_strong) (use conversation_the in fastforce)

lemma conversation_members:
  "conversation lib m cid G \<Longrightarrow> set ids \<subseteq> dom G \<Longrightarrow> for_each (verify_for_membership lib m) (map (the \<circ> G) ids) = Inr ()"
  unfolding for_each_Inr using conversation_the by fastforce

lemma conversation_events_valid:
  assumes "conversation lib m cid G" and "set ids \<subseteq> dom G" and "distinct ids" and "length ids \<le> MAX_SYNC_EVENTS_PER_BATCH"
  shows "validate_events lib cid (map (the \<circ> G) ids) = Inr ()"
  using assms(2-4) conversation_ids [OF assms(1,2)] conversation_the [OF assms(1)]
  by (auto simp: validate_events_Inr session_event_ids_def)

lemma inventory_signed:
  assumes lib: "session_documented lib" and n: "length ids \<le> MAX_INVENTORY_EVENT_IDS" and d: "distinct ids"
  shows "\<exists>iv. inventory_sign lib k cid binding ids = Inr iv \<and> inventory_verify_for_session lib iv binding = Inr ()
    \<and> sic_conversation_id (si_content iv) = cid \<and> sic_requester_device_id (si_content iv) = device_id_of lib k
    \<and> set (sic_event_ids (si_content iv)) = set ids"
proof -
  let ?c = "\<lparr> sic_version = SYNC_VERSION, sic_conversation_id = cid, sic_requester_device_id = device_id_of lib k,
    sic_session_binding = binding, sic_event_ids = sort_key write_hex ids \<rparr>"
  obtain b where b: "pc_inventory_content lib ?c = Some b" using lib unfolding session_documented_def by blast
  have c: "validate_inventory_content ?c = Inr ()"
    using n d by (simp add: validate_inventory_content_def validate_version_def validate_event_ids_Inr)
  let ?i = "\<lparr> si_content = ?c, si_signature = id_sign lib k (SYNC_INVENTORY_SIGNATURE_DOMAIN @ b) \<rparr>"
  have "inventory_verify_signature lib ?i = Inr ()"
    by (rule invt.verify_issued [where m = "SYNC_INVENTORY_SIGNATURE_DOMAIN @ b"])
       (simp_all add: c b inventory_signing_bytes_def device_signed [OF lib])
  then show ?thesis
    by (intro exI [of _ ?i]) (simp add: inventory_sign_def Let_def c b inventory_signing_bytes_def inventory_verify_for_session_def)
qed

lemma diff_signed:
  assumes lib: "session_documented lib" and r: "length req \<le> MAX_SYNC_EVENTS_PER_BATCH" "distinct req"
    and e: "validate_events lib cid es = Inr ()"
  shows "\<exists>diff. diff_sign lib k cid binding req es continue = Inr diff
    \<and> diff_verify_for_session lib diff binding (device_id_of lib k) = Inr ()
    \<and> sdc_conversation_id (sd_content diff) = cid \<and> sdc_requested_event_ids (sd_content diff) = req
    \<and> sdc_events (sd_content diff) = es \<and> sdc_more_available (sd_content diff) = continue"
proof -
  let ?c = "\<lparr> sdc_version = SYNC_VERSION, sdc_conversation_id = cid, sdc_responder_device_id = device_id_of lib k,
    sdc_session_binding = binding, sdc_requested_event_ids = req, sdc_events = es, sdc_more_available = continue \<rparr>"
  obtain b where b: "pc_diff_content lib ?c = Some b" using lib unfolding session_documented_def by blast
  have c: "validate_sync_diff_content lib ?c = Inr ()"
    using r e by (simp add: validate_sync_diff_content_def validate_version_def validate_event_ids_Inr and_then_Inr)
  let ?d = "\<lparr> sd_content = ?c, sd_signature = id_sign lib k (SYNC_DIFF_SIGNATURE_DOMAIN @ b) \<rparr>"
  have "diff_verify_signature lib ?d = Inr ()"
    by (rule sdif.verify_issued [where m = "SYNC_DIFF_SIGNATURE_DOMAIN @ b"])
       (simp_all add: c b sync_diff_signing_bytes_def device_signed [OF lib])
  then show ?thesis
    by (intro exI [of _ ?d]) (simp add: diff_sign_def Let_def c b sync_diff_signing_bytes_def diff_verify_for_session_def)
qed

section \<open>What a session relies on of a store\<close>

locale session_replica =
  fixes lib :: "'a sync_libs_scheme"
    and store :: "'s session_store"
    and holds :: "ConversationMembershipSnapshot \<Rightarrow> bytes \<Rightarrow> (bytes \<rightharpoonup> AuthorizedEvent) \<Rightarrow> 's \<Rightarrow> bool"
  assumes holds_documented: "holds m cid A st \<Longrightarrow> session_documented lib"
    and holds_conversation: "holds m cid A st \<Longrightarrow> conversation lib m cid A"
    and holds_finite: "holds m cid A st \<Longrightarrow> finite (dom A)"
    and inventory: "holds m cid A st \<Longrightarrow> ss_inventory store cid m st = Inr (in_text_order (dom A))"
    and events_by_id: "holds m cid A st \<Longrightarrow> set ids \<subseteq> dom A \<Longrightarrow> ss_events_by_id store cid ids m st = Inr (map (the \<circ> A) ids)"
    and put_events: "holds m cid A st \<Longrightarrow> conversation lib m cid G \<Longrightarrow> A \<subseteq>\<^sub>m G \<Longrightarrow> set ids \<subseteq> dom G \<Longrightarrow>
          \<exists>st'. ss_put_events store (map (the \<circ> G) ids) m st = (Inr (), st') \<and> holds m cid (A ++ (G |` set ids)) st'"
begin

lemma plan:
  assumes "holds m cid B st"
  shows "session_plan_sync store cid remote n m st = Inr \<lparr>
    pl_requested_from_remote = take n (in_text_order (set remote - dom B)),
    pl_events_for_remote = map (the \<circ> B) (take n (in_text_order (dom B - set remote))),
    pl_more_available = (card (set remote - dom B) > n \<or> card (dom B - set remote) > n) \<rparr>"
proof -
  have fin: "finite (dom B)" using assms by (rule holds_finite)
  have "set (take n (in_text_order (dom B - set remote))) \<subseteq> dom B"
    using fin set_take_subset [of n "in_text_order (dom B - set remote)"] by auto
  from events_by_id [OF assms this] show ?thesis
    using fin by (simp add: session_plan_sync_def inventory [OF assms] sorted_difference_order Let_def)
qed

end

context session_replica
begin

lemma begin_round_ok:
  assumes H: "holds (cl_membership client) cid A st" and c: "cl_conversation_id client = cid"
    and n: "card (dom A) \<le> MAX_INVENTORY_EVENT_IDS"
  shows "\<exists>round. begin_round lib store client st = Inr round \<and> cir_advertised_event_ids round = dom A
    \<and> inventory_verify_for_session lib (cir_inventory round) (cl_session_binding client) = Inr ()
    \<and> sic_conversation_id (si_content (cir_inventory round)) = cid
    \<and> sic_requester_device_id (si_content (cir_inventory round)) = device_id_of lib (cl_identity client)
    \<and> set (sic_event_ids (si_content (cir_inventory round))) = dom A"
proof -
  have fin: "finite (dom A)" using H by (rule holds_finite)
  from inventory_signed [OF holds_documented [OF H], of "in_text_order (dom A)" "cl_identity client" cid "cl_session_binding client"] n
  obtain iv where iv: "inventory_sign lib (cl_identity client) cid (cl_session_binding client) (in_text_order (dom A)) = Inr iv"
    "inventory_verify_for_session lib iv (cl_session_binding client) = Inr ()"
    "sic_conversation_id (si_content iv) = cid" "sic_requester_device_id (si_content iv) = device_id_of lib (cl_identity client)"
    "set (sic_event_ids (si_content iv)) = dom A" using fin by auto
  have "membership_verify lib (cl_membership client) = Inr ()" "membership_conversation_id (cl_membership client) = cid"
    using holds_conversation [OF H] by (simp_all add: conversation_def)
  then show ?thesis
    using iv c fin by (intro exI [of _ "\<lparr> cir_inventory = iv, cir_advertised_event_ids = dom A \<rparr>"])
      (simp add: begin_round_def inventory [OF H])
qed

lemma accept_inventory_ok:
  assumes H: "holds (sv_membership server) cid B st"
    and iv: "inventory_verify_for_session lib iv (sv_session_binding server) = Inr ()"
      "sic_conversation_id (si_content iv) = cid" "sic_requester_device_id (si_content iv) = sv_allowed_requester server"
      "set (sic_event_ids (si_content iv)) = dom A"
  shows "\<exists>round. accept_inventory lib store server iv st = Inr (RoundAccepted round)
    \<and> sir_conversation_id round = cid \<and> sir_requested_event_ids round = offered B A
    \<and> sir_more_available round = (card (dom A - dom B) > MAX_SYNC_EVENTS_PER_BATCH \<or> card (dom B - dom A) > MAX_SYNC_EVENTS_PER_BATCH)
    \<and> diff_verify_for_session lib (sir_diff round) (sv_session_binding server) (device_id_of lib (sv_identity server)) = Inr ()
    \<and> sdc_conversation_id (sd_content (sir_diff round)) = cid
    \<and> sdc_requested_event_ids (sd_content (sir_diff round)) = offered B A
    \<and> sdc_events (sd_content (sir_diff round)) = map (the \<circ> B) (offered A B)
    \<and> sdc_more_available (sd_content (sir_diff round)) = sir_more_available round"
proof -
  let ?continue = "card (dom A - dom B) > MAX_SYNC_EVENTS_PER_BATCH \<or> card (dom B - dom A) > MAX_SYNC_EVENTS_PER_BATCH"
  have fin: "finite (dom B)" using H by (rule holds_finite)
  have off: "set (offered A B) \<subseteq> dom B" "distinct (offered A B)" "length (offered A B) \<le> MAX_SYNC_EVENTS_PER_BATCH"
    "distinct (offered B A)" "length (offered B A) \<le> MAX_SYNC_EVENTS_PER_BATCH"
    using offered_facts [OF fin] by (simp_all add: offered_def)
  note conv = holds_conversation [OF H]
  from diff_signed [OF holds_documented [OF H] off(5,4) conversation_events_valid [OF conv off(1-3)],
      of "sv_identity server" "sv_session_binding server" ?continue]
  obtain diff where diff: "diff_sign lib (sv_identity server) cid (sv_session_binding server) (offered B A) (map (the \<circ> B) (offered A B)) ?continue = Inr diff"
    "diff_verify_for_session lib diff (sv_session_binding server) (device_id_of lib (sv_identity server)) = Inr ()"
    "sdc_conversation_id (sd_content diff) = cid" "sdc_requested_event_ids (sd_content diff) = offered B A"
    "sdc_events (sd_content diff) = map (the \<circ> B) (offered A B)" "sdc_more_available (sd_content diff) = ?continue" by blast
  let ?round = "\<lparr> sir_conversation_id = cid, sir_requested_event_ids = offered B A, sir_sent_events = length (map (the \<circ> B) (offered A B)),
    sir_more_available = ?continue, sir_diff = diff \<rparr>"
  have "accept_inventory lib store server iv st = Inr (RoundAccepted ?round)"
    using conv diff(1) iv plan [OF H, of "sic_event_ids (si_content iv)" MAX_SYNC_EVENTS_PER_BATCH]
    unfolding offered_def by (simp add: accept_inventory_def Let_def conversation_def)
  then show ?thesis using diff by (intro exI [of _ ?round]) simp
qed

lemma accept_diff_ok:
  assumes H: "holds (cl_membership client) cid A st" and c: "cl_conversation_id client = cid"
    and adv: "cir_advertised_event_ids round = dom A"
    and v: "diff_verify_for_session lib diff (cl_session_binding client) (cl_expected_responder client) = Inr ()"
    and d: "sdc_conversation_id (sd_content diff) = cid" "sdc_requested_event_ids (sd_content diff) = offered B A"
      "sdc_events (sd_content diff) = map (the \<circ> B) (offered A B)"
    and G: "conversation lib (cl_membership client) cid (B ++ A)" and fin: "finite (dom B)"
  shows "\<exists>batch_round st'. accept_diff lib store client round diff st = (Inr batch_round, st')
    \<and> holds (cl_membership client) cid (A ++ (B |` set (offered A B))) st'
    \<and> cbr_sent_event_ids batch_round = offered B A \<and> cbr_received_event_ids batch_round = offered A B
    \<and> cbr_more_available batch_round = sdc_more_available (sd_content diff)
    \<and> sb_conversation_id (cbr_batch batch_round) = cid \<and> sb_events (cbr_batch batch_round) = map (the \<circ> A) (offered B A)"
proof -
  let ?m = "cl_membership client" and ?G = "B ++ A"
  have finA: "finite (dom A)" using H by (rule holds_finite)
  have off: "set (offered A B) \<subseteq> dom B - dom A" "set (offered B A) \<subseteq> dom A" "distinct (offered B A)"
    "length (offered B A) \<le> MAX_SYNC_EVENTS_PER_BATCH"
    by (rule offered_facts [OF fin] offered_facts [OF finA])+
  have evs: "map (the \<circ> B) (offered A B) = map (the \<circ> ?G) (offered A B)"
    using off(1) by (rule map_offered)
  have sub: "set (offered A B) \<subseteq> dom ?G" using off(1) by auto
  obtain st' where st': "ss_put_events store (map (the \<circ> B) (offered A B)) ?m st = (Inr (), st')"
      "holds ?m cid (A ++ (?G |` set (offered A B))) st'"
    using put_events [OF H G map_le_map_add sub] evs by auto
  have eq: "A ++ (?G |` set (offered A B)) = A ++ (B |` set (offered A B))"
    using off(1) by (rule restrict_offered)
  let ?A' = "A ++ (B |` set (offered A B))"
  have H': "holds ?m cid ?A' st'" using st'(2) eq by simp
  have sent: "map (the \<circ> ?A') (offered B A) = map (the \<circ> A) (offered B A)"
    using off by (intro map_cong [OF refl]) (auto simp: map_add_def restrict_map_def split: option.splits)
  have "set (offered B A) \<subseteq> dom ?A'" using off(2) by auto
  note byid = events_by_id [OF H' this, unfolded sent]
  note conv = holds_conversation [OF H]
  have batch: "batch_new lib cid (map (the \<circ> A) (offered B A)) = Inr \<lparr> sb_version = SYNC_VERSION, sb_conversation_id = cid,
      sb_events = map (the \<circ> A) (offered B A) \<rparr>"
    using conversation_events_valid [OF conv off(2-4)] by (simp add: batch_new_def batch_validate_def validate_version_def Let_def)
  have adv': "find (\<lambda>eid. eid \<notin> dom A) (offered B A) = None" using off(2) by (auto simp: find_None_iff)
  have mem: "for_each (verify_for_membership lib ?m) (map (the \<circ> B) (offered A B)) = Inr ()"
    unfolding evs by (rule conversation_members [OF G sub])
  have ids: "session_event_ids lib (map (the \<circ> B) (offered A B)) = Inr (offered A B)"
    unfolding evs by (rule conversation_ids [OF G sub])
  show ?thesis
    using v d c adv adv' mem ids st'(1) byid batch conversation_ids [OF conv off(2)] H'
    by (simp add: accept_diff_def Let_def then_do_def pure_def)
qed

lemma complete_round_ok:
  assumes H: "holds (sv_membership server) cid B st"
    and r: "sir_conversation_id round = cid" "sir_requested_event_ids round = offered B A"
    and b: "sb_conversation_id batch = cid" "sb_events batch = map (the \<circ> A) (offered B A)"
    and G: "conversation lib (sv_membership server) cid (A ++ B)" and fin: "finite (dom A)"
  shows "\<exists>completion st'. complete_round lib store server round batch st = (Inr completion, st')
    \<and> holds (sv_membership server) cid (B ++ (A |` set (offered B A))) st'
    \<and> sc_conversation_id (sco_response completion) = cid \<and> sc_stored_event_ids (sco_response completion) = offered B A
    \<and> sc_more_available (sco_response completion) = sir_more_available round"
proof -
  let ?m = "sv_membership server" and ?G = "A ++ B"
  have off: "set (offered B A) \<subseteq> dom A - dom B" "distinct (offered B A)" "length (offered B A) \<le> MAX_SYNC_EVENTS_PER_BATCH"
    by (rule offered_facts [OF fin])+
  have evs: "map (the \<circ> A) (offered B A) = map (the \<circ> ?G) (offered B A)"
    using off(1) by (rule map_offered)
  have sub: "set (offered B A) \<subseteq> dom ?G" using off(1) by auto
  obtain st' where st': "ss_put_events store (map (the \<circ> A) (offered B A)) ?m st = (Inr (), st')"
      "holds ?m cid (B ++ (?G |` set (offered B A))) st'"
    using put_events [OF H G map_le_map_add sub] evs by auto
  have "B ++ (?G |` set (offered B A)) = B ++ (A |` set (offered B A))"
    using off(1) by (rule restrict_offered)
  moreover have "for_each (verify_for_membership lib ?m) (map (the \<circ> A) (offered B A)) = Inr ()"
    unfolding evs by (rule conversation_members [OF G sub])
  moreover have "session_event_ids lib (map (the \<circ> A) (offered B A)) = Inr (offered B A)"
    unfolding evs by (rule conversation_ids [OF G sub])
  moreover have "complete_new cid (offered B A) (sir_more_available round) = Inr \<lparr> sc_version = SYNC_VERSION, sc_conversation_id = cid,
      sc_stored_event_ids = offered B A, sc_more_available = sir_more_available round \<rparr>"
    using off by (simp add: complete_new_def complete_validate_def validate_version_def validate_event_ids_Inr and_then_Inr Let_def)
  ultimately show ?thesis
    using r b st' by (simp add: complete_round_def then_do_def pure_def same_event_ids_def)
qed

end

section \<open>Two stores\<close>

text \<open>The rounds a difference of \<open>n\<close> events takes.\<close>

definition rounds_needed :: "nat \<Rightarrow> nat" where
  "rounds_needed n = max 1 ((n + (MAX_SYNC_EVENTS_PER_BATCH - 1)) div MAX_SYNC_EVENTS_PER_BATCH)"

lemma rounds_needed_one: "n \<le> MAX_SYNC_EVENTS_PER_BATCH \<Longrightarrow> rounds_needed n = 1"
proof -
  assume "n \<le> MAX_SYNC_EVENTS_PER_BATCH"
  then have "n + 63 < 2 * 64" by (simp add: MAX_SYNC_EVENTS_PER_BATCH_def)
  then have "(n + 63) div 64 \<le> 1" by simp
  then show ?thesis by (simp add: rounds_needed_def MAX_SYNC_EVENTS_PER_BATCH_def)
qed

lemma rounds_needed_step: "n > MAX_SYNC_EVENTS_PER_BATCH \<Longrightarrow>
    rounds_needed n = Suc (rounds_needed (n - MAX_SYNC_EVENTS_PER_BATCH))"
proof -
  assume n: "n > MAX_SYNC_EVENTS_PER_BATCH"
  define k where "k = n - 64"
  with n have k: "n = k + 64" "k > 0" by (simp_all add: MAX_SYNC_EVENTS_PER_BATCH_def)
  have "(k + 64 + 63) div 64 = Suc ((k + 63) div 64)" by simp
  moreover have "(k + 63) div 64 \<ge> 1" using k(2) by simp
  ultimately show ?thesis using k by (simp add: rounds_needed_def MAX_SYNC_EVENTS_PER_BATCH_def)
qed

lemma rounds_needed_mono: "a \<le> b \<Longrightarrow> rounds_needed a \<le> rounds_needed b"
  unfolding rounds_needed_def by (intro max.mono order_refl div_le_mono) simp

text \<open>The two sides hold \<open>A\<close> and \<open>B\<close>, which both memberships admit together.\<close>

definition replicas
  :: "'a sync_libs_scheme \<Rightarrow> (ConversationMembershipSnapshot \<Rightarrow> bytes \<Rightarrow> (bytes \<rightharpoonup> AuthorizedEvent) \<Rightarrow> 's \<Rightarrow> bool)
      \<Rightarrow> (ConversationMembershipSnapshot \<Rightarrow> bytes \<Rightarrow> (bytes \<rightharpoonup> AuthorizedEvent) \<Rightarrow> 't \<Rightarrow> bool)
      \<Rightarrow> SyncClient \<Rightarrow> SyncServer \<Rightarrow> bytes \<Rightarrow> (bytes \<rightharpoonup> AuthorizedEvent) \<Rightarrow> (bytes \<rightharpoonup> AuthorizedEvent) \<Rightarrow> 's \<times> 't \<Rightarrow> bool" where
  "replicas lib hold_mine hold_theirs client server cid A B stores \<longleftrightarrow> paired lib cid client server
     \<and> hold_mine (cl_membership client) cid A (fst stores) \<and> hold_theirs (sv_membership server) cid B (snd stores)
     \<and> conversation lib (cl_membership client) cid (B ++ A) \<and> conversation lib (sv_membership server) cid (A ++ B)
     \<and> card (dom A \<union> dom B) \<le> MAX_INVENTORY_EVENT_IDS"

locale session_pair =
  client: session_replica lib mine hold_mine + server: session_replica lib theirs hold_theirs
  for lib :: "'a sync_libs_scheme"
    and mine :: "'s session_store"
    and hold_mine :: "ConversationMembershipSnapshot \<Rightarrow> bytes \<Rightarrow> (bytes \<rightharpoonup> AuthorizedEvent) \<Rightarrow> 's \<Rightarrow> bool"
    and theirs :: "'t session_store"
    and hold_theirs :: "ConversationMembershipSnapshot \<Rightarrow> bytes \<Rightarrow> (bytes \<rightharpoonup> AuthorizedEvent) \<Rightarrow> 't \<Rightarrow> bool"
begin

lemma replicas_finite: "replicas lib hold_mine hold_theirs client server cid A B stores \<Longrightarrow> finite (dom A) \<and> finite (dom B)"
  by (auto simp: replicas_def intro: client.holds_finite server.holds_finite)

lemma round_exchanges:
  assumes R: "replicas lib hold_mine hold_theirs client server cid A B stores"
  shows "\<exists>stores'. sync_round lib mine theirs client server stores = (Inr
      \<lparr> sent_events = length (offered B A), received_events = length (offered A B),
        stats_more_available = (card (dom A - dom B) > MAX_SYNC_EVENTS_PER_BATCH \<or> card (dom B - dom A) > MAX_SYNC_EVENTS_PER_BATCH) \<rparr>, stores')
    \<and> hold_mine (cl_membership client) cid (A ++ (B |` set (offered A B))) (fst stores')
    \<and> hold_theirs (sv_membership server) cid (B ++ (A |` set (offered B A))) (snd stores')"
proof -
  obtain x y where xy: "stores = (x, y)" by fastforce
  have p: "paired lib cid client server" and hA: "hold_mine (cl_membership client) cid A x"
    and hB: "hold_theirs (sv_membership server) cid B y"
    and GA: "conversation lib (cl_membership client) cid (B ++ A)" and GB: "conversation lib (sv_membership server) cid (A ++ B)"
    and n: "card (dom A \<union> dom B) \<le> MAX_INVENTORY_EVENT_IDS" using R xy by (simp_all add: replicas_def)
  have fin: "finite (dom A)" "finite (dom B)" using replicas_finite [OF R] by simp_all
  have "card (dom A) \<le> card (dom A \<union> dom B)" using fin by (intro card_mono) auto
  with n have nA: "card (dom A) \<le> MAX_INVENTORY_EVENT_IDS" by simp
  have c: "cl_conversation_id client = cid" using p by (simp add: paired_def)
  from client.begin_round_ok [OF hA c nA] obtain cr where cr: "begin_round lib mine client x = Inr cr" "cir_advertised_event_ids cr = dom A"
    "inventory_verify_for_session lib (cir_inventory cr) (cl_session_binding client) = Inr ()"
    "sic_conversation_id (si_content (cir_inventory cr)) = cid"
    "sic_requester_device_id (si_content (cir_inventory cr)) = device_id_of lib (cl_identity client)"
    "set (sic_event_ids (si_content (cir_inventory cr))) = dom A" by blast
  have iv: "inventory_verify_for_session lib (cir_inventory cr) (sv_session_binding server) = Inr ()"
    "sic_requester_device_id (si_content (cir_inventory cr)) = sv_allowed_requester server" using cr(3,5) p by (simp_all add: paired_def)
  from server.accept_inventory_ok [OF hB iv(1) cr(4) iv(2) cr(6)] obtain sr where
    sr: "accept_inventory lib theirs server (cir_inventory cr) y = Inr (RoundAccepted sr)" "sir_conversation_id sr = cid"
    "sir_requested_event_ids sr = offered B A"
    "sir_more_available sr = (card (dom A - dom B) > MAX_SYNC_EVENTS_PER_BATCH \<or> card (dom B - dom A) > MAX_SYNC_EVENTS_PER_BATCH)"
    "diff_verify_for_session lib (sir_diff sr) (sv_session_binding server) (device_id_of lib (sv_identity server)) = Inr ()"
    "sdc_conversation_id (sd_content (sir_diff sr)) = cid" "sdc_requested_event_ids (sd_content (sir_diff sr)) = offered B A"
    "sdc_events (sd_content (sir_diff sr)) = map (the \<circ> B) (offered A B)"
    "sdc_more_available (sd_content (sir_diff sr)) = sir_more_available sr" by blast
  have dv: "diff_verify_for_session lib (sir_diff sr) (cl_session_binding client) (cl_expected_responder client) = Inr ()"
    using sr(5) p by (simp add: paired_def)
  from client.accept_diff_ok [OF hA c cr(2) dv sr(6-8) GA fin(2)] obtain br x' where
    br: "accept_diff lib mine client cr (sir_diff sr) x = (Inr br, x')"
    "hold_mine (cl_membership client) cid (A ++ (B |` set (offered A B))) x'"
    "cbr_sent_event_ids br = offered B A" "cbr_received_event_ids br = offered A B"
    "cbr_more_available br = sdc_more_available (sd_content (sir_diff sr))"
    "sb_conversation_id (cbr_batch br) = cid" "sb_events (cbr_batch br) = map (the \<circ> A) (offered B A)" by blast
  from server.complete_round_ok [OF hB sr(2,3) br(6,7) GB fin(1)] obtain co y' where
    co: "complete_round lib theirs server sr (cbr_batch br) y = (Inr co, y')"
    "hold_theirs (sv_membership server) cid (B ++ (A |` set (offered B A))) y'"
    "sc_conversation_id (sco_response co) = cid" "sc_stored_event_ids (sco_response co) = offered B A"
    "sc_more_available (sco_response co) = sir_more_available sr" by blast
  have ac: "accept_complete client br (sco_response co) = Inr \<lparr> sent_events = length (offered B A), received_events = length (offered A B),
      stats_more_available = sir_more_available sr \<rparr>"
    using c co br sr(9) by (simp add: accept_complete_def same_event_ids_def)
  show ?thesis
    using xy cr(1) sr(1,4) br(1,2) co(1,2) ac by (intro exI [of _ "(x', y')"]) (simp add: sync_round_def)
qed

end

section \<open>Sessions\<close>

text \<open>What one round makes of the two conversations.\<close>

definition exchanged :: "(bytes \<rightharpoonup> 'x) \<Rightarrow> (bytes \<rightharpoonup> 'x) \<Rightarrow> (bytes \<rightharpoonup> 'x)" where
  "exchanged A B = A ++ (B |` set (offered A B))"

lemma dom_exchanged: "finite (dom B) \<Longrightarrow> dom (exchanged A B) = dom A \<union> set (offered A B)"
  using offered_facts(2) [of B A] by (auto simp: exchanged_def)

lemma exchanged_union:
  assumes "finite (dom A)" "finite (dom B)"
  shows "exchanged B A ++ exchanged A B = B ++ A"
proof
  fix i
  note o = offered_facts(1) [OF assms(1), of B] offered_facts(1) [OF assms(2), of A]
  show "(exchanged B A ++ exchanged A B) i = (B ++ A) i"
    using o by (cases "A i"; cases "B i") (auto simp: exchanged_def map_add_def restrict_map_def split: option.splits if_splits)
qed

lemma card_minus_take: "finite S \<Longrightarrow> card (S - set (take n (in_text_order S))) = card S - n"
proof -
  assume "finite S"
  then have sub: "set (take n (in_text_order S)) \<subseteq> S" using set_take_subset [of n "in_text_order S"] by simp
  have "card (set (take n (in_text_order S))) = min (card S) n" by (simp add: distinct_card)
  then show ?thesis using card_Diff_subset [OF _ sub] by simp
qed

lemma exchanged_difference:
  assumes "finite (dom A)" "finite (dom B)"
  shows "card (dom (exchanged A B) - dom (exchanged B A)) = card (dom A - dom B) - MAX_SYNC_EVENTS_PER_BATCH"
proof -
  have "dom (exchanged A B) - dom (exchanged B A) = (dom A - dom B) - set (offered B A)"
    using assms offered_facts(1) [of B A] by (auto simp: dom_exchanged)
  then show ?thesis using card_minus_take [of "dom A - dom B"] assms(1) by (simp add: offered_def)
qed

lemma dom_exchanged_union: "finite (dom A) \<Longrightarrow> finite (dom B) \<Longrightarrow> dom (exchanged A B) \<union> dom (exchanged B A) = dom A \<union> dom B"
  using offered_facts(2) [of B A] offered_facts(2) [of A B] by (auto simp: dom_exchanged)

definition distance :: "(bytes \<rightharpoonup> 'x) \<Rightarrow> (bytes \<rightharpoonup> 'x) \<Rightarrow> nat" where
  "distance A B = max (card (dom A - dom B)) (card (dom B - dom A))"

lemma distance_exchanged:
  "finite (dom A) \<Longrightarrow> finite (dom B) \<Longrightarrow> distance (exchanged A B) (exchanged B A) = distance A B - MAX_SYNC_EVENTS_PER_BATCH"
  by (simp add: distance_def exchanged_difference)

lemma distance_more:
  "card (dom A - dom B) > n \<or> card (dom B - dom A) > n \<longleftrightarrow> distance A B > n"
  by (auto simp: distance_def)

text \<open>\<open>closer k A B A' B'\<close>: \<open>k\<close> rounds later the two conversations are nearer to their union by that many batches.\<close>

definition closer :: "nat \<Rightarrow> (bytes \<rightharpoonup> 'x) \<Rightarrow> (bytes \<rightharpoonup> 'x) \<Rightarrow> (bytes \<rightharpoonup> 'x) \<Rightarrow> (bytes \<rightharpoonup> 'x) \<Rightarrow> bool" where
  "closer k A B A' B' \<longleftrightarrow> B' ++ A' = B ++ A \<and> A' ++ B' = A ++ B
     \<and> card (dom A' - dom B') = card (dom A - dom B) - k * MAX_SYNC_EVENTS_PER_BATCH
     \<and> card (dom B' - dom A') = card (dom B - dom A) - k * MAX_SYNC_EVENTS_PER_BATCH"

lemma closer_exchanged: "finite (dom A) \<Longrightarrow> finite (dom B) \<Longrightarrow> closer 1 A B (exchanged A B) (exchanged B A)"
  by (simp add: closer_def exchanged_union exchanged_difference)

lemma closer_trans: "closer k A B A1 B1 \<Longrightarrow> closer l A1 B1 A2 B2 \<Longrightarrow> closer (k + l) A B A2 B2"
  by (simp add: closer_def add_mult_distrib)

lemma map_add_same_dom: "dom X = dom Y \<Longrightarrow> X ++ Y = Y"
  by (rule ext) (metis domIff map_add_None map_add_dom_app_simps(1))

lemma closer_synchronized:
  assumes c: "closer k A B A' B'" and d: "distance A B \<le> k * MAX_SYNC_EVENTS_PER_BATCH" and fin: "finite (dom A')" "finite (dom B')"
  shows "A' = B ++ A" "B' = A ++ B"
proof -
  have "card (dom A' - dom B') = 0" "card (dom B' - dom A') = 0" using c d by (simp_all add: closer_def distance_def)
  then have "dom A' = dom B'" using fin by auto
  then have "B' ++ A' = A'" "A' ++ B' = B'" by (simp_all add: map_add_same_dom)
  then show "A' = B ++ A" "B' = A ++ B" using c by (simp_all add: closer_def)
qed

lemma rounds_needed_bound: "n \<le> rounds_needed n * MAX_SYNC_EVENTS_PER_BATCH"
proof -
  have "n \<le> (n + 63) div 64 * 64" by presburger
  also have "\<dots> \<le> max 1 ((n + 63) div 64) * 64" by simp
  finally show ?thesis by (simp add: rounds_needed_def MAX_SYNC_EVENTS_PER_BATCH_def)
qed

context session_pair
begin

lemma replicas_exchanged:
  assumes R: "replicas lib hold_mine hold_theirs client server cid A B stores"
    and h: "hold_mine (cl_membership client) cid (exchanged A B) (fst stores')"
      "hold_theirs (sv_membership server) cid (exchanged B A) (snd stores')"
  shows "replicas lib hold_mine hold_theirs client server cid (exchanged A B) (exchanged B A) stores'"
  using R h replicas_finite [OF R] by (simp add: replicas_def exchanged_union dom_exchanged_union)

lemma round_closer:
  assumes R: "replicas lib hold_mine hold_theirs client server cid A B stores"
  shows "\<exists>stores'. sync_round lib mine theirs client server stores = (Inr
      \<lparr> sent_events = card (dom A - dom B) - card (dom (exchanged A B) - dom (exchanged B A)),
        received_events = card (dom B - dom A) - card (dom (exchanged B A) - dom (exchanged A B)),
        stats_more_available = (distance A B > MAX_SYNC_EVENTS_PER_BATCH) \<rparr>, stores')
    \<and> replicas lib hold_mine hold_theirs client server cid (exchanged A B) (exchanged B A) stores'"
proof -
  have fin: "finite (dom A)" "finite (dom B)" using replicas_finite [OF R] by simp_all
  from round_exchanges [OF R] obtain stores' where s: "sync_round lib mine theirs client server stores = (Inr
      \<lparr> sent_events = length (offered B A), received_events = length (offered A B),
        stats_more_available = (card (dom A - dom B) > MAX_SYNC_EVENTS_PER_BATCH \<or> card (dom B - dom A) > MAX_SYNC_EVENTS_PER_BATCH) \<rparr>, stores')"
    "hold_mine (cl_membership client) cid (exchanged A B) (fst stores')"
    "hold_theirs (sv_membership server) cid (exchanged B A) (snd stores')" unfolding exchanged_def by blast
  have "length (offered B A) = card (dom A - dom B) - card (dom (exchanged A B) - dom (exchanged B A))"
    "length (offered A B) = card (dom B - dom A) - card (dom (exchanged B A) - dom (exchanged A B))"
    using fin by (simp_all add: offered_facts(5) exchanged_difference)
  then show ?thesis using s(1) replicas_exchanged [OF R s(2,3)] unfolding distance_more by simp
qed

lemma rounds_run:
  assumes "replicas lib hold_mine hold_theirs client server cid A B stores" and "r + n = Suc max_rounds" and "n > 0" and "max_rounds \<le> MAX_SYNC_ROUNDS"
  shows "\<exists>A' B' stores' k. k = min n (rounds_needed (distance A B)) \<and> closer k A B A' B' \<and> replicas lib hold_mine hold_theirs client server cid A' B' stores'
    \<and> sync_rounds lib mine theirs client server max_rounds [r..<Suc MAX_SYNC_ROUNDS] ts tr stores =
        (Inr ((if rounds_needed (distance A B) \<le> n then Synchronized else Paused) (r + k - 1)
           (ts + (card (dom A - dom B) - card (dom A' - dom B'))) (tr + (card (dom B - dom A) - card (dom B' - dom A')))), stores')"
  using assms
proof (induction n arbitrary: A B stores r ts tr)
  case (Suc n)
  note R = Suc.prems(1)
  let ?A = "exchanged A B" and ?B = "exchanged B A"
  have fin: "finite (dom A)" "finite (dom B)" using replicas_finite [OF R] by simp_all
  note cl = closer_exchanged [OF fin]
  have r: "[r..<Suc MAX_SYNC_ROUNDS] = r # [Suc r..<Suc MAX_SYNC_ROUNDS]" using Suc.prems(2,4) by (intro upt_conv_Cons) simp
  let ?sent = "card (dom A - dom B) - card (dom ?A - dom ?B)" and ?received = "card (dom B - dom A) - card (dom ?B - dom ?A)"
  from round_closer [OF R] obtain s1 where s1: "sync_round lib mine theirs client server stores = (Inr
      \<lparr> sent_events = ?sent, received_events = ?received, stats_more_available = (distance A B > MAX_SYNC_EVENTS_PER_BATCH) \<rparr>, s1)"
    and R1: "replicas lib hold_mine hold_theirs client server cid ?A ?B s1" by blast
  show ?case
  proof (cases "distance A B > MAX_SYNC_EVENTS_PER_BATCH \<and> n > 0")
    case False
    have pos: "rounds_needed (distance A B) \<ge> 1" "rounds_needed (distance A B - MAX_SYNC_EVENTS_PER_BATCH) \<ge> 1"
      by (simp_all add: rounds_needed_def)
    have k: "1 = min (Suc n) (rounds_needed (distance A B))"
      using False pos by (cases "distance A B > MAX_SYNC_EVENTS_PER_BATCH") (auto simp: rounds_needed_one)
    have "r = max_rounds" if "distance A B > MAX_SYNC_EVENTS_PER_BATCH" using False that Suc.prems(2) by simp
    moreover have "rounds_needed (distance A B) \<le> Suc n \<longleftrightarrow> \<not> distance A B > MAX_SYNC_EVENTS_PER_BATCH"
      using False pos rounds_needed_step [of "distance A B"] by (cases "distance A B > MAX_SYNC_EVENTS_PER_BATCH") (auto simp: rounds_needed_one)
    ultimately have "sync_rounds lib mine theirs client server max_rounds [r..<Suc MAX_SYNC_ROUNDS] ts tr stores =
        (Inr ((if rounds_needed (distance A B) \<le> Suc n then Synchronized else Paused) (r + 1 - 1) (ts + ?sent) (tr + ?received)), s1)"
      unfolding r using s1 by (simp add: then_do_def pure_def)
    then show ?thesis using k cl R1 by blast
  next
    case True
    then have d: "rounds_needed (distance A B) = Suc (rounds_needed (distance ?A ?B))"
      by (simp add: rounds_needed_step distance_exchanged fin)
    from Suc.IH [OF R1, of "Suc r" "ts + ?sent" "tr + ?received"] Suc.prems(2,4) True
    obtain A' B' s2 k where k: "k = min n (rounds_needed (distance ?A ?B))" "closer k ?A ?B A' B'" "replicas lib hold_mine hold_theirs client server cid A' B' s2"
      "sync_rounds lib mine theirs client server max_rounds [Suc r..<Suc MAX_SYNC_ROUNDS] (ts + ?sent) (tr + ?received) s1 =
        (Inr ((if rounds_needed (distance ?A ?B) \<le> n then Synchronized else Paused) (Suc r + k - 1)
           (ts + ?sent + (card (dom ?A - dom ?B) - card (dom A' - dom B'))) (tr + ?received + (card (dom ?B - dom ?A) - card (dom B' - dom A')))), s2)"
      by auto
    have "Suc k = min (Suc n) (rounds_needed (distance A B))" using k(1) d by simp
    moreover have "closer (Suc k) A B A' B'" using closer_trans [OF cl k(2)] by simp
    moreover have "?sent + (card (dom ?A - dom ?B) - card (dom A' - dom B')) = card (dom A - dom B) - card (dom A' - dom B')"
      "?received + (card (dom ?B - dom ?A) - card (dom B' - dom A')) = card (dom B - dom A) - card (dom B' - dom A')"
      using cl k(2) by (simp_all add: closer_def)
    moreover have "r \<noteq> max_rounds" using True Suc.prems(2) by simp
    moreover from calculation have "sync_rounds lib mine theirs client server max_rounds [r..<Suc MAX_SYNC_ROUNDS] ts tr stores =
        (Inr ((if rounds_needed (distance A B) \<le> Suc n then Synchronized else Paused) (r + Suc k - 1)
           (ts + (card (dom A - dom B) - card (dom A' - dom B'))) (tr + (card (dom B - dom A) - card (dom B' - dom A')))), s2)"
      unfolding r using k(4) s1 True d by (simp add: then_do_def pure_def add.assoc)
    ultimately show ?thesis using k(3) by blast
  qed
qed simp

end

end
