(* ===== verification/Sync_Convergence.thy ===== *)
theory Sync_Convergence
  imports Sync_Rounds
begin

text \<open>
  The event store as the store of a session: it satisfies the contract \<open>session_replica\<close>, so two event
  stores form a \<open>session_pair\<close>.
\<close>

section \<open>The event store satisfies the contract\<close>

definition store_documented :: "'a sync_libs_scheme \<Rightarrow> bool" where
  "store_documented lib \<longleftrightarrow> session_documented lib \<and> events_documented lib \<and> (\<forall>a. pc_authorized lib a \<noteq> None)"

text \<open>The store holds exactly the authorised events \<open>A\<close> of the conversation, all of them by members.\<close>

definition replica
  :: "'a sync_libs_scheme \<Rightarrow> ConversationMembershipSnapshot \<Rightarrow> bytes \<Rightarrow> (bytes \<rightharpoonup> AuthorizedEvent) \<Rightarrow> event_store \<Rightarrow> bool" where
  "replica lib m cid A st \<longleftrightarrow> store_documented lib \<and> member_events lib m cid A \<and> conversation_holds lib cid (events_of A) A st"

lemma replicaD:
  assumes "replica lib m cid A st"
  shows "events_documented lib" "member_events lib m cid A" "conversation_holds lib cid (events_of A) A st" "store_documented lib"
  using assms by (simp_all add: replica_def store_documented_def)

lemma holds_id: "holds_at lib cid F E A st \<Longrightarrow> A i = Some a \<Longrightarrow> event_id lib (ae_event a) = Inr i"
  using holds_event_ok [of lib cid F E A st i "ae_event a"] holds_authorized [of lib cid F E A st i a] by (simp add: event_ok_def)

lemma replica_conversation:
  assumes "replica lib m cid A st"
  shows "conversation lib m cid A"
proof -
  note r = replicaD [OF assms]
  have "positions_distinct (events_of A)" using r(3) by (simp add: holds_at_def conversation_ok_def)
  then show ?thesis using r(2) holds_id [OF r(3)] unfolding conversation_def member_events_def by blast
qed

lemma replica_loads:
  "replica lib m cid A st \<Longrightarrow> load_authorized_conversation lib cid m st = Inr (map (authorized_stored A) (in_text_order (dom A)))"
  by (rule load_authorized_holds) (auto dest: replicaD)

lemma replica_finite: "replica lib m cid A st \<Longrightarrow> finite (dom A)"
  using holds_finite [OF replicaD(3), of lib m cid A st] by simp

lemma replica_available:
  assumes "finite (dom A)" and "i \<in> dom A"
  shows "map_of (rev (map (\<lambda>s. (sa_id s, sa_event s)) (map (authorized_stored A) (in_text_order (dom A))))) i = Some (the (A i))"
proof -
  let ?xs = "map (\<lambda>i. (i, the (A i))) (in_text_order (dom A))"
  have "distinct (map fst (rev ?xs))" by (simp add: o_def rev_map)
  then have "map_of (rev ?xs) i = Some (the (A i))" using assms by (subst map_of_eq_Some_iff) auto
  then show ?thesis by (simp add: o_def)
qed

lemma replica_by_id:
  assumes r: "replica lib m cid A st" and ids: "set ids \<subseteq> dom A"
  shows "authorized_events_by_id lib cid ids m st = Inr (map (the \<circ> A) ids)"
proof -
  have "i \<in> set ids \<Longrightarrow> i \<in> dom A" for i using ids by blast
  then have "list_all2 (\<lambda>i a. ok_or (RequestedEventMissing cid i) (map_of (rev (map (\<lambda>s. (sa_id s, sa_event s))
      (map (authorized_stored A) (in_text_order (dom A))))) i) = Inr a) ids (map (the \<circ> A) ids)"
    unfolding list_all2_map2 using replica_available [OF replica_finite [OF r]] by (intro list.rel_refl_strong) simp
  then show ?thesis unfolding authorized_events_by_id_def replica_loads [OF r] and_then_simps Let_def try_map_all2 .
qed

text \<open>A write of events of \<open>G\<close> leaves exactly the events held and the events written.\<close>

lemma written_exactly:
  assumes H: "holds_at lib cid F E' A' st'" and G: "\<And>i a. G i = Some a \<Longrightarrow> event_id lib (ae_event a) = Inr i"
    and ids: "set ids \<subseteq> dom G" and le: "A' \<subseteq>\<^sub>m G" "A \<subseteq>\<^sub>m A'"
    and new: "extended ((the \<circ> G) ` set ids) A A'" "authorized_in lib ((the \<circ> G) ` set ids) A'"
    and ev: "extended (ae_event ` (the \<circ> G) ` set ids) (events_of A) E'"
  shows "A' = A ++ (G |` set ids)" "E' = events_of A'"
proof -
  have in_ids: "A' i = G i" if "i \<in> set ids" for i
  proof -
    have "i \<in> dom G" using ids that by blast
    then obtain a where a: "G i = Some a" by blast
    then have "\<exists>j. event_id lib (ae_event a) = Inr j \<and> A' j = Some a" using new(2) that unfolding authorized_in_def by force
    then show ?thesis using G [OF a] a by auto
  qed
  have out: "A' i = A i" if "i \<notin> set ids" for i
  proof (cases "A' i")
    case None
    then show ?thesis using le(2) map_le_some [of A A' i] by (cases "A i") auto
  next
    case (Some a)
    have "A i = Some a"
    proof (rule ccontr)
      assume "A i \<noteq> Some a"
      then obtain j where j: "j \<in> set ids" "a = the (G j)" using new(1) Some unfolding extended_def by auto
      then have "G j = Some a" using ids by auto
      then have "j = i" using G [of j a] holds_id [OF H Some] by simp
      with j that show False by simp
    qed
    with Some show ?thesis by simp
  qed
  show "A' = A ++ (G |` set ids)"
  proof
    fix i show "A' i = (A ++ (G |` set ids)) i"
      using in_ids [of i] out [of i] ids by (cases "i \<in> set ids") (auto simp: map_add_def restrict_map_def split: option.splits)
  qed
  show "E' = events_of A'"
  proof
    fix i show "E' i = events_of A' i"
    proof (cases "A' i")
      case (Some a)
      then show ?thesis using holds_authorized [OF H Some] by simp
    next
      case None
      have False if e: "E' i = Some e" for e
      proof -
        have "events_of A i \<noteq> Some e" using None le(2) map_le_some [of A A' i] by (cases "A i") auto
        then have "e \<in> ae_event ` (the \<circ> G) ` set ids" using ev e unfolding extended_def by blast
        then obtain j where j: "j \<in> set ids" "e = ae_event (the (G j))" by auto
        then have "event_id lib e = Inr j" using G [of j "the (G j)"] ids by auto
        moreover have "event_id lib e = Inr i" using holds_event_ok [OF H e] by (simp add: event_ok_def)
        ultimately have "A' i = G i" "i \<in> dom G" using in_ids [of i] j(1) ids by auto
        then show False using None by auto
      qed
      then show ?thesis using None by (cases "E' i") auto
    qed
  qed
qed

lemma replica_put:
  assumes r: "replica lib m cid A st" and G: "conversation lib m cid G" and le: "A \<subseteq>\<^sub>m G" and ids: "set ids \<subseteq> dom G"
  shows "\<exists>st'. put_authorized_batch lib m (map (the \<circ> G) ids) st = (Inr (), st') \<and> replica lib m cid (A ++ (G |` set ids)) st'"
proof -
  let ?es = "map (the \<circ> G) ids"
  note r' = replicaD [OF r]
  have m: "membership_verify lib m = Inr ()" "membership_conversation_id m = cid" using G by (simp_all add: conversation_def)
  have Gid: "event_id lib (ae_event a) = Inr i" if "G i = Some a" for i a using conversationD [OF G that] by simp
  obtain x st' where p: "put_authorized_batch lib m ?es st = (x, st')" by fastforce
  have in_G: "authorized_in lib (set ?es) G" unfolding authorized_in_def using conversation_the [OF G] ids by force
  have "agreeing lib m (events_of A) A (set ?es) G"
    unfolding agreeing_def
  proof (intro conjI le in_G ballI)
    show "events_of A \<subseteq>\<^sub>m events_of G" using le by (auto simp: map_le_def)
    show "positions_distinct (events_of G)" using G by (simp add: conversation_def)
    fix a assume "a \<in> set ?es"
    then obtain i where "i \<in> set ids" "a = the (G i)" by auto
    then show "verify_for_membership lib m a = Inr ()" using conversation_the [OF G, of i] ids by blast
    show "pc_authorized lib a \<noteq> None" using r'(4) by (simp add: store_documented_def)
  qed
  with put_authorized_batch_wrote [OF r'(1,3) m(2), of ?es] p obtain E' A' where
    w: "holds_at lib cid (t_get st) E' A' st'" "extended (ae_event ` set ?es) (events_of A) E'" "extended (set ?es) A A'"
      "authorized_in lib (set ?es) A'" "is_ok x" "A' \<subseteq>\<^sub>m G"
    by (auto elim!: wrote_authorizedE)
  have leA: "A \<subseteq>\<^sub>m A'" using w(3) by (simp add: extended_def)
  have eq: "A' = A ++ (G |` set ids)" "E' = events_of A'"
    by (rule written_exactly [OF w(1) Gid ids w(6) leA]; (use w in simp))+
  have "member_events lib m cid A'"
    unfolding member_events_def using m map_le_some [OF w(6)] conversationD(2) [OF G] by blast
  then have "replica lib m cid A' st'" using w(1) eq(2) r'(4) holds_frame [OF w(1)] by (simp add: replica_def)
  then show ?thesis using p w(5) eq(1) by (auto simp: is_ok_iff)
qed

interpretation evs: session_replica lib "event_session_store lib" "replica lib"
  for lib :: "'a sync_libs_scheme"
proof
  fix m cid A st G ids
  assume r: "replica lib m cid A st"
  show "session_documented lib" using replicaD(4) [OF r] by (simp add: store_documented_def)
  show "conversation lib m cid A" using r by (rule replica_conversation)
  show "finite (dom A)" using r by (rule replica_finite)
  show "ss_inventory (event_session_store lib) cid m st = Inr (in_text_order (dom A))"
    by (simp add: event_session_store_def authorized_inventory_def replica_loads [OF r] o_def)
  show "ss_events_by_id (event_session_store lib) cid ids m st = Inr (map (the \<circ> A) ids)" if "set ids \<subseteq> dom A"
    using replica_by_id [OF r that] by (simp add: event_session_store_def)
  show "\<exists>st'. ss_put_events (event_session_store lib) (map (the \<circ> G) ids) m st = (Inr (), st') \<and> replica lib m cid (A ++ (G |` set ids)) st'"
    if "conversation lib m cid G" "A \<subseteq>\<^sub>m G" "set ids \<subseteq> dom G"
    using replica_put [OF r that] by (simp add: event_session_store_def)
qed

interpretation evp: session_pair lib "event_session_store lib" "replica lib" "event_session_store lib" "replica lib"
  for lib :: "'a sync_libs_scheme" ..

end
