(* ===== verification/Sync_Sample.thy ===== *)
theory Sync_Sample
  imports Sync_Convergence Root_Run
begin

text \<open>
  An instance of the libraries of events and sessions, with which the properties of the event store and of
  synchronisation are exercised: postcard is the total serialisation of \<open>Framing\<close>, the hash is the identity.
  Two acknowledgements of one Device are stored in two event stores.
\<close>

section \<open>Libraries\<close>

definition ratchet_identity_content_bytes :: "RatchetIdentityContent \<Rightarrow> bytes" where
  "ratchet_identity_content_bytes c = pack [field_of_word (ric_version c), ric_device_id c, ric_curve25519_key c, ric_ed25519_key c]"

fun ratchet_identity_content_of :: "bytes list \<Rightarrow> RatchetIdentityContent option" where
  "ratchet_identity_content_of [v, d, c, e] = Some \<lparr> ric_version = word_of_field v, ric_device_id = d, ric_curve25519_key = c, ric_ed25519_key = e \<rparr>"
| "ratchet_identity_content_of _ = None"

definition ratchet_identity_bytes :: "SignedRatchetIdentity \<Rightarrow> bytes" where
  "ratchet_identity_bytes x = signed_bytes ratchet_identity_content_bytes (ri_content x) (ri_signature x)"

definition ratchet_identity_from :: "bytes \<Rightarrow> SignedRatchetIdentity option" where
  "ratchet_identity_from = signed_of (unpack_struct ratchet_identity_content_of) (\<lambda>c s. \<lparr> ri_content = c, ri_signature = s \<rparr>)"

definition recipient_bytes :: "RatchetRecipient \<Rightarrow> bytes" where
  "recipient_bytes r = pack [rr_device_id r, field_of_word (rc_version (rr_ciphertext r)), field_of_word (rc_message_type (rr_ciphertext r)),
     rc_ciphertext (rr_ciphertext r)]"

fun recipient_of :: "bytes list \<Rightarrow> RatchetRecipient option" where
  "recipient_of [d, v, t, c] = Some \<lparr> rr_device_id = d, rr_ciphertext = \<lparr> rc_version = word_of_field v, rc_message_type = word_of_field t, rc_ciphertext = c \<rparr> \<rparr>"
| "recipient_of _ = None"

definition payload_bytes :: "EventPayload \<Rightarrow> bytes" where
  "payload_bytes p = (case p of
     RatchetText l i rs \<Rightarrow> pack [device_list_bytes l, ratchet_identity_bytes i, pack_list recipient_bytes rs]
   | Acknowledgement e \<Rightarrow> pack [e])"

fun payload_of :: "bytes list \<Rightarrow> EventPayload option" where
  "payload_of [l, i, rs] = Option.bind (device_list_from l) (\<lambda>l. Option.bind (ratchet_identity_from i) (\<lambda>i.
     map_option (RatchetText l i) (unpack_list (unpack_struct recipient_of) rs)))"
| "payload_of [e] = Some (Acknowledgement e)"
| "payload_of _ = None"

definition event_content_bytes :: "EventContent \<Rightarrow> bytes" where
  "event_content_bytes c = pack [field_of_word (ec_version c), ec_conversation_id c, ec_author_device_id c, field_of_word (ec_author_sequence c),
     pack (ec_parents c), payload_bytes (ec_payload c)]"

fun event_content_of :: "bytes list \<Rightarrow> EventContent option" where
  "event_content_of [v, c, d, n, ps, p] = Option.bind (unpack [] ps) (\<lambda>ps. map_option (\<lambda>p. \<lparr> ec_version = word_of_field v, ec_conversation_id = c,
     ec_author_device_id = d, ec_author_sequence = word_of_field n, ec_parents = ps, ec_payload = p \<rparr>) (unpack_struct payload_of p))"
| "event_content_of _ = None"

definition event_bytes :: "SignedEvent \<Rightarrow> bytes" where
  "event_bytes e = signed_bytes event_content_bytes (se_content e) (se_signature e)"

definition event_from :: "bytes \<Rightarrow> SignedEvent option" where
  "event_from = signed_of (unpack_struct event_content_of) (\<lambda>c s. \<lparr> se_content = c, se_signature = s \<rparr>)"

definition authorized_bytes :: "AuthorizedEvent \<Rightarrow> bytes" where
  "authorized_bytes a = pack [event_bytes (ae_event a), certificate_bytes (ae_certificate a), snapshot_bytes (ae_snapshot a)]"

fun authorized_of :: "bytes list \<Rightarrow> AuthorizedEvent option" where
  "authorized_of [e, c, s] = Option.bind (event_from e) (\<lambda>e. Option.bind (certificate_of c) (\<lambda>c.
     map_option (\<lambda>s. \<lparr> ae_event = e, ae_certificate = c, ae_snapshot = s \<rparr>) (snapshot_from s)))"
| "authorized_of _ = None"

definition inventory_content_bytes :: "SyncInventoryContent \<Rightarrow> bytes" where
  "inventory_content_bytes c = pack [field_of_word (sic_version c), sic_conversation_id c, sic_requester_device_id c, sic_session_binding c,
     pack (sic_event_ids c)]"

definition diff_content_bytes :: "SyncDiffContent \<Rightarrow> bytes" where
  "diff_content_bytes c = pack [field_of_word (sdc_version c), sdc_conversation_id c, sdc_responder_device_id c, sdc_session_binding c,
     pack (sdc_requested_event_ids c), pack_list authorized_bytes (sdc_events c), if sdc_more_available c then [1] else [0]]"

definition session_authorization_bytes :: "DeviceSessionAuthorizationContent \<Rightarrow> bytes" where
  "session_authorization_bytes c = pack [field_of_word (dsa_version c), dsa_session_binding c, certificate_bytes (dsa_certificate c),
     snapshot_bytes (dsa_authority_snapshot c)]"

lemma event_decodes [simp]:
  "event_from (event_bytes e) = Some e" "unpack_struct authorized_of (authorized_bytes a) = Some a"
proof -
  have i: "ratchet_identity_from (ratchet_identity_bytes i) = Some i" for i
    by (simp add: ratchet_identity_from_def ratchet_identity_bytes_def ratchet_identity_content_bytes_def)
  have r: "unpack_struct recipient_of (recipient_bytes r) = Some r" for r by (simp add: recipient_bytes_def)
  have p: "unpack_struct payload_of (payload_bytes p) = Some p" for p
    by (cases p) (simp_all add: payload_bytes_def i unpack_list r)
  show e: "event_from (event_bytes e) = Some e" for e
    by (simp add: event_from_def event_bytes_def event_content_bytes_def p)
  show "unpack_struct authorized_of (authorized_bytes a) = Some a" by (simp add: authorized_bytes_def e)
qed

definition sample_sync :: sync_libs where
  "sample_sync = sample_identity_libs_with (event_libs_ext (\<lambda>m. m) (\<lambda>t c. True) (Some \<circ> ratchet_identity_content_bytes)
     (Some \<circ> event_content_bytes) (Some \<circ> event_bytes) event_from (Some \<circ> authorized_bytes) (unpack_struct authorized_of) (\<lambda>keys. keys)
     (sync_libs_ext (Some \<circ> session_authorization_bytes) (Some \<circ> inventory_content_bytes) (Some \<circ> diff_content_bytes) ()))"

lemma sample_sync_simps [simp]:
  "ev_blake3 sample_sync m = m" "pc_event_content sample_sync = Some \<circ> event_content_bytes" "pc_event sample_sync = Some \<circ> event_bytes"
  "pc_event_from sample_sync = event_from" "pc_authorized sample_sync = Some \<circ> authorized_bytes"
  "pc_authorized_from sample_sync = unpack_struct authorized_of" "hash_map_order sample_sync keys = keys"
  "pc_inventory_content sample_sync = Some \<circ> inventory_content_bytes" "pc_diff_content sample_sync = Some \<circ> diff_content_bytes"
  "id_verifying_key sample_sync = sample_key"
  by (simp_all add: sample_sync_def sample_identity_libs_with_def)

lemma sample_sync_signatures: "root_signatures_documented sample_sync"
  by (simp add: root_signatures_documented_def sample_sync_def sample_identity_libs_with_def)

lemma sample_store_documented: "store_documented sample_sync"
  using sample_sync_signatures
  by (simp add: store_documented_def session_documented_def events_documented_def inverts_def)

lemma sample_sync_total: "root_postcard_total sample_sync"
  by (simp add: root_postcard_total_def total_def sample_sync_def sample_identity_libs_with_def)

section \<open>A conversation\<close>

text \<open>The account of the Root key \<open>[7]\<close>, its Device with the key \<open>[5]\<close>, and the conversation \<open>[3]\<close> of its own.\<close>

abbreviation sample_device :: bytes where
  "sample_device \<equiv> sample_key [5]"

definition sample_certificate :: DeviceCertificate where
  "sample_certificate = projr (certificate_issue sample_sync [7] sample_device [9] 0 MESSAGING)"

definition sample_snapshot :: AccountAuthoritySnapshot where
  "sample_snapshot = projr (snapshot_issue sample_sync [7] 2 [])"

definition sample_membership :: ConversationMembershipSnapshot where
  "sample_membership = projr (membership_issue sample_sync [7] [3] 1 [root_account_id sample_sync [7]])"

definition sample_session_signed :: "u64 \<Rightarrow> SignedEvent" where
  "sample_session_signed n = projr (sign_acknowledgement sample_sync [5] [3] n [] [8])"

definition sample_event :: "u64 \<Rightarrow> AuthorizedEvent" where
  "sample_event n = \<lparr> ae_event = sample_session_signed n, ae_certificate = sample_certificate, ae_snapshot = sample_snapshot \<rparr>"

definition sample_event_id :: "u64 \<Rightarrow> bytes" where
  "sample_event_id n = EVENT_ID_DOMAIN @ event_bytes (sample_session_signed n)"

lemma sample_objects:
  shows sample_certificate: "certificate_verify sample_sync sample_certificate = Inr ()"
      "certificate_account_id sample_certificate = root_account_id sample_sync [7]"
      "certificate_device_id sample_certificate = sample_device" "certificate_sequence sample_certificate = 0"
      "set (dcc_capabilities (dc_content sample_certificate)) = set MESSAGING"
    and sample_snapshot: "snapshot_verify sample_sync sample_snapshot = Inr ()"
      "snapshot_account_id sample_snapshot = root_account_id sample_sync [7]" "snapshot_revision sample_snapshot = 2"
      "snapshot_revocations sample_snapshot = []"
    and sample_membership: "membership_verify sample_sync sample_membership = Inr ()" "membership_conversation_id sample_membership = [3]"
      "membership_members sample_membership = [root_account_id sample_sync [7]]"
proof -
  have valid: "identity_validate_certificate_content \<lparr> dcc_version = DEVICE_CERTIFICATE_VERSION, dcc_account_id = a, dcc_device_id = d,
      dcc_encryption_public_key = k, dcc_authority_sequence = n, dcc_capabilities = sort MESSAGING \<rparr> = Inr ()" for a d k n
    unfolding certificate_content_valid by (simp, code_simp)
  have "\<exists>c. certificate_issue sample_sync [7] sample_device [9] 0 MESSAGING = Inr c"
    using root_totals(1) [OF sample_sync_total] messaging_valid by (simp add: certificate_issue_def Let_def result_simps valid)
  then have c: "certificate_issue sample_sync [7] sample_device [9] 0 MESSAGING = Inr sample_certificate"
    by (auto simp: sample_certificate_def)
  have "\<exists>s. snapshot_issue sample_sync [7] 2 [] = Inr s"
    using root_totals(3) [OF sample_sync_total] by (simp add: snapshot_issue_def Let_def result_simps snapshot_content_valid)
  then have s: "snapshot_issue sample_sync [7] 2 [] = Inr sample_snapshot" by (auto simp: sample_snapshot_def)
  have "\<exists>m. membership_issue sample_sync [7] [3] 1 [root_account_id sample_sync [7]] = Inr m"
    by (simp add: membership_issue_def Let_def result_simps membership_content_valid conversation_membership_signing_bytes_def
        sample_sync_def sample_identity_libs_with_def)
  then have m: "membership_issue sample_sync [7] [3] 1 [root_account_id sample_sync [7]] = Inr sample_membership"
    by (auto simp: sample_membership_def)
  note v = certificate_issue_verifies [OF sample_sync_signatures c] snapshot_issue_verifies [OF sample_sync_signatures s]
    membership_issue_verifies [OF sample_sync_signatures m]
  from v(1) show "certificate_verify sample_sync sample_certificate = Inr ()"
      "certificate_account_id sample_certificate = root_account_id sample_sync [7]"
      "certificate_device_id sample_certificate = sample_device" "certificate_sequence sample_certificate = 0"
      "set (dcc_capabilities (dc_content sample_certificate)) = set MESSAGING" by simp_all
  from v(2) show "snapshot_verify sample_sync sample_snapshot = Inr ()"
      "snapshot_account_id sample_snapshot = root_account_id sample_sync [7]" "snapshot_revision sample_snapshot = 2"
      "snapshot_revocations sample_snapshot = []" by simp_all
  from v(3) show "membership_verify sample_sync sample_membership = Inr ()" "membership_conversation_id sample_membership = [3]"
      "membership_members sample_membership = [root_account_id sample_sync [7]]" by simp_all
qed

lemma sample_session_signed:
  "event_verify sample_sync (sample_session_signed n) = Inr ()" "event_conversation_id (sample_session_signed n) = [3]"
  "event_author_device_id (sample_session_signed n) = sample_device" "event_author_sequence (sample_session_signed n) = n"
  "event_id sample_sync (sample_session_signed n) = Inr (sample_event_id n)"
proof -
  let ?c = "\<lparr> ec_version = EVENT_VERSION, ec_conversation_id = [3], ec_author_device_id = device_id_of sample_sync [5],
    ec_author_sequence = n, ec_parents = [], ec_payload = Acknowledgement [8] \<rparr>"
  let ?m = "EVENT_SIGNATURE_DOMAIN @ event_content_bytes ?c"
  have c: "validate_event_content sample_sync ?c = Inr ()" by (simp add: validate_event_content_def)
  have m: "event_signing_bytes sample_sync ?c = Inr ?m" by (simp add: event_signing_bytes_def)
  have e: "sample_session_signed n = \<lparr> se_content = ?c, se_signature = id_sign sample_sync [5] ?m \<rparr>"
    by (simp add: sample_session_signed_def sign_acknowledgement_def event_sign_def c m)
  have sig: "signed_by (id_ed sample_sync) (device_id_of sample_sync [5]) ?m (id_sign sample_sync [5] ?m)"
    using sample_store_documented device_signed by (auto simp: store_documented_def)
  show "event_verify sample_sync (sample_session_signed n) = Inr ()"
    by (rule evt.verify_issued [where m = ?m]) (use c m sig in \<open>simp_all add: e\<close>)
  show "event_conversation_id (sample_session_signed n) = [3]" "event_author_device_id (sample_session_signed n) = sample_device"
    "event_author_sequence (sample_session_signed n) = n" by (simp_all add: e device_id_of_def)
  show "event_id sample_sync (sample_session_signed n) = Inr (sample_event_id n)" by (simp add: event_id_def event_encode_def sample_event_id_def)
qed

lemma sample_event: "ae_event (sample_event n) = sample_session_signed n" "verify_for_membership sample_sync sample_membership (sample_event n) = Inr ()"
proof -
  show e: "ae_event (sample_event n) = sample_session_signed n" by (simp add: sample_event_def)
  have caps: "CapSignEvents \<in> set MESSAGING" by code_simp
  have "verify_author sample_sync (sample_event n) = Inr ()"
    using caps by (simp add: verify_author_def sample_session_signed sample_objects sample_event_def result_simps authorization_iff)
  then show "verify_for_membership sample_sync sample_membership (sample_event n) = Inr ()"
    by (simp add: verify_for_membership_def e sample_session_signed sample_objects require_member_def) (simp add: sample_event_def sample_objects)
qed

lemma sample_event_id_eq [simp]: "sample_event_id a = sample_event_id b \<longleftrightarrow> a = b"
proof
  assume "sample_event_id a = sample_event_id b"
  then have "event_bytes (sample_session_signed a) = event_bytes (sample_session_signed b)" by (simp add: sample_event_id_def)
  then have "sample_session_signed a = sample_session_signed b" by (metis event_decodes(1) option.inject)
  then show "a = b" by (metis sample_session_signed(4))
qed simp

section \<open>Stores\<close>

definition sample_holding :: "u64 list \<Rightarrow> (bytes \<rightharpoonup> AuthorizedEvent)" where
  "sample_holding ns = map_of (map (\<lambda>n. (sample_event_id n, sample_event n)) ns)"

lemma sample_holding_simps:
  "sample_holding ns (sample_event_id n) = (if n \<in> set ns then Some (sample_event n) else None)"
  unfolding sample_holding_def by (induction ns) auto

lemma dom_sample_holding [simp]: "dom (sample_holding ns) = sample_event_id ` set ns"
  by (simp add: sample_holding_def dom_map_of_conv_image_fst image_image)

lemma sample_holding_Some: "sample_holding ns i = Some a \<longleftrightarrow> (\<exists>n \<in> set ns. i = sample_event_id n \<and> a = sample_event n)" (is "?l \<longleftrightarrow> ?r")
proof
  assume l: ?l
  then have "i \<in> sample_event_id ` set ns" unfolding dom_sample_holding [symmetric] by blast
  then obtain n where "n \<in> set ns" "i = sample_event_id n" by blast
  with l show ?r by (auto simp: sample_holding_simps)
next
  assume ?r
  then show ?l by (auto simp: sample_holding_simps)
qed

lemma sample_holding_add: "sample_holding ms ++ sample_holding ns = sample_holding (ns @ ms)"
  by (simp add: sample_holding_def)

lemma sample_conversation: "conversation sample_sync sample_membership [3] (sample_holding ns)"
proof -
  have "positions_distinct (events_of (sample_holding ns))"
    unfolding positions_distinct_def events_of_simps
    by (auto simp: sample_holding_Some sample_event writer_position_def sample_session_signed)
  then show ?thesis by (auto simp: conversation_def sample_objects sample_holding_Some sample_event sample_session_signed)
qed

definition sample_store :: "u64 \<Rightarrow> event_store" where
  "sample_store n = snd (put_authorized_batch sample_sync sample_membership [sample_event n] event_store_open)"

lemma sample_replica_empty: "replica sample_sync sample_membership [3] Map.empty event_store_open"
  using sample_store_documented
  by (simp add: replica_def member_events_def sample_objects holds_at_def event_store_open_def t_valid_def t_get_def directory_holds_def
      conversation_ok_def positions_distinct_def events_of_def)

lemma sample_replica: "replica sample_sync sample_membership [3] (sample_holding [n]) (sample_store n)"
proof -
  have "\<exists>st'. put_authorized_batch sample_sync sample_membership (map (the \<circ> sample_holding [n]) [sample_event_id n]) event_store_open = (Inr (), st')
      \<and> replica sample_sync sample_membership [3] (Map.empty ++ (sample_holding [n] |` set [sample_event_id n])) st'"
    by (rule replica_put [OF sample_replica_empty sample_conversation]) (simp_all add: sample_holding_simps)
  moreover have "sample_holding [n] |` {sample_event_id n} = sample_holding [n]"
    by (rule ext) (auto simp: restrict_map_def sample_holding_def)
  ultimately show ?thesis by (auto simp: sample_store_def sample_holding_simps)
qed

section \<open>A session\<close>

definition sample_client :: SyncClient where
  "sample_client = \<lparr> cl_identity = [5], cl_conversation_id = [3], cl_membership = sample_membership, cl_session_binding = [4],
     cl_expected_responder = sample_key [6] \<rparr>"

definition sample_server :: SyncServer where
  "sample_server = \<lparr> sv_identity = [6], sv_session_binding = [4], sv_allowed_requester = sample_device, sv_membership = sample_membership \<rparr>"

lemma sample_paired: "paired sample_sync [3] sample_client sample_server"
  by (simp add: paired_def sample_client_def sample_server_def device_id_of_def)

lemma sample_memberships [simp]: "cl_membership sample_client = sample_membership" "sv_membership sample_server = sample_membership"
  by (simp_all add: sample_client_def sample_server_def)

lemma sample_differences:
  "card (dom (sample_holding [0]) - dom (sample_holding [1])) = 1" "card (dom (sample_holding [1]) - dom (sample_holding [0])) = 1"
  "card (dom (sample_holding [0]) \<union> dom (sample_holding [1])) = 2"
  by (simp_all add: insert_Diff_if)

lemma sample_replicas: "replicas sample_sync (replica sample_sync) (replica sample_sync) sample_client sample_server [3] (sample_holding [0]) (sample_holding [1]) (sample_store 0, sample_store 1)"
  using sample_paired sample_replica [of 0] sample_replica [of 1] sample_conversation [of "[0, 1]"] sample_conversation [of "[1, 0]"]
    sample_differences(3)
  by (simp add: replicas_def sample_holding_add MAX_INVENTORY_EVENT_IDS_def)

end
