(* ===== verification/Sync_Properties.thy ===== *)
theory Sync_Properties
  imports Sync_Sample
begin

text \<open>
  The properties of the event store and of the synchronisation session: the store is append-only with one
  event per writer position, a put follows its specification on every branch, a session admits nothing but
  events of members from the expected peer, and two stores converge within the bound of rounds.
\<close>

section \<open>Runs of the event store\<close>

inductive event_store_step :: "'a event_libs_scheme \<Rightarrow> event_store \<Rightarrow> event_store \<Rightarrow> bool" for lib where
  step_put: "event_store_step lib st (snd (event_put lib e st))"
| step_put_authorized: "event_store_step lib st (snd (put_authorized lib m a st))"
| step_put_batch: "event_store_step lib st (snd (put_batch lib es st))"
| step_put_authorized_batch: "event_store_step lib st (snd (put_authorized_batch lib m as st))"

abbreviation event_store_steps :: "'a event_libs_scheme \<Rightarrow> event_store \<Rightarrow> event_store \<Rightarrow> bool" where
  "event_store_steps lib \<equiv> (event_store_step lib)\<^sup>*\<^sup>*"

lemma step_grew:
  assumes doc: "events_documented lib" and ok: "store_ok lib st" and step: "event_store_step lib st st'"
  shows "grew lib st st'"
proof -
  have g: "grew lib st (snd (m st))" if "grows lib m" for m :: "'r event_store_op" using that ok by (simp add: grows_def)
  show ?thesis
    using step by cases (simp_all add: g event_put_grows [OF doc] put_authorized_grows [OF doc] put_batch_grows [OF doc]
        put_authorized_batch_grows [OF doc])
qed

lemma steps_grew:
  assumes doc: "events_documented lib" and run: "event_store_steps lib st st'" and ok: "store_ok lib st"
  shows "grew lib st st' \<and> store_ok lib st'"
  using run
proof (induction rule: rtranclp_induct)
  case base
  show ?case using ok by simp
next
  case (step y z)
  then show ?case using step_grew [OF doc] grew_trans grew_ok by blast
qed

lemma loaded_sorted:
  assumes "finite S"
  shows "sorted_wrt (<) (map (\<lambda>s. write_hex (st_id s)) (map (stored E) (in_text_order S)))"
  using text_sorted_strict [OF in_text_order_sorted, of S] by (simp add: o_def)

text \<open>C8. The event store is append-only and one event fills a writer position, through any sequence of writes,
  failed ones included. In every store reachable from an empty one a conversation loads; the list is ordered by
  the text of the ids, every event verifies under its id and belongs to the conversation, and no two events have
  the same author and sequence. Whatever operations follow, every event stays, and every event file and
  authorisation file keeps its bytes. Assumed of postcard and of hash maps: decoding inverts encoding, and the
  iteration order of a map is a permutation of its keys.\<close>
theorem event_store_append_only:
  assumes doc: "events_documented lib" and reach: "event_store_steps lib event_store_open st" and run: "event_store_steps lib st st'"
  shows "\<exists>es es'. load_conversation lib cid st = Inr es \<and> load_conversation lib cid st' = Inr es' \<and> set es \<subseteq> set es'
    \<and> sorted_wrt (<) (map (\<lambda>s. write_hex (st_id s)) es') \<and> distinct (map (\<lambda>s. writer_position (st_event s)) es')
    \<and> (\<forall>s \<in> set es'. event_verify lib (st_event s) = Inr () \<and> event_id lib (st_event s) = Inr (st_id s)
         \<and> event_conversation_id (st_event s) = cid)
    \<and> (\<forall>i b. event_at cid i st = Some b \<longrightarrow> event_at cid i st' = Some b)
    \<and> (\<forall>i b. authorization_at cid i st = Some b \<longrightarrow> authorization_at cid i st' = Some b)"
proof -
  have ok: "store_ok lib st" using steps_grew [OF doc reach store_ok_open] by simp
  then obtain E A where H: "conversation_holds lib cid E A st" unfolding store_ok_def by blast
  from steps_grew [OF doc run ok] H obtain E' A' where H': "conversation_holds lib cid E' A' st'" "E \<subseteq>\<^sub>m E'" "A \<subseteq>\<^sub>m A'"
    unfolding grew_def by blast
  have fin: "finite (dom E)" "finite (dom E')" using holds_finite [OF H] holds_finite [OF H'(1)] by simp_all
  let ?l = "\<lambda>E. map (stored E) (in_text_order (dom E))"
  have sub: "set (?l E) \<subseteq> set (?l E')"
    using map_le_some [OF H'(2)] loaded_set [OF fin(1)] loaded_set [OF fin(2)] by blast
  have "check_writer_positions cid {} (?l E') = Inr ()"
    using H'(1) fin(2) unfolding check_writer_positions_Inr holds_at_def conversation_ok_def positions_distinct_def
    by (auto simp: distinct_map inj_on_def o_def)
  then have pos: "distinct (map (\<lambda>s. writer_position (st_event s)) (?l E'))" by (simp add: check_writer_positions_Inr)
  have each: "\<forall>s \<in> set (?l E'). event_verify lib (st_event s) = Inr () \<and> event_id lib (st_event s) = Inr (st_id s)
      \<and> event_conversation_id (st_event s) = cid"
    using holds_event_ok [OF H'(1)] loaded_set [OF fin(2)] unfolding event_ok_def by blast
  have "\<forall>i b. event_at cid i st = Some b \<longrightarrow> event_at cid i st' = Some b"
    "\<forall>i b. authorization_at cid i st = Some b \<longrightarrow> authorization_at cid i st' = Some b"
    using map_le_some [OF H'(2)] map_le_some [OF H'(3)]
    by (auto simp: holds_event_at [OF H] holds_event_at [OF H'(1)] holds_authorization_at [OF H] holds_authorization_at [OF H'(1)]
        bind_eq_Some_conv)
  then show ?thesis
    using load_conversation_holds [OF doc H] load_conversation_holds [OF doc H'(1)] sub loaded_sorted [OF fin(2)] pos each by blast
qed

theorem event_store_append_only_witness:
  "\<exists>es'. load_conversation sample_sync [3] (snd (event_put sample_sync (sample_session_signed 1) (sample_store 0))) = Inr es'
     \<and> \<lparr> st_id = sample_event_id 0, st_event = sample_session_signed 0 \<rparr> \<in> set es' \<and> distinct (map (\<lambda>s. writer_position (st_event s)) es')"
proof -
  have doc: "events_documented sample_sync" using sample_store_documented by (simp add: store_documented_def)
  have 1: "event_store_steps sample_sync event_store_open (sample_store 0)"
    unfolding sample_store_def by (rule r_into_rtranclp) (rule step_put_authorized_batch)
  have 2: "event_store_steps sample_sync (sample_store 0) (snd (event_put sample_sync (sample_session_signed 1) (sample_store 0)))"
    by (rule r_into_rtranclp) (rule step_put)
  have "load_conversation sample_sync [3] (sample_store 0) = Inr [\<lparr> st_id = sample_event_id 0, st_event = sample_session_signed 0 \<rparr>]"
    using load_conversation_holds [OF doc replicaD(3) [OF sample_replica, of 0]]
    by (simp add: in_text_order_def stored_def sample_holding_simps sample_event)
  with event_store_append_only [OF doc 1 2, of "[3]"] show ?thesis by auto
qed

section \<open>A put on every branch\<close>

text \<open>C20. Putting an event acts on the events of its conversation exactly as specified, on every branch: an event
  that fails verification or encoding changes nothing; an id that is taken answers already present for the same
  event and a conflict for another, a taken author position is refused with the id of the event that has it, and
  otherwise the event is added; other conversations and the authorisations never change. Assumed of postcard:
  decoding inverts encoding.\<close>
theorem event_put_refines_spec:
  assumes doc: "events_documented lib" and H: "conversation_holds lib (event_conversation_id e) E A st" and p: "event_put lib e st = (r, st')"
  shows "(\<exists>x. event_verify lib e = Inl x \<and> r = Inl (StoreProtocol x) \<and> st' = st)
    \<or> (\<exists>x. event_verify lib e = Inr () \<and> event_id lib e = Inl x \<and> r = Inl (StoreProtocol x) \<and> st' = st)
    \<or> (\<exists>i E'. event_verify lib e = Inr () \<and> event_id lib e = Inr i \<and> event_put_spec E i e r E'
         \<and> holds_at lib (event_conversation_id e) (t_get st) E' A st')"
proof (cases "event_verify lib e")
  case (Inl x)
  then show ?thesis using p by (auto simp: event_put_def then_do_def pure_def)
next
  case (Inr u)
  then have v: "event_verify lib e = Inr ()" by simp
  show ?thesis
  proof (cases "event_id lib e")
    case (Inl x)
    then show ?thesis using p v by (auto simp: event_put_def then_do_def pure_def)
  next
    case (Inr i)
    from event_put_acts [OF doc H v Inr p] show ?thesis using v Inr by blast
  qed
qed

theorem event_put_refines_spec_witness:
  "\<exists>r st' E'. event_put sample_sync (sample_session_signed 1) (sample_store 0) = (r, st') \<and> r = Inr EventInserted
     \<and> holds_at sample_sync [3] (t_get (sample_store 0)) E' (sample_holding [0]) st' \<and> E' (sample_event_id 1) = Some (sample_session_signed 1)"
proof -
  have doc: "events_documented sample_sync" using sample_store_documented by (simp add: store_documented_def)
  let ?E = "events_of (sample_holding [0])"
  have H: "conversation_holds sample_sync (event_conversation_id (sample_session_signed 1)) ?E (sample_holding [0]) (sample_store 0)"
    using replicaD(3) [OF sample_replica, of 0] by (simp add: sample_session_signed)
  obtain r st' where p: "event_put sample_sync (sample_session_signed 1) (sample_store 0) = (r, st')" by fastforce
  from event_put_refines_spec [OF doc H p] obtain E' where
    E': "event_put_spec ?E (sample_event_id 1) (sample_session_signed 1) r E'" "holds_at sample_sync [3] (t_get (sample_store 0)) E' (sample_holding [0]) st'"
    by (auto simp: sample_session_signed)
  have "?E (sample_event_id 1) = None" by (simp add: sample_holding_simps)
  moreover have "\<not> (\<exists>j f. ?E j = Some f \<and> writer_position f = writer_position (sample_session_signed 1))"
    by (auto simp: sample_holding_Some sample_event writer_position_def sample_session_signed)
  ultimately have "E' = ?E(sample_event_id 1 \<mapsto> sample_session_signed 1)" "r = Inr EventInserted" using E'(1) unfolding event_put_spec_def by simp_all
  then show ?thesis using p E'(2) by auto
qed

section \<open>What a session admits\<close>

text \<open>Between \<open>st\<close> and \<open>st'\<close> every conversation keeps what it holds and gains nothing but events with \<open>P\<close>.\<close>

definition admits :: "'a event_libs_scheme \<Rightarrow> (AuthorizedEvent \<Rightarrow> bool) \<Rightarrow> event_store \<Rightarrow> event_store \<Rightarrow> bool" where
  "admits lib P st st' \<longleftrightarrow> (\<forall>c E A. conversation_holds lib c E A st \<longrightarrow>
     (\<exists>E' A'. conversation_holds lib c E' A' st' \<and> extended (ae_event ` {a. P a}) E E' \<and> extended {a. P a} A A'))"

lemma admits_refl: "admits lib P st st"
  unfolding admits_def by (meson extended_refl)

lemma admits_mono: "admits lib P st st' \<Longrightarrow> (\<And>a. P a \<Longrightarrow> Q a) \<Longrightarrow> admits lib Q st st'"
  unfolding admits_def by (blast intro: extended_mono)

lemma batch_admits:
  assumes doc: "events_documented lib" and ok: "store_ok lib st"
  shows "admits lib (\<lambda>a. a \<in> set as \<and> verify_for_membership lib m a = Inr ()) st (snd (put_authorized_batch lib m as st))"
proof (cases "for_each (verify_for_membership lib m) as")
  case (Inl x)
  then have "snd (put_authorized_batch lib m as st) = st"
    by (simp add: put_authorized_batch_def put_authorized_batch_with_receipt_def then_do_def pure_def)
  then show ?thesis by (simp add: admits_refl)
next
  case (Inr u)
  then have all: "{a. a \<in> set as \<and> verify_for_membership lib m a = Inr ()} = set as" by (auto simp: for_each_Inr)
  let ?c = "membership_conversation_id m"
  obtain r st' where p: "put_authorized_batch lib m as st = (r, st')" by fastforce
  from ok obtain E0 A0 where H0: "conversation_holds lib ?c E0 A0 st" unfolding store_ok_def by blast
  have "wrote_authorized lib m ?c (t_get st) E0 A0 (set as) (r, st')"
    using put_authorized_batch_wrote [OF doc H0 refl, of as] p by simp
  then obtain E1 A1 where w: "holds_at lib ?c (t_get st) E1 A1 st'" "extended (ae_event ` set as) E0 E1" "extended (set as) A0 A1"
    by (rule wrote_authorizedE)
  show ?thesis unfolding admits_def all p snd_conv
  proof (intro allI impI)
    fix c E A assume H: "conversation_holds lib c E A st"
    show "\<exists>E' A'. conversation_holds lib c E' A' st' \<and> extended (ae_event ` set as) E E' \<and> extended (set as) A A'"
    proof (cases "c = ?c")
      case True
      then have "E = E0 \<and> A = A0" using holds_unique [OF doc H0, of "t_get st" E A] H by simp
      then show ?thesis using True w holds_frame [OF w(1)] by blast
    next
      case False
      then have "conversation_holds lib c E A st'" using H w(1) by (simp add: holds_at_def)
      then show ?thesis by (meson extended_refl)
    qed
  qed
qed

lemma accept_diff_writes:
  assumes "accept_diff lib (event_session_store lib) client round diff st = (r, st')"
  shows "st' = st \<or> (diff_verify_for_session lib diff (cl_session_binding client) (cl_expected_responder client) = Inr ()
    \<and> sdc_conversation_id (sd_content diff) = cl_conversation_id client
    \<and> st' = snd (put_authorized_batch lib (cl_membership client) (sdc_events (sd_content diff)) st))"
  using assms unfolding accept_diff_def Let_def event_session_store_def
  by (auto simp: then_do_def pure_def map_err_Inr split: prod.splits sum.splits if_splits option.splits)

lemma complete_round_writes:
  assumes "complete_round lib (event_session_store lib) server round batch st = (r, st')"
  shows "st' = st \<or> (\<exists>ids. session_event_ids lib (sb_events batch) = Inr ids \<and> same_event_ids ids (sir_requested_event_ids round)
    \<and> st' = snd (put_authorized_batch lib (sv_membership server) (sb_events batch) st))"
  using assms unfolding complete_round_def event_session_store_def
  by (auto simp: then_do_def pure_def map_err_Inr split: prod.splits sum.splits if_splits)

lemma session_event_ids_mem:
  "session_event_ids lib es = Inr ids \<Longrightarrow> a \<in> set es \<Longrightarrow> \<exists>i \<in> set ids. event_id lib (ae_event a) = Inr i"
  unfolding session_event_ids_def by (induction es arbitrary: ids) (auto simp: result_simps)

lemma diff_verified_signed:
  "diff_verify_for_session lib diff session responder = Inr () \<Longrightarrow>
    \<exists>msg. sync_diff_signing_bytes lib (sd_content diff) = Inr msg \<and> signed_by (id_ed lib) responder msg (sd_signature diff)
      \<and> sdc_session_binding (sd_content diff) = session"
  by (auto simp: diff_verify_for_session_def result_simps sdif.verify_iff split: if_splits)

text \<open>C9. Whatever a peer sends, a synchronisation round lets nothing into the store but what the protocol allows,
  whether the round succeeds or fails. The requester keeps every event it holds, and each event it gains is one of
  the responder's difference, which the expected responder signed for this session and conversation, and its author
  is a certified Device of a member of the conversation. The responder keeps every event it holds, and each event
  it gains is by a member and has an id the responder asked for in this round. Assumed: decoding inverts encoding.\<close>
theorem session_admits_only_members:
  assumes doc: "events_documented lib" and ok: "store_ok lib mine" "store_ok lib theirs"
    and requester: "accept_diff lib (event_session_store lib) client inventory_round diff mine = (r, mine')"
    and responder: "complete_round lib (event_session_store lib) server round batch theirs = (q, theirs')"
  shows "admits lib (\<lambda>a. a \<in> set (sdc_events (sd_content diff)) \<and> verify_for_membership lib (cl_membership client) a = Inr ()
      \<and> sdc_conversation_id (sd_content diff) = cl_conversation_id client
      \<and> (\<exists>msg. sync_diff_signing_bytes lib (sd_content diff) = Inr msg
           \<and> signed_by (id_ed lib) (cl_expected_responder client) msg (sd_signature diff)
           \<and> sdc_session_binding (sd_content diff) = cl_session_binding client)) mine mine'
    \<and> admits lib (\<lambda>a. a \<in> set (sb_events batch) \<and> verify_for_membership lib (sv_membership server) a = Inr ()
      \<and> (\<exists>i \<in> set (sir_requested_event_ids round). event_id lib (ae_event a) = Inr i)) theirs theirs'"
    (is "admits lib ?P mine mine' \<and> admits lib ?Q theirs theirs'")
proof
  from accept_diff_writes [OF requester] consider "mine' = mine"
    | "diff_verify_for_session lib diff (cl_session_binding client) (cl_expected_responder client) = Inr ()"
      "sdc_conversation_id (sd_content diff) = cl_conversation_id client"
      "mine' = snd (put_authorized_batch lib (cl_membership client) (sdc_events (sd_content diff)) mine)" by blast
  then show "admits lib ?P mine mine'"
  proof cases
    case 2
    then show ?thesis unfolding 2(3) using diff_verified_signed [OF 2(1)] by (intro admits_mono [OF batch_admits [OF doc ok(1)]]) blast
  qed (simp add: admits_refl)
  from complete_round_writes [OF responder] consider "theirs' = theirs"
    | ids where "session_event_ids lib (sb_events batch) = Inr ids" "same_event_ids ids (sir_requested_event_ids round)"
      "theirs' = snd (put_authorized_batch lib (sv_membership server) (sb_events batch) theirs)" by blast
  then show "admits lib ?Q theirs theirs'"
  proof cases
    case 2
    then have "\<exists>i \<in> set (sir_requested_event_ids round). event_id lib (ae_event a) = Inr i" if "a \<in> set (sb_events batch)" for a
      using session_event_ids_mem [OF 2(1) that] by (simp add: same_event_ids_def)
    then show ?thesis unfolding 2(3) by (intro admits_mono [OF batch_admits [OF doc ok(2)]]) blast
  qed (simp add: admits_refl)
qed

lemma batch_reachable_ok:
  "events_documented lib \<Longrightarrow> store_ok lib (snd (put_authorized_batch lib m as event_store_open))"
  using put_authorized_batch_grows grew_ok store_ok_open unfolding grows_def by blast

lemma replica_other:
  "events_documented lib \<Longrightarrow> replica lib m cid A st \<Longrightarrow> replica lib m cid B st' \<Longrightarrow> dom A \<noteq> dom B \<Longrightarrow> st \<noteq> st'"
  using holds_unique [OF _ replicaD(3) replicaD(3), of lib m cid A st m B] by blast

lemma sync_round_messages:
  assumes "sync_round lib cs ss client server (x, y) = (Inr stats, (x', y'))"
  shows "\<exists>cr sr br co. accept_diff lib cs client cr (sir_diff sr) x = (Inr br, x') \<and> complete_round lib ss server sr (cbr_batch br) y = (Inr co, y')"
  using assms unfolding sync_round_def
  by (auto simp: map_err_Inr split: sum.splits prod.splits ServerInventoryOutcome.splits)

theorem session_admits_only_members_witness:
  "\<exists>(diff :: SyncDiff) (batch :: SyncEventBatch) (round :: ServerInventoryRound) mine' theirs'. mine' \<noteq> sample_store 0 \<and> theirs' \<noteq> sample_store 1
     \<and> admits sample_sync (\<lambda>a. a \<in> set (sdc_events (sd_content diff)) \<and> verify_for_membership sample_sync sample_membership a = Inr ()
         \<and> sdc_conversation_id (sd_content diff) = [3]
         \<and> (\<exists>msg. sync_diff_signing_bytes sample_sync (sd_content diff) = Inr msg \<and> signed_by (id_ed sample_sync) (sample_key [6]) msg (sd_signature diff)
              \<and> sdc_session_binding (sd_content diff) = [4])) (sample_store 0) mine'
     \<and> admits sample_sync (\<lambda>a. a \<in> set (sb_events batch) \<and> verify_for_membership sample_sync sample_membership a = Inr ()
         \<and> (\<exists>i \<in> set (sir_requested_event_ids round). event_id sample_sync (ae_event a) = Inr i)) (sample_store 1) theirs'"
proof -
  let ?A = "sample_holding [0]" and ?B = "sample_holding [1]"
  have doc: "events_documented sample_sync" using sample_store_documented by (simp add: store_documented_def)
  have ok: "store_ok sample_sync (sample_store n)" for n
    using batch_reachable_ok [OF doc] by (simp add: sample_store_def)
  have off: "offered ?A ?B = [sample_event_id 1]" "offered ?B ?A = [sample_event_id 0]"
    by (simp_all add: offered_def in_text_order_def MAX_SYNC_EVENTS_PER_BATCH_def insert_Diff_if)
  from evp.round_exchanges [OF sample_replicas] obtain mine' theirs' stats where
    s: "sync_round sample_sync (event_session_store sample_sync) (event_session_store sample_sync) sample_client sample_server
        (sample_store 0, sample_store 1) = (Inr stats, (mine', theirs'))"
      "replica sample_sync sample_membership [3] (?A ++ (?B |` {sample_event_id 1})) mine'"
      "replica sample_sync sample_membership [3] (?B ++ (?A |` {sample_event_id 0})) theirs'"
    by (auto simp: off)
  from sync_round_messages [OF s(1)] obtain cr sr br co where
    m: "accept_diff sample_sync (event_session_store sample_sync) sample_client cr (sir_diff sr) (sample_store 0) = (Inr br, mine')"
      "complete_round sample_sync (event_session_store sample_sync) sample_server sr (cbr_batch br) (sample_store 1) = (Inr co, theirs')" by blast
  have ne: "mine' \<noteq> sample_store 0" "theirs' \<noteq> sample_store 1"
    using replica_other [OF doc s(2) sample_replica, of 0] replica_other [OF doc s(3) sample_replica, of 1] by auto
  have "cl_conversation_id sample_client = [3]" "cl_expected_responder sample_client = sample_key [6]" "cl_session_binding sample_client = [4]"
    by (simp_all add: sample_client_def)
  note adm = session_admits_only_members [OF doc ok ok m, unfolded this sample_memberships]
  show ?thesis
    by (rule exI [of _ "sir_diff sr"], rule exI [of _ "cbr_batch br"], rule exI [of _ sr], rule exI [of _ mine'], rule exI [of _ theirs'])
       (intro conjI ne adm [THEN conjunct1] adm [THEN conjunct2])
qed

section \<open>Convergence\<close>

lemma rounds_within_limit:
  assumes "card (dom A \<union> dom B) \<le> MAX_INVENTORY_EVENT_IDS" and "finite (dom A)" "finite (dom B)"
  shows "rounds_needed (distance A B) \<le> MAX_SYNC_ROUNDS"
proof -
  have "card (dom A - dom B) \<le> card (dom A \<union> dom B)" "card (dom B - dom A) \<le> card (dom A \<union> dom B)"
    using assms(2,3) by (auto intro!: card_mono)
  then have "distance A B \<le> MAX_SYNC_ROUNDS * MAX_SYNC_EVENTS_PER_BATCH"
    using assms(1) by (simp add: distance_def MAX_INVENTORY_EVENT_IDS_def MAX_SYNC_ROUNDS_def MAX_SYNC_EVENTS_PER_BATCH_def)
  then have "rounds_needed (distance A B) \<le> rounds_needed (MAX_SYNC_ROUNDS * MAX_SYNC_EVENTS_PER_BATCH)" by (rule rounds_needed_mono)
  then show ?thesis by (simp add: rounds_needed_def MAX_SYNC_ROUNDS_def MAX_SYNC_EVENTS_PER_BATCH_def)
qed

text \<open>C4. A synchronisation session between two event stores terminates and converges. Let the requester hold the
  authorised events \<open>A\<close> and the responder \<open>B\<close> of a conversation, at most 4096 together, no two of them with the
  same author and sequence, all by members. The session needs one round per 64 events of the larger difference,
  which is never more than the 64 rounds of a connection. If the round limit asked for allows it, the session ends
  synchronised after exactly these rounds: both stores hold the union (each keeping its own authorisation of a
  shared event), and the announced totals are the sizes of the two differences. Otherwise it pauses after the
  limit, no round fails, and both differences have shrunk by 64 events per round. Assumed of the libraries:
  signatures verify under the signer's key, postcard encodes the messages and its decoder inverts it.\<close>
theorem sync_session_converges:
  assumes R: "replicas lib (replica lib) (replica lib) client server cid A B (mine, theirs)"
    and rounds: "1 \<le> max_rounds" "max_rounds \<le> MAX_SYNC_ROUNDS"
  shows "rounds_needed (distance A B) \<le> MAX_SYNC_ROUNDS
    \<and> (\<exists>mine' theirs' A' B'. replica lib (cl_membership client) cid A' mine' \<and> replica lib (sv_membership server) cid B' theirs'
      \<and> (if rounds_needed (distance A B) \<le> max_rounds
         then sync_session lib (event_session_store lib) (event_session_store lib) client server max_rounds (mine, theirs)
             = (Inr (Synchronized (rounds_needed (distance A B)) (card (dom A - dom B)) (card (dom B - dom A))), (mine', theirs'))
           \<and> A' = B ++ A \<and> B' = A ++ B
         else sync_session lib (event_session_store lib) (event_session_store lib) client server max_rounds (mine, theirs)
             = (Inr (Paused max_rounds (card (dom A - dom B) - card (dom A' - dom B')) (card (dom B - dom A) - card (dom B' - dom A'))), (mine', theirs'))
           \<and> closer max_rounds A B A' B'))"
proof -
  have fin: "finite (dom A)" "finite (dom B)" using evp.replicas_finite [OF R] by simp_all
  have "card (dom A \<union> dom B) \<le> MAX_INVENTORY_EVENT_IDS" using R by (simp add: replicas_def)
  note within = rounds_within_limit [OF this fin]
  let ?n = "rounds_needed (distance A B)" and ?run = "sync_session lib (event_session_store lib) (event_session_store lib) client server max_rounds (mine, theirs)"
  have pre: "1 + max_rounds = Suc max_rounds" "max_rounds > 0" using rounds(1) by simp_all
  from evp.rounds_run [OF R pre rounds(2), of 0 0] obtain A' B' stores' k where
    k: "k = min max_rounds ?n" "closer k A B A' B'" "replicas lib (replica lib) (replica lib) client server cid A' B' stores'"
    "sync_rounds lib (event_session_store lib) (event_session_store lib) client server max_rounds [1..<Suc MAX_SYNC_ROUNDS] 0 0 (mine, theirs) =
      (Inr ((if ?n \<le> max_rounds then Synchronized else Paused) (1 + k - 1) (0 + (card (dom A - dom B) - card (dom A' - dom B')))
        (0 + (card (dom B - dom A) - card (dom B' - dom A')))), stores')" by blast
  obtain mine' theirs' where s: "stores' = (mine', theirs')" by fastforce
  have run: "?run = (Inr ((if ?n \<le> max_rounds then Synchronized else Paused) k (card (dom A - dom B) - card (dom A' - dom B'))
      (card (dom B - dom A) - card (dom B' - dom A'))), (mine', theirs'))"
    using k(4) rounds s by (simp add: sync_session_def then_do_def pure_def)
  have h: "replica lib (cl_membership client) cid A' mine'" "replica lib (sv_membership server) cid B' theirs'"
    using k(3) s by (simp_all add: replicas_def)
  have fin': "finite (dom A')" "finite (dom B')" using evp.replicas_finite [OF k(3)] by simp_all
  show ?thesis
  proof (cases "?n \<le> max_rounds")
    case True
    then have kn: "k = ?n" using k(1) by simp
    have d: "distance A B \<le> k * MAX_SYNC_EVENTS_PER_BATCH" unfolding kn by (rule rounds_needed_bound)
    note eq = closer_synchronized [OF k(2) d fin']
    have "card (dom A' - dom B') = 0" "card (dom B' - dom A') = 0" using k(2) d by (simp_all add: closer_def distance_def)
    then have "?run = (Inr (Synchronized ?n (card (dom A - dom B)) (card (dom B - dom A))), (mine', theirs'))"
      using run kn True by simp
    then show ?thesis using within h eq True by (intro conjI exI [of _ mine'] exI [of _ theirs'] exI [of _ A'] exI [of _ B']) simp_all
  next
    case False
    then have "k = max_rounds" using k(1) by simp
    then show ?thesis using within h run False k(2)
      by (intro conjI exI [of _ mine'] exI [of _ theirs'] exI [of _ A'] exI [of _ B']) simp_all
  qed
qed

theorem sync_session_converges_witness:
  "\<exists>mine' theirs'. sync_session sample_sync (event_session_store sample_sync) (event_session_store sample_sync) sample_client sample_server 3
       (sample_store 0, sample_store 1) = (Inr (Synchronized 1 1 1), (mine', theirs'))
     \<and> replica sample_sync sample_membership [3] (sample_holding [0, 1]) mine' \<and> replica sample_sync sample_membership [3] (sample_holding [1, 0]) theirs'"
proof -
  have d: "distance (sample_holding [0]) (sample_holding [1]) = 1" using sample_differences by (simp add: distance_def)
  have n: "rounds_needed 1 = 1" by (simp add: rounds_needed_one MAX_SYNC_EVENTS_PER_BATCH_def)
  have "(1 :: nat) \<le> 3" "3 \<le> MAX_SYNC_ROUNDS" by (simp_all add: MAX_SYNC_ROUNDS_def)
  from sync_session_converges [OF sample_replicas this] show ?thesis
    unfolding d n sample_differences sample_memberships sample_holding_add by auto
qed

end
