(* ===== verification/Spec2Isabelle.thy ===== *)
theory Spec2Isabelle
  imports Canonical_Account Store_Lifecycle Root_Properties Device_Trust_Properties Sync_Properties
begin

text \<open>
  Verification of the protocol core of the Kilogram messenger.

  \<^bold>\<open>The program.\<close> An Account is a root key that certifies Devices; Devices sign events of conversations, keep
  them in append-only stores, and exchange them in synchronisation sessions or through blind mailboxes of
  third parties. The parts modelled are the following; paths are under \<open>src/crates\<close> unless said otherwise.

  \<^item> Canonical wire format (\<open>kilogram-protocol/src/canonical_v1.rs\<close>, \<open>canonical_authority_v1.rs\<close>,
    \<open>canonical_account_v1.rs\<close>): deterministic CBOR encoders, the profile validator and the cursor decoders of
    acknowledgements, inventories, certificates, revocations, authority snapshots, session authorisations,
    device lists and memberships. \<open>Canonical_Wire\<close>, \<open>Cursor_Decoder\<close>, \<open>Canonical_Authority\<close>, \<open>Canonical_Account\<close>.
  \<^item> Accounts (\<open>kilogram-identity/src/account.rs\<close>, \<open>lib.rs\<close>): the signed objects (\<open>Identity_Data\<close>,
    \<open>Identity_Authority\<close>), the directory of the Account root and every operation that changes it
    (\<open>Account_Root\<close>), and the trust files and event sequence numbers of a Device (\<open>Device_Trust\<close>).
  \<^item> Blind mailboxes (\<open>kilogram-mailbox/src/lib.rs\<close>, \<open>store.rs\<close>): addresses, capabilities, envelopes, admission
    work and receipts (\<open>Mailbox\<close>), and the store of a mailbox provider (\<open>Mailbox_Store\<close>).
  \<^item> Device encryption (\<open>kilogram-crypto/src/lib.rs\<close>): \<open>Device_Crypto\<close>.
  \<^item> Events (\<open>kilogram-protocol/src/lib.rs\<close>, parts of \<open>kilogram-ratchet/src/lib.rs\<close>): \<open>Events\<close>.
  \<^item> The event store (\<open>EventStore\<close> of \<open>kilogram-store/src/lib.rs\<close>): \<open>Event_Store\<close>.
  \<^item> Synchronisation: the messages (\<open>kilogram-protocol/src/wire.rs\<close>) in \<open>Sync_Wire\<close>; the two sides of a round
    (\<open>kilogram-session/src/lib.rs\<close>) and the loop of rounds (\<open>src/apps/kilogram-cli/src/main.rs\<close>) in \<open>Sync_Session\<close>.

  \<^bold>\<open>How code corresponds to definitions.\<close> A struct is a record whose fields carry a prefix, an enum a datatype,
  \<open>Result\<close> a sum with the error on the left, \<open>?\<close> is \<open>and_then\<close>, and machine integers are words. An operation on
  files or tables is a function from the state to a result and the new state (\<open>op\<close> of \<open>Prelude\<close>, sequenced by
  \<open>then_do\<close>), so that a failed operation keeps what it has written. A directory of files and a table of the
  embedded database are key-sorted association lists (\<open>Ordered_Table\<close>). Third-party code is a field of a library
  record (\<open>identity_libs\<close>, \<open>event_libs\<close>, \<open>sync_libs\<close>, and those of the mailbox) or an argument: Ed25519, BLAKE3,
  HPKE, X25519, postcard, the Olm message parser, the iteration order of hash maps, random bytes and the clock.
  What is assumed of them (decoding inverts encoding, signatures verify under the signer's key, hash maps list
  their keys once) is a hypothesis of the theorem; \<open>Framing\<close>, \<open>Store_Sample\<close>, \<open>Root_Sample\<close> and \<open>Sync_Sample\<close>
  give concrete functions that satisfy it. Nowhere is a hash assumed to be injective.

  \<^bold>\<open>Interfaces.\<close> \<open>ordered_table\<close> (a table of the database), \<open>signed_object\<close> and \<open>signed_codec\<close> (objects that are
  checked, signed, encoded and decoded), \<open>canonical_head\<close>, \<open>root_stable\<close> (a predicate kept by every operation of the
  root), \<open>versioned_file\<close>, \<open>session_replica\<close> (what a session relies on of a store) and \<open>session_pair\<close> (two such
  stores). Each is interpreted on the definitions of the model in the theory that provides them.

  \<^bold>\<open>What the lemmas show.\<close>
  \<^item> Wire format: the validator accepts exactly the canonical encodings; decoders are the exact inverses of encoders;
    verification of each signed object is equivalent to its specification; signing preimages are injective and
    separate.
  \<^item> Accounts: an invariant of the root directory (\<open>Root_Invariant\<close>) is kept by every operation, and over runs
    (\<open>Root_History\<close>, \<open>Root_Recovery\<close>, \<open>Root_Run\<close>) revocation is final, published lists and filed memberships never
    roll back, an interrupted removal is repaired, recovery restores the root. On a Device, trust never rolls back and
    sequence numbers never repeat.
  \<^item> Mailboxes: the invariant of the store (\<open>Store_Invariant\<close>), capacity, refinement of put and cleanup, paging, the
    lifetime of items and tombstones (\<open>Store_Properties\<close>, \<open>Store_Lifecycle\<close>), and the contract of authorisations,
    envelopes and admission work (\<open>Mailbox_Contract\<close>).
  \<^item> Event store: \<open>Event_Store_Invariant\<close> relates the files of a conversation to a map from ids to events, and
    \<open>Event_Store_Batches\<close> shows every write to extend the maps, to fail without loss, and to succeed whenever a
    conversation exists that contains what is held and what is written.
  \<^item> Sessions: \<open>Sync_Rounds\<close> proves one round and the loop over any stores with the contract, \<open>Sync_Convergence\<close>
    proves the contract of the event store, and \<open>Sync_Properties\<close> states termination with convergence and what a
    session admits from an arbitrary peer.

  \<^bold>\<open>Bounds.\<close> No fuel is used: every recursive definition terminates by its structure or a measure. The loop of a
  session runs over the list of round numbers up to 64, as the code does; 64 rounds of 64 events cover the 4096 events
  an inventory may name, which the convergence theorem proves. Word widths are those of the code.

  \<^bold>\<open>Not modelled.\<close>
  \<^item> Failures of the file system and of the database other than a missing file, crashes between two file operations
    (except the ones the recovery code names), and the lock protocol beyond a lock that is held elsewhere.
  \<^item> Transport: encoding of requests and responses as frames, connections, timeouts, and the command-line front ends
    except the loop of rounds; the overlay store of the command line, which wraps the event store, and ordered leases.
  \<^item> Of the modelled crates: loading and migrating key files of the Account and the Device, local text projections,
    history rewrap messages, prekey pools and ratchet sessions (state held by the ratchet library), and the stores and
    session adapters of the second synchronisation protocol.
  \<^item> Crates that are input and output around third-party libraries: transport, inter-process communication, the
    encrypted vault, and the front ends of the platforms.
  \<^item> The crates of mailbox clients and provisioning, peer capabilities, re-enrollment, history recovery, rollout and
    ticket publication. They build on the parts above, and no modelled function calls them: a theorem about them
    would rest on the contracts proved here.
\<close>

end
